(* ===== verification/Prelude.thy ===== *)
theory Prelude
  imports Main "HOL-Library.Word"
begin

text \<open>
  What every component shares: Go's \<open>error\<close> values and \<open>int64\<close> arithmetic, database tables
  as lists of rows in id order with the statements the code runs on them, and the contract of a
  table whose rows only move forward in their life cycle.
\<close>

named_theorems tbl "what a statement leaves of a table"

section \<open>Errors\<close>

text \<open>
  A Go error is a message and, when it wraps one, the sentinel that \<open>errors.Is\<close> looks for.
\<close>

datatype sentinel =
    NoSentinel
  | ErrRecordNotFound
  | ErrHalted
  | ErrHaltedFailed
  | ErrNoNodeAvailable
  | ErrRateLimited
  | ErrBurnNotAllowed
  | ErrNoProvider
  | ErrNotFound
  | ErrDisabled
  | ErrMissingID
  | ErrBadSign
  | ErrCanceled
  | RuntimePanic

datatype go_error = Err (err_is: sentinel) (err_msg: string)

abbreviation errors_new :: "string \<Rightarrow> go_error" where
  "errors_new m \<equiv> Err NoSentinel m"

text \<open>\<open>fmt.Errorf("...%w", err)\<close> keeps the wrapped sentinel and prefixes the message.\<close>

definition wrap_err :: "string \<Rightarrow> go_error \<Rightarrow> go_error" where
  "wrap_err pre e = Err (err_is e) (pre @ err_msg e)"

lemma err_is_wrap [simp]: "err_is (wrap_err pre e) = err_is e"
  by (simp add: wrap_err_def)

type_synonym 'a result = "go_error + 'a"

section \<open>Signed 64-bit integers\<close>

text \<open>
  An \<open>int64\<close> is an \<^typ>\<open>int\<close> in \<open>[-2^63, 2^63)\<close>; every addition, subtraction and
  multiplication of the code is followed by \<open>i64\<close>, which wraps as Go's arithmetic does.
\<close>

definition i64 :: "int \<Rightarrow> int" where
  "i64 x = signed_take_bit 63 x"

definition in_i64 :: "int \<Rightarrow> bool" where
  "in_i64 x \<longleftrightarrow> - (2 ^ 63) \<le> x \<and> x < 2 ^ 63"

lemma i64_id: "in_i64 x \<Longrightarrow> i64 x = x"
  by (simp add: i64_def in_i64_def signed_take_bit_int_eq_self)

lemma in_i64_i64 [simp]: "in_i64 (i64 x)"
  using signed_take_bit_int_less_exp [of 63 x] signed_take_bit_int_greater_eq_minus_exp [of 63 x]
  by (simp add: i64_def in_i64_def)

text \<open>Go's integer division truncates towards zero.\<close>

definition go_div :: "int \<Rightarrow> int \<Rightarrow> int" where
  "go_div a b = sgn a * sgn b * (\<bar>a\<bar> div \<bar>b\<bar>)"

section \<open>Tables\<close>

text \<open>
  A table is the list of its rows, oldest first. \<open>update_where p f t\<close> is
  \<open>UPDATE t SET f WHERE p\<close>, \<open>affected p t\<close> the \<open>RowsAffected\<close> it reports: every
  guarded update of the code changes the status it is guarded on, so matched and changed rows agree.
\<close>

definition update_where :: "('r \<Rightarrow> bool) \<Rightarrow> ('r \<Rightarrow> 'r) \<Rightarrow> 'r list \<Rightarrow> 'r list" where
  "update_where p f t = map (\<lambda>r. if p r then f r else r) t"

definition affected :: "('r \<Rightarrow> bool) \<Rightarrow> 'r list \<Rightarrow> int" where
  "affected p t = int (length (filter p t))"

definition delete_where :: "('r \<Rightarrow> bool) \<Rightarrow> 'r list \<Rightarrow> 'r list" where
  "delete_where p t = filter (\<lambda>r. \<not> p r) t"

text \<open>\<open>Take\<close> of the first row that matches (rows are kept in id order).\<close>

definition take_first :: "('r \<Rightarrow> bool) \<Rightarrow> 'r list \<Rightarrow> 'r option" where
  "take_first p t = List.find p t"

definition take_last :: "('r \<Rightarrow> bool) \<Rightarrow> 'r list \<Rightarrow> 'r option" where
  "take_last p t = List.find p (rev t)"

text \<open>\<open>Find\<close> with \<open>LIMIT n\<close>; a negative limit is no limit, as in gorm.\<close>

definition select_limit :: "('r \<Rightarrow> bool) \<Rightarrow> int \<Rightarrow> 'r list \<Rightarrow> 'r list" where
  "select_limit p n t = (if n < 0 then filter p t else take (nat n) (filter p t))"

text \<open>The id an \<open>AUTO_INCREMENT\<close> primary key gives the next row.\<close>

definition fresh_id :: "int list \<Rightarrow> int" where
  "fresh_id ids = foldr max ids 0 + 1"

lemma fresh_id_gt: "i \<in> set ids \<Longrightarrow> i < fresh_id ids"
  by (induction ids) (auto simp: fresh_id_def)

lemma fresh_id_not_in: "fresh_id ids \<notin> set ids"
  using fresh_id_gt by blast

lemma fresh_id_pos: "0 < fresh_id ids"
proof -
  have "0 \<le> foldr max ids (0::int)"
    by (induction ids) auto
  then show ?thesis by (simp add: fresh_id_def)
qed

lemma set_update_where [tbl]:
  "set (update_where p f t) = (\<lambda>r. if p r then f r else r) ` set t"
  by (simp add: update_where_def)

lemma length_update_where [simp, tbl]: "length (update_where p f t) = length t"
  by (simp add: update_where_def)

lemma map_update_where:
  assumes "\<And>r. k (f r) = k r"
  shows "map k (update_where p f t) = map k t"
  using assms by (simp add: update_where_def)

lemma update_where_none [simp, tbl]: "\<not> (\<exists>r \<in> set t. p r) \<Longrightarrow> update_where p f t = t"
  by (induction t) (auto simp: update_where_def)

lemma affected_zero [tbl]: "affected p t = 0 \<longleftrightarrow> \<not> (\<exists>r \<in> set t. p r)"
  by (auto simp: affected_def filter_empty_conv)

lemma affected_nonneg [simp]: "0 \<le> affected p t"
  by (simp add: affected_def)

lemma affected_pos: "0 < affected p t \<longleftrightarrow> (\<exists>r \<in> set t. p r)"
  using affected_zero [of p t] affected_nonneg [of p t] by linarith

lemma take_first_Some [tbl]: "take_first p t = Some r \<Longrightarrow> r \<in> set t \<and> p r"
  by (auto simp: take_first_def find_Some_iff)

lemma take_first_None [tbl]: "take_first p t = None \<longleftrightarrow> (\<forall>r \<in> set t. \<not> p r)"
  by (auto simp: take_first_def find_None_iff)

lemma take_last_Some [tbl]: "take_last p t = Some r \<Longrightarrow> r \<in> set t \<and> p r"
  using take_first_Some [of p "rev t" r] by (simp add: take_last_def take_first_def)

lemma take_last_None [tbl]: "take_last p t = None \<longleftrightarrow> (\<forall>r \<in> set t. \<not> p r)"
  by (auto simp: take_last_def find_None_iff)

lemma select_limit_subset: "set (select_limit p n t) \<subseteq> {r \<in> set t. p r}"
  by (auto simp: select_limit_def dest: in_set_takeD)

lemma set_delete_where [tbl]: "set (delete_where p t) = {r \<in> set t. \<not> p r}"
  by (auto simp: delete_where_def)

section \<open>Rows that only move forward\<close>

text \<open>
  The contract the model's life cycles promise: a step keeps every row under its key, and either
  leaves its state or moves it forward in the order of the states. The client facts are proved
  once: along any run a row is never lost and never moves back, and a final state is kept.
\<close>

locale forward_table =
  fixes rows :: "'w \<Rightarrow> 'r list"
    and key :: "'r \<Rightarrow> 'k"
    and state_of :: "'r \<Rightarrow> 's::order"
    and step :: "'w \<Rightarrow> 'w \<Rightarrow> bool"
  assumes step_forward: "step w w' \<Longrightarrow> r \<in> set (rows w) \<Longrightarrow>
    \<exists>r' \<in> set (rows w'). key r' = key r \<and> state_of r \<le> state_of r'"
begin

lemma run_forward:
  assumes "step\<^sup>*\<^sup>* w w'" and "r \<in> set (rows w)"
  shows "\<exists>r' \<in> set (rows w'). key r' = key r \<and> state_of r \<le> state_of r'"
  using assms
proof (induction rule: rtranclp_induct)
  case base
  then show ?case by blast
next
  case (step y z)
  then obtain r' where r': "r' \<in> set (rows y)" "key r' = key r" "state_of r \<le> state_of r'"
    by blast
  from step_forward [OF step.hyps(2) r'(1)] obtain r'' where
    "r'' \<in> set (rows z)" "key r'' = key r'" "state_of r' \<le> state_of r''"
    by blast
  with r' show ?case by (metis order_trans)
qed

lemma final_kept:
  assumes "step\<^sup>*\<^sup>* w w'" and "r \<in> set (rows w)"
    and "\<And>s. state_of r \<le> s \<Longrightarrow> s = state_of r"
  shows "\<exists>r' \<in> set (rows w'). key r' = key r \<and> state_of r' = state_of r"
  using run_forward [OF assms(1,2)] assms(3) by blast

end

text \<open>A guarded update is a forward move of the rows it hits.\<close>

lemma update_where_forward:
  assumes "r \<in> set t" and "\<And>x. p x \<Longrightarrow> key (f x) = key x \<and> st x \<le> (st (f x) :: 's::order)"
  shows "\<exists>r' \<in> set (update_where p f t). key r' = key r \<and> st r \<le> st r'"
  using assms by (auto simp: set_update_where)

end
