(* ===== verification/Text.thy ===== *)
theory Text
  imports Prelude
begin

text \<open>
  The parts of Go's \<open>strings\<close>, \<open>strconv\<close>, \<open>encoding/hex\<close> and \<open>math/big\<close> the code uses.
  A Go string is its bytes: a \<^typ>\<open>string\<close> whose characters are the codes 0..255. Case mapping
  and blanks are the ASCII ones, which is all the hex strings, symbols and node codes contain.
\<close>

type_synonym byte = "8 word"
type_synonym bytes = "byte list"

section \<open>Positional notation\<close>

definition from_digits :: "nat \<Rightarrow> nat list \<Rightarrow> nat" where
  "from_digits b ds = foldl (\<lambda>a d. a * b + d) 0 ds"

function to_digits :: "nat \<Rightarrow> nat \<Rightarrow> nat list" where
  "to_digits b n = (if b \<le> 1 \<or> n = 0 then [] else to_digits b (n div b) @ [n mod b])"
  by pat_completeness auto
termination
  by (relation "measure snd") auto

declare to_digits.simps [simp del]

lemma from_digits_Nil [simp]: "from_digits b [] = 0"
  by (simp add: from_digits_def)

lemma from_digits_snoc [simp]: "from_digits b (ds @ [d]) = from_digits b ds * b + d"
  by (simp add: from_digits_def)

lemma to_digits_0 [simp]: "to_digits b 0 = []"
  by (subst to_digits.simps) simp

lemma to_digits_step: "1 < b \<Longrightarrow> 0 < n \<Longrightarrow> to_digits b n = to_digits b (n div b) @ [n mod b]"
  by (subst to_digits.simps) simp

lemma from_to_digits [simp]: "1 < b \<Longrightarrow> from_digits b (to_digits b n) = n"
proof (induction b n rule: to_digits.induct)
  case (1 b n)
  then show ?case by (cases "n = 0") (simp_all add: to_digits_step)
qed

lemma to_digits_less: "1 < b \<Longrightarrow> d \<in> set (to_digits b n) \<Longrightarrow> d < b"
proof (induction b n rule: to_digits.induct)
  case (1 b n)
  then show ?case by (cases "n = 0") (auto simp: to_digits_step)
qed

lemma to_digits_nonzero: "to_digits b n \<noteq> [] \<Longrightarrow> hd (to_digits b n) \<noteq> 0"
proof (induction b n rule: to_digits.induct)
  case (1 b n)
  then have b: "1 < b" "0 < n" by (subst (asm) to_digits.simps; simp split: if_splits)+
  show ?case
  proof (cases "to_digits b (n div b) = []")
    case True
    with b have "n div b = 0" by (metis from_digits_Nil from_to_digits)
    with b True show ?thesis by (simp add: to_digits_step div_eq_0_iff)
  next
    case False
    with 1 b show ?thesis by (simp add: to_digits_step)
  qed
qed

lemma to_digits_eq_Nil [simp]: "1 < b \<Longrightarrow> to_digits b n = [] \<longleftrightarrow> n = 0"
  by (metis from_digits_Nil from_to_digits to_digits_0)

text \<open>Reading and writing back drops the leading zeros, and only those.\<close>

lemma to_from_digits:
  assumes "1 < b" and "\<forall>d \<in> set ds. d < b"
  shows "to_digits b (from_digits b ds) = dropWhile (\<lambda>d. d = 0) ds"
  using assms(2)
proof (induction ds rule: rev_induct)
  case Nil
  then show ?case by simp
next
  case (snoc d ds)
  then have IH: "to_digits b (from_digits b ds) = dropWhile (\<lambda>d. d = 0) ds" and d: "d < b"
    by auto
  show ?case
  proof (cases "from_digits b ds * b + d = 0")
    case True
    with assms(1) have "from_digits b ds = 0" "d = 0" by auto
    with IH have "dropWhile (\<lambda>d. d = 0) ds = []" by simp
    then have "\<forall>x \<in> set ds. x = 0" by (simp add: dropWhile_eq_Nil_conv)
    with \<open>d = 0\<close> \<open>from_digits b ds = 0\<close> show ?thesis by (simp add: dropWhile_append)
  next
    case False
    with assms(1) d have "to_digits b (from_digits b (ds @ [d])) =
        to_digits b (from_digits b ds) @ [d]"
      by (simp add: to_digits_step)
    also have "\<dots> = dropWhile (\<lambda>d. d = 0) (ds @ [d])"
    proof (cases "\<forall>x \<in> set ds. x = 0")
      case True
      then have "dropWhile (\<lambda>d. d = 0) ds = []" by (simp add: dropWhile_eq_Nil_conv)
      with IH assms(1) have "from_digits b ds = 0" by simp
      with False True IH show ?thesis by (auto simp: dropWhile_append)
    next
      case neq: False
      then have "dropWhile (\<lambda>d. d = 0) (ds @ [d]) = dropWhile (\<lambda>d. d = 0) ds @ [d]"
        by (auto simp: dropWhile_append)
      with IH show ?thesis by simp
    qed
    finally show ?thesis .
  qed
qed

lemma from_digits_less: "1 < b \<Longrightarrow> \<forall>d \<in> set ds. d < b \<Longrightarrow> from_digits b ds < b ^ length ds"
proof (induction ds rule: rev_induct)
  case Nil
  then show ?case by simp
next
  case (snoc d ds)
  then have "from_digits b ds + 1 \<le> b ^ length ds" and "d < b" by auto
  then have "(from_digits b ds + 1) * b \<le> b ^ length ds * b" by (intro mult_le_mono1)
  with \<open>d < b\<close> show ?case by (simp add: algebra_simps)
qed

lemma length_to_digits_le: "1 < b \<Longrightarrow> n < b ^ k \<Longrightarrow> length (to_digits b n) \<le> k"
proof (induction k arbitrary: n)
  case 0
  then show ?case by simp
next
  case (Suc k)
  show ?case
  proof (cases "n = 0")
    case False
    from Suc.prems have "n div b < b ^ k" by (simp add: less_mult_imp_div_less mult.commute)
    with Suc False show ?thesis by (simp add: to_digits_step)
  qed simp
qed

lemma from_digits_leading_zeros [simp]: "from_digits b (replicate k 0 @ ds) = from_digits b ds"
proof -
  have "foldl (\<lambda>a d. a * b + d) 0 (replicate k (0::nat)) = 0"
    by (induction k) auto
  then show ?thesis by (simp add: from_digits_def)
qed

section \<open>Decimal numbers\<close>

definition digit_char :: "nat \<Rightarrow> char" where
  "digit_char d = char_of (48 + d)"

definition is_digit :: "char \<Rightarrow> bool" where
  "is_digit c \<longleftrightarrow> 48 \<le> (of_char c :: nat) \<and> (of_char c :: nat) \<le> 57"

definition digit_val :: "char \<Rightarrow> nat" where
  "digit_val c = of_char c - 48"

definition show_nat :: "nat \<Rightarrow> string" where
  "show_nat n = (if n = 0 then ''0'' else map digit_char (to_digits 10 n))"

text \<open>\<open>(*big.Int).String\<close>, and \<open>%d\<close> of an integer.\<close>

definition big_String :: "int \<Rightarrow> string" where
  "big_String i = (if i < 0 then CHR ''-'' # show_nat (nat (- i)) else show_nat (nat i))"

definition digits_value :: "string \<Rightarrow> nat option" where
  "digits_value s =
     (if s = [] \<or> \<not> list_all is_digit s then None else Some (from_digits 10 (map digit_val s)))"

text \<open>\<open>new(big.Int).SetString(s, 10)\<close>: an optional sign, then at least one digit.\<close>

definition SetString :: "string \<Rightarrow> int option" where
  "SetString s =
     (case s of
        [] \<Rightarrow> None
      | c # r \<Rightarrow>
          if c = CHR ''-'' then map_option (\<lambda>n. - int n) (digits_value r)
          else if c = CHR ''+'' then map_option int (digits_value r)
          else map_option int (digits_value s))"

text \<open>\<open>strconv.ParseInt(s, 10, 64)\<close> and \<open>strconv.Atoi\<close>: the same syntax within range.\<close>

definition ParseInt :: "string \<Rightarrow> int option" where
  "ParseInt s = (case SetString s of None \<Rightarrow> None | Some i \<Rightarrow> if in_i64 i then Some i else None)"

text \<open>\<open>strconv.ParseUint(s, 10, 32)\<close>: no sign.\<close>

definition ParseUint32 :: "string \<Rightarrow> nat option" where
  "ParseUint32 s =
     (case digits_value s of None \<Rightarrow> None | Some n \<Rightarrow> if n < 2 ^ 32 then Some n else None)"

lemma of_char_digit_char: "d < 10 \<Longrightarrow> (of_char (digit_char d) :: nat) = 48 + d"
  by (simp add: digit_char_def)

lemma digit_val_char [simp]: "d < 10 \<Longrightarrow> digit_val (digit_char d) = d"
  by (simp add: digit_val_def of_char_digit_char)

lemma is_digit_char [simp]: "d < 10 \<Longrightarrow> is_digit (digit_char d)"
  by (simp add: is_digit_def of_char_digit_char)

lemma digit_char_val: "is_digit c \<Longrightarrow> digit_char (digit_val c) = c"
  by (simp add: is_digit_def digit_char_def digit_val_def)

lemma digit_val_less: "is_digit c \<Longrightarrow> digit_val c < 10"
  unfolding is_digit_def digit_val_def by linarith

lemma show_nat_digits: "list_all is_digit (show_nat n)"
proof (cases "n = 0")
  case True
  then show ?thesis by (simp add: show_nat_def is_digit_def)
next
  case False
  then show ?thesis
    using to_digits_less [of 10 _ n] by (auto simp: show_nat_def list_all_iff)
qed

lemma show_nat_nonempty [simp]: "show_nat n \<noteq> []"
  by (simp add: show_nat_def)

lemma digits_value_show [simp]: "digits_value (show_nat n) = Some n"
proof (cases "n = 0")
  case True
  have "digits_value ''0'' = Some 0" by code_simp
  with True show ?thesis by (simp add: show_nat_def)
next
  case False
  have "map (digit_val \<circ> digit_char) (to_digits 10 n) = to_digits 10 n"
    by (rule map_idI) (use to_digits_less [of 10 _ n] in auto)
  then show ?thesis
    using False show_nat_digits [of n] by (simp add: digits_value_def show_nat_def)
qed

lemma not_digit_sign [simp]: "\<not> is_digit (CHR ''-'')" "\<not> is_digit (CHR ''+'')" "\<not> is_digit (CHR ''.'')"
  by (simp_all add: is_digit_def)

lemma SetString_show_nat [simp]: "SetString (show_nat n) = Some (int n)"
proof -
  obtain c r where cr: "show_nat n = c # r" by (meson neq_Nil_conv show_nat_nonempty)
  with show_nat_digits [of n] have "is_digit c" by simp
  then have "c \<noteq> CHR ''-''" "c \<noteq> CHR ''+''" by auto
  then have "SetString (show_nat n) = map_option int (digits_value (show_nat n))"
    by (simp add: SetString_def cr)
  then show ?thesis by simp
qed

text \<open>Printing an integer and reading it back is the identity.\<close>

lemma SetString_big_String [simp]: "SetString (big_String i) = Some i"
  by (simp add: big_String_def) (simp add: SetString_def)

lemma big_String_nonempty [simp]: "big_String i \<noteq> []"
  by (simp add: big_String_def)

lemma big_String_inject: "big_String i = big_String j \<longleftrightarrow> i = j"
  by (metis SetString_big_String option.inject)

section \<open>Strings\<close>

definition lower_char :: "char \<Rightarrow> char" where
  "lower_char c = (if 65 \<le> (of_char c :: nat) \<and> (of_char c :: nat) \<le> 90
     then char_of ((of_char c :: nat) + 32) else c)"

definition upper_char :: "char \<Rightarrow> char" where
  "upper_char c = (if 97 \<le> (of_char c :: nat) \<and> (of_char c :: nat) \<le> 122
     then char_of ((of_char c :: nat) - 32) else c)"

definition ToLower :: "string \<Rightarrow> string" where
  "ToLower s = map lower_char s"

definition ToUpper :: "string \<Rightarrow> string" where
  "ToUpper s = map upper_char s"

definition EqualFold :: "string \<Rightarrow> string \<Rightarrow> bool" where
  "EqualFold s t \<longleftrightarrow> ToLower s = ToLower t"

definition is_space :: "char \<Rightarrow> bool" where
  "is_space c \<longleftrightarrow> (of_char c :: nat) \<in> {9, 10, 11, 12, 13, 32}"

definition TrimSpace :: "string \<Rightarrow> string" where
  "TrimSpace s = rev (dropWhile is_space (rev (dropWhile is_space s)))"

definition TrimRight :: "(char \<Rightarrow> bool) \<Rightarrow> string \<Rightarrow> string" where
  "TrimRight p s = rev (dropWhile p (rev s))"

definition HasPrefix :: "string \<Rightarrow> string \<Rightarrow> bool" where
  "HasPrefix s p \<longleftrightarrow> take (length p) s = p"

definition HasSuffix :: "string \<Rightarrow> string \<Rightarrow> bool" where
  "HasSuffix s p \<longleftrightarrow> HasPrefix (rev s) (rev p)"

definition TrimPrefix :: "string \<Rightarrow> string \<Rightarrow> string" where
  "TrimPrefix s p = (if HasPrefix s p then drop (length p) s else s)"

text \<open>\<open>strings.Index\<close>: the position of the first occurrence.\<close>

fun str_index :: "string \<Rightarrow> string \<Rightarrow> nat option" where
  "str_index [] p = (if p = [] then Some 0 else None)"
| "str_index (c # s) p =
     (if HasPrefix (c # s) p then Some 0 else map_option Suc (str_index s p))"

definition Contains :: "string \<Rightarrow> string \<Rightarrow> bool" where
  "Contains s p \<longleftrightarrow> str_index s p \<noteq> None"

text \<open>\<open>strings.Split\<close> on a one-character separator; never the empty list.\<close>

fun split_on :: "char \<Rightarrow> string \<Rightarrow> string list" where
  "split_on c [] = [[]]"
| "split_on c (x # s) =
     (if x = c then [] # split_on c s
      else (case split_on c s of [] \<Rightarrow> [[x]] | w # ws \<Rightarrow> (x # w) # ws))"

text \<open>\<open>s[:n]\<close> as the packages' \<open>truncate\<close> helper uses it.\<close>

definition truncate_str :: "string \<Rightarrow> nat \<Rightarrow> string" where
  "truncate_str s n = (if length s \<le> n then s else take n s)"

lemma length_truncate_str: "length (truncate_str s n) \<le> n"
  by (simp add: truncate_str_def)

lemma lower_lower_char [simp]: "lower_char (lower_char c) = lower_char c"
  by (simp add: lower_char_def)

lemma ToLower_idem [simp]: "ToLower (ToLower s) = ToLower s"
  by (simp add: ToLower_def)

lemma EqualFold_refl [simp]: "EqualFold s s"
  by (simp add: EqualFold_def)

lemma EqualFold_sym: "EqualFold s t \<longleftrightarrow> EqualFold t s"
  by (auto simp: EqualFold_def)

lemma HasPrefix_append: "HasPrefix s p \<longleftrightarrow> (\<exists>r. s = p @ r)"
  by (metis HasPrefix_def append_eq_conv_conj)

lemma str_index_Some: "str_index s p = Some i \<Longrightarrow> \<exists>a r. s = a @ p @ r \<and> length a = i"
proof (induction s p arbitrary: i rule: str_index.induct)
  case (1 p)
  then show ?case by (auto split: if_splits)
next
  case (2 c s p)
  show ?case
  proof (cases "HasPrefix (c # s) p")
    case True
    with "2.prems" show ?thesis by (auto simp: HasPrefix_append)
  next
    case False
    with "2.prems" obtain j where "str_index s p = Some j" "i = Suc j" by auto
    with "2.IH" [OF False] obtain a r where "s = a @ p @ r" "length a = j" by blast
    with \<open>i = Suc j\<close> have "c # s = (c # a) @ p @ r \<and> length (c # a) = i" by simp
    then show ?thesis by blast
  qed
qed

lemma Contains_iff: "Contains s p \<longleftrightarrow> (\<exists>a r. s = a @ p @ r)"
proof
  assume "Contains s p"
  then show "\<exists>a r. s = a @ p @ r" using str_index_Some by (fastforce simp: Contains_def)
next
  assume "\<exists>a r. s = a @ p @ r"
  then obtain a r where "s = a @ p @ r" by blast
  then have "str_index s p \<noteq> None"
  proof (induction a arbitrary: s)
    case Nil
    then have "HasPrefix s p" by (simp add: HasPrefix_append)
    then show ?case by (cases s) (auto simp: HasPrefix_def)
  next
    case (Cons c a)
    then have "str_index (a @ p @ r) p \<noteq> None" by blast
    with Cons.prems show ?case by auto
  qed
  then show "Contains s p" by (simp add: Contains_def)
qed

lemma split_on_nonempty [simp]: "split_on c s \<noteq> []"
  by (induction s) (auto split: list.splits)

lemma split_on_single: "c \<notin> set s \<Longrightarrow> split_on c s = [s]"
  by (induction s) auto

lemma split_on_append: "c \<notin> set a \<Longrightarrow> split_on c (a @ c # s) = a # split_on c s"
  by (induction a) auto

section \<open>Hexadecimal\<close>

definition hex_char :: "nat \<Rightarrow> char" where
  "hex_char n = (if n < 10 then char_of (48 + n) else char_of (87 + n))"

definition hex_val :: "char \<Rightarrow> nat option" where
  "hex_val c =
     (let n = of_char c in
      if 48 \<le> n \<and> n \<le> 57 then Some (n - 48)
      else if 97 \<le> n \<and> n \<le> 102 then Some (n - 87)
      else if 65 \<le> n \<and> n \<le> 70 then Some (n - 55)
      else None)"

definition hex_EncodeToString :: "bytes \<Rightarrow> string" where
  "hex_EncodeToString bs = concat (map (\<lambda>b. [hex_char (unat b div 16), hex_char (unat b mod 16)]) bs)"

fun hex_DecodeString :: "string \<Rightarrow> bytes option" where
  "hex_DecodeString [] = Some []"
| "hex_DecodeString [_] = None"
| "hex_DecodeString (a # b # s) =
     (case (hex_val a, hex_val b) of
        (Some x, Some y) \<Rightarrow> map_option ((#) (of_nat (16 * x + y))) (hex_DecodeString s)
      | _ \<Rightarrow> None)"

lemma hex_val_char [simp]: "n < 16 \<Longrightarrow> hex_val (hex_char n) = Some n"
  by (auto simp: hex_val_def hex_char_def Let_def)

lemma unat_byte_less [simp]: "unat (b :: byte) < 256"
  using unsigned_less [of b] by simp

lemma hex_EncodeToString_Nil [simp]: "hex_EncodeToString [] = []"
  by (simp add: hex_EncodeToString_def)

lemma hex_EncodeToString_Cons [simp]:
  "hex_EncodeToString (b # bs) =
     hex_char (unat b div 16) # hex_char (unat b mod 16) # hex_EncodeToString bs"
  by (simp add: hex_EncodeToString_def)

lemma hex_EncodeToString_append: "hex_EncodeToString (a @ b) = hex_EncodeToString a @ hex_EncodeToString b"
  by (simp add: hex_EncodeToString_def)

lemma length_hex_EncodeToString [simp]: "length (hex_EncodeToString bs) = 2 * length bs"
  by (induction bs) auto

lemma byte_nibbles: "of_nat (16 * (unat b div 16) + unat b mod 16) = (b :: byte)"
  by simp

lemma hex_roundtrip [simp]: "hex_DecodeString (hex_EncodeToString bs) = Some bs"
proof (induction bs)
  case (Cons b bs)
  have "unat b div 16 < 16" using unat_byte_less [of b] by linarith
  with Cons show ?case by (simp add: byte_nibbles del: of_nat_add of_nat_mult)
qed simp

lemma hex_EncodeToString_inject: "hex_EncodeToString a = hex_EncodeToString b \<longleftrightarrow> a = b"
  by (metis hex_roundtrip option.inject)

lemma lower_hex_char: "n < 16 \<Longrightarrow> lower_char (hex_char n) = hex_char n"
  by (auto simp: lower_char_def hex_char_def)

lemma ToLower_hex [simp]: "ToLower (hex_EncodeToString bs) = hex_EncodeToString bs"
proof (induction bs)
  case (Cons b bs)
  have "unat b div 16 < 16" using unat_byte_less [of b] by linarith
  with Cons show ?case by (simp add: ToLower_def lower_hex_char)
qed (simp add: ToLower_def)

lemma hex_val_lower: "hex_val (lower_char c) = hex_val c"
  by (auto simp: hex_val_def lower_char_def Let_def)

lemma hex_DecodeString_lower [simp]: "hex_DecodeString (ToLower s) = hex_DecodeString s"
  by (induction s rule: hex_DecodeString.induct) (auto simp: ToLower_def hex_val_lower split: option.splits)

lemma hex_DecodeString_length: "hex_DecodeString s = Some bs \<Longrightarrow> length s = 2 * length bs"
  by (induction s arbitrary: bs rule: hex_DecodeString.induct) (auto split: option.splits)

section \<open>Bytes\<close>

definition bytes_of_string :: "string \<Rightarrow> bytes" where
  "bytes_of_string s = map of_char s"

definition string_of_bytes :: "bytes \<Rightarrow> string" where
  "string_of_bytes bs = map (\<lambda>b. char_of (unat b)) bs"

text \<open>\<open>(*big.Int).SetBytes\<close> and \<open>(*big.Int).Bytes\<close>: big endian, no leading zero.\<close>

definition SetBytes :: "bytes \<Rightarrow> nat" where
  "SetBytes bs = from_digits 256 (map unat bs)"

definition Bytes :: "nat \<Rightarrow> bytes" where
  "Bytes n = map of_nat (to_digits 256 n)"

lemma map_unat_Bytes [simp]: "map unat (Bytes n) = to_digits 256 n"
proof -
  have "map ((\<lambda>x. unat (of_nat x :: byte))) (to_digits 256 n) = to_digits 256 n"
    by (rule map_idI) (use to_digits_less [of 256 _ n] in \<open>auto simp: unat_of_nat\<close>)
  then show ?thesis by (simp add: Bytes_def comp_def)
qed

lemma SetBytes_Bytes [simp]: "SetBytes (Bytes n) = n"
  by (simp add: SetBytes_def)

lemma Bytes_SetBytes: "Bytes (SetBytes bs) = dropWhile (\<lambda>b. b = 0) bs"
proof -
  have "to_digits 256 (from_digits 256 (map unat bs)) = dropWhile (\<lambda>d. d = 0) (map unat bs)"
    by (rule to_from_digits) auto
  then have "map unat (Bytes (SetBytes bs)) = map unat (dropWhile (\<lambda>b. b = 0) bs)"
    by (simp add: SetBytes_def dropWhile_map comp_def unat_eq_0)
  then show ?thesis by (metis (mono_tags, lifting) inj_map_eq_map injI unsigned_word_eqI)
qed

lemma SetBytes_zeros [simp]: "SetBytes (replicate k 0 @ bs) = SetBytes bs"
  by (simp add: SetBytes_def)

lemma length_Bytes_le: "n < 256 ^ k \<Longrightarrow> length (Bytes n) \<le> k"
  by (simp add: Bytes_def length_to_digits_le)

lemma SetBytes_less: "SetBytes bs < 256 ^ length bs"
  using from_digits_less [of 256 "map unat bs"] by (auto simp: SetBytes_def)

section \<open>Codecs\<close>

text \<open>
  What the code relies on where it stores or sends an encoded value: decoding gives back what was
  encoded, and nothing else decodes (one text per value).
\<close>

locale codec =
  fixes valid :: "'a \<Rightarrow> bool"
    and enc :: "'a \<Rightarrow> 's"
    and dec :: "'s \<Rightarrow> 'e + 'a"
  assumes dec_enc: "valid a \<Longrightarrow> dec (enc a) = Inr a"
    and dec_canonical: "dec s = Inr a \<Longrightarrow> valid a \<and> enc a = s"
begin

lemma enc_inject: "valid a \<Longrightarrow> valid b \<Longrightarrow> enc a = enc b \<longleftrightarrow> a = b"
  using dec_enc by (metis sum.inject(2))

lemma dec_inject: "dec s = Inr a \<Longrightarrow> dec t = Inr a \<Longrightarrow> s = t"
  using dec_canonical by metis

lemma dec_iff: "dec s = Inr a \<longleftrightarrow> valid a \<and> s = enc a"
  using dec_enc dec_canonical by blast

end

end
