(* ===== verification/Model.thy ===== *)
theory Model
  imports Complex_Main Text
begin

text \<open>
  The rows of \<open>internal/model/model.go\<close>, one record per struct with the struct's fields in order,
  the states of every life cycle as datatypes, and \<open>internal/model/amount.go\<close>. Times are
  \<^typ>\<open>int\<close> nanoseconds, a nil \<open>*time.Time\<close> is \<open>None\<close>; a \<open>float64\<close> is the
  rational it denotes.
\<close>

type_synonym time = int
type_synonym float64 = rat

section \<open>JSON values\<close>

text \<open>
  What \<open>map[string]any\<close> holds after decoding with \<open>UseNumber\<close> (numbers keep their text), and
  what the event payloads are built from.
\<close>

datatype json =
    JNull
  | JBool bool
  | JNum string
  | JStr string
  | JArr "json list"
  | JObj "(string \<times> json) list"

abbreviation JInt :: "int \<Rightarrow> json" where
  "JInt i \<equiv> JNum (big_String i)"

section \<open>States\<close>

datatype deposit_state = DepositPending | DepositConfirmed | DepositOrphaned

datatype withdraw_state =
    WithdrawCreated
  | WithdrawSigned
  | WithdrawBroadcast
  | WithdrawConfirmed
  | WithdrawFailed
  | WithdrawRejected

datatype sweep_state = SweepCreated | SweepEnergyOK | SweepBroadcast | SweepConfirmed | SweepFailed

datatype outbox_state = OutboxPending | OutboxSent | OutboxDead

datatype energy_order_state =
    EnergyOrderCreated
  | EnergyOrderDelegated
  | EnergyOrderFailed
  | EnergyOrderAbandoned

datatype topup_state = TopupCreated | TopupBroadcast | TopupConfirmed | TopupCredited | TopupFailed

text \<open>
  ``States only move forward'' (the comment on the constants): each life cycle is ordered by how far
  it has come, and states of the same rank are incomparable.
\<close>

fun deposit_rank :: "deposit_state \<Rightarrow> nat" where
  "deposit_rank DepositPending = 0"
| "deposit_rank _ = 1"

fun withdraw_rank :: "withdraw_state \<Rightarrow> nat" where
  "withdraw_rank WithdrawCreated = 0"
| "withdraw_rank WithdrawSigned = 1"
| "withdraw_rank WithdrawBroadcast = 2"
| "withdraw_rank _ = 3"

fun outbox_rank :: "outbox_state \<Rightarrow> nat" where
  "outbox_rank OutboxPending = 0"
| "outbox_rank _ = 1"

instantiation deposit_state :: order
begin
definition less_eq_deposit_state :: "deposit_state \<Rightarrow> deposit_state \<Rightarrow> bool" where
  "less_eq_deposit_state a b \<longleftrightarrow> a = b \<or> deposit_rank a < deposit_rank b"
definition less_deposit_state :: "deposit_state \<Rightarrow> deposit_state \<Rightarrow> bool" where
  "less_deposit_state a b \<longleftrightarrow> deposit_rank a < deposit_rank b"
instance
  by standard (auto simp: less_eq_deposit_state_def less_deposit_state_def)
end

instantiation withdraw_state :: order
begin
definition less_eq_withdraw_state :: "withdraw_state \<Rightarrow> withdraw_state \<Rightarrow> bool" where
  "less_eq_withdraw_state a b \<longleftrightarrow> a = b \<or> withdraw_rank a < withdraw_rank b"
definition less_withdraw_state :: "withdraw_state \<Rightarrow> withdraw_state \<Rightarrow> bool" where
  "less_withdraw_state a b \<longleftrightarrow> withdraw_rank a < withdraw_rank b"
instance
  by standard (auto simp: less_eq_withdraw_state_def less_withdraw_state_def)
end

instantiation outbox_state :: order
begin
definition less_eq_outbox_state :: "outbox_state \<Rightarrow> outbox_state \<Rightarrow> bool" where
  "less_eq_outbox_state a b \<longleftrightarrow> a = b \<or> outbox_rank a < outbox_rank b"
definition less_outbox_state :: "outbox_state \<Rightarrow> outbox_state \<Rightarrow> bool" where
  "less_outbox_state a b \<longleftrightarrow> outbox_rank a < outbox_rank b"
instance
  by standard (auto simp: less_eq_outbox_state_def less_outbox_state_def)
end

text \<open>The states nothing follows.\<close>

lemma withdraw_final:
  "withdraw_rank a = 3 \<Longrightarrow> a \<le> b \<Longrightarrow> b = (a :: withdraw_state)"
  by (cases a; cases b) (auto simp: less_eq_withdraw_state_def)

lemma deposit_final: "a \<noteq> DepositPending \<Longrightarrow> a \<le> b \<Longrightarrow> b = (a :: deposit_state)"
  by (cases a; cases b) (auto simp: less_eq_deposit_state_def)

lemma outbox_final: "a \<noteq> OutboxPending \<Longrightarrow> a \<le> b \<Longrightarrow> b = (a :: outbox_state)"
  by (cases a; cases b) (auto simp: less_eq_outbox_state_def)

section \<open>Rows\<close>

record merchant =
  m_id :: int
  m_merchant_id :: string
  m_name :: string
  m_callback_url :: string
  m_symbol :: string
  m_chain :: string
  m_secret :: string
  m_status :: int
  m_created_at :: time
  m_updated_at :: time

record user_wallet =
  uw_id :: int
  uw_merchant_id :: string
  uw_uid :: string
  uw_account :: string
  uw_chain :: string
  uw_address :: string
  uw_addr_index :: int
  uw_chain_idx :: string
  uw_derive_path :: string
  uw_purpose :: string
  uw_status :: int
  uw_created_at :: time
  uw_updated_at :: time

record wallet_index_allocator =
  wa_chain :: string
  wa_next_index :: int
  wa_updated_at :: time

record deposit_record =
  d_id :: int
  d_merchant_id :: string
  d_account :: string
  d_uid :: string
  d_trade_no :: string
  d_chain :: string
  d_symbol :: string
  d_contract :: string
  d_txid :: string
  d_event_index :: int
  d_block_number :: int
  d_block_hash :: string
  d_from_address :: string
  d_to_address :: string
  d_amount_units :: string
  d_amount :: string
  d_decimals :: int
  d_confirmations :: int
  d_status :: deposit_state
  d_internal :: bool
  d_swept :: bool
  d_block_time :: time
  d_confirmed_at :: "time option"
  d_created_at :: time
  d_updated_at :: time

record withdraw_record =
  w_id :: int
  w_order_no :: string
  w_trade_no :: string
  w_ext_param :: string
  w_merchant_id :: string
  w_chain :: string
  w_symbol :: string
  w_contract :: string
  w_from_address :: string
  w_to_address :: string
  w_notify_url :: string
  w_amount_units :: string
  w_amount :: string
  w_decimals :: int
  w_status :: withdraw_state
  w_fail_reason :: string
  w_fail_code :: string
  w_halt_count :: int
  w_txid :: string
  w_block_number :: int
  w_signed_raw :: string
  w_expired_at :: "time option"
  w_energy_used :: int
  w_fee_sun :: int
  w_broadcast_at :: "time option"
  w_confirmed_at :: "time option"
  w_created_at :: time
  w_updated_at :: time

record sweep_record =
  s_id :: int
  s_from_address :: string
  s_to_address :: string
  s_symbol :: string
  s_contract :: string
  s_amount_units :: string
  s_amount :: string
  s_decimals :: int
  s_status :: sweep_state
  s_txid :: string
  s_block_number :: int
  s_signed_raw :: string
  s_expired_at :: "time option"
  s_fee_mode :: string
  s_energy_order :: string
  s_cost_trx :: float64
  s_energy_used :: int
  s_fail_reason :: string
  s_fail_code :: string
  s_retry_count :: int
  s_deposit_max_id :: int
  s_broadcast_at :: "time option"
  s_confirmed_at :: "time option"
  s_created_at :: time
  s_updated_at :: time

record sweep_skip =
  sk_address :: string
  sk_contract :: string
  sk_skip_count :: int
  sk_last_skip_at :: time
  sk_created_at :: time
  sk_updated_at :: time

record address_blacklist =
  bl_id :: int
  bl_address :: string
  bl_add_time :: time
  bl_account :: string

record energy_rent_order =
  eo_id :: int
  eo_provider :: string
  eo_request_id :: string
  eo_provider_order_id :: string
  eo_receive_address :: string
  eo_resource_type :: string
  eo_requested_energy :: int
  eo_delegated_energy :: int
  eo_baseline_energy :: int
  eo_period :: string
  eo_cost_trx :: float64
  eo_amount :: string
  eo_status :: energy_order_state
  eo_provider_status :: string
  eo_delegate_txid :: string
  eo_block_number :: int
  eo_purpose :: string
  eo_created_at :: time
  eo_updated_at :: time
  eo_finished_at :: "time option"

record topup_record =
  tr_id :: int
  tr_provider :: string
  tr_request_id :: string
  tr_from_address :: string
  tr_to_address :: string
  tr_amount_trx :: float64
  tr_amount :: string
  tr_trigger_balance_trx :: float64
  tr_txid :: string
  tr_block_number :: int
  tr_status :: topup_state
  tr_operator :: string
  tr_fail_reason :: string
  tr_created_at :: time
  tr_updated_at :: time
  tr_confirmed_at :: "time option"

record chain_cursor =
  cc_name :: string
  cc_block_number :: int
  cc_block_hash :: string
  cc_updated_at :: time

record block_snapshot =
  bs_block_number :: int
  bs_block_hash :: string
  bs_parent_hash :: string
  bs_block_time :: time
  bs_created_at :: time

text \<open>The payload is kept as the JSON object, before \<open>json.Marshal\<close> writes it as text.\<close>

record notify_outbox =
  ob_id :: int
  ob_event_id :: string
  ob_merchant_id :: string
  ob_account :: string
  ob_notify_url :: string
  ob_event_type :: string
  ob_payload :: json
  ob_status :: outbox_state
  ob_retry_count :: int
  ob_next_retry :: time
  ob_last_error :: string
  ob_created_at :: time
  ob_updated_at :: time
  ob_sent_at :: "time option"

record sign_audit =
  sa_id :: int
  sa_purpose :: string
  sa_path :: string
  sa_address :: string
  sa_txid :: string
  sa_caller :: string
  sa_allowed :: bool
  sa_reason :: string
  sa_created_at :: time

section \<open>Amounts\<close>

definition padLeft :: "string \<Rightarrow> int \<Rightarrow> string" where
  "padLeft s width =
     (if int (length s) \<ge> width then s
      else replicate (nat (width - int (length s))) (CHR ''0'') @ s)"

definition FormatUnits :: "string \<Rightarrow> int \<Rightarrow> string" where
  "FormatUnits units decimals =
     (case SetString units of
        None \<Rightarrow> units
      | Some value \<Rightarrow>
          if decimals < 0 then units
          else
            let sign = (if value < 0 then ''-'' else '''');
                v = \<bar>value\<bar>;
                scale = 10 ^ nat decimals;
                whole = v div scale;
                frac = v mod scale
            in if decimals = 0 \<or> frac = 0 then sign @ big_String whole
               else sign @ big_String whole @ ''.'' @
                 TrimRight (\<lambda>c. c = CHR ''0'') (padLeft (big_String frac) decimals))"

end
