(* ===== verification/Tron.thy ===== *)
theory Tron
  imports Model Sha256
begin

text \<open>
  \<open>internal/tron\<close>: base58check addresses (\<open>address.go\<close>), calldata, transaction ids and the
  protobuf framing of a signed transaction (\<open>tx.go\<close>). Keccak-256 (\<open>golang.org/x/crypto/sha3\<close>) and
  \<open>ecdsa.SignCompact\<close> (\<open>btcec\<close>) are parameters of the functions that use them.
\<close>

section \<open>Base58\<close>

definition AddressPrefix :: byte where
  "AddressPrefix = 0x41"

definition b58Alphabet :: string where
  "b58Alphabet = ''123456789ABCDEFGHJKLMNPQRSTUVWXYZabcdefghijkmnopqrstuvwxyz''"

definition doubleSHA256 :: "bytes \<Rightarrow> bytes" where
  "doubleSHA256 b = sha256 (sha256 b)"

fun index_of :: "'a list \<Rightarrow> 'a \<Rightarrow> nat option" where
  "index_of [] c = None"
| "index_of (x # xs) c = (if x = c then Some 0 else map_option Suc (index_of xs c))"

text \<open>The division loop: remainders, least significant first.\<close>

function b58_loop :: "nat \<Rightarrow> string" where
  "b58_loop x = (if x = 0 then [] else (b58Alphabet ! (x mod 58)) # b58_loop (x div 58))"
  by pat_completeness auto
termination
  by (relation "measure id") auto

declare b58_loop.simps [simp del]

definition base58Encode :: "bytes \<Rightarrow> string" where
  "base58Encode input =
     rev (b58_loop (SetBytes input) @
          replicate (length (takeWhile (\<lambda>b. b = 0) input)) (b58Alphabet ! 0))"

fun b58_value :: "nat \<Rightarrow> string \<Rightarrow> nat result" where
  "b58_value x [] = Inr x"
| "b58_value x (r # s) =
     (case index_of b58Alphabet r of
        None \<Rightarrow> Inl (errors_new (''invalid base58 character '' @ [CHR 0x27, r, CHR 0x27]))
      | Some idx \<Rightarrow> b58_value (x * 58 + idx) s)"

definition base58Decode :: "string \<Rightarrow> bytes result" where
  "base58Decode s =
     (case b58_value 0 s of
        Inl e \<Rightarrow> Inl e
      | Inr x \<Rightarrow>
          Inr (replicate (length (takeWhile (\<lambda>r. r = b58Alphabet ! 0) s)) 0 @ Bytes x))"

section \<open>Addresses\<close>

definition EncodeAddress :: "bytes \<Rightarrow> string result" where
  "EncodeAddress raw =
     (if length raw \<noteq> 21 \<or> raw ! 0 \<noteq> AddressPrefix then Inl (errors_new ''invalid raw tron address'')
      else Inr (base58Encode (raw @ take 4 (doubleSHA256 raw))))"

definition DecodeAddress :: "string \<Rightarrow> bytes result" where
  "DecodeAddress addr =
     (case base58Decode addr of
        Inl e \<Rightarrow> Inl e
      | Inr decoded \<Rightarrow>
          if length decoded \<noteq> 25 then
            Inl (errors_new (''invalid address length '' @ show_nat (length decoded)))
          else
            let raw = take 21 decoded; checksum = drop 21 decoded
            in if raw ! 0 \<noteq> AddressPrefix then Inl (errors_new ''invalid address prefix'')
               else if take 4 (doubleSHA256 raw) \<noteq> checksum then
                 Inl (errors_new ''invalid address checksum'')
               else Inr raw)"

definition IsValidAddress :: "string \<Rightarrow> bool" where
  "IsValidAddress addr \<longleftrightarrow>
     HasPrefix addr ''T'' \<and> (case DecodeAddress addr of Inl _ \<Rightarrow> False | Inr _ \<Rightarrow> True)"

definition AddressToHex :: "string \<Rightarrow> string result" where
  "AddressToHex addr =
     (case DecodeAddress addr of Inl e \<Rightarrow> Inl e | Inr raw \<Rightarrow> Inr (hex_EncodeToString raw))"

definition HexToAddress :: "string \<Rightarrow> string result" where
  "HexToAddress h0 =
     (let h = TrimPrefix (ToLower h0) ''0x''
      in case hex_DecodeString h of
           None \<Rightarrow> Inl (errors_new ''encoding/hex'')
         | Some raw \<Rightarrow>
             if length raw = 21 then EncodeAddress raw
             else if length raw = 20 then EncodeAddress (AddressPrefix # raw)
             else if length raw = 32 then EncodeAddress (AddressPrefix # drop 12 raw)
             else Inl (errors_new (''unexpected address hex length '' @ show_nat (length raw))))"

definition PubKeyToAddress :: "(bytes \<Rightarrow> bytes) \<Rightarrow> bytes \<Rightarrow> string result" where
  "PubKeyToAddress Keccak256 pub0 =
     (let pub = (if length pub0 = 65 then drop 1 pub0 else pub0)
      in if length pub \<noteq> 64 then
           Inl (errors_new (''unexpected public key length '' @ show_nat (length pub)))
         else EncodeAddress (AddressPrefix # drop 12 (Keccak256 pub)))"

section \<open>Transactions\<close>

text \<open>\<open>RawData\<close> is the decoded JSON object, \<open>None\<close> when the field is nil.\<close>

record transaction =
  tx_visible :: bool
  tx_id :: string
  tx_raw_data :: "(string \<times> json) list option"
  tx_raw_data_hex :: string
  tx_signature :: "string list"

definition TxIDFromRawHex :: "string \<Rightarrow> string result" where
  "TxIDFromRawHex rawHex =
     (case hex_DecodeString (TrimPrefix rawHex ''0x'') of
        None \<Rightarrow> Inl (errors_new ''encoding/hex'')
      | Some raw \<Rightarrow> Inr (hex_EncodeToString (sha256 raw)))"

text \<open>The signature bytes: \<open>[V||R||S]\<close> of the library becomes \<open>[R||S||V]\<close>.\<close>

definition signRecoverable :: "('k \<Rightarrow> bytes \<Rightarrow> bytes) \<Rightarrow> bytes \<Rightarrow> 'k \<Rightarrow> bytes result" where
  "signRecoverable SignCompact digest priv =
     (let compact = SignCompact priv digest
      in if length compact \<noteq> 65 then
           Inl (errors_new (''unexpected signature length '' @ show_nat (length compact)))
         else
           let v0 = compact ! 0 - 27;
               v = (if v0 \<ge> 4 then v0 - 4 else v0)
           in Inr (drop 1 compact @ [v]))"

definition SignTransaction ::
  "('k \<Rightarrow> bytes \<Rightarrow> bytes) \<Rightarrow> transaction option \<Rightarrow> 'k \<Rightarrow> transaction result" where
  "SignTransaction SignCompact txp priv =
     (case txp of
        None \<Rightarrow> Inl (errors_new ''transaction has no raw_data_hex'')
      | Some tx \<Rightarrow>
          if tx_raw_data_hex tx = '''' then Inl (errors_new ''transaction has no raw_data_hex'')
          else
            case TxIDFromRawHex (tx_raw_data_hex tx) of
              Inl e \<Rightarrow> Inl e
            | Inr txid \<Rightarrow>
                if tx_id tx \<noteq> '''' \<and> \<not> EqualFold (tx_id tx) txid then
                  Inl (errors_new (''txid mismatch: node='' @ tx_id tx @ '' computed='' @ txid))
                else
                  case hex_DecodeString txid of
                    None \<Rightarrow> Inl (errors_new ''encoding/hex'')
                  | Some digest \<Rightarrow>
                      case signRecoverable SignCompact digest priv of
                        Inl e \<Rightarrow> Inl e
                      | Inr sig \<Rightarrow>
                          Inr (tx\<lparr>tx_id := txid, tx_signature := [hex_EncodeToString sig]\<rparr>))"

section \<open>Protobuf framing\<close>

type_synonym u64 = "64 word"

function appendVarint :: "bytes \<Rightarrow> u64 \<Rightarrow> bytes" where
  "appendVarint dst v =
     (if v \<ge> 0x80 then appendVarint (dst @ [or (ucast v) 0x80]) (drop_bit 7 v)
      else dst @ [ucast v])"
  by pat_completeness auto
termination
proof (relation "measure (\<lambda>(dst, v). unat v)")
  fix dst :: bytes and v :: u64
  assume "0x80 \<le> v"
  then have "0x80 \<le> unat v" by (simp add: word_le_nat_alt)
  then have "unat v div 128 < unat v" by simp
  then show "((dst @ [or (ucast v) 0x80], drop_bit 7 v), dst, v) \<in> measure (\<lambda>(dst, v). unat v)"
    by (simp add: drop_bit_eq_div unat_div)
qed simp

declare appendVarint.simps [simp del]

definition appendProtoBytes :: "bytes \<Rightarrow> nat \<Rightarrow> bytes \<Rightarrow> bytes" where
  "appendProtoBytes dst field val =
     appendVarint (appendVarint dst (or (push_bit 3 (of_nat field)) 2)) (of_nat (length val)) @ val"

fun serialize_sigs :: "bytes \<Rightarrow> string list \<Rightarrow> bytes result" where
  "serialize_sigs out [] = Inr out"
| "serialize_sigs out (s # ss) =
     (case hex_DecodeString (TrimPrefix s ''0x'') of
        None \<Rightarrow> Inl (errors_new ''signature: encoding/hex'')
      | Some sig \<Rightarrow> serialize_sigs (appendProtoBytes out 2 sig) ss)"

definition SerializeSigned :: "transaction option \<Rightarrow> string result" where
  "SerializeSigned txp =
     (case txp of
        None \<Rightarrow> Inl (errors_new ''transaction has no raw_data_hex'')
      | Some tx \<Rightarrow>
          if tx_raw_data_hex tx = '''' then Inl (errors_new ''transaction has no raw_data_hex'')
          else if tx_signature tx = [] then Inl (errors_new ''transaction has no signature'')
          else
            case hex_DecodeString (TrimPrefix (tx_raw_data_hex tx) ''0x'') of
              None \<Rightarrow> Inl (errors_new ''raw_data_hex: encoding/hex'')
            | Some raw \<Rightarrow>
                case serialize_sigs (appendProtoBytes [] 1 raw) (tx_signature tx) of
                  Inl e \<Rightarrow> Inl e
                | Inr out \<Rightarrow> Inr (hex_EncodeToString out))"

section \<open>Calldata\<close>

text \<open>\<open>copy(dst[lo:hi], src)\<close>.\<close>

definition copy_range :: "nat \<Rightarrow> nat \<Rightarrow> 'a list \<Rightarrow> 'a list \<Rightarrow> 'a list" where
  "copy_range lo hi dst src =
     (let n = min (hi - lo) (length src) in take lo dst @ take n src @ drop (lo + n) dst)"

definition transfer_selector :: "(bytes \<Rightarrow> bytes) \<Rightarrow> bytes" where
  "transfer_selector Keccak256 = take 4 (Keccak256 (bytes_of_string ''transfer(address,uint256)''))"

definition EncodeTRC20Transfer :: "(bytes \<Rightarrow> bytes) \<Rightarrow> string \<Rightarrow> int \<Rightarrow> string result" where
  "EncodeTRC20Transfer Keccak256 to amount =
     (case DecodeAddress to of
        Inl e \<Rightarrow> Inl (wrap_err ''encode transfer: '' e)
      | Inr raw \<Rightarrow>
          let param = copy_range 12 32 (replicate 64 0) (drop 1 raw);
              amtBytes = Bytes (nat \<bar>amount\<bar>)
          in if length amtBytes > 32 then Inl (errors_new ''amount overflows uint256'')
             else Inr (hex_EncodeToString (transfer_selector Keccak256 @
                    copy_range (64 - length amtBytes) 64 param amtBytes)))"

definition EncodeTRC20BalanceOf :: "(bytes \<Rightarrow> bytes) \<Rightarrow> string \<Rightarrow> string result" where
  "EncodeTRC20BalanceOf Keccak256 owner =
     (case DecodeAddress owner of
        Inl e \<Rightarrow> Inl (wrap_err ''encode balanceOf: '' e)
      | Inr raw \<Rightarrow>
          Inr (hex_EncodeToString (take 4 (Keccak256 (bytes_of_string ''balanceOf(address)'')) @
                 copy_range 12 32 (replicate 32 0) (drop 1 raw))))"

definition TransferEventTopic :: "(bytes \<Rightarrow> bytes) \<Rightarrow> string" where
  "TransferEventTopic Keccak256 =
     hex_EncodeToString (Keccak256 (bytes_of_string ''Transfer(address,address,uint256)''))"

definition ParseUint256 :: "string \<Rightarrow> int option" where
  "ParseUint256 word =
     (case hex_DecodeString (TrimPrefix (ToLower word) ''0x'') of
        None \<Rightarrow> None
      | Some b \<Rightarrow> Some (int (SetBytes b)))"

section \<open>Base58 is a bijection onto its image\<close>

lemma index_of_Some: "index_of xs c = Some i \<Longrightarrow> i < length xs \<and> xs ! i = c"
  by (induction xs arbitrary: i) (auto split: if_splits)

lemma index_of_nth: "distinct xs \<Longrightarrow> i < length xs \<Longrightarrow> index_of xs (xs ! i) = Some i"
proof (induction xs arbitrary: i)
  case (Cons x xs)
  then show ?case by (cases i) (auto simp: nth_mem)
qed simp

lemma length_b58Alphabet [simp]: "length b58Alphabet = 58"
  by (simp add: b58Alphabet_def)

lemma distinct_b58Alphabet [simp]: "distinct b58Alphabet"
  by (simp add: b58Alphabet_def)

lemma index_b58 [simp]: "i < 58 \<Longrightarrow> index_of b58Alphabet (b58Alphabet ! i) = Some i"
  by (simp add: index_of_nth)

lemma b58_loop_digits: "b58_loop x = rev (map ((!) b58Alphabet) (to_digits 58 x))"
proof (induction x rule: b58_loop.induct)
  case (1 x)
  then show ?case by (subst b58_loop.simps) (simp add: to_digits_step)
qed

lemma base58Encode_digits:
  "base58Encode b = replicate (length (takeWhile (\<lambda>x. x = 0) b)) (b58Alphabet ! 0) @
     map ((!) b58Alphabet) (to_digits 58 (SetBytes b))"
  by (simp add: base58Encode_def b58_loop_digits)

lemma b58_value_map:
  "\<forall>d \<in> set ds. d < 58 \<Longrightarrow> b58_value x (map ((!) b58Alphabet) ds) = Inr (foldl (\<lambda>a d. a * 58 + d) x ds)"
  by (induction ds arbitrary: x) auto

lemma b58_value_Inr:
  "b58_value x s = Inr n \<Longrightarrow>
     \<exists>ds. s = map ((!) b58Alphabet) ds \<and> (\<forall>d \<in> set ds. d < 58) \<and> n = foldl (\<lambda>a d. a * 58 + d) x ds"
proof (induction s arbitrary: x)
  case (Cons r s)
  then obtain i where i: "index_of b58Alphabet r = Some i" and "b58_value (x * 58 + i) s = Inr n"
    by (auto split: option.splits)
  with Cons.IH obtain ds where ds: "s = map ((!) b58Alphabet) ds" "\<forall>d \<in> set ds. d < 58"
    "n = foldl (\<lambda>a d. a * 58 + d) (x * 58 + i) ds" by blast
  from index_of_Some [OF i] ds show ?case by (intro exI [of _ "i # ds"]) simp
qed simp

lemma takeWhile_replicate_append:
  "\<not> (xs \<noteq> [] \<and> P (hd xs)) \<Longrightarrow> P a \<Longrightarrow> takeWhile P (replicate n a @ xs) = replicate n a"
  by (induction n) (cases xs; auto)+

lemma takeWhile_replicate_id: "takeWhile (\<lambda>b. b = a) xs = replicate (length (takeWhile (\<lambda>b. b = a) xs)) a"
  by (induction xs) auto

lemma leading_zeros_split: "replicate (length (takeWhile (\<lambda>b. b = a) xs)) a @ dropWhile (\<lambda>b. b = a) xs = xs"
  by (metis takeWhile_dropWhile_id takeWhile_replicate_id)

lemma alphabet_eq_first: "d < 58 \<Longrightarrow> b58Alphabet ! d = b58Alphabet ! 0 \<longleftrightarrow> d = 0"
  by (simp add: nth_eq_iff_index_eq)

lemma base58_roundtrip [simp]: "base58Decode (base58Encode b) = Inr b"
proof -
  let ?z = "length (takeWhile (\<lambda>x. x = 0) b)"
  let ?ds = "to_digits 58 (SetBytes b)"
  have ds: "\<forall>d \<in> set ?ds. d < 58" by (auto intro: to_digits_less)
  have enc: "base58Encode b = map ((!) b58Alphabet) (replicate ?z 0 @ ?ds)"
    by (simp add: base58Encode_digits)
  have "b58_value 0 (base58Encode b) = Inr (from_digits 58 (replicate ?z 0 @ ?ds))"
    unfolding enc from_digits_def by (rule b58_value_map) (use ds in auto)
  then have val: "b58_value 0 (base58Encode b) = Inr (SetBytes b)" by simp
  have "takeWhile (\<lambda>r. r = b58Alphabet ! 0) (base58Encode b) = replicate ?z (b58Alphabet ! 0)"
    unfolding base58Encode_digits
    by (rule takeWhile_replicate_append)
      (use ds to_digits_nonzero [of 58 "SetBytes b"] in \<open>auto simp: hd_map alphabet_eq_first\<close>)
  with val show ?thesis
    by (simp add: base58Decode_def Bytes_SetBytes leading_zeros_split)
qed

lemma base58_canonical:
  assumes "base58Decode s = Inr b"
  shows "base58Encode b = s"
proof -
  from assms obtain x where x: "b58_value 0 s = Inr x"
    and b: "b = replicate (length (takeWhile (\<lambda>r. r = b58Alphabet ! 0) s)) 0 @ Bytes x"
    by (auto simp: base58Decode_def split: sum.splits)
  from b58_value_Inr [OF x] obtain ds where s: "s = map ((!) b58Alphabet) ds"
    and ds: "\<forall>d \<in> set ds. d < 58" and xd: "x = from_digits 58 ds"
    by (auto simp: from_digits_def)
  let ?z = "length (takeWhile (\<lambda>d. d = 0) ds)"
  have z: "length (takeWhile (\<lambda>r. r = b58Alphabet ! 0) s) = ?z"
  proof -
    have "takeWhile ((\<lambda>r. r = b58Alphabet ! 0) \<circ> (!) b58Alphabet) ds = takeWhile (\<lambda>d. d = 0) ds"
      by (rule takeWhile_cong) (use ds in \<open>auto simp: alphabet_eq_first\<close>)
    then show ?thesis by (simp add: s takeWhile_map)
  qed
  have tb: "\<not> (Bytes x \<noteq> [] \<and> hd (Bytes x) = 0)"
  proof
    assume h: "Bytes x \<noteq> [] \<and> hd (Bytes x) = 0"
    then have "hd (to_digits 256 x) = 0" by (metis hd_map map_unat_Bytes unsigned_0)
    with h show False using to_digits_nonzero [of 256 x] by (auto simp: Bytes_def)
  qed
  have "takeWhile (\<lambda>x. x = 0) b = replicate ?z 0"
    unfolding b z by (rule takeWhile_replicate_append) (use tb in auto)
  moreover have "SetBytes b = x" by (simp add: b)
  moreover have "to_digits 58 x = dropWhile (\<lambda>d. d = 0) ds"
    unfolding xd by (rule to_from_digits) (use ds in auto)
  ultimately have "base58Encode b = map ((!) b58Alphabet) (replicate ?z 0 @ dropWhile (\<lambda>d. d = 0) ds)"
    by (simp add: base58Encode_digits)
  then show ?thesis by (simp add: leading_zeros_split s)
qed


interpretation b58: codec "\<lambda>_. True" base58Encode base58Decode
  by unfold_locales (auto dest: base58_canonical)

section \<open>Addresses round-trip\<close>

definition raw_address :: "bytes \<Rightarrow> bool" where
  "raw_address raw \<longleftrightarrow> length raw = 21 \<and> raw ! 0 = AddressPrefix"

definition address_of :: "bytes \<Rightarrow> string" where
  "address_of raw = base58Encode (raw @ take 4 (doubleSHA256 raw))"

lemma EncodeAddress_Inr: "EncodeAddress raw = Inr a \<longleftrightarrow> raw_address raw \<and> a = address_of raw"
  by (auto simp: EncodeAddress_def raw_address_def address_of_def)

lemma EncodeAddress_raw [simp]: "raw_address raw \<Longrightarrow> EncodeAddress raw = Inr (address_of raw)"
  by (simp add: EncodeAddress_Inr)

lemma DecodeAddress_raw: "DecodeAddress a = Inr raw \<Longrightarrow> raw_address raw \<and> address_of raw = a"
proof -
  assume dec: "DecodeAddress a = Inr raw"
  then obtain d where d: "base58Decode a = Inr d" "length d = 25" "raw = take 21 d"
    "raw ! 0 = AddressPrefix" "take 4 (doubleSHA256 raw) = drop 21 d"
    by (auto simp: DecodeAddress_def Let_def split: sum.splits if_splits)
  have "take 21 d @ drop 21 d = d" by (rule append_take_drop_id)
  with d(3,5) have "raw @ take 4 (doubleSHA256 raw) = d" by simp
  with base58_canonical [OF d(1)] have "address_of raw = a" by (simp add: address_of_def)
  with d(2-4) show ?thesis by (simp add: raw_address_def)
qed

lemma DecodeAddress_address_of [simp]: "raw_address raw \<Longrightarrow> DecodeAddress (address_of raw) = Inr raw"
  by (auto simp: DecodeAddress_def address_of_def raw_address_def doubleSHA256_def Let_def)

interpretation addr: codec raw_address address_of DecodeAddress
  by unfold_locales (auto dest: DecodeAddress_raw)

text \<open>
  A 25-byte value that starts with \<open>0x41\<close> lies between \<open>26 * 58^33\<close> and \<open>27 * 58^33\<close>, so its
  base58 form has 34 characters and starts with the 27th letter of the alphabet, \<open>T\<close>.
\<close>

lemma to_digits_hd:
  assumes "1 < b" and "d < b" and "0 < d" and "d * b ^ k \<le> n" and "n < (d + 1) * b ^ k"
  shows "\<exists>r. to_digits b n = d # r \<and> length r = k"
  using assms(4,5)
proof (induction k arbitrary: n)
  case 0
  then have "n = d" by simp
  with assms show ?case by (simp add: to_digits_step div_eq_0_iff)
next
  case (Suc k)
  have "d * b ^ k * b \<le> n" using Suc.prems(1) by (simp add: ac_simps)
  with assms(1) have "d * b ^ k \<le> n div b" by (simp add: less_eq_div_iff_mult_less_eq)
  moreover have "n < (d + 1) * b ^ k * b" using Suc.prems(2) by (simp add: algebra_simps)
  with assms(1) have "n div b < (d + 1) * b ^ k" by (simp add: div_less_iff_less_mult)
  ultimately obtain r where "to_digits b (n div b) = d # r" "length r = k" using Suc.IH by blast
  moreover have "0 < n" using Suc.prems(1) assms by (metis bot_nat_0.not_eq_extremum le_zero_eq
    mult_eq_0_iff not_less0 power_eq_0_iff zero_less_one order_less_trans)
  ultimately show ?case using assms(1) by (simp add: to_digits_step)
qed

lemma SetBytes_Cons: "SetBytes (b # bs) = unat b * 256 ^ length bs + SetBytes bs"
proof (induction bs rule: rev_induct)
  case Nil
  then show ?case by (simp add: SetBytes_def from_digits_def)
next
  case (snoc x bs)
  then show ?case by (simp add: SetBytes_def algebra_simps flip: append_Cons)
qed

lemma address_starts_T:
  assumes "raw_address raw"
  shows "HasPrefix (address_of raw) ''T''" and "length (address_of raw) = 34"
proof -
  from assms obtain rest where raw: "raw = AddressPrefix # rest" and len: "length rest = 20"
    by (cases raw) (auto simp: raw_address_def)
  let ?tail = "rest @ take 4 (doubleSHA256 raw)"
  let ?n = "SetBytes (AddressPrefix # ?tail)"
  have lt: "length ?tail = 24" by (simp add: len doubleSHA256_def)
  have n: "?n = 65 * 256 ^ 24 + SetBytes ?tail"
    by (simp only: SetBytes_Cons lt) (simp add: AddressPrefix_def)
  have b: "SetBytes ?tail < 256 ^ 24" using SetBytes_less [of ?tail] by (simp only: lt)
  have "26 * 58 ^ 33 \<le> ?n" unfolding n by simp
  moreover have "?n < (26 + 1) * 58 ^ 33" using b unfolding n by simp
  ultimately obtain r where r: "to_digits 58 ?n = 26 # r" "length r = 33"
    using to_digits_hd [of 58 26 33 ?n] by auto
  have p0: "AddressPrefix \<noteq> 0" by (simp add: AddressPrefix_def)
  have nz: "takeWhile (\<lambda>x. x = 0) (AddressPrefix # ?tail) = []" by (simp add: AddressPrefix_def)
  have T: "b58Alphabet ! 26 = CHR ''T''" by (simp add: b58Alphabet_def)
  have "address_of raw = b58Alphabet ! 26 # map ((!) b58Alphabet) r"
    unfolding address_of_def raw append_Cons base58Encode_digits nz r(1)[unfolded raw append_Cons]
    using r p0 by (simp add: raw nz)
  with T r(2) show "HasPrefix (address_of raw) ''T''" "length (address_of raw) = 34"
    by (simp_all add: HasPrefix_def)
qed

lemma IsValidAddress_iff: "IsValidAddress a \<longleftrightarrow> (\<exists>raw. DecodeAddress a = Inr raw)"
proof
  assume "\<exists>raw. DecodeAddress a = Inr raw"
  then obtain raw where raw: "DecodeAddress a = Inr raw" by blast
  with DecodeAddress_raw have "raw_address raw" "address_of raw = a" by blast+
  with address_starts_T(1) raw show "IsValidAddress a" by (auto simp: IsValidAddress_def)
qed (auto simp: IsValidAddress_def split: sum.splits)

end
