(* ===== verification/TronWire.thy ===== *)
theory TronWire
  imports Tron
begin

text \<open>
  What the bytes of \<open>internal/tron/tx.go\<close> say to the other side: a reader of the protobuf framing
  and of the ABI words, written independently of the encoders, and the proofs that the encoders are
  read back as meant; the address and calldata properties that rest on \<open>Tron\<close>'s codecs.
\<close>

section \<open>A protobuf reader\<close>

fun read_varint :: "bytes \<Rightarrow> (nat \<times> bytes) option" where
  "read_varint [] = None"
| "read_varint (b # bs) =
     (if unat b < 128 then Some (unat b, bs)
      else map_option (\<lambda>(n, r). (unat b - 128 + 128 * n, r)) (read_varint bs))"

text \<open>One length-delimited field: its number, its value and what follows.\<close>

definition read_field :: "bytes \<Rightarrow> (nat \<times> bytes \<times> bytes) option" where
  "read_field bs =
     (case read_varint bs of
        None \<Rightarrow> None
      | Some (key, r) \<Rightarrow>
          if key mod 8 \<noteq> 2 then None
          else case read_varint r of
            None \<Rightarrow> None
          | Some (len, r') \<Rightarrow>
              if length r' < len then None else Some (key div 8, take len r', drop len r'))"

lemma read_varint_shorter: "read_varint bs = Some (n, r) \<Longrightarrow> length r < length bs"
  by (induction bs arbitrary: n r) (fastforce split: if_splits)+

lemma read_field_shorter: "read_field bs = Some (f, v, r) \<Longrightarrow> length r < length bs"
  by (auto simp: read_field_def split: option.splits prod.splits if_splits
      dest!: read_varint_shorter)

function read_fields :: "bytes \<Rightarrow> (nat \<times> bytes) list option" where
  "read_fields bs =
     (if bs = [] then Some []
      else case read_field bs of
        None \<Rightarrow> None
      | Some (f, v, r) \<Rightarrow> map_option ((#) (f, v)) (read_fields r))"
  by pat_completeness auto
termination
  by (relation "measure length") (auto dest: read_field_shorter)

declare read_fields.simps [simp del]

lemma read_fields_Nil [simp]: "read_fields [] = Some []"
  by (simp add: read_fields.simps)

section \<open>Varints\<close>

text \<open>The same bytes without the accumulator.\<close>

function varint :: "u64 \<Rightarrow> bytes" where
  "varint v = (if v \<ge> 0x80 then or (ucast v) 0x80 # varint (drop_bit 7 v) else [ucast v])"
  by pat_completeness auto
termination
proof (relation "measure unat")
  fix v :: u64
  assume "0x80 \<le> v"
  then have "0x80 \<le> unat v" by (simp add: word_le_nat_alt)
  then have "unat v div 128 < unat v" by simp
  then show "(drop_bit 7 v, v) \<in> measure unat" by (simp add: drop_bit_eq_div unat_div)
qed simp

declare varint.simps [simp del]

lemma appendVarint_varint: "appendVarint dst v = dst @ varint v"
proof (induction dst v rule: appendVarint.induct)
  case (1 dst v)
  then show ?case by (cases "v \<ge> 0x80") (subst appendVarint.simps, subst varint.simps, simp)+
qed

lemma unat_or_128: "unat (or b 0x80 :: byte) = 128 + unat b mod 128"
proof -
  have "unat (or b 0x80) = or (unat b) 128" by (simp add: unsigned_or_eq)
  also have "or (unat b) 128 = set_bit 7 (unat b)" by (simp add: set_bit_eq_or push_bit_eq_mult)
  also have "\<dots> = unat b + of_bool (\<not> bit (unat b) 7) * 128" by (simp add: set_bit_eq)
  also have "\<dots> = 128 + unat b mod 128"
  proof (cases "unat b < 128")
    case True
    then show ?thesis by (simp add: bit_iff_odd)
  next
    case False
    with unat_byte_less [of b] have "unat b div 128 = 1" by (intro div_nat_eqI) auto
    then have "bit (unat b) 7" by (simp add: bit_iff_odd)
    moreover have "unat b = 128 + unat b mod 128"
      using \<open>unat b div 128 = 1\<close> by (metis mult.right_neutral div_mult_mod_eq mult.commute)
    ultimately show ?thesis by simp
  qed
  finally show ?thesis .
qed

lemma read_varint_varint: "read_varint (varint v @ rest) = Some (unat v, rest)"
proof (induction v rule: varint.induct)
  case (1 v)
  have low: "unat (ucast v :: byte) = unat v mod 256"
    by (simp add: unsigned_ucast_eq take_bit_eq_mod)
  show ?case
  proof (cases "v \<ge> 0x80")
    case True
    have "unat (or (ucast v) 0x80 :: byte) = 128 + unat v mod 128"
      by (simp add: unat_or_128 low mod_mod_cancel)
    moreover have "unat (drop_bit 7 v) = unat v div 128" by (simp add: drop_bit_eq_div unat_div)
    ultimately show ?thesis
      using 1 [OF True] True by (subst varint.simps) simp
  next
    case False
    then have "unat v < 128" by (simp add: word_less_nat_alt not_le)
    with False low show ?thesis by (subst varint.simps) simp
  qed
qed

lemma read_field_proto:
  assumes "field = 1 \<or> field = 2" and "length val < 2 ^ 64"
  shows "appendProtoBytes dst field val = dst @ appendProtoBytes [] field val"
    and "read_field (appendProtoBytes [] field val @ rest) = Some (field, val, rest)"
proof -
  have key: "unat (or (push_bit 3 (of_nat field)) 2 :: u64) = 8 * field + 2"
    using assms(1) by (elim disjE) (simp_all add: push_bit_eq_mult)
  have len: "unat (of_nat (length val) :: u64) = length val"
    using assms(2) by (simp add: unat_of_nat)
  show "appendProtoBytes dst field val = dst @ appendProtoBytes [] field val"
    by (simp add: appendProtoBytes_def appendVarint_varint)
  show "read_field (appendProtoBytes [] field val @ rest) = Some (field, val, rest)"
    using assms(1)
    by (elim disjE)
      (simp_all add: appendProtoBytes_def appendVarint_varint read_field_def read_varint_varint
        key [simplified] len push_bit_eq_mult)
qed

lemma read_fields_proto:
  assumes "field = 1 \<or> field = 2" and "length val < 2 ^ 64"
  shows "read_fields (appendProtoBytes [] field val @ rest) =
    map_option ((#) (field, val)) (read_fields rest)"
proof -
  have "appendProtoBytes [] field val @ rest \<noteq> []"
    using read_field_proto(2) [OF assms, of rest] by (auto simp: read_field_def)
  then show ?thesis
    using read_field_proto(2) [OF assms, of rest] by (subst read_fields.simps) simp
qed

lemma serialize_sigs_fields:
  assumes "serialize_sigs out ss = Inr res" and "\<forall>s \<in> set ss. length s < 2 ^ 64"
  shows "\<exists>sigs tail. map (\<lambda>s. hex_DecodeString (TrimPrefix s ''0x'')) ss = map Some sigs \<and>
    res = out @ tail \<and> read_fields tail = Some (map (Pair 2) sigs)"
  using assms
proof (induction ss arbitrary: out)
  case Nil
  then show ?case by auto
next
  case (Cons s ss)
  from Cons.prems(1) obtain sig where sig: "hex_DecodeString (TrimPrefix s ''0x'') = Some sig"
    and rest: "serialize_sigs (appendProtoBytes out 2 sig) ss = Inr res"
    by (auto split: option.splits)
  have "2 * length sig \<le> length s"
    using hex_DecodeString_length [OF sig] by (auto simp: TrimPrefix_def split: if_splits)
  with Cons.prems(2) have len: "length sig < 2 ^ 64" by simp
  from Cons.IH [OF rest] Cons.prems(2) obtain sigs tail where IH:
    "map (\<lambda>s. hex_DecodeString (TrimPrefix s ''0x'')) ss = map Some sigs"
    "res = appendProtoBytes out 2 sig @ tail" "read_fields tail = Some (map (Pair 2) sigs)"
    by auto
  have "res = out @ (appendProtoBytes [] 2 sig @ tail)"
    using IH(2) read_field_proto(1) [of 2 sig out] len by simp
  moreover have "read_fields (appendProtoBytes [] 2 sig @ tail) = Some (map (Pair 2) (sig # sigs))"
    using read_fields_proto [of 2 sig tail] len IH(3) by simp
  ultimately show ?case using sig IH(1) by (intro exI [of _ "sig # sigs"] exI conjI) auto
qed

section \<open>ABI words\<close>

text \<open>A value as one 32-byte big-endian word.\<close>

definition word256 :: "nat \<Rightarrow> bytes" where
  "word256 n = replicate (32 - length (Bytes n)) 0 @ Bytes n"

lemma length_word256: "n < 2 ^ 256 \<Longrightarrow> length (word256 n) = 32"
  using length_Bytes_le [of n 32] by (simp add: word256_def)

lemma SetBytes_word256 [simp]: "SetBytes (word256 n) = n"
  by (simp add: word256_def)

lemma hex_EncodeToString_chars: "\<forall>c \<in> set (hex_EncodeToString bs). hex_val c \<noteq> None"
proof (induction bs)
  case (Cons b bs)
  have "unat b div 16 < 16" using unat_byte_less [of b] by linarith
  with Cons show ?case by simp
qed simp

lemma hex_EncodeToString_no_0x: "\<not> HasPrefix (hex_EncodeToString bs) ''0x''"
proof
  assume "HasPrefix (hex_EncodeToString bs) ''0x''"
  then obtain r where r: "hex_EncodeToString bs = ''0x'' @ r" by (auto simp: HasPrefix_append)
  have "hex_val (CHR ''x'') = None" by (simp add: hex_val_def)
  with hex_EncodeToString_chars [of bs] show False by (simp add: r)
qed

lemma ParseUint256_word256: "ParseUint256 (hex_EncodeToString (word256 n)) = Some (int n)"
proof -
  have "\<not> HasPrefix (hex_EncodeToString (word256 n)) ''0x''"
    by (rule hex_EncodeToString_no_0x)
  then show ?thesis by (simp add: ParseUint256_def TrimPrefix_def)
qed

lemma length_Bytes_gt: "32 < length (Bytes n) \<longleftrightarrow> 2 ^ 256 \<le> n"
proof
  assume "32 < length (Bytes n)"
  then show "2 ^ 256 \<le> n" using length_Bytes_le [of n 32] by (rule_tac ccontr) simp
next
  assume n: "2 ^ 256 \<le> n"
  show "32 < length (Bytes n)"
  proof (rule ccontr)
    assume "\<not> 32 < length (Bytes n)"
    then have "(256::nat) ^ length (Bytes n) \<le> 256 ^ 32" by (intro power_increasing) auto
    with SetBytes_less [of "Bytes n"] n show False by simp
  qed
qed

text \<open>The calldata is the selector, the recipient and the amount, each in its own word.\<close>

lemma EncodeTRC20Transfer_eq:
  "EncodeTRC20Transfer kec to amount =
     (case DecodeAddress to of
        Inl e \<Rightarrow> Inl (wrap_err ''encode transfer: '' e)
      | Inr raw \<Rightarrow>
          if 2 ^ 256 \<le> \<bar>amount\<bar> then Inl (errors_new ''amount overflows uint256'')
          else Inr (hex_EncodeToString
            (transfer_selector kec @ replicate 12 0 @ drop 1 raw @ word256 (nat \<bar>amount\<bar>))))"
proof (cases "DecodeAddress to")
  case (Inr raw)
  then have raw: "length raw = 21" using DecodeAddress_raw by (auto simp: raw_address_def)
  let ?n = "nat \<bar>amount\<bar>"
  have big: "2 ^ 256 \<le> \<bar>amount\<bar> \<longleftrightarrow> 32 < length (Bytes ?n)"
    unfolding length_Bytes_gt by (simp add: le_nat_iff)
  show ?thesis
  proof (cases "32 < length (Bytes ?n)")
    case True
    with big Inr show ?thesis by (simp add: EncodeTRC20Transfer_def)
  next
    case False
    have "copy_range 12 32 (replicate 64 0) (drop 1 raw) =
        replicate 12 0 @ drop 1 raw @ replicate 32 (0::byte)"
      using raw by (simp add: copy_range_def Let_def)
    moreover have "copy_range (64 - length (Bytes ?n)) 64
        (replicate 12 0 @ drop 1 raw @ replicate 32 0) (Bytes ?n) =
        replicate 12 0 @ drop 1 raw @ word256 ?n"
      using raw False by (simp add: copy_range_def Let_def word256_def)
    ultimately show ?thesis
      using False big Inr by (simp add: EncodeTRC20Transfer_def)
  qed
qed (simp add: EncodeTRC20Transfer_def)

section \<open>Properties\<close>

text \<open>Decoding and encoding an address are inverse: \<open>DecodeAddress\<close> accepts exactly the
  texts \<open>EncodeAddress\<close> produces, checksum included, and gives back the 21 bytes they stand for.\<close>

theorem address_codec: "DecodeAddress a = Inr raw \<longleftrightarrow> EncodeAddress raw = Inr a"
  using addr.dec_iff by (auto simp: EncodeAddress_Inr)

text \<open>An address the code produces (from a public key, a node's hex string or an event topic) is
  one it accepts: 34 characters, a leading \<open>T\<close>, and \<open>IsValidAddress\<close> holds.\<close>

theorem EncodeAddress_valid:
  assumes "EncodeAddress raw = Inr a"
  shows "IsValidAddress a \<and> length a = 34"
  using assms address_starts_T(2) IsValidAddress_iff DecodeAddress_address_of
  by (auto simp: EncodeAddress_Inr)

theorem EncodeAddress_valid_witness:
  "IsValidAddress (address_of (AddressPrefix # replicate 20 0)) \<and>
   length (address_of (AddressPrefix # replicate 20 0)) = 34"
  by (rule EncodeAddress_valid [of "AddressPrefix # replicate 20 0"])
    (simp add: raw_address_def AddressPrefix_def)

lemma HexToAddress_hex:
  assumes "length raw \<in> {20, 21, 32}"
  shows "HexToAddress (hex_EncodeToString raw) =
     (if length raw = 21 then EncodeAddress raw
      else if length raw = 20 then EncodeAddress (AddressPrefix # raw)
      else EncodeAddress (AddressPrefix # drop 12 raw))"
  using assms hex_EncodeToString_no_0x [of raw] by (auto simp: HexToAddress_def TrimPrefix_def)

text \<open>The three hex forms in which a node names an account (21 bytes with the prefix, the bare 20
  bytes, the 32-byte word of an event topic) give the same base58 address, so a Transfer topic is
  matched against the address the wallet stores.\<close>

theorem HexToAddress_forms:
  assumes "length body = 20"
  shows "HexToAddress (hex_EncodeToString (AddressPrefix # body)) = Inr (address_of (AddressPrefix # body)) \<and>
    HexToAddress (hex_EncodeToString body) = Inr (address_of (AddressPrefix # body)) \<and>
    HexToAddress (hex_EncodeToString (replicate 12 0 @ body)) = Inr (address_of (AddressPrefix # body))"
  using assms HexToAddress_hex [of "AddressPrefix # body"] HexToAddress_hex [of body]
    HexToAddress_hex [of "replicate 12 0 @ body"]
  by (simp add: raw_address_def)

theorem HexToAddress_forms_witness:
  "HexToAddress (hex_EncodeToString (replicate 12 0 @ replicate 20 7)) =
   Inr (address_of (AddressPrefix # replicate 20 7))"
  using HexToAddress_forms [of "replicate 20 7"] by simp

text \<open>\<open>transfer(address,uint256)\<close> calldata determines its recipient and its amount: two
  transfers with the same calldata pay the same address the same number of units.\<close>

theorem EncodeTRC20Transfer_inject:
  assumes "EncodeTRC20Transfer kec to amount = Inr data"
    and "EncodeTRC20Transfer kec to' amount' = Inr data"
    and "0 \<le> amount" and "0 \<le> amount'"
  shows "to = to' \<and> amount = amount'"
proof -
  from assms(1) obtain raw where raw: "DecodeAddress to = Inr raw"
    "data = hex_EncodeToString (transfer_selector kec @ replicate 12 0 @ drop 1 raw @ word256 (nat \<bar>amount\<bar>))"
    by (auto simp: EncodeTRC20Transfer_eq split: sum.splits if_splits)
  from assms(2) obtain raw' where raw': "DecodeAddress to' = Inr raw'"
    "data = hex_EncodeToString (transfer_selector kec @ replicate 12 0 @ drop 1 raw' @ word256 (nat \<bar>amount'\<bar>))"
    by (auto simp: EncodeTRC20Transfer_eq split: sum.splits if_splits)
  have r: "raw_address raw" "raw_address raw'" using raw(1) raw'(1) DecodeAddress_raw by blast+
  from raw(2) raw'(2) r have e: "drop 1 raw = drop 1 raw' \<and> word256 (nat \<bar>amount\<bar>) = word256 (nat \<bar>amount'\<bar>)"
    by (simp add: hex_EncodeToString_inject raw_address_def)
  then have "nat \<bar>amount\<bar> = nat \<bar>amount'\<bar>" using SetBytes_word256 by metis
  moreover have "raw = raw'"
    using e r by (cases raw; cases raw') (auto simp: raw_address_def)
  ultimately show ?thesis
    using assms(3,4) addr.dec_inject raw(1) raw'(1) by auto
qed

theorem EncodeTRC20Transfer_inject_witness:
  "let a = address_of (AddressPrefix # replicate 20 7);
       d = transfer_selector (\<lambda>_. [1, 2, 3, 4]) @ replicate 12 0 @ replicate 20 7 @ word256 5
   in EncodeTRC20Transfer (\<lambda>_. [1, 2, 3, 4]) a 5 = Inr (hex_EncodeToString d) \<and> a = a \<and> (5::int) = 5"
proof -
  let ?a = "address_of (AddressPrefix # replicate 20 7)"
  let ?d = "transfer_selector (\<lambda>_. [1, 2, 3, 4]) @ replicate 12 0 @ replicate 20 7 @ word256 5"
  have e: "EncodeTRC20Transfer (\<lambda>_. [1, 2, 3, 4]) ?a 5 = Inr (hex_EncodeToString ?d)"
    by (simp add: EncodeTRC20Transfer_eq raw_address_def)
  show ?thesis using e EncodeTRC20Transfer_inject [OF e e] by (simp add: Let_def)
qed

text \<open>The bytes posted to \<open>/wallet/broadcasthex\<close> are read back by an independent protobuf
  reader as field 1 with the stored raw data and one field 2 per signature, in order, so a node
  receives the transaction that was signed.\<close>

theorem SerializeSigned_read:
  assumes "SerializeSigned (Some tx) = Inr h"
    and "length (tx_raw_data_hex tx) < 2 ^ 64" and "\<forall>s \<in> set (tx_signature tx). length s < 2 ^ 64"
  shows "\<exists>raw sigs out. hex_DecodeString (TrimPrefix (tx_raw_data_hex tx) ''0x'') = Some raw \<and>
    map (\<lambda>s. hex_DecodeString (TrimPrefix s ''0x'')) (tx_signature tx) = map Some sigs \<and> sigs \<noteq> [] \<and>
    hex_DecodeString h = Some out \<and> read_fields out = Some ((1, raw) # map (Pair 2) sigs)"
proof -
  from assms(1) obtain raw out where raw: "hex_DecodeString (TrimPrefix (tx_raw_data_hex tx) ''0x'') = Some raw"
    and out: "serialize_sigs (appendProtoBytes [] 1 raw) (tx_signature tx) = Inr out"
    and h: "h = hex_EncodeToString out" and ne: "tx_signature tx \<noteq> []"
    by (auto simp: SerializeSigned_def split: if_splits option.splits sum.splits)
  have "2 * length raw \<le> length (tx_raw_data_hex tx)"
    using hex_DecodeString_length [OF raw] by (auto simp: TrimPrefix_def split: if_splits)
  with assms(2) have len: "length raw < 2 ^ 64" by simp
  from serialize_sigs_fields [OF out assms(3)] obtain sigs tail where
    sigs: "map (\<lambda>s. hex_DecodeString (TrimPrefix s ''0x'')) (tx_signature tx) = map Some sigs"
    and tail: "out = appendProtoBytes [] 1 raw @ tail" "read_fields tail = Some (map (Pair 2) sigs)"
    by blast
  have "read_fields out = Some ((1, raw) # map (Pair 2) sigs)"
    using read_fields_proto [of 1 raw tail] len tail by simp
  moreover have "sigs \<noteq> []" using sigs ne by auto
  ultimately show ?thesis using raw sigs h by auto
qed

theorem SerializeSigned_read_witness:
  "\<exists>raw sigs out. hex_DecodeString (TrimPrefix ''0a02'' ''0x'') = Some raw \<and>
     map (\<lambda>s. hex_DecodeString (TrimPrefix s ''0x'')) [''ff''] = map Some sigs \<and> sigs \<noteq> [] \<and>
     hex_DecodeString ''0a020a021201ff'' = Some out \<and> read_fields out = Some ((1, raw) # map (Pair 2) sigs)"
proof -
  let ?tx = "\<lparr>tx_visible = False, tx_id = '''', tx_raw_data = None, tx_raw_data_hex = ''0a02'',
             tx_signature = [''ff'']\<rparr>"
  have s: "SerializeSigned (Some ?tx) = Inr ''0a020a021201ff''" by code_simp
  show ?thesis using SerializeSigned_read [OF s] by simp
qed

text \<open>A signature is only put on the transaction whose id was checked: on success the id is the
  sha256 of the raw data, it agrees with the id the node gave (if any), the raw data is unchanged and
  there is exactly one 65-byte signature.\<close>

theorem SignTransaction_ok:
  assumes "SignTransaction sc (Some tx) priv = Inr tx'"
  shows "TxIDFromRawHex (tx_raw_data_hex tx) = Inr (tx_id tx') \<and>
    tx_raw_data_hex tx' = tx_raw_data_hex tx \<and> tx_raw_data tx' = tx_raw_data tx \<and>
    (tx_id tx = '''' \<or> EqualFold (tx_id tx) (tx_id tx')) \<and>
    (\<exists>sig. tx_signature tx' = [hex_EncodeToString sig] \<and> length sig = 65)"
proof -
  from assms obtain txid digest sig where t: "TxIDFromRawHex (tx_raw_data_hex tx) = Inr txid"
    "tx_id tx = '''' \<or> EqualFold (tx_id tx) txid"
    "signRecoverable sc digest priv = Inr sig"
    "tx' = tx\<lparr>tx_id := txid, tx_signature := [hex_EncodeToString sig]\<rparr>"
    by (auto simp: SignTransaction_def split: if_splits option.splits sum.splits)
  from t(3) have "length sig = 65" by (auto simp: signRecoverable_def Let_def split: if_splits)
  with t show ?thesis by auto
qed

theorem SignTransaction_ok_witness:
  "\<exists>tx'. SignTransaction (\<lambda>_ _. replicate 65 27)
     (Some \<lparr>tx_visible = False, tx_id = '''', tx_raw_data = None, tx_raw_data_hex = ''0a02'', tx_signature = []\<rparr>) () = Inr tx' \<and>
     tx_raw_data_hex tx' = ''0a02''"
proof -
  let ?tx = "\<lparr>tx_visible = False, tx_id = '''', tx_raw_data = None, tx_raw_data_hex = ''0a02'', tx_signature = []\<rparr>"
  have d: "hex_DecodeString (TrimPrefix ''0a02'' ''0x'') = Some [10, 2]" by code_simp
  obtain tx' where tx': "SignTransaction (\<lambda>_ _. replicate 65 27) (Some ?tx) () = Inr tx'"
    by (simp add: SignTransaction_def TxIDFromRawHex_def d signRecoverable_def Let_def)
  from SignTransaction_ok [OF this] tx' show ?thesis by auto
qed

end
