(* ===== verification/Chain.thy ===== *)
theory Chain
  imports Tron
begin

text \<open>
  \<open>internal/chain\<close>: receipts and failure codes (\<open>failure.go\<close>), and the calls of
  \<open>gateway.go\<close> over what \<open>Gateway.call\<close> decoded from a node (\<open>node_api\<close>); the failover
  loop itself is \<open>Gateway\<close>.
\<close>

section \<open>Receipts\<close>

record tx_log =
  lg_address :: string
  lg_topics :: "string list"
  lg_data :: string

record tx_info =
  ti_id :: string
  ti_block_number :: int
  ti_block_timestamp :: int
  ti_contract_address :: string
  ti_fee :: int
  ti_energy_usage_total :: int
  ti_net_usage :: int
  ti_receipt_result :: string
  ti_log :: "tx_log list"
  ti_result :: string
  ti_res_message :: string

record block =
  b_block_id :: string
  b_number :: int
  b_timestamp :: int
  b_parent_hash :: string
  b_witness_address :: string

definition normResult :: "string \<Rightarrow> string" where
  "normResult s = ToUpper (TrimSpace s)"

definition Succeeded :: "tx_info \<Rightarrow> bool" where
  "Succeeded t =
     (let res = normResult (ti_result t)
      in if res \<noteq> '''' \<and> res \<noteq> ''SUCCESS'' then False
         else if ti_res_message t \<noteq> '''' then False
         else let r = normResult (ti_receipt_result t) in r = '''' \<or> r = ''SUCCESS'')"

fun first_reason :: "string list \<Rightarrow> string" where
  "first_reason [] = ''unknown reason''"
| "first_reason (s # ss) =
     (let s' = TrimSpace s
      in if s' \<noteq> '''' \<and> \<not> EqualFold s' ''SUCCESS'' then s' else first_reason ss)"

definition FailureReason :: "tx_info \<Rightarrow> string" where
  "FailureReason t = first_reason [ti_receipt_result t, ti_res_message t, ti_result t]"

section \<open>Failure codes\<close>

definition FailOutOfEnergy :: string where "FailOutOfEnergy = ''out_of_energy''"
definition FailOutOfTime :: string where "FailOutOfTime = ''out_of_time''"
definition FailRevert :: string where "FailRevert = ''revert''"
definition FailContractExec :: string where "FailContractExec = ''contract_exec''"
definition FailSignature :: string where "FailSignature = ''sig_error''"
definition FailValidate :: string where "FailValidate = ''validate_error''"
definition FailBandwidth :: string where "FailBandwidth = ''bandwidth''"
definition FailTapos :: string where "FailTapos = ''tapos_error''"
definition FailTooBig :: string where "FailTooBig = ''too_big_tx''"
definition FailExpired :: string where "FailExpired = ''expired''"
definition FailNode :: string where "FailNode = ''node_error''"
definition FailUnknown :: string where "FailUnknown = ''unknown''"
definition FailNoTransfer :: string where "FailNoTransfer = ''no_transfer_event''"

lemmas fail_codes =
  FailOutOfEnergy_def FailOutOfTime_def FailRevert_def FailContractExec_def FailSignature_def
  FailValidate_def FailBandwidth_def FailTapos_def FailTooBig_def FailExpired_def FailNode_def
  FailUnknown_def FailNoTransfer_def

definition ClassifyReceipt :: "tx_info option \<Rightarrow> string" where
  "ClassifyReceipt infop =
     (case infop of
        None \<Rightarrow> FailUnknown
      | Some info \<Rightarrow>
          let r = ToUpper (TrimSpace (ti_receipt_result info)); msg = ToLower (ti_res_message info)
          in if r = ''OUT_OF_ENERGY'' then FailOutOfEnergy
             else if r = ''OUT_OF_TIME'' then FailOutOfTime
             else if r = ''REVERT'' then FailRevert
             else if r \<in> set [''BAD_JUMP_DESTINATION'', ''ILLEGAL_OPERATION'', ''STACK_TOO_SMALL'',
               ''STACK_TOO_LARGE'', ''TRANSFER_FAILED'', ''INVALID_CODE'', ''JVM_STACK_OVER_FLOW'',
               ''OUT_OF_MEMORY'', ''PRECOMPILED_CONTRACT'', ''STACK_OVERFLOW'', ''UNKNOWN''] then
               FailContractExec
             else if Contains msg ''out of energy'' \<or> Contains msg ''not enough energy'' \<or>
               Contains msg ''energy limit'' then FailOutOfEnergy
             else if Contains msg ''revert'' then FailRevert
             else if msg \<noteq> '''' then FailContractExec
             else FailUnknown)"

definition ClassifyBroadcast :: "string \<Rightarrow> string \<Rightarrow> string \<times> bool" where
  "ClassifyBroadcast code message =
     (let c = ToUpper (TrimSpace code); msg = ToLower message
      in if c = ''SIGERROR'' then (FailSignature, True)
         else if c = ''CONTRACT_VALIDATE_ERROR'' then (FailValidate, True)
         else if c = ''CONTRACT_EXE_ERROR'' then (FailContractExec, True)
         else if c = ''BANDWITH_ERROR'' \<or> c = ''BANDWIDTH_ERROR'' then (FailBandwidth, True)
         else if c = ''TAPOS_ERROR'' then (FailTapos, True)
         else if c = ''TOO_BIG_TRANSACTION_ERROR'' then (FailTooBig, True)
         else if c = ''TRANSACTION_EXPIRATION_ERROR'' \<or> c = ''EXPIRATION_ERROR'' then (FailExpired, True)
         else if c \<in> set [''SERVER_BUSY'', ''NO_CONNECTION'', ''NOT_ENOUGH_EFFECTIVE_CONNECTION'',
           ''BLOCK_UNSOLIDIFIED'', ''OTHER_ERROR''] then (FailNode, False)
         else if Contains msg ''signature'' then (FailSignature, True)
         else if Contains msg ''expired'' then (FailExpired, True)
         else if Contains msg ''balance is not sufficient'' \<or> Contains msg ''assert null'' \<or>
           Contains msg ''validate'' then (FailValidate, True)
         else if Contains msg ''bandwidth'' then (FailBandwidth, True)
         else (FailNode, False))"

section \<open>Node messages\<close>

definition hexDecode :: "string \<Rightarrow> bytes option" where
  "hexDecode s = hex_DecodeString (TrimPrefix s ''0x'')"

definition isPrintable :: "bytes \<Rightarrow> bool" where
  "isPrintable b \<longleftrightarrow> list_all (\<lambda>c. \<not> (c < 0x20 \<or> c > 0x7e)) b \<and> length b > 0"

definition decodeHexMessage :: "string \<Rightarrow> string" where
  "decodeHexMessage msg =
     (if msg = '''' then ''''
      else case hexDecode msg of
        Some b \<Rightarrow> if isPrintable b then string_of_bytes b else msg
      | None \<Rightarrow> msg)"

definition isDuplicate :: "string \<Rightarrow> string \<Rightarrow> bool" where
  "isDuplicate code message =
     (if ToUpper code = ''DUP_TRANSACTION_ERROR'' then True
      else let m = ToLower message in Contains m ''dup transaction'' \<or> Contains m ''already exists'')"

section \<open>Accounts and prices\<close>

record account_resource =
  ar_free_net_limit :: int
  ar_free_net_used :: int
  ar_net_limit :: int
  ar_net_used :: int
  ar_energy_limit :: int
  ar_energy_used :: int
  ar_total_energy_limit :: int
  ar_total_energy_weight :: int

definition AvailableEnergy :: "account_resource \<Rightarrow> int" where
  "AvailableEnergy a =
     (if ar_energy_limit a \<le> ar_energy_used a then 0 else i64 (ar_energy_limit a - ar_energy_used a))"

definition AvailableBandwidth :: "account_resource \<Rightarrow> int" where
  "AvailableBandwidth a =
     (let free = i64 (ar_free_net_limit a - ar_free_net_used a);
          staked = i64 (ar_net_limit a - ar_net_used a);
          total = i64 (free + staked)
      in if total < 0 then 0 else total)"

record chain_parameters =
  cp_energy_fee_sun :: int
  cp_transaction_fee_sun :: int

fun apply_parameter :: "chain_parameters \<Rightarrow> string \<times> int \<Rightarrow> chain_parameters" where
  "apply_parameter p (k, v) =
     (if k = ''getEnergyFee'' then p\<lparr>cp_energy_fee_sun := v\<rparr>
      else if k = ''getTransactionFee'' then p\<lparr>cp_transaction_fee_sun := v\<rparr>
      else p)"

section \<open>What the nodes answer\<close>

record trigger_result =
  tg_result :: bool
  tg_code :: string
  tg_message :: string
  tg_constant_result :: "string list"
  tg_transaction :: "transaction option"
  tg_energy_used :: int

text \<open>One node's answer to a broadcast: parked, unreachable, undecodable, or a reply.\<close>

datatype bc_answer =
    BcCooling
  | BcErr go_error
  | BcUndecodable
  | BcReply bool string string

text \<open>
  The decoded outcome of \<open>Gateway.call\<close> per path and request body, for the calls of one run of a
  worker; \<open>na_broadcast\<close> is every node's name and answer in priority order.
\<close>

record node_api =
  na_solidity_confirm :: bool
  na_now_block :: "block result"
  na_block :: "int \<Rightarrow> block result"
  na_infos :: "int \<Rightarrow> tx_info list result"
  na_tx_info :: "bool \<Rightarrow> string \<Rightarrow> tx_info result"
  na_trigger_constant :: "string \<Rightarrow> string \<Rightarrow> string \<Rightarrow> trigger_result result"
  na_trigger_smart :: "string \<Rightarrow> string \<Rightarrow> string \<Rightarrow> int \<Rightarrow> trigger_result result"
  na_create_transaction :: "string \<Rightarrow> string \<Rightarrow> int \<Rightarrow> transaction result"
  na_account_resource :: "string \<Rightarrow> account_resource result"
  na_account_balance :: "string \<Rightarrow> int result"
  na_chain_parameters :: "(string \<times> int) list result"
  na_broadcast :: "transaction \<Rightarrow> (string \<times> bc_answer) list"

definition GetNowBlock :: "node_api \<Rightarrow> block result" where
  "GetNowBlock g =
     (case na_now_block g of
        Inl e \<Rightarrow> Inl e
      | Inr b \<Rightarrow> if b_block_id b = '''' then Inl (errors_new ''empty block returned'') else Inr b)"

definition GetBlockByNum :: "node_api \<Rightarrow> int \<Rightarrow> block result" where
  "GetBlockByNum g num =
     (case na_block g num of
        Inl e \<Rightarrow> Inl e
      | Inr b \<Rightarrow>
          if b_block_id b = '''' then Inl (errors_new (''block '' @ big_String num @ '' not found''))
          else Inr b)"

definition GetTxInfoByBlockNum :: "node_api \<Rightarrow> int \<Rightarrow> tx_info list result" where
  "GetTxInfoByBlockNum g num = na_infos g num"

text \<open>\<open>walletPath\<close>: a solidity read only reaches the solidity node when it is configured.\<close>

definition walletPath :: "node_api \<Rightarrow> string \<Rightarrow> bool \<Rightarrow> string" where
  "walletPath g p solidity =
     (if solidity \<and> na_solidity_confirm g then ''/walletsolidity'' @ p else ''/wallet'' @ p)"

definition txInfoByID :: "node_api \<Rightarrow> string \<Rightarrow> bool \<Rightarrow> tx_info option result" where
  "txInfoByID g txid solidity =
     (case na_tx_info g (solidity \<and> na_solidity_confirm g) txid of
        Inl e \<Rightarrow> Inl e
      | Inr info \<Rightarrow> if ti_id info = '''' then Inr None else Inr (Some info))"

definition GetTxInfoByID :: "node_api \<Rightarrow> string \<Rightarrow> tx_info option result" where
  "GetTxInfoByID g txid = txInfoByID g txid False"

definition GetTxInfoByIDConfirmed :: "node_api \<Rightarrow> string \<Rightarrow> tx_info option result" where
  "GetTxInfoByIDConfirmed g txid = txInfoByID g txid True"

definition TriggerConstantContract ::
  "node_api \<Rightarrow> string \<Rightarrow> string \<Rightarrow> string \<Rightarrow> (string \<times> int) result" where
  "TriggerConstantContract g owner contract data =
     (case AddressToHex owner of
        Inl e \<Rightarrow> Inl e
      | Inr ownerHex \<Rightarrow>
          case AddressToHex contract of
            Inl e \<Rightarrow> Inl e
          | Inr contractHex \<Rightarrow>
              case na_trigger_constant g ownerHex contractHex data of
                Inl e \<Rightarrow> Inl e
              | Inr out \<Rightarrow>
                  if \<not> tg_result out \<and> tg_code out \<noteq> '''' then
                    Inl (errors_new (''constant call failed: '' @ tg_code out @ '' '' @
                      decodeHexMessage (tg_message out)))
                  else case tg_constant_result out of
                    [] \<Rightarrow> Inr ('''', tg_energy_used out)
                  | r # _ \<Rightarrow> Inr (r, tg_energy_used out))"

definition BuildTRC20Transfer ::
  "node_api \<Rightarrow> string \<Rightarrow> string \<Rightarrow> string \<Rightarrow> int \<Rightarrow> transaction result" where
  "BuildTRC20Transfer g owner contract data feeLimit =
     (case AddressToHex owner of
        Inl e \<Rightarrow> Inl e
      | Inr ownerHex \<Rightarrow>
          case AddressToHex contract of
            Inl e \<Rightarrow> Inl e
          | Inr contractHex \<Rightarrow>
              case na_trigger_smart g ownerHex contractHex data feeLimit of
                Inl e \<Rightarrow> Inl e
              | Inr out \<Rightarrow>
                  case tg_transaction out of
                    None \<Rightarrow> Inl (errors_new (''build transfer failed: '' @ tg_code out @ '' '' @
                      decodeHexMessage (tg_message out)))
                  | Some tx \<Rightarrow> Inr tx)"

definition BuildTRXTransfer :: "node_api \<Rightarrow> string \<Rightarrow> string \<Rightarrow> int \<Rightarrow> transaction result" where
  "BuildTRXTransfer g from to amountSun =
     (case AddressToHex from of
        Inl e \<Rightarrow> Inl e
      | Inr fromHex \<Rightarrow>
          case AddressToHex to of
            Inl e \<Rightarrow> Inl e
          | Inr toHex \<Rightarrow>
              case na_create_transaction g fromHex toHex amountSun of
                Inl e \<Rightarrow> Inl e
              | Inr tx \<Rightarrow>
                  if tx_raw_data_hex tx = '''' then
                    Inl (errors_new ''node returned an empty transaction'')
                  else Inr tx)"

definition GetAccountResource :: "node_api \<Rightarrow> string \<Rightarrow> account_resource result" where
  "GetAccountResource g addr =
     (case AddressToHex addr of Inl e \<Rightarrow> Inl e | Inr h \<Rightarrow> na_account_resource g h)"

definition GetTRXBalance :: "node_api \<Rightarrow> string \<Rightarrow> int result" where
  "GetTRXBalance g addr =
     (case AddressToHex addr of Inl e \<Rightarrow> Inl e | Inr h \<Rightarrow> na_account_balance g h)"

definition GetChainParameters :: "node_api \<Rightarrow> chain_parameters result" where
  "GetChainParameters g =
     (case na_chain_parameters g of
        Inl e \<Rightarrow> Inl e
      | Inr kvs \<Rightarrow>
          Inr (foldl apply_parameter \<lparr>cp_energy_fee_sun = 100, cp_transaction_fee_sun = 1000\<rparr> kvs))"

section \<open>Broadcast\<close>

record broadcast_result =
  br_txid :: string
  br_accepted :: bool
  br_duplicated :: bool
  br_code :: string
  br_message :: string

datatype bc_request = BroadcastHex string | BroadcastTransaction "transaction option"

definition broadcastRequest :: "transaction option \<Rightarrow> bc_request result" where
  "broadcastRequest txp =
     (case txp of
        Some tx \<Rightarrow>
          if tx_raw_data tx = None \<or> tx_raw_data tx = Some [] then
            (case SerializeSigned txp of Inl e \<Rightarrow> Inl e | Inr h \<Rightarrow> Inr (BroadcastHex h))
          else Inr (BroadcastTransaction txp)
      | None \<Rightarrow> Inr (BroadcastTransaction None))"

definition bc_rejected :: "string \<Rightarrow> string \<Rightarrow> string \<Rightarrow> go_error" where
  "bc_rejected name code msg =
     (let reason = TrimSpace (code @ '' '' @ msg)
      in errors_new (''broadcast rejected: '' @
           (if reason = '''' then ''unknown reason ('' @ name @ '')'' else reason)))"

text \<open>The loop over the nodes: the first reply decides, a node that gave none is skipped.\<close>

fun broadcast_nodes ::
  "string \<Rightarrow> (string \<times> bc_answer) list \<Rightarrow> go_error option \<Rightarrow> broadcast_result option \<times> go_error option" where
  "broadcast_nodes txid [] lastErr =
     (None, Some (Err ErrNoNodeAvailable (''chain: no node available: '' @
        (case lastErr of None \<Rightarrow> ''<nil>'' | Some e \<Rightarrow> err_msg e))))"
| "broadcast_nodes txid ((name, a) # ns) lastErr =
     (case a of
        BcCooling \<Rightarrow> broadcast_nodes txid ns (Some (errors_new (name @ '': rate limited'')))
      | BcErr e \<Rightarrow> broadcast_nodes txid ns (Some (wrap_err (name @ '': '') e))
      | BcUndecodable \<Rightarrow> broadcast_nodes txid ns (Some (errors_new (name @ '': decode broadcast'')))
      | BcReply result code message \<Rightarrow>
          let out = \<lparr>br_txid = txid, br_accepted = False, br_duplicated = False, br_code = code,
                br_message = decodeHexMessage message\<rparr>
          in if result then (Some (out\<lparr>br_accepted := True\<rparr>), None)
             else if isDuplicate code (br_message out) then
               (Some (out\<lparr>br_accepted := True, br_duplicated := True\<rparr>), None)
             else (Some out, Some (bc_rejected name code (br_message out))))"

definition Broadcast :: "node_api \<Rightarrow> transaction \<Rightarrow> broadcast_result option \<times> go_error option" where
  "Broadcast g tx =
     (case broadcastRequest (Some tx) of
        Inl e \<Rightarrow> (None, Some e)
      | Inr _ \<Rightarrow> broadcast_nodes (tx_id tx) (na_broadcast g tx) None)"

text \<open>What callers rely on: the id is the transaction's, no error means a node took it.\<close>

lemma broadcast_nodes_txid:
  "broadcast_nodes txid ns lastErr = (Some r, e) \<Longrightarrow> br_txid r = txid"
proof (induction ns arbitrary: lastErr)
  case (Cons x ns)
  obtain name a where x: "x = (name, a)" by (cases x)
  show ?case using Cons unfolding x by (cases a) (simp_all add: Let_def, fastforce split: if_splits)
qed simp

lemma broadcast_nodes_ok:
  "broadcast_nodes txid ns lastErr = (r, None) \<Longrightarrow> \<exists>x. r = Some x \<and> br_accepted x \<and> br_txid x = txid"
proof (induction ns arbitrary: lastErr)
  case (Cons x ns)
  obtain name a where x: "x = (name, a)" by (cases x)
  show ?case using Cons unfolding x by (cases a) (simp_all add: Let_def, fastforce split: if_splits)
qed simp

lemma Broadcast_txid: "Broadcast g tx = (Some r, e) \<Longrightarrow> br_txid r = tx_id tx"
  by (auto simp: Broadcast_def broadcast_nodes_txid split: sum.splits)

lemma Broadcast_ok: "Broadcast g tx = (r, None) \<Longrightarrow> \<exists>x. r = Some x \<and> br_accepted x \<and> br_txid x = tx_id tx"
  by (auto simp: Broadcast_def dest: broadcast_nodes_ok split: sum.splits)

lemma AvailableEnergy_nonneg:
  "in_i64 (ar_energy_limit a) \<Longrightarrow> in_i64 (ar_energy_used a) \<Longrightarrow> 0 \<le> ar_energy_used a \<Longrightarrow> 0 \<le> AvailableEnergy a"
  by (auto simp: AvailableEnergy_def in_i64_def intro!: ord_le_eq_trans [OF _ i64_id [symmetric]])

section \<open>Instances\<close>

text \<open>A node that answers nothing; the witnesses fill in the calls they need.\<close>

definition down_node :: node_api where
  "down_node =
     (let down = errors_new ''down''
      in \<lparr>na_solidity_confirm = True, na_now_block = Inl down, na_block = (\<lambda>_. Inl down),
          na_infos = (\<lambda>_. Inl down), na_tx_info = (\<lambda>_ _. Inl down),
          na_trigger_constant = (\<lambda>_ _ _. Inl down), na_trigger_smart = (\<lambda>_ _ _ _. Inl down),
          na_create_transaction = (\<lambda>_ _ _. Inl down), na_account_resource = (\<lambda>_. Inl down),
          na_account_balance = (\<lambda>_. Inl down), na_chain_parameters = Inl down,
          na_broadcast = (\<lambda>_. [])\<rparr>)"

definition zero_resource :: account_resource where
  "zero_resource = \<lparr>ar_free_net_limit = 0, ar_free_net_used = 0, ar_net_limit = 0, ar_net_used = 0,
     ar_energy_limit = 0, ar_energy_used = 0, ar_total_energy_limit = 0, ar_total_energy_weight = 0\<rparr>"

text \<open>A well-formed address for each number.\<close>

definition sample_address :: "byte \<Rightarrow> string" where
  "sample_address n = address_of (AddressPrefix # replicate 20 n)"

lemma raw_sample [simp]: "raw_address (AddressPrefix # replicate 20 n)"
  by (simp add: raw_address_def)

lemma sample_address_valid [simp]:
  "IsValidAddress (sample_address n)"
  "DecodeAddress (sample_address n) = Inr (AddressPrefix # replicate 20 n)"
  "AddressToHex (sample_address n) = Inr (hex_EncodeToString (AddressPrefix # replicate 20 n))"
  by (simp_all add: sample_address_def IsValidAddress_iff AddressToHex_def)

lemma sample_address_inj [simp]: "sample_address m = sample_address n \<longleftrightarrow> m = n"
proof
  assume "sample_address m = sample_address n"
  then have "DecodeAddress (sample_address m) = DecodeAddress (sample_address n)" by simp
  then show "m = n" by (simp add: numeral_eq_Suc)
qed simp


end
