(* ===== verification/Float64.thy ===== *)
theory Float64
  imports Model "HOL-Library.Log_Nat"
begin

text \<open>
  IEEE 754 binary64 as Go's \<open>float64\<close>: a finite value is the rational it denotes and an operation
  is the exact one followed by \<open>fl64\<close>, rounding to nearest, ties to even. Infinities and NaN are
  not values of the model: prices, balances and thresholds are finite.
\<close>

text \<open>\<open>floor (log2 x)\<close> of a positive rational.\<close>

definition rat_exponent :: "rat \<Rightarrow> int" where
  "rat_exponent x =
     (let (p, q) = quotient_of x; k = int (floorlog 2 (nat p)) - int (floorlog 2 (nat q))
      in if (2::rat) powi k \<le> x then k else k - 1)"

definition round_half_even :: "rat \<Rightarrow> int" where
  "round_half_even x =
     (let f = \<lfloor>x\<rfloor>; d = x - of_int f
      in if d < 1 / 2 then f else if 1 / 2 < d then f + 1 else if even f then f else f + 1)"

definition fl64 :: "rat \<Rightarrow> float64" where
  "fl64 x =
     (if x = 0 then 0
      else let q = (2::rat) powi (max (rat_exponent \<bar>x\<bar>) (-1022) - 52)
           in of_int (round_half_even (x / q)) * q)"

text \<open>\<open>float64(n)\<close>, \<open>int64(x)\<close> and the literal \<open>x\<close>.\<close>

definition float_of_int :: "int \<Rightarrow> float64" where
  "float_of_int n = fl64 (of_int n)"

definition int_of_float :: "float64 \<Rightarrow> int" where
  "int_of_float x = (if 0 \<le> x then \<lfloor>x\<rfloor> else \<lceil>x\<rceil>)"

section \<open>Rounding\<close>

lemma round_half_even_bounds: "\<lfloor>x\<rfloor> \<le> round_half_even x" "round_half_even x \<le> \<lfloor>x\<rfloor> + 1"
  by (simp_all add: round_half_even_def Let_def)

lemma round_half_even_ge: "of_int n \<le> x \<Longrightarrow> n \<le> round_half_even x"
  using round_half_even_bounds(1) [of x] by (meson le_floor_iff order_trans)

lemma round_half_even_le: "x \<le> of_int n \<Longrightarrow> round_half_even x \<le> n"
proof -
  assume x: "x \<le> of_int n"
  show ?thesis
  proof (cases "\<lfloor>x\<rfloor> = n")
    case True
    then have "x - of_int \<lfloor>x\<rfloor> < 1 / 2" using x by simp
    with True show ?thesis by (simp add: round_half_even_def Let_def)
  next
    case False
    have "\<lfloor>x\<rfloor> \<le> n" using x by linarith
    with False have "\<lfloor>x\<rfloor> + 1 \<le> n" by linarith
    with round_half_even_bounds(2) [of x] show ?thesis by linarith
  qed
qed

lemma round_half_even_int [simp]: "round_half_even (of_int n) = n"
  by (simp add: round_half_even_def)

lemma powi_add_nat: "(2::rat) powi (m + int k) = 2 powi m * 2 ^ k"
  by (simp add: power_int_add)

lemma nat_floorlog:
  assumes "0 < (p::int)"
  shows "2 ^ (floorlog 2 (nat p) - 1) \<le> p" and "p < 2 ^ floorlog 2 (nat p)" and "0 < floorlog 2 (nat p)"
proof -
  have p: "0 < nat p" using assms by simp
  have "2 ^ (floorlog 2 (nat p) - 1) \<le> nat p \<and> nat p < 2 ^ floorlog 2 (nat p)"
    using floorlog_bounds [OF p, of 2] by simp
  then show "2 ^ (floorlog 2 (nat p) - 1) \<le> p" "p < 2 ^ floorlog 2 (nat p)"
    using assms by (auto simp: le_nat_iff zless_nat_eq_int_zless nat_less_iff)
  show "0 < floorlog 2 (nat p)" using p by (simp add: floorlog_def)
qed

lemma rat_exponent_le:
  assumes "0 < x"
  shows "(2::rat) powi rat_exponent x \<le> x"
proof -
  obtain p q where pq: "quotient_of x = (p, q)" by (cases "quotient_of x")
  have q: "0 < q" using pq by (rule quotient_of_denom_pos)
  have x: "x = of_int p / of_int q" using pq by (rule quotient_of_div)
  have p: "0 < p" using assms q by (simp add: x zero_less_divide_iff)
  let ?a = "floorlog 2 (nat p)" and ?b = "floorlog 2 (nat q)"
  show ?thesis
  proof (cases "(2::rat) powi (int ?a - int ?b) \<le> x")
    case True
    then show ?thesis by (simp add: rat_exponent_def pq Let_def)
  next
    case False
    have a: "(2::rat) ^ (?a - 1) \<le> of_int p"
      using nat_floorlog(1) [OF p] by (metis of_int_le_iff of_int_numeral of_int_power)
    have b: "of_int q < (2::rat) ^ ?b"
      using nat_floorlog(2) [OF q] by (metis of_int_less_iff of_int_numeral of_int_power)
    have "(2::rat) powi (int ?a - int ?b - 1) = 2 ^ (?a - 1) / 2 ^ ?b"
      using nat_floorlog(3) [OF p]
      by (simp add: power_int_diff power_diff)
    also have "\<dots> \<le> of_int p / of_int q"
      using a b q p by (intro frac_le) (auto intro: less_imp_le)
    also have "\<dots> = x" by (rule x [symmetric])
    finally show ?thesis using False by (simp add: rat_exponent_def pq Let_def)
  qed
qed

lemma rat_exponent_less:
  assumes "0 < x"
  shows "x < (2::rat) powi (rat_exponent x + 1)"
proof -
  obtain p q where pq: "quotient_of x = (p, q)" by (cases "quotient_of x")
  have q: "0 < q" using pq by (rule quotient_of_denom_pos)
  have x: "x = of_int p / of_int q" using pq by (rule quotient_of_div)
  have p: "0 < p" using assms q by (simp add: x zero_less_divide_iff)
  let ?a = "floorlog 2 (nat p)" and ?b = "floorlog 2 (nat q)"
  show ?thesis
  proof (cases "(2::rat) powi (int ?a - int ?b) \<le> x")
    case False
    then show ?thesis by (simp add: rat_exponent_def pq Let_def)
  next
    case True
    have a: "of_int p < (2::rat) ^ ?a"
      using nat_floorlog(2) [OF p] by (metis of_int_less_iff of_int_numeral of_int_power)
    have b: "(2::rat) ^ (?b - 1) \<le> of_int q"
      using nat_floorlog(1) [OF q] by (metis of_int_le_iff of_int_numeral of_int_power)
    have "of_int p / of_int q < (2::rat) ^ ?a / 2 ^ (?b - 1)"
      using a b q p by (intro frac_less) auto
    also have "\<dots> = 2 powi (int ?a - int ?b + 1)"
      using nat_floorlog(3) [OF q] by (simp add: power_int_diff power_int_add power_diff)
    finally have "x < 2 powi (int ?a - int ?b + 1)" by (subst x)
    with True show ?thesis by (simp add: rat_exponent_def pq Let_def)
  qed
qed

lemma rat_exponent_eqI:
  assumes "(2::rat) powi k \<le> x" and "x < 2 powi (k + 1)"
  shows "rat_exponent x = k"
proof -
  have x: "0 < x" using assms(1) by (rule less_le_trans [rotated]) simp
  have "(2::rat) powi k < 2 powi (rat_exponent x + 1)" "(2::rat) powi rat_exponent x < 2 powi (k + 1)"
    using assms rat_exponent_le [OF x] rat_exponent_less [OF x] by linarith+
  moreover have "k \<le> rat_exponent x \<or> rat_exponent x + 1 \<le> k"
    "rat_exponent x \<le> k \<or> k + 1 \<le> rat_exponent x" by linarith+
  ultimately show ?thesis
    using power_int_increasing [of "rat_exponent x + 1" k "2::rat"]
      power_int_increasing [of "k + 1" "rat_exponent x" "2::rat"] by auto
qed

text \<open>Rounding of a normal value, with its exponent given.\<close>

lemma fl64_eq:
  assumes "(2::rat) powi k \<le> x" and "x < 2 powi (k + 1)" and "-1022 \<le> k"
  shows "fl64 x = of_int (round_half_even (x / 2 powi (k - 52))) * 2 powi (k - 52)"
proof -
  have "0 < x" using assms(1) by (rule less_le_trans [rotated]) simp
  then show ?thesis using assms(3) by (simp add: fl64_def Let_def rat_exponent_eqI [OF assms(1,2)])
qed

text \<open>Evaluates \<open>fl64_eq\<close> at a literal.\<close>

lemmas fl64_simps = power_int_def power_divide round_half_even_def Let_def

lemma fl64_0 [simp]: "fl64 0 = 0"
  by (simp add: fl64_def)

text \<open>Rounding never takes a value below an integer of at most 53 bits that it is not below.\<close>

lemma fl64_ge_int:
  assumes "of_int n \<le> x" and "0 \<le> n" and "n \<le> 2 ^ 53"
  shows "of_int n \<le> fl64 x"
proof (cases "x = 0")
  case True
  with assms show ?thesis by (simp add: fl64_def)
next
  case False
  with assms have x: "0 < x" by (smt (verit, best) of_int_0_le_iff order_trans le_less)
  let ?e = "rat_exponent x"
  let ?E = "max ?e (-1022) - 52"
  have fl: "fl64 x = of_int (round_half_even (x / 2 powi ?E)) * 2 powi ?E"
    using x False by (simp add: fl64_def Let_def)
  have pos: "(0::rat) < 2 powi ?E" by simp
  show ?thesis
  proof (cases "0 \<le> ?E")
    case True
    then have E: "?E = int (nat ?E)" by simp
    then have eq: "?e = ?E + int 52" by linarith
    have "(2::rat) powi ?e = 2 powi ?E * 2 ^ 52"
      using powi_add_nat [of ?E 52] eq by simp
    then have "2 powi ?E * (2::rat) ^ 52 \<le> x"
      using rat_exponent_le [OF x] by simp
    then have "(2::rat) ^ 52 \<le> x / 2 powi ?E"
      using pos by (simp only: pos_le_divide_eq mult.commute)
    then have r: "2 ^ 52 \<le> round_half_even (x / 2 powi ?E)"
      by (intro round_half_even_ge) simp
    show ?thesis
    proof (cases "?E = 0")
      case True
      then show ?thesis using round_half_even_ge [of n x] assms(1) fl by simp
    next
      case False
      with E have "1 \<le> nat ?E" by linarith
      then have "(2::rat) ^ 1 \<le> 2 ^ nat ?E" by (intro power_increasing) auto
      then have t: "(2::rat) \<le> 2 powi ?E" by (subst E) (simp only: power_int_of_nat power_one_right)
      have "(2::rat) ^ 52 \<le> of_int (round_half_even (x / 2 powi ?E))"
        using r by (metis of_int_le_iff of_int_numeral of_int_power)
      then have "(2::rat) ^ 52 * 2 \<le> of_int (round_half_even (x / 2 powi ?E)) * 2 powi ?E"
        using t by (intro mult_mono) auto
      moreover have "of_int n \<le> (2::rat) ^ 53"
        using assms(3) by (metis of_int_le_iff of_int_numeral of_int_power)
      ultimately show ?thesis by (simp add: fl)
    qed
  next
    case False
    then obtain k where k: "?E = - int k" by (metis int_nat_eq minus_minus neg_0_le_iff_le linorder_linear nat_0_le)
    have "of_int (n * 2 ^ k) \<le> x / 2 powi ?E"
      using assms(1) pos by (simp add: k power_int_minus field_simps)
    then have "n * 2 ^ k \<le> round_half_even (x / 2 powi ?E)" by (rule round_half_even_ge)
    then have "of_int (n * 2 ^ k) * 2 powi ?E \<le> fl64 x"
      unfolding fl by (intro mult_right_mono) (simp_all flip: of_int_le_iff [where 'a = rat])
    then show ?thesis by (simp add: k power_int_minus field_simps)
  qed
qed

section \<open>Shortest decimal\<close>

text \<open>
  \<open>strconv.FormatFloat(x, 'f', -1, 64)\<close> for \<open>|x| < 2^53\<close>: the fewest decimals that round back to
  \<open>x\<close>. A binary64 has at most 1074 binary and so at most 1074 decimal places.
\<close>

definition decimal_digits :: "float64 \<Rightarrow> nat \<Rightarrow> int" where
  "decimal_digits x k = round_half_even (x * 10 ^ k)"

fun shortest_from :: "nat \<Rightarrow> nat \<Rightarrow> float64 \<Rightarrow> nat" where
  "shortest_from 0 k x = k"
| "shortest_from (Suc fuel) k x =
     (if fl64 (of_int (decimal_digits x k) / 10 ^ k) = x then k else shortest_from fuel (Suc k) x)"

definition FormatTRX :: "float64 \<Rightarrow> string" where
  "FormatTRX x =
     (let k = shortest_from 1075 0 x;
          n = decimal_digits x k;
          sign = (if n < 0 then ''-'' else '''');
          whole = \<bar>n\<bar> div 10 ^ k;
          frac = \<bar>n\<bar> mod 10 ^ k
      in if k = 0 then sign @ big_String whole
         else sign @ big_String whole @ ''.'' @ padLeft (big_String frac) (int k))"

end
