(* ===== verification/Config.thy ===== *)
theory Config
  imports Tron Float64 "HOL-Library.AList"
begin

text \<open>
  The settings of \<open>internal/config/config.go\<close> the modelled components read, their defaults and
  their validation. A duration is the value \<open>config.Duration\<close> yields, in nanoseconds; an unset
  \<open>*bool\<close> is \<open>None\<close>; a map is an association list with distinct keys.
\<close>

record bloom_config =
  bc_expected_addresses :: int
  bc_false_positive_rate :: float64
  bc_load_batch :: int

record node_config =
  nd_name :: string
  nd_type :: string
  nd_endpoint :: string
  nd_api_key :: string
  nd_headers :: "(string \<times> string) list"
  nd_priority :: int
  nd_enabled :: bool
  nd_qps :: float64
  nd_burst :: int

record chain_config =
  hc_nodes :: "node_config list"
  hc_solidity_for_confirm :: bool
  hc_retry_per_node :: int
  hc_rate_limit_wait :: time

record token_config =
  tc_symbol :: string
  tc_contract :: string
  tc_decimals :: int
  tc_enabled :: bool

record named_address =
  sys_address :: string
  sys_path :: string

record wallet_config =
  wc_account_path :: string
  wc_tokens :: "token_config list"
  wc_hot_wallet :: named_address
  wc_sweep_wallet :: named_address
  wc_gas_account :: named_address
  wc_index_batch :: int

record deposit_config =
  dc_start_block :: int
  dc_batch_blocks :: int
  dc_fetch_concurrency :: int
  dc_confirmations :: int
  dc_reorg_depth :: int
  dc_min_deposit_units :: string

record withdraw_config =
  wd_fee_limit_sun :: int
  wd_tx_expiration_sec :: int
  wd_max_amount_units :: string
  wd_daily_max_units :: string
  wd_confirm_blocks :: int
  wd_halt_max_retries :: int
  wd_energy_rental :: "bool option"

record sweep_threshold_config =
  st_target_cost_ratio :: float64
  st_safety_multiple :: float64
  st_min_usdt :: float64
  st_max_usdt :: float64
  st_trx_price_usd :: float64
  st_trx_price_url :: string
  st_stale_days :: int
  st_fixed_usdt :: float64
  st_max_skip_rounds :: int

record sweep_config =
  sc_fee_limit_sun :: int
  sc_tx_expiration_sec :: int
  sc_threshold :: sweep_threshold_config
  sc_max_per_round :: int
  sc_max_energy_retries :: int
  sc_energy_rental :: "bool option"

record provider_conf =
  pv_enabled :: bool
  pv_options :: "(string \<times> string) list"

record energy_pool_config =
  pc_enabled :: bool
  pc_low_water_txs :: int
  pc_batch_txs :: int
  pc_max_batch_txs :: int

record provider_topup_conf =
  tp_enabled :: bool
  tp_low_watermark_trx :: float64
  tp_target_trx :: float64
  tp_max_single_topup_trx :: float64
  tp_max_daily_topup_trx :: float64
  tp_max_daily_topup_count :: int
  tp_deposit_address_url :: string

record auto_topup_config =
  at_enabled :: bool
  at_source_address :: string
  at_providers :: "(string \<times> provider_topup_conf) list"

record energy_config =
  ec_rental_enabled :: "bool option"
  ec_mode :: string
  ec_fixed :: string
  ec_quote_cache_ttl :: time
  ec_default_period :: string
  ec_energy_per_tx :: int
  ec_energy_per_tx_new :: int
  ec_pending_grace :: time
  ec_pending_timeout :: time
  ec_providers :: "(string \<times> provider_conf) list"
  ec_pool :: energy_pool_config
  ec_auto_topup :: auto_topup_config

record notify_config =
  nc_batch_size :: int
  nc_max_retry :: int

record config =
  cf_network :: string
  cf_mysql_dsn :: string
  cf_redis_prefix :: string
  cf_wallet :: wallet_config
  cf_sweep :: sweep_config
  cf_bloom :: bloom_config
  cf_scanner :: chain_config
  cf_deposit :: deposit_config
  cf_withdraw :: withdraw_config
  cf_energy :: energy_config
  cf_notify :: notify_config

definition ProviderTRXBurn :: string where
  "ProviderTRXBurn = ''trx_burn''"

definition EnabledTokens :: "wallet_config \<Rightarrow> token_config list" where
  "EnabledTokens c = filter tc_enabled (wc_tokens c)"

definition EnabledToken :: "wallet_config \<Rightarrow> string \<Rightarrow> token_config option" where
  "EnabledToken c symbol = List.find (\<lambda>t. EqualFold (tc_symbol t) symbol) (EnabledTokens c)"

definition RentalOn :: "energy_config \<Rightarrow> bool" where
  "RentalOn c = (case ec_rental_enabled c of None \<Rightarrow> True | Some b \<Rightarrow> b)"

definition SweepRentalOn :: "config \<Rightarrow> bool" where
  "SweepRentalOn c =
     (case sc_energy_rental (cf_sweep c) of Some b \<Rightarrow> b | None \<Rightarrow> RentalOn (cf_energy c))"

definition WithdrawRentalOn :: "config \<Rightarrow> bool" where
  "WithdrawRentalOn c =
     (case wd_energy_rental (cf_withdraw c) of Some b \<Rightarrow> b | None \<Rightarrow> RentalOn (cf_energy c))"

lemma EnabledToken_Some:
  "EnabledToken c s = Some t \<Longrightarrow> t \<in> set (wc_tokens c) \<and> tc_enabled t \<and> EqualFold (tc_symbol t) s"
  by (auto simp: EnabledToken_def EnabledTokens_def find_Some_iff dest!: nth_mem)

section \<open>Defaults\<close>

definition or_default :: "int \<Rightarrow> int \<Rightarrow> int" where
  "or_default x d = (if x \<le> 0 then d else x)"

definition or_default_str :: "string \<Rightarrow> string \<Rightarrow> string" where
  "or_default_str x d = (if x = '''' then d else x)"

text \<open>\<open>burn := Providers[trx_burn]; burn.Enabled = true; Providers[trx_burn] = burn\<close>.\<close>

definition enable_burn :: "(string \<times> provider_conf) list \<Rightarrow> (string \<times> provider_conf) list" where
  "enable_burn ps =
     (let burn = (case map_of ps ProviderTRXBurn of
                    None \<Rightarrow> \<lparr>pv_enabled = False, pv_options = []\<rparr> | Some b \<Rightarrow> b)
      in AList.update ProviderTRXBurn (burn\<lparr>pv_enabled := True\<rparr>) ps)"

definition default_deposit :: "deposit_config \<Rightarrow> deposit_config" where
  "default_deposit d =
     (let batch = or_default (dc_batch_blocks d) 20;
          fetch = or_default (dc_fetch_concurrency d) 8
      in d\<lparr>dc_batch_blocks := batch, dc_fetch_concurrency := (if fetch > batch then batch else fetch),
           dc_confirmations := or_default (dc_confirmations d) 19,
           dc_reorg_depth := or_default (dc_reorg_depth d) 60\<rparr>)"

text \<open>The rental block, given which flows rent.\<close>

definition default_rental :: "bool \<Rightarrow> bool \<Rightarrow> energy_config \<Rightarrow> energy_config" where
  "default_rental sweepRental withdrawRental e =
     (let anyRental = sweepRental \<or> withdrawRental;
          e = e\<lparr>ec_rental_enabled := Some anyRental\<rparr>;
          e = (if \<not> withdrawRental then e\<lparr>ec_pool := (ec_pool e)\<lparr>pc_enabled := False\<rparr>\<rparr> else e);
          e = (if anyRental \<and> (\<not> sweepRental \<or> \<not> withdrawRental)
               then e\<lparr>ec_providers := enable_burn (ec_providers e)\<rparr> else e)
      in if \<not> RentalOn e then
           e\<lparr>ec_mode := ''fixed'', ec_fixed := ProviderTRXBurn,
             ec_providers := enable_burn (ec_providers e),
             ec_pool := (ec_pool e)\<lparr>pc_enabled := False\<rparr>,
             ec_auto_topup := (ec_auto_topup e)\<lparr>at_enabled := False\<rparr>\<rparr>
         else e)"

definition default_energy :: "bool \<Rightarrow> bool \<Rightarrow> energy_config \<Rightarrow> energy_config" where
  "default_energy sweepRental withdrawRental e =
     (let e = default_rental sweepRental withdrawRental
                (e\<lparr>ec_mode := or_default_str (ec_mode e) ''cheapest''\<rparr>)
      in e\<lparr>ec_energy_per_tx := or_default (ec_energy_per_tx e) 32000,
           ec_energy_per_tx_new := or_default (ec_energy_per_tx_new e) 65000\<rparr>)"

definition default_threshold :: "sweep_threshold_config \<Rightarrow> sweep_threshold_config" where
  "default_threshold t =
     t\<lparr>st_target_cost_ratio :=
         (if st_target_cost_ratio t \<le> 0 then fl64 (5 / 1000) else st_target_cost_ratio t),
       st_safety_multiple := (if st_safety_multiple t \<le> 0 then 20 else st_safety_multiple t)\<rparr>"

definition default_bloom :: "bloom_config \<Rightarrow> bloom_config" where
  "default_bloom b =
     \<lparr>bc_expected_addresses = or_default (bc_expected_addresses b) 200000,
      bc_false_positive_rate =
        (if bc_false_positive_rate b \<le> 0 \<or> 1 \<le> bc_false_positive_rate b then fl64 (1 / 10000)
         else bc_false_positive_rate b),
      bc_load_batch = or_default (bc_load_batch b) 5000\<rparr>"

text \<open>\<open>m/44'/195'/0'/0\<close>.\<close>

definition account_path_default :: string where
  "account_path_default =
     ''m/44'' @ [CHR 0x27] @ ''/195'' @ [CHR 0x27] @ ''/0'' @ [CHR 0x27] @ ''/0''"

definition applyDefaults :: "config \<Rightarrow> config" where
  "applyDefaults c =
     (let sweepRental = SweepRentalOn c; withdrawRental = WithdrawRentalOn c;
          wallet = cf_wallet c; sweep = cf_sweep c; notify = cf_notify c
      in c\<lparr>cf_network := or_default_str (cf_network c) ''nile'',
           cf_wallet := wallet\<lparr>wc_account_path := or_default_str (wc_account_path wallet) account_path_default,
             wc_index_batch := or_default (wc_index_batch wallet) 1\<rparr>,
           cf_deposit := default_deposit (cf_deposit c),
           cf_withdraw := (cf_withdraw c)\<lparr>wd_energy_rental := Some withdrawRental\<rparr>,
           cf_energy := default_energy sweepRental withdrawRental (cf_energy c),
           cf_notify := notify\<lparr>nc_batch_size := or_default (nc_batch_size notify) 100,
             nc_max_retry := or_default (nc_max_retry notify) 10\<rparr>,
           cf_sweep := sweep\<lparr>sc_energy_rental := Some sweepRental,
             sc_threshold := default_threshold (sc_threshold sweep),
             sc_max_per_round := or_default (sc_max_per_round sweep) 50\<rparr>,
           cf_bloom := default_bloom (cf_bloom c)\<rparr>)"

section \<open>Validation\<close>

fun validate_tokens :: "token_config list \<Rightarrow> int \<Rightarrow> int result" where
  "validate_tokens [] tokens = Inr tokens"
| "validate_tokens (t # ts) tokens =
     (if \<not> tc_enabled t then validate_tokens ts tokens
      else if \<not> IsValidAddress (tc_contract t) then
        Inl (errors_new (''wallet.tokens['' @ tc_symbol t @ ''].contract is not a base58 TRON address''))
      else if tc_decimals t \<le> 0 then
        Inl (errors_new (''wallet.tokens['' @ tc_symbol t @ ''].decimals is required''))
      else validate_tokens ts (i64 (tokens + 1)))"

fun validate_topups :: "(string \<times> provider_topup_conf) list \<Rightarrow> go_error option" where
  "validate_topups [] = None"
| "validate_topups ((name, p) # ps) =
     (if tp_enabled p \<and> tp_deposit_address_url p = '''' then
        Some (errors_new (''energy.auto_topup.providers.'' @ name @ ''.deposit_address is required''))
      else validate_topups ps)"

definition validate :: "config \<Rightarrow> go_error option" where
  "validate c =
     (let energy = cf_energy c; topup = ec_auto_topup energy
      in if cf_mysql_dsn c = '''' then Some (errors_new ''mysql.dsn is required'')
         else if length (filter nd_enabled (hc_nodes (cf_scanner c))) = 0 then
           Some (errors_new ''chain.nodes: at least one enabled node is required'')
         else case validate_tokens (wc_tokens (cf_wallet c)) 0 of
           Inl e \<Rightarrow> Some e
         | Inr tokens \<Rightarrow>
             if tokens = 0 then
               Some (errors_new ''wallet.tokens: at least one enabled token is required'')
             else if ec_mode energy = ''fixed'' \<and> ec_fixed energy = '''' then
               Some (errors_new ''energy.fixed is required when energy.mode=fixed'')
             else if at_enabled topup then
               if at_source_address topup = '''' then
                 Some (errors_new ''energy.auto_topup.source_address is required when auto topup is enabled'')
               else validate_topups (at_providers topup)
             else None)"

section \<open>What the defaults promise\<close>

lemma update_same: "map_of ps k = Some v \<Longrightarrow> AList.update k v ps = ps"
  by (induction ps) (auto split: if_splits)

lemma enable_burn_enabled: "\<exists>b. map_of (enable_burn ps) ProviderTRXBurn = Some b \<and> pv_enabled b"
  by (simp add: enable_burn_def Let_def update_conv')

lemma enable_burn_idem [simp]: "enable_burn (enable_burn ps) = enable_burn ps"
proof -
  obtain b where b: "map_of (enable_burn ps) ProviderTRXBurn = Some b" "pv_enabled b"
    using enable_burn_enabled by blast
  then have "b\<lparr>pv_enabled := True\<rparr> = b" by simp
  with b show ?thesis by (simp add: enable_burn_def [of "enable_burn ps"] update_same)
qed

lemma or_default_idem [simp]: "0 < d \<Longrightarrow> or_default (or_default x d) d = or_default x d"
  by (simp add: or_default_def)

lemma or_default_str_idem [simp]: "or_default_str (or_default_str x d) d = or_default_str x d"
  by (simp add: or_default_str_def)

lemma or_default_pos [simp]: "0 < d \<Longrightarrow> 0 < or_default x d"
  by (simp add: or_default_def)

lemma or_default_of_pos: "0 < x \<Longrightarrow> or_default x d = x"
  by (simp add: or_default_def)

lemma default_deposit_idem: "default_deposit (default_deposit d) = default_deposit d"
proof -
  have "0 < or_default (dc_fetch_concurrency d) 8" "0 < or_default (dc_batch_blocks d) 20" by simp_all
  then show ?thesis by (simp add: default_deposit_def Let_def or_default_of_pos)
qed

lemma default_energy_idem: "default_energy s w (default_energy s w e) = default_energy s w e"
  by (cases s; cases w)
    (simp_all add: default_energy_def default_rental_def RentalOn_def Let_def or_default_str_def)

lemma ratio_default_pos: "0 < fl64 (5 / 1000)"
  by (subst fl64_eq [where k = "-8"]) (simp_all add: fl64_simps)

lemma rate_default_range: "0 < fl64 (1 / 10000) \<and> fl64 (1 / 10000) < 1"
  by (subst (1 2) fl64_eq [where k = "-14"])
    (simp_all add: fl64_simps)

lemma default_threshold_idem: "default_threshold (default_threshold t) = default_threshold t"
  using ratio_default_pos by (simp add: default_threshold_def)

lemma default_bloom_idem: "default_bloom (default_bloom b) = default_bloom b"
  using rate_default_range by (auto simp: default_bloom_def)

lemma rental_after_defaults [simp]:
  "SweepRentalOn (applyDefaults c) = SweepRentalOn c"
  "WithdrawRentalOn (applyDefaults c) = WithdrawRentalOn c"
  by (simp_all add: SweepRentalOn_def WithdrawRentalOn_def applyDefaults_def Let_def)

text \<open>Filling in the defaults twice is filling them in once: nothing an operator set, and nothing a
  first pass decided about who rents, is decided again.\<close>

theorem applyDefaults_idem: "applyDefaults (applyDefaults c) = applyDefaults c"
  unfolding applyDefaults_def [of "applyDefaults c"] Let_def rental_after_defaults
  by (simp add: applyDefaults_def Let_def default_deposit_idem default_energy_idem
      default_threshold_idem default_bloom_idem)

lemma default_energy_cases:
  "RentalOn (default_energy s w e) \<longleftrightarrow> s \<or> w"
  "\<not> w \<Longrightarrow> \<not> pc_enabled (ec_pool (default_energy s w e))"
  "\<not> s \<or> \<not> w \<Longrightarrow> \<exists>b. map_of (ec_providers (default_energy s w e)) ProviderTRXBurn = Some b \<and> pv_enabled b"
  "\<not> s \<and> \<not> w \<Longrightarrow> ec_mode (default_energy s w e) = ''fixed'' \<and> ec_fixed (default_energy s w e) = ProviderTRXBurn
     \<and> \<not> at_enabled (ec_auto_topup (default_energy s w e))"
  by (cases s; cases w;
      simp add: default_energy_def default_rental_def RentalOn_def Let_def enable_burn_enabled)+

text \<open>The energy source of each flow is settled by the defaults: the rental stack is on exactly when
  one of the flows rents, the burn provider exists whenever a flow burns, the hot wallet's pool only
  runs for withdrawals that rent, and when nothing rents the selection is pinned to burning and the
  automatic top-up of rental platforms is off.\<close>

theorem applyDefaults_rental:
  "(RentalOn (cf_energy (applyDefaults c)) \<longleftrightarrow> SweepRentalOn c \<or> WithdrawRentalOn c)
   \<and> (SweepRentalOn c \<and> WithdrawRentalOn c
      \<or> (\<exists>b. map_of (ec_providers (cf_energy (applyDefaults c))) ProviderTRXBurn = Some b \<and> pv_enabled b))
   \<and> (WithdrawRentalOn c \<or> pc_enabled (ec_pool (cf_energy (applyDefaults c))) = False)
   \<and> (SweepRentalOn c \<or> WithdrawRentalOn c
      \<or> ec_mode (cf_energy (applyDefaults c)) = ''fixed''
        \<and> ec_fixed (cf_energy (applyDefaults c)) = ProviderTRXBurn
        \<and> at_enabled (ec_auto_topup (cf_energy (applyDefaults c))) = False)"
proof -
  let ?s = "SweepRentalOn c" and ?w = "WithdrawRentalOn c"
  have "cf_energy (applyDefaults c) = default_energy ?s ?w (cf_energy c)"
    by (simp add: applyDefaults_def Let_def)
  then show ?thesis
    using default_energy_cases [where s = ?s and w = ?w and e = "cf_energy c"] by auto
qed

lemma validate_tokens_sound:
  "validate_tokens ts n = Inr m \<Longrightarrow>
     list_all (\<lambda>t. tc_enabled t \<longrightarrow> IsValidAddress (tc_contract t) \<and> 0 < tc_decimals t) ts
     \<and> (list_all (\<lambda>t. \<not> tc_enabled t) ts \<longrightarrow> m = n)"
  by (induction ts n rule: validate_tokens.induct) (auto split: if_splits)

lemma validate_topups_sound:
  "validate_topups ps = None \<Longrightarrow>
     list_all (\<lambda>(name, p). tp_enabled p \<longrightarrow> tp_deposit_address_url p \<noteq> '''') ps"
  by (induction ps rule: validate_topups.induct) (auto split: if_splits)

text \<open>A configuration that passes validation is usable: some token is enabled, every enabled token
  names a well-formed contract address and positive decimals, so the scanner's allowlist is neither
  empty nor malformed, and an enabled automatic top-up has a source and a destination for every
  enabled platform.\<close>

theorem validate_ok:
  assumes "validate c = None"
  shows "EnabledTokens (cf_wallet c) \<noteq> []
    \<and> list_all (\<lambda>t. IsValidAddress (tc_contract t) \<and> 0 < tc_decimals t) (EnabledTokens (cf_wallet c))
    \<and> (at_enabled (ec_auto_topup (cf_energy c)) \<longrightarrow>
        at_source_address (ec_auto_topup (cf_energy c)) \<noteq> ''''
        \<and> list_all (\<lambda>(name, p). tp_enabled p \<longrightarrow> tp_deposit_address_url p \<noteq> '''')
            (at_providers (ec_auto_topup (cf_energy c))))"
proof -
  obtain n where n: "validate_tokens (wc_tokens (cf_wallet c)) 0 = Inr n" "n \<noteq> 0"
    using assms by (auto simp: validate_def Let_def split: if_splits sum.splits)
  note t = validate_tokens_sound [OF n(1)]
  have "EnabledTokens (cf_wallet c) \<noteq> []"
    using t n(2) by (auto simp: EnabledTokens_def filter_empty_conv list_all_iff)
  moreover have "list_all (\<lambda>t. IsValidAddress (tc_contract t) \<and> 0 < tc_decimals t) (EnabledTokens (cf_wallet c))"
    using t by (auto simp: EnabledTokens_def list_all_iff)
  moreover have "at_enabled (ec_auto_topup (cf_energy c)) \<Longrightarrow> at_source_address (ec_auto_topup (cf_energy c)) \<noteq> ''''
      \<and> validate_topups (at_providers (ec_auto_topup (cf_energy c))) = None"
    using assms n by (auto simp: validate_def Let_def split: if_splits)
  ultimately show ?thesis using validate_topups_sound by blast
qed

definition sample_config :: "string \<Rightarrow> config" where
  "sample_config contract =
     \<lparr>cf_network = ''nile'', cf_mysql_dsn = ''dsn'', cf_redis_prefix = '''',
      cf_wallet = \<lparr>wc_account_path = '''',
        wc_tokens = [\<lparr>tc_symbol = ''USDT'', tc_contract = contract, tc_decimals = 6, tc_enabled = True\<rparr>],
        wc_hot_wallet = \<lparr>sys_address = ''H'', sys_path = ''m/0''\<rparr>,
        wc_sweep_wallet = \<lparr>sys_address = ''S'', sys_path = ''m/1''\<rparr>,
        wc_gas_account = \<lparr>sys_address = ''G'', sys_path = ''m/2''\<rparr>, wc_index_batch = 1\<rparr>,
      cf_sweep = \<lparr>sc_fee_limit_sun = 30000000, sc_tx_expiration_sec = 60,
        sc_threshold = \<lparr>st_target_cost_ratio = 0, st_safety_multiple = 20, st_min_usdt = 5,
          st_max_usdt = 100, st_trx_price_usd = 0, st_trx_price_url = '''', st_stale_days = 30,
          st_fixed_usdt = 0, st_max_skip_rounds = 0\<rparr>,
        sc_max_per_round = 50, sc_max_energy_retries = 3, sc_energy_rental = None\<rparr>,
      cf_bloom = \<lparr>bc_expected_addresses = 0, bc_false_positive_rate = 0, bc_load_batch = 0\<rparr>,
      cf_scanner = \<lparr>hc_nodes = [\<lparr>nd_name = ''n'', nd_type = ''fullnode'', nd_endpoint = ''http://n'',
          nd_api_key = '''', nd_headers = [], nd_priority = 1, nd_enabled = True, nd_qps = 0, nd_burst = 0\<rparr>],
        hc_solidity_for_confirm = True, hc_retry_per_node = 2, hc_rate_limit_wait = 0\<rparr>,
      cf_deposit = \<lparr>dc_start_block = 0, dc_batch_blocks = 20, dc_fetch_concurrency = 8,
        dc_confirmations = 19, dc_reorg_depth = 60, dc_min_deposit_units = ''''\<rparr>,
      cf_withdraw = \<lparr>wd_fee_limit_sun = 30000000, wd_tx_expiration_sec = 60,
        wd_max_amount_units = '''', wd_daily_max_units = '''', wd_confirm_blocks = 19,
        wd_halt_max_retries = 3, wd_energy_rental = None\<rparr>,
      cf_energy = \<lparr>ec_rental_enabled = None, ec_mode = ''cheapest'', ec_fixed = '''',
        ec_quote_cache_ttl = 45000000000, ec_default_period = '''', ec_energy_per_tx = 32000,
        ec_energy_per_tx_new = 65000, ec_pending_grace = 120000000000,
        ec_pending_timeout = 1800000000000, ec_providers = [],
        ec_pool = \<lparr>pc_enabled = True, pc_low_water_txs = 5, pc_batch_txs = 10, pc_max_batch_txs = 50\<rparr>,
        ec_auto_topup = \<lparr>at_enabled = True, at_source_address = ''G'',
          at_providers = [(''p'', \<lparr>tp_enabled = True, tp_low_watermark_trx = 100, tp_target_trx = 500,
            tp_max_single_topup_trx = 300, tp_max_daily_topup_trx = 1000, tp_max_daily_topup_count = 3,
            tp_deposit_address_url = ''D''\<rparr>)]\<rparr>\<rparr>,
      cf_notify = \<lparr>nc_batch_size = 100, nc_max_retry = 10\<rparr>\<rparr>"

theorem validate_ok_witness:
  "EnabledTokens (cf_wallet (sample_config (address_of (0x41 # replicate 20 0)))) \<noteq> []"
proof -
  have "raw_address (0x41 # replicate 20 0)" by (simp add: raw_address_def AddressPrefix_def)
  then have "IsValidAddress (address_of (0x41 # replicate 20 0))"
    by (simp add: IsValidAddress_iff)
  then have "validate (sample_config (address_of (0x41 # replicate 20 0))) = None"
    by (simp add: validate_def sample_config_def Let_def i64_id in_i64_def)
  from validate_ok [OF this] show ?thesis by blast
qed

end
