(* ===== verification/Store.thy ===== *)
theory Store
  imports Chain Config
begin

text \<open>
  The state the services share: the database tables, the redis keys, the process-local quote cache
  and energy pool, and every transaction handed to a node. The operations are \<open>internal/store\<close>.
  Statements may fail: a handler's environment says which of its statements do (\<open>fail\<close>).
\<close>

section \<open>State\<close>

text \<open>\<open>energy.QuoteRequest\<close>, \<open>Quote\<close>, \<open>OrderRequest\<close>, \<open>Order\<close> and the manager's cached quote.\<close>

record quote_request =
  qr_resource :: string
  qr_amount :: int
  qr_period :: string
  qr_receiver :: string
  qr_exclude_burn :: bool

record order_request =
  or_resource :: string
  or_amount :: int
  or_period :: string
  or_receiver :: string
  or_idempotency_key :: string

record quote =
  q_provider :: string
  q_cost_trx :: float64
  q_billed_units :: int
  q_available :: int
  q_period :: string

record rent_order =
  o_provider :: string
  o_provider_order_id :: string
  o_request_id :: string
  o_state :: string
  o_provider_state :: string
  o_delegated_energy :: int
  o_cost_trx :: float64
  o_delegate_txid :: string
  o_message :: string

record cached_quote =
  cq_quote :: quote
  cq_expires :: time

record energy_pool =
  ep_addr :: string
  ep_last_hour_used :: int
  ep_hour_start :: time

text \<open>
  \<open>broadcasts\<close> and \<open>placed\<close> are what left the process: the transactions handed to a node and the
  orders placed with a rental platform, oldest first.
\<close>

record world =
  merchants :: "merchant list"
  user_wallets :: "user_wallet list"
  allocators :: "wallet_index_allocator list"
  deposits :: "deposit_record list"
  withdraws :: "withdraw_record list"
  sweeps :: "sweep_record list"
  sweep_skips :: "sweep_skip list"
  blacklist :: "address_blacklist list"
  energy_orders :: "energy_rent_order list"
  topups :: "topup_record list"
  cursors :: "chain_cursor list"
  snapshots :: "block_snapshot list"
  outbox :: "notify_outbox list"
  audits :: "sign_audit list"
  redis_keys :: "string list option"
  quotes :: "(string \<times> cached_quote) list"
  pool :: "energy_pool option"
  broadcasts :: "transaction list"
  placed :: "(string \<times> order_request) list"

text \<open>The error a failing statement returns.\<close>

definition db_err :: go_error where
  "db_err = errors_new ''database error''"

definition not_found :: go_error where
  "not_found = Err ErrRecordNotFound ''record not found''"

section \<open>Locks\<close>

definition Key :: "string \<Rightarrow> string list \<Rightarrow> string" where
  "Key prefix parts = foldl (\<lambda>k p. k @ '':'' @ p) prefix parts"

text \<open>\<open>SETNX\<close>; without redis the lock is always granted. \<open>fail\<close> is a redis error.\<close>

definition Lock :: "string \<Rightarrow> string \<Rightarrow> bool \<Rightarrow> world \<Rightarrow> world option" where
  "Lock prefix key fail w =
     (case redis_keys w of
        None \<Rightarrow> Some w
      | Some ks \<Rightarrow>
          let full = Key prefix [''lock'', key]
          in if fail \<or> full \<in> set ks then None else Some (w\<lparr>redis_keys := Some (full # ks)\<rparr>))"

definition Unlock :: "string \<Rightarrow> string \<Rightarrow> world \<Rightarrow> world" where
  "Unlock prefix key w =
     (case redis_keys w of
        None \<Rightarrow> w
      | Some ks \<Rightarrow> w\<lparr>redis_keys := Some (removeAll (Key prefix [''lock'', key]) ks)\<rparr>)"

lemma Lock_Some: "Lock prefix key fail w = Some w' \<Longrightarrow> \<exists>ks. w' = w\<lparr>redis_keys := ks\<rparr>"
  by (auto simp: Lock_def Let_def split: option.splits if_splits) (metis world.surjective world.update_convs(15))+

text \<open>Mutual exclusion: while a key is held, nobody else gets it.\<close>

lemma Lock_excludes:
  "redis_keys w \<noteq> None \<Longrightarrow> Lock prefix key fail w = Some w' \<Longrightarrow> Lock prefix key fail' w' = None"
  by (auto simp: Lock_def Let_def split: if_splits)

section \<open>Index allocator\<close>

datatype alloc_stmt = AllocTake | AllocCreate | AllocUpdate

definition NextAddressIndex ::
  "(alloc_stmt \<Rightarrow> bool) \<Rightarrow> time \<Rightarrow> string \<Rightarrow> world \<Rightarrow> world \<times> int result" where
  "NextAddressIndex fail now chain w =
     (let bump = (\<lambda>al i. update_where (\<lambda>r. wa_chain r = chain)
            (\<lambda>r. r\<lparr>wa_next_index := i64 (i + 1), wa_updated_at := now\<rparr>) al)
      in if fail AllocTake then (w, Inl db_err)
         else case take_first (\<lambda>r. wa_chain r = chain) (allocators w) of
           None \<Rightarrow>
             if fail AllocCreate \<or> fail AllocUpdate then (w, Inl db_err)
             else (w\<lparr>allocators := bump (allocators w @
                      [\<lparr>wa_chain = chain, wa_next_index = 0, wa_updated_at = now\<rparr>]) 0\<rparr>, Inr 0)
         | Some alloc \<Rightarrow>
             if fail AllocUpdate then (w, Inl db_err)
             else (w\<lparr>allocators := bump (allocators w) (wa_next_index alloc)\<rparr>, Inr (wa_next_index alloc)))"

section \<open>Outbox writer\<close>

text \<open>\<open>INSERT ... ON CONFLICT DO NOTHING\<close> on the unique \<open>event_id\<close>.\<close>

definition EnqueueOutbox ::
  "time \<Rightarrow> string \<Rightarrow> string \<Rightarrow> string \<Rightarrow> string \<Rightarrow> string \<Rightarrow> json \<Rightarrow> world \<Rightarrow> world" where
  "EnqueueOutbox now eventID eventType account merchantID notifyURL payload w =
     (if \<exists>r \<in> set (outbox w). ob_event_id r = eventID then w
      else w\<lparr>outbox := outbox w @
        [\<lparr>ob_id = fresh_id (map ob_id (outbox w)), ob_event_id = eventID, ob_merchant_id = merchantID,
          ob_account = account, ob_notify_url = notifyURL, ob_event_type = eventType,
          ob_payload = payload, ob_status = OutboxPending, ob_retry_count = 0, ob_next_retry = now,
          ob_last_error = '''', ob_created_at = now, ob_updated_at = now, ob_sent_at = None\<rparr>]\<rparr>)"

section \<open>Wallet lookups\<close>

definition UserWalletsByAddresses :: "string list \<Rightarrow> world \<Rightarrow> user_wallet list" where
  "UserWalletsByAddresses addresses w =
     filter (\<lambda>u. uw_address u \<in> set addresses \<and> uw_purpose u = ''deposit'') (user_wallets w)"

definition UserWalletAddressesAfter :: "int \<Rightarrow> int \<Rightarrow> user_wallet list \<Rightarrow> user_wallet list" where
  "UserWalletAddressesAfter afterID limit t =
     select_limit (\<lambda>u. afterID < uw_id u) limit (sort_key uw_id t)"

definition UserWalletAddressesUpdatedSince :: "time \<Rightarrow> int \<Rightarrow> user_wallet list \<Rightarrow> user_wallet list" where
  "UserWalletAddressesUpdatedSince since limit t =
     select_limit (\<lambda>u. since \<le> uw_updated_at u) limit (sort_key uw_updated_at t)"

definition IsAddressBlacklisted :: "bool \<Rightarrow> string \<Rightarrow> world \<Rightarrow> bool result" where
  "IsAddressBlacklisted fail address w =
     (if fail then Inl db_err else Inr (0 < affected (\<lambda>b. bl_address b = address) (blacklist w)))"

definition IsInternalWallet :: "bool \<Rightarrow> string \<Rightarrow> world \<Rightarrow> int result" where
  "IsInternalWallet fail address w =
     (if fail then Inl db_err else Inr (affected (\<lambda>u. uw_address u = address) (user_wallets w)))"

section \<open>The outbox as a set of events\<close>

text \<open>
  What the workers rely on when they announce an outcome: an event, once written, stays with its
  first payload, a repeated announcement changes nothing, and no id is announced twice.
\<close>

locale event_sink =
  fixes put :: "'e \<Rightarrow> 'w \<Rightarrow> 'w"
    and eid :: "'e \<Rightarrow> string"
    and ids :: "'w \<Rightarrow> string list"
  assumes put_new: "eid e \<notin> set (ids w) \<Longrightarrow> ids (put e w) = ids w @ [eid e]"
    and put_dup: "eid e \<in> set (ids w) \<Longrightarrow> put e w = w"
begin

lemma put_distinct: "distinct (ids w) \<Longrightarrow> distinct (ids (put e w))"
  by (cases "eid e \<in> set (ids w)") (simp_all add: put_new put_dup)

lemma put_present: "eid e \<in> set (ids (put e w))"
  by (cases "eid e \<in> set (ids w)") (simp_all add: put_new put_dup)

lemma put_keeps: "x \<in> set (ids w) \<Longrightarrow> x \<in> set (ids (put e w))"
  by (cases "eid e \<in> set (ids w)") (simp_all add: put_new put_dup)

lemma put_twice: "eid e = eid e' \<Longrightarrow> put e' (put e w) = put e w"
  using put_present [of e w] by (simp add: put_dup)

end

definition event_ids :: "world \<Rightarrow> string list" where
  "event_ids w = map ob_event_id (outbox w)"

interpretation outbox_sink: event_sink
  "\<lambda>(now, eventID, eventType, account, merchantID, notifyURL, payload).
     EnqueueOutbox now eventID eventType account merchantID notifyURL payload"
  "\<lambda>(now, eventID, eventType, account, merchantID, notifyURL, payload). eventID"
  event_ids
  by unfold_locales (auto simp: EnqueueOutbox_def event_ids_def image_iff split: prod.splits)

lemma EnqueueOutbox_event_ids:
  "event_ids (EnqueueOutbox now ev ty ac m u p w) =
     (if ev \<in> set (event_ids w) then event_ids w else event_ids w @ [ev])"
  by (auto simp: EnqueueOutbox_def event_ids_def image_iff)

lemma EnqueueOutbox_distinct:
  "distinct (event_ids w) \<Longrightarrow> distinct (event_ids (EnqueueOutbox now ev ty ac m u p w))"
  using outbox_sink.put_distinct [of w "(now, ev, ty, ac, m, u, p)"] by simp

lemma EnqueueOutbox_frame [simp]:
  "withdraws (EnqueueOutbox now ev ty ac m u p w) = withdraws w"
  "deposits (EnqueueOutbox now ev ty ac m u p w) = deposits w"
  "sweeps (EnqueueOutbox now ev ty ac m u p w) = sweeps w"
  "broadcasts (EnqueueOutbox now ev ty ac m u p w) = broadcasts w"
  "user_wallets (EnqueueOutbox now ev ty ac m u p w) = user_wallets w"
  "energy_orders (EnqueueOutbox now ev ty ac m u p w) = energy_orders w"
  "redis_keys (EnqueueOutbox now ev ty ac m u p w) = redis_keys w"
  "cursors (EnqueueOutbox now ev ty ac m u p w) = cursors w"
  "snapshots (EnqueueOutbox now ev ty ac m u p w) = snapshots w"
  "pool (EnqueueOutbox now ev ty ac m u p w) = pool w"
  by (simp_all add: EnqueueOutbox_def)

lemma Lock_frame:
  assumes "Lock prefix key fail w = Some w'"
  shows "withdraws w' = withdraws w" "deposits w' = deposits w" "sweeps w' = sweeps w"
    "broadcasts w' = broadcasts w" "user_wallets w' = user_wallets w" "outbox w' = outbox w"
    "energy_orders w' = energy_orders w" "pool w' = pool w" "event_ids w' = event_ids w"
  using Lock_Some [OF assms] by (auto simp: event_ids_def)

lemma Unlock_frame [simp]:
  "withdraws (Unlock prefix key w) = withdraws w"
  "deposits (Unlock prefix key w) = deposits w"
  "sweeps (Unlock prefix key w) = sweeps w"
  "broadcasts (Unlock prefix key w) = broadcasts w"
  "user_wallets (Unlock prefix key w) = user_wallets w"
  "outbox (Unlock prefix key w) = outbox w"
  "energy_orders (Unlock prefix key w) = energy_orders w"
  "pool (Unlock prefix key w) = pool w"
  "event_ids (Unlock prefix key w) = event_ids w"
  by (simp_all add: Unlock_def event_ids_def split: option.splits)

section \<open>Instances\<close>

definition empty_world :: world where
  "empty_world =
     \<lparr>merchants = [], user_wallets = [], allocators = [], deposits = [], withdraws = [], sweeps = [],
      sweep_skips = [], blacklist = [], energy_orders = [], topups = [], cursors = [], snapshots = [],
      outbox = [], audits = [], redis_keys = Some [], quotes = [], pool = None, broadcasts = [],
      placed = []\<rparr>"


end
