(* ===== verification/Bloom.thy ===== *)
theory Bloom
  imports Store Float64
begin

unbundle bit_operations_syntax

text \<open>
  \<open>internal/bloom\<close>: the filter that decides without the database whether an address can be ours, and the
  registry that keeps it in step with the wallet table. A nil filter or registry is \<open>None\<close>; an index
  out of range, which would be a panic, is \<open>None\<close> of the operation. \<open>math.Log\<close> is a parameter of the
  sizing.
\<close>

section \<open>The filter\<close>

record bloom_filter =
  bf_bits :: "64 word list"
  bf_m :: "64 word"
  bf_k :: "64 word"
  bf_count :: "64 word"
  bf_capacity :: "64 word"

definition fnvOffset1 :: "64 word" where
  "fnvOffset1 = 14695981039346656037"

definition fnvPrime :: "64 word" where
  "fnvPrime = 1099511628211"

definition fnvOffset2 :: "64 word" where
  "fnvOffset2 = 1099511628211"

definition hash_step :: "64 word \<times> 64 word \<Rightarrow> char \<Rightarrow> 64 word \<times> 64 word" where
  "hash_step = (\<lambda>(h1, h2) c.
     let b = (of_char c :: 64 word); h2' = (h2 + b) * fnvPrime
     in ((h1 XOR b) * fnvPrime, h2' XOR drop_bit 29 h2'))"

definition hashes :: "string \<Rightarrow> 64 word \<times> 64 word" where
  "hashes key =
     (let (h1, h2) = foldl hash_step (fnvOffset1, fnvOffset2) key
      in (h1, if h2 mod 2 = 0 then h2 + 1 else h2))"

text \<open>The \<open>i\<close>-th position of a key, and whether the slice holds its word.\<close>

definition bloom_index :: "bloom_filter \<Rightarrow> string \<Rightarrow> nat \<Rightarrow> nat" where
  "bloom_index f key i = (let (h1, h2) = hashes key in unat ((h1 + of_nat i * h2) mod bf_m f))"

definition bloom_safe :: "bloom_filter \<Rightarrow> bool" where
  "bloom_safe f \<longleftrightarrow> bf_m f \<noteq> 0 \<and> unat (bf_m f) \<le> 64 * length (bf_bits f)"

definition set_bit_at :: "nat \<Rightarrow> 64 word list \<Rightarrow> 64 word list" where
  "set_bit_at idx bits = bits[idx div 64 := bits ! (idx div 64) OR push_bit (idx mod 64) 1]"

definition get_bit_at :: "nat \<Rightarrow> 64 word list \<Rightarrow> bool" where
  "get_bit_at idx bits \<longleftrightarrow> bits ! (idx div 64) AND push_bit (idx mod 64) 1 \<noteq> 0"

text \<open>\<open>None\<close> is the panic of a division by zero or of an index beyond the slice.\<close>

fun add_bits :: "bloom_filter \<Rightarrow> string \<Rightarrow> nat list \<Rightarrow> 64 word list \<Rightarrow> 64 word list option" where
  "add_bits f key [] bits = Some bits"
| "add_bits f key (i # is) bits =
     (let idx = bloom_index f key i
      in if bf_m f = 0 \<or> length bits \<le> idx div 64 then None
         else add_bits f key is (set_bit_at idx bits))"

definition bloom_Add :: "bloom_filter option \<Rightarrow> string \<Rightarrow> bloom_filter option option" where
  "bloom_Add fo address =
     (case fo of
        None \<Rightarrow> Some None
      | Some f \<Rightarrow>
          if address = '''' then Some (Some f)
          else map_option (\<lambda>bits. Some (f\<lparr>bf_bits := bits, bf_count := bf_count f + 1\<rparr>))
                 (add_bits f address [0..<unat (bf_k f)] (bf_bits f)))"

fun check_bits :: "bloom_filter \<Rightarrow> string \<Rightarrow> nat list \<Rightarrow> bool option" where
  "check_bits f key [] = Some True"
| "check_bits f key (i # is) =
     (let idx = bloom_index f key i
      in if bf_m f = 0 \<or> length (bf_bits f) \<le> idx div 64 then None
         else if \<not> get_bit_at idx (bf_bits f) then Some False
         else check_bits f key is)"

definition bloom_MayContain :: "bloom_filter option \<Rightarrow> string \<Rightarrow> bool option" where
  "bloom_MayContain fo key =
     (case fo of
        None \<Rightarrow> Some True
      | Some f \<Rightarrow> if key = '''' then Some False else check_bits f key [0..<unat (bf_k f)])"

text \<open>
  \<open>Estimate\<close>: \<open>uint64\<close> of a float is taken below \<open>2^64\<close>, where Go defines it; \<open>math.Round\<close> rounds
  half away from zero.
\<close>

definition uint64_of_float :: "float64 \<Rightarrow> 64 word" where
  "uint64_of_float x = word_of_int (int_of_float x)"

definition Ln2 :: float64 where
  "Ln2 = fl64 (693147180559945309417232121458 / 10 ^ 30)"

definition math_Ceil :: "float64 \<Rightarrow> float64" where
  "math_Ceil x = of_int \<lceil>x\<rceil>"

definition math_Round :: "float64 \<Rightarrow> float64" where
  "math_Round x = (if 0 \<le> x then of_int \<lfloor>x + 1 / 2\<rfloor> else of_int \<lceil>x - 1 / 2\<rceil>)"

definition Estimate :: "(float64 \<Rightarrow> float64) \<Rightarrow> 64 word \<Rightarrow> float64 \<Rightarrow> 64 word \<times> 64 word" where
  "Estimate Log expected fpRate =
     (let e = float_of_int (uint expected);
          bits = fl64 (fl64 (- e * Log fpRate) / fl64 (Ln2 * Ln2));
          m0 = uint64_of_float (math_Ceil bits); m = (if m0 < 64 then 64 else m0);
          k0 = uint64_of_float (math_Round (fl64 (fl64 (float_of_int (uint m) / e) * Ln2)));
          k1 = (if k0 < 1 then 1 else k0)
      in (m, if 32 < k1 then 32 else k1))"

definition NewBloomFilter :: "(float64 \<Rightarrow> float64) \<Rightarrow> 64 word \<Rightarrow> float64 \<Rightarrow> bloom_filter" where
  "NewBloomFilter Log expected0 fpRate0 =
     (let expected = (if expected0 = 0 then 1 else expected0);
          fpRate = (if fpRate0 \<le> 0 \<or> 1 \<le> fpRate0 then fl64 (1 / 10000) else fpRate0);
          (m, k) = Estimate Log expected fpRate
      in \<lparr>bf_bits = replicate (unat ((m + 63) div 64)) 0, bf_m = m, bf_k = k, bf_count = 0,
          bf_capacity = expected\<rparr>)"

definition bloom_Count :: "bloom_filter option \<Rightarrow> 64 word" where
  "bloom_Count fo = (case fo of None \<Rightarrow> 0 | Some f \<Rightarrow> bf_count f)"

definition bloom_Capacity :: "bloom_filter option \<Rightarrow> 64 word" where
  "bloom_Capacity fo = (case fo of None \<Rightarrow> 0 | Some f \<Rightarrow> bf_capacity f)"

section \<open>The registry\<close>

record registry =
  rg_filter :: bloom_filter
  rg_max_id :: int
  rg_synced_at :: "time option"
  rg_page_size :: int

definition updateSkew :: time where
  "updateSkew = 60 * 1000000000"

definition rg_batch :: "registry \<Rightarrow> int" where
  "rg_batch r = (if rg_page_size r \<le> 0 then 5000 else rg_page_size r)"

definition registry_Add :: "registry option \<Rightarrow> string \<Rightarrow> registry option option" where
  "registry_Add ro address =
     (case ro of
        None \<Rightarrow> Some None
      | Some r \<Rightarrow>
          if address = '''' then Some (Some r)
          else case bloom_Add (Some (rg_filter r)) address of
            Some (Some f) \<Rightarrow> Some (Some (r\<lparr>rg_filter := f\<rparr>))
          | _ \<Rightarrow> None)"

definition registry_MayContain :: "registry option \<Rightarrow> string \<Rightarrow> bool option" where
  "registry_MayContain ro address =
     (case ro of None \<Rightarrow> Some True | Some r \<Rightarrow> bloom_MayContain (Some (rg_filter r)) address)"

fun add_rows :: "user_wallet list \<Rightarrow> bloom_filter \<Rightarrow> bloom_filter option" where
  "add_rows [] f = Some f"
| "add_rows (u # us) f =
     (case bloom_Add (Some f) (uw_address u) of Some (Some f') \<Rightarrow> add_rows us f' | _ \<Rightarrow> None)"

definition max_row_id :: "int \<Rightarrow> user_wallet list \<Rightarrow> int" where
  "max_row_id m rows = foldl (\<lambda>m u. if m < uw_id u then uw_id u else m) m rows"

text \<open>
  The paging loop shared by \<open>load\<close> and \<open>Sync\<close>: pages of the table after the highest id seen until a
  short page (a batch is at least one row, so a page that is not short is not empty). The table is the
  one the run reads; \<open>fail m\<close> says that the page after id \<open>m\<close> cannot be read, and the last component
  that this stopped the loop. \<open>None\<close> is a panic.
\<close>

lemma page_progress:
  "rows = UserWalletAddressesAfter m n t \<Longrightarrow> u \<in> set rows \<Longrightarrow> u \<in> set t \<and> m < uw_id u"
  using select_limit_subset [of "\<lambda>u. m < uw_id u" n "sort_key uw_id t"]
  by (auto simp: UserWalletAddressesAfter_def)

lemma max_row_id_ge: "m \<le> max_row_id m rows \<and> (\<forall>u \<in> set rows. uw_id u \<le> max_row_id m rows)
    \<and> (max_row_id m rows = m \<or> (\<exists>u \<in> set rows. uw_id u = max_row_id m rows))"
proof (induction rows arbitrary: m)
  case Nil
  then show ?case by (simp add: max_row_id_def)
next
  case (Cons u us)
  have e: "max_row_id m (u # us) = max_row_id (if m < uw_id u then uw_id u else m) us"
    by (simp add: max_row_id_def)
  show ?case using Cons.IH [of "if m < uw_id u then uw_id u else m"] unfolding e by (auto split: if_splits)
qed

function (sequential) load_pages ::
  "(int \<Rightarrow> bool) \<Rightarrow> int \<Rightarrow> user_wallet list \<Rightarrow> bloom_filter \<Rightarrow> int \<Rightarrow> (bloom_filter \<times> int \<times> bool) option" where
  "load_pages fail n t f m =
     (if fail m then Some (f, m, True)
      else let rows = UserWalletAddressesAfter m n t
      in case add_rows rows f of
           None \<Rightarrow> None
         | Some f' \<Rightarrow>
             if int (length rows) < n \<or> rows = [] then Some (f', max_row_id m rows, False)
             else load_pages fail n t f' (max_row_id m rows))"
  by pat_completeness auto
termination
proof (relation "measure (\<lambda>(fail, n, t, f, m). length (filter (\<lambda>u. m < uw_id u) t))")
  fix fail :: "int \<Rightarrow> bool" and n t f m rows f'
  assume rows: "rows = UserWalletAddressesAfter m n t" and "\<not> (int (length rows) < n \<or> rows = [])"
  then have u: "hd rows \<in> set rows" by simp
  have lt: "m < max_row_id m rows"
    using page_progress [OF rows u] max_row_id_ge [of m rows] u by force
  obtain v where v: "v \<in> set rows" "uw_id v = max_row_id m rows"
    using max_row_id_ge [of m rows] lt by auto
  have vt: "v \<in> set t" "m < uw_id v" using page_progress [OF rows v(1)] by auto
  have "filter (\<lambda>u. max_row_id m rows < uw_id u) t
      = filter (\<lambda>u. max_row_id m rows < uw_id u) (filter (\<lambda>u. m < uw_id u) t)"
    using lt by (auto simp: filter_filter intro!: filter_cong)
  moreover have "length (filter (\<lambda>u. max_row_id m rows < uw_id u) (filter (\<lambda>u. m < uw_id u) t))
      < length (filter (\<lambda>u. m < uw_id u) t)"
    using vt v(2) by (intro length_filter_less [of v]) auto
  ultimately show "((fail, n, t, f', max_row_id m rows), (fail, n, t, f, m))
      \<in> measure (\<lambda>(fail, n, t, f, m). length (filter (\<lambda>u. m < uw_id u) t))"
    by simp
qed simp

declare load_pages.simps [simp del]

text \<open>One run reads the table \<open>t\<close>; \<open>se_fail_updated\<close> is the failure of the \<open>updated_at\<close> query.\<close>

record sync_env =
  se_log :: "float64 \<Rightarrow> float64"
  se_rate :: float64
  se_table :: "user_wallet list"
  se_fail :: "int \<Rightarrow> bool"
  se_fail_updated :: bool
  se_now :: time

definition rebuild :: "sync_env \<Rightarrow> 64 word \<Rightarrow> registry \<Rightarrow> (registry \<times> go_error option) option" where
  "rebuild env capacity r =
     (case load_pages (se_fail env) (rg_batch r) (se_table env) (NewBloomFilter (se_log env) capacity (se_rate env)) 0 of
        None \<Rightarrow> None
      | Some (f, m, failed) \<Rightarrow>
          if failed then Some (r, Some db_err)
          else Some (r\<lparr>rg_filter := f, rg_max_id := m, rg_synced_at := Some (se_now env)\<rparr>, None))"

definition syncUpdated :: "sync_env \<Rightarrow> time \<Rightarrow> registry \<Rightarrow> (registry \<times> go_error option) option" where
  "syncUpdated env startedAt r =
     (let since = (case rg_synced_at r of None \<Rightarrow> startedAt | Some s \<Rightarrow> s);
          rows = UserWalletAddressesUpdatedSince (since - updateSkew) (rg_batch r) (se_table env)
      in if se_fail_updated env then Some (r, Some db_err)
         else if int (length rows) \<ge> rg_batch r then
           (case load_pages (se_fail env) (rg_batch r) (se_table env) (rg_filter r) 0 of
              None \<Rightarrow> None
            | Some (f, _, failed) \<Rightarrow>
                if failed then Some (r\<lparr>rg_filter := f\<rparr>, Some db_err)
                else Some (r\<lparr>rg_filter := f, rg_synced_at := Some startedAt\<rparr>, None))
         else
           (case add_rows rows (rg_filter r) of
              None \<Rightarrow> None
            | Some f \<Rightarrow> Some (r\<lparr>rg_filter := f, rg_synced_at := Some startedAt\<rparr>, None)))"

definition Sync :: "sync_env \<Rightarrow> registry option \<Rightarrow> (registry option \<times> go_error option) option" where
  "Sync env ro =
     (case ro of
        None \<Rightarrow> Some (None, None)
      | Some r \<Rightarrow>
          map_option (map_prod Some id)
            (if bf_count (rg_filter r) > bf_capacity (rg_filter r) then
               rebuild env (bf_capacity (rg_filter r) * 2) r
             else case load_pages (se_fail env) (rg_batch r) (se_table env) (rg_filter r) (rg_max_id r) of
               None \<Rightarrow> None
             | Some (f, m, failed) \<Rightarrow>
                 if failed then Some (r\<lparr>rg_filter := f, rg_max_id := m\<rparr>, Some db_err)
                 else syncUpdated env (se_now env) (r\<lparr>rg_filter := f, rg_max_id := m\<rparr>)))"

definition Init :: "sync_env \<Rightarrow> bloom_config \<Rightarrow> registry option result" where
  "Init env cfg =
     (let r = \<lparr>rg_filter = NewBloomFilter (se_log env) (word_of_int (bc_expected_addresses cfg)) (bc_false_positive_rate cfg),
               rg_max_id = 0, rg_synced_at = Some (se_now env), rg_page_size = bc_load_batch cfg\<rparr>
      in case load_pages (se_fail env) (rg_batch r) (se_table env) (rg_filter r) 0 of
           None \<Rightarrow> Inr None
         | Some (f, m, failed) \<Rightarrow>
             if failed then Inl db_err else Inr (Some (r\<lparr>rg_filter := f, rg_max_id := m\<rparr>)))"

section \<open>What a filter promises\<close>

text \<open>
  A set that may answer yes too often but never no wrongly. \<open>holds f k\<close> abstracts what was added; the
  clients' lemmas (adding rows, paging a table) follow from these laws alone.
\<close>

locale addr_filter =
  fixes ok :: "'f \<Rightarrow> bool"
    and add :: "'f \<Rightarrow> string \<Rightarrow> 'f option"
    and may :: "'f \<Rightarrow> string \<Rightarrow> bool option"
  assumes add_ok: "ok f \<Longrightarrow> \<exists>f'. add f k = Some f' \<and> ok f'"
    and may_total: "ok f \<Longrightarrow> may f k \<noteq> None"
    and add_may: "ok f \<Longrightarrow> add f k = Some f' \<Longrightarrow> k \<noteq> '''' \<Longrightarrow> may f' k = Some True"
    and add_keeps: "ok f \<Longrightarrow> add f k = Some f' \<Longrightarrow> may f x = Some True \<Longrightarrow> may f' x = Some True"
begin

definition covers :: "'f \<Rightarrow> user_wallet list \<Rightarrow> bool" where
  "covers f us \<longleftrightarrow> (\<forall>u \<in> set us. uw_address u \<noteq> '''' \<longrightarrow> may f (uw_address u) = Some True)"

definition grows :: "'f \<Rightarrow> 'f \<Rightarrow> bool" where
  "grows f f' \<longleftrightarrow> (\<forall>x. may f x = Some True \<longrightarrow> may f' x = Some True)"

fun add_all :: "user_wallet list \<Rightarrow> 'f \<Rightarrow> 'f option" where
  "add_all [] f = Some f"
| "add_all (u # us) f = (case add f (uw_address u) of None \<Rightarrow> None | Some f' \<Rightarrow> add_all us f')"

lemma grows_refl: "grows f f"
  by (simp add: grows_def)

lemma grows_trans: "grows f g \<Longrightarrow> grows g h \<Longrightarrow> grows f h"
  by (simp add: grows_def)

lemma grows_covers: "grows f g \<Longrightarrow> covers f us \<Longrightarrow> covers g us"
  by (simp add: grows_def covers_def)

lemma add_all_ok: "ok f \<Longrightarrow> \<exists>f'. add_all us f = Some f' \<and> ok f' \<and> grows f f' \<and> covers f' us"
proof (induction us arbitrary: f)
  case Nil
  then show ?case by (simp add: grows_refl covers_def)
next
  case (Cons u us)
  obtain g where g: "add f (uw_address u) = Some g" "ok g" using add_ok [OF Cons.prems] by blast
  obtain h where h: "add_all us g = Some h" "ok h" "grows g h" "covers h us" using Cons.IH [OF g(2)] by blast
  have "grows f g" using add_keeps [OF Cons.prems g(1)] by (simp add: grows_def)
  moreover have "covers h (u # us)"
    using add_may [OF Cons.prems g(1)] h(3,4) by (auto simp: covers_def grows_def)
  ultimately show ?case using g h grows_trans by auto
qed

end

section \<open>The filter keeps the promise\<close>

lemma get_bit_iff: "get_bit_at j bits \<longleftrightarrow> bit (bits ! (j div 64)) (j mod 64)"
  by (simp add: get_bit_at_def bit_iff_and_push_bit_not_eq_0)

lemma length_set_bit [simp]: "length (set_bit_at i bits) = length bits"
  by (simp add: set_bit_at_def)

lemma get_set_bit:
  "i div 64 < length bits \<Longrightarrow> j div 64 < length bits \<Longrightarrow>
   get_bit_at j (set_bit_at i bits) \<longleftrightarrow> j = i \<or> get_bit_at j bits"
proof -
  assume l: "i div 64 < length bits" "j div 64 < length bits"
  have "j = i \<longleftrightarrow> j div 64 = i div 64 \<and> j mod 64 = i mod 64" by (metis div_mult_mod_eq)
  then show ?thesis using l
    by (cases "j div 64 = i div 64")
      (auto simp: get_bit_iff set_bit_at_def bit_or_iff bit_exp_iff)
qed

lemma bloom_index_lt: "bloom_safe f \<Longrightarrow> bloom_index f k i div 64 < length (bf_bits f)"
proof -
  assume s: "bloom_safe f"
  have "bloom_index f k i < unat (bf_m f)"
    using s by (auto simp: bloom_index_def bloom_safe_def unat_mod unat_gt_0 split: prod.split)
  with s show ?thesis by (simp add: bloom_safe_def less_mult_imp_div_less mult.commute)
qed

lemma add_bits_ok:
  assumes "bloom_safe f" and "length bits = length (bf_bits f)"
  shows "\<exists>bits'. add_bits f k is bits = Some bits' \<and> length bits' = length bits \<and>
    (\<forall>j. j div 64 < length bits \<longrightarrow> get_bit_at j bits' = (get_bit_at j bits \<or> j \<in> bloom_index f k ` set is))"
  using assms(2)
proof (induction "is" arbitrary: bits)
  case (Cons i "is")
  let ?x = "bloom_index f k i"
  have x: "?x div 64 < length bits" using bloom_index_lt [OF assms(1)] Cons.prems by simp
  have m: "bf_m f \<noteq> 0" using assms(1) by (simp add: bloom_safe_def)
  obtain bits' where b: "add_bits f k is (set_bit_at ?x bits) = Some bits'" "length bits' = length bits"
    "\<And>j. j div 64 < length bits \<Longrightarrow>
      get_bit_at j bits' = (get_bit_at j (set_bit_at ?x bits) \<or> j \<in> bloom_index f k ` set is)"
    using Cons.IH [of "set_bit_at ?x bits"] Cons.prems by auto
  have "add_bits f k (i # is) bits = Some bits'" using x m b(1) by (simp add: Let_def)
  moreover have "get_bit_at j bits' = (get_bit_at j bits \<or> j \<in> bloom_index f k ` set (i # is))"
    if "j div 64 < length bits" for j
    using b(3) [OF that] get_set_bit [OF x that] by auto
  ultimately show ?case using b(2) by blast
qed simp

lemma bloom_index_bits [simp]:
  "bloom_index (f\<lparr>bf_bits := b, bf_count := c\<rparr>) k i = bloom_index f k i"
  by (simp add: bloom_index_def)

lemma check_bits_iff:
  assumes "bloom_safe f"
  shows "check_bits f k is = Some (\<forall>i \<in> set is. get_bit_at (bloom_index f k i) (bf_bits f))"
proof (induction "is")
  case (Cons i "is")
  then show ?case using assms bloom_index_lt [OF assms, of k i] by (auto simp: Let_def bloom_safe_def)
qed simp

definition filter_add :: "bloom_filter \<Rightarrow> string \<Rightarrow> bloom_filter option" where
  "filter_add f k = (case bloom_Add (Some f) k of Some (Some g) \<Rightarrow> Some g | _ \<Rightarrow> None)"

lemma filter_add_ok:
  assumes "bloom_safe f" and "k \<noteq> ''''"
  shows "\<exists>bits. filter_add f k = Some (f\<lparr>bf_bits := bits, bf_count := bf_count f + 1\<rparr>)
    \<and> length bits = length (bf_bits f)
    \<and> (\<forall>j. j div 64 < length (bf_bits f) \<longrightarrow>
         get_bit_at j bits = (get_bit_at j (bf_bits f) \<or> j \<in> bloom_index f k ` {0..<unat (bf_k f)}))"
  using add_bits_ok [OF assms(1) refl, of k "[0..<unat (bf_k f)]"] assms(2)
  by (auto simp: filter_add_def bloom_Add_def)

lemma filter_add_Some:
  assumes "bloom_safe f" and "k \<noteq> ''''" and "filter_add f k = Some f'"
  shows "bloom_safe f'" and "bf_k f' = bf_k f" and "bloom_index f' = bloom_index f"
    and "length (bf_bits f') = length (bf_bits f)"
    and "j div 64 < length (bf_bits f) \<Longrightarrow>
      get_bit_at j (bf_bits f') = (get_bit_at j (bf_bits f) \<or> j \<in> bloom_index f k ` {0..<unat (bf_k f)})"
proof -
  obtain bits where b: "filter_add f k = Some (f\<lparr>bf_bits := bits, bf_count := bf_count f + 1\<rparr>)"
    "length bits = length (bf_bits f)"
    "\<And>j. j div 64 < length (bf_bits f) \<Longrightarrow>
      get_bit_at j bits = (get_bit_at j (bf_bits f) \<or> j \<in> bloom_index f k ` {0..<unat (bf_k f)})"
    using filter_add_ok [OF assms(1,2)] by blast
  have f': "f' = f\<lparr>bf_bits := bits, bf_count := bf_count f + 1\<rparr>" using b(1) assms(3) by simp
  show "bloom_safe f'" "bf_k f' = bf_k f" "length (bf_bits f') = length (bf_bits f)"
    using assms(1) f' b(2) by (simp_all add: bloom_safe_def)
  show "bloom_index f' = bloom_index f" by (intro ext) (simp add: f')
  show "j div 64 < length (bf_bits f) \<Longrightarrow>
      get_bit_at j (bf_bits f') = (get_bit_at j (bf_bits f) \<or> j \<in> bloom_index f k ` {0..<unat (bf_k f)})"
    using b(3) by (simp add: f')
qed

lemma may_iff:
  "bloom_safe f \<Longrightarrow> bloom_MayContain (Some f) k =
     Some (k \<noteq> '''' \<and> (\<forall>i \<in> {0..<unat (bf_k f)}. get_bit_at (bloom_index f k i) (bf_bits f)))"
  by (simp add: bloom_MayContain_def check_bits_iff)

lemma filter_add_empty: "filter_add f '''' = Some f"
  by (simp add: filter_add_def bloom_Add_def)

interpretation bloom: addr_filter bloom_safe filter_add "\<lambda>f. bloom_MayContain (Some f)"
proof
  fix f f' k x
  assume ok: "bloom_safe f"
  show "\<exists>f'. filter_add f k = Some f' \<and> bloom_safe f'"
  proof (cases "k = ''''")
    case True
    then show ?thesis using ok filter_add_empty by blast
  next
    case False
    obtain f' where "filter_add f k = Some f'" using filter_add_ok [OF ok False] by blast
    then show ?thesis using filter_add_Some(1) [OF ok False] by blast
  qed
  show "bloom_MayContain (Some f) k \<noteq> None" by (simp add: may_iff [OF ok])
  assume add: "filter_add f k = Some f'"
  show "bloom_MayContain (Some f') k = Some True" if k: "k \<noteq> ''''"
    using filter_add_Some [OF ok k add] k bloom_index_lt [OF ok, of k] by (simp add: may_iff)
  show "bloom_MayContain (Some f') x = Some True" if x: "bloom_MayContain (Some f) x = Some True"
  proof (cases "k = ''''")
    case True
    then show ?thesis using add x filter_add_empty by simp
  next
    case False
    then show ?thesis
      using filter_add_Some [OF ok False add] x bloom_index_lt [OF ok, of x] by (simp add: may_iff ok)
  qed
qed

lemma add_rows_all: "add_rows us f = bloom.add_all us f"
  by (induction us arbitrary: f) (simp_all add: filter_add_def split: option.split)

lemma NewBloomFilter_safe:
  assumes "fst (Estimate Log (if expected = 0 then 1 else expected)
     (if r \<le> 0 \<or> 1 \<le> r then fl64 (1 / 10000) else r)) \<le> 2 ^ 63"
  shows "bloom_safe (NewBloomFilter Log expected r)"
proof -
  obtain m k where e: "Estimate Log (if expected = 0 then 1 else expected)
     (if r \<le> 0 \<or> 1 \<le> r then fl64 (1 / 10000) else r) = (m, k)" by fastforce
  have m: "64 \<le> m" "m \<le> 2 ^ 63" using e assms by (auto simp: Estimate_def Let_def split: if_splits)
  have "unat m \<le> 2 ^ 63" using m(2) by (simp add: word_le_nat_alt)
  then have "unat (m + 63) = unat m + 63" by (simp add: unat_word_ariths)
  then have "unat ((m + 63) div 64) = (unat m + 63) div 64" by (simp add: unat_div)
  moreover have "m \<noteq> 0" using m(1) by auto
  ultimately show ?thesis
    by (simp add: bloom_safe_def NewBloomFilter_def Let_def e)
qed

section \<open>No address of the table is missed\<close>

lemma add_rows_ok:
  "bloom_safe f \<Longrightarrow> \<exists>f'. add_rows us f = Some f' \<and> bloom_safe f' \<and> bloom.grows f f' \<and> bloom.covers f' us"
  using bloom.add_all_ok by (simp add: add_rows_all)

lemma page_rows:
  assumes "rows = UserWalletAddressesAfter m n t" and "0 < n" and "u \<in> set t" and "m < uw_id u"
    and "distinct (map uw_id t)"
  shows "u \<in> set rows \<or> (int (length rows) \<ge> n \<and> max_row_id m rows < uw_id u)"
proof -
  let ?F = "filter (\<lambda>u. m < uw_id u) (sort_key uw_id t)"
  have rows: "rows = take (nat n) ?F" using assms(1,2) by (simp add: UserWalletAddressesAfter_def select_limit_def)
  have u: "u \<in> set ?F" using assms(3,4) by simp
  show ?thesis
  proof (cases "u \<in> set rows")
    case False
    then have "u \<in> set (drop (nat n) ?F)" using u rows by (metis Un_iff append_take_drop_id set_append)
    then have len: "nat n < length ?F" by (cases "nat n < length ?F") auto
    have "sorted (map uw_id ?F)" by (rule sorted_filter) simp
    then have "sorted (map uw_id rows @ map uw_id (drop (nat n) ?F))"
      unfolding rows by (simp flip: map_append)
    then have le: "\<forall>v \<in> set rows. uw_id v \<le> uw_id u"
      using \<open>u \<in> set (drop (nat n) ?F)\<close> by (auto simp: sorted_append)
    have "distinct (map uw_id ?F)" using assms(5) by (simp add: distinct_map_filter distinct_map inj_on_def)
    then have ne: "\<forall>v \<in> set rows. uw_id v \<noteq> uw_id u"
      using False rows u by (metis distinct_map in_set_takeD inj_onD)
    have "max_row_id m rows < uw_id u"
      using max_row_id_ge [of m rows] le ne assms(4) by force
    moreover have "int (length rows) \<ge> n" using len rows by simp
    ultimately show ?thesis by blast
  qed simp
qed

text \<open>The loop covers every row of a part \<open>P\<close> of the table whose rows up to \<open>m\<close> were covered before.\<close>

lemma load_pages_part:
  assumes "distinct (map uw_id t)" and "0 < n" and "bloom_safe f"
    and "bloom.covers f (filter (\<lambda>u. uw_id u \<le> m \<and> P u) t)"
  shows "\<exists>f' m' failed. load_pages fail n t f m = Some (f', m', failed) \<and> bloom_safe f'
    \<and> (\<not> failed \<longrightarrow> bloom.covers f' (filter P t))"
  using assms
proof (induction fail n t f m rule: load_pages.induct)
  case (1 fail n t f m)
  show ?case
  proof (cases "fail m")
    case True
    then have "load_pages fail n t f m = Some (f, m, True)" by (simp add: load_pages.simps)
    then show ?thesis using "1.prems" by blast
  next
    case False
    define rows where "rows = UserWalletAddressesAfter m n t"
    obtain g where g: "add_rows rows f = Some g" "bloom_safe g" "bloom.grows f g" "bloom.covers g rows"
      using add_rows_ok [OF "1.prems"(3)] by blast
    have low: "bloom.covers g (filter (\<lambda>u. uw_id u \<le> m \<and> P u) t)"
      using bloom.grows_covers [OF g(3) "1.prems"(4)] .
    have step: "u \<in> set rows \<or> (int (length rows) \<ge> n \<and> max_row_id m rows < uw_id u)"
      if "u \<in> set t" "m < uw_id u" for u
      using page_rows [OF rows_def "1.prems"(2) that "1.prems"(1)] .
    have next': "bloom.covers g (filter (\<lambda>u. uw_id u \<le> max_row_id m rows \<and> P u) t)"
      using low step g(4) by (auto simp: bloom.covers_def) (metis linorder_not_le)
    show ?thesis
    proof (cases "int (length rows) < n \<or> rows = []")
      case True
      then have "int (length rows) < n" using "1.prems"(2) by auto
      then have "bloom.covers g (filter P t)"
        using low step g(4) by (auto simp: bloom.covers_def) (metis linorder_not_le)
      moreover have "load_pages fail n t f m = Some (g, max_row_id m rows, False)"
        using False True g(1) by (simp add: load_pages.simps [of fail n t f m] Let_def rows_def)
      ultimately show ?thesis using g by blast
    next
      case more: False
      have e: "load_pages fail n t f m = load_pages fail n t g (max_row_id m rows)"
        using False more g(1) by (simp add: load_pages.simps [of fail n t f m] Let_def rows_def)
      show ?thesis
        using "1.IH" [OF False rows_def g(1) more "1.prems"(1,2) g(2) next'] unfolding e .
    qed
  qed
qed

lemmas load_pages_covers = load_pages_part [where P = "\<lambda>_. True", simplified]

text \<open>
  The registry is in step with a table when it knows every address it has paged over and not seen
  changed since: rows with an id it has passed and an \<open>updated_at\<close> before the window of the next sync.
\<close>

definition in_step :: "registry \<Rightarrow> user_wallet list \<Rightarrow> bool" where
  "in_step r t \<longleftrightarrow> bloom_safe (rg_filter r) \<and> (\<exists>s. rg_synced_at r = Some s \<and>
     bloom.covers (rg_filter r) (filter (\<lambda>u. uw_id u \<le> rg_max_id r \<and> uw_updated_at u < s - updateSkew) t))"

lemma covers_mono: "bloom.covers f t \<Longrightarrow> set t' \<subseteq> set t \<Longrightarrow> bloom.covers f t'"
  by (auto simp: bloom.covers_def)

lemma rg_batch_pos [simp]: "0 < rg_batch r"
  by (simp add: rg_batch_def)

lemma rg_batch_cong [simp]: "rg_batch (r\<lparr>rg_filter := f, rg_max_id := m\<rparr>) = rg_batch r"
  by (simp add: rg_batch_def)

lemma updated_rows_all:
  assumes "\<not> int (length (UserWalletAddressesUpdatedSince s n t)) \<ge> n" and "u \<in> set t" and "s \<le> uw_updated_at u"
  shows "u \<in> set (UserWalletAddressesUpdatedSince s n t)"
  using assms by (auto simp: UserWalletAddressesUpdatedSince_def select_limit_def split: if_splits)

lemma covers_low: "\<forall>u \<in> set t. 0 < uw_id u \<Longrightarrow> bloom.covers f (filter (\<lambda>u. uw_id u \<le> 0) t)"
  by (auto simp: bloom.covers_def)

lemma syncUpdated_covers:
  assumes "distinct (map uw_id (se_table env))" and "\<forall>u \<in> set (se_table env). 0 < uw_id u"
    and "bloom_safe (rg_filter r)" and "rg_synced_at r = Some s"
    and "bloom.covers (rg_filter r) (filter (\<lambda>u. uw_updated_at u < s - updateSkew) (se_table env))"
  shows "\<exists>r' e. syncUpdated env now r = Some (r', e) \<and> bloom_safe (rg_filter r')
    \<and> (e = None \<longrightarrow> bloom.covers (rg_filter r') (se_table env))"
proof -
  let ?t = "se_table env" and ?n = "rg_batch r"
  let ?rows = "UserWalletAddressesUpdatedSince (s - updateSkew) ?n ?t"
  consider "se_fail_updated env" | "\<not> se_fail_updated env" "int (length ?rows) \<ge> ?n"
    | "\<not> se_fail_updated env" "\<not> int (length ?rows) \<ge> ?n" by blast
  then show ?thesis
  proof cases
    case 1
    then show ?thesis using assms(3) by (simp add: syncUpdated_def Let_def)
  next
    case 2
    obtain f m failed where "load_pages (se_fail env) ?n ?t (rg_filter r) 0 = Some (f, m, failed)"
      "bloom_safe f" "\<not> failed \<longrightarrow> bloom.covers f ?t"
      using load_pages_covers [OF assms(1) rg_batch_pos assms(3) covers_low [OF assms(2)]] by blast
    then show ?thesis using 2 assms(4) by (cases failed) (simp_all add: syncUpdated_def Let_def)
  next
    case 3
    obtain f where f: "add_rows ?rows (rg_filter r) = Some f" "bloom_safe f" "bloom.grows (rg_filter r) f"
      "bloom.covers f ?rows" using add_rows_ok [OF assms(3)] by blast
    have "bloom.covers f ?t"
      using bloom.grows_covers [OF f(3) assms(5)] f(4) updated_rows_all [OF 3(2)]
      by (auto simp: bloom.covers_def) (metis linorder_not_less)
    then show ?thesis using 3 f assms(4) by (simp add: syncUpdated_def Let_def)
  qed
qed

text \<open>C19. No deposit address is missed: a sync of a registry that is in step with the wallet table never
  panics and, unless it reports an error, leaves a filter that answers yes for every address of the
  table, whether the row is new, was updated in place, or the filter had to be rebuilt larger.\<close>

theorem Sync_covers:
  assumes "in_step r (se_table env)" and "distinct (map uw_id (se_table env))"
    and "\<And>u. u \<in> set (se_table env) \<Longrightarrow> 0 < uw_id u"
    and "\<And>c. bloom_safe (NewBloomFilter (se_log env) c (se_rate env))"
  shows "\<exists>r' e. Sync env (Some r) = Some (Some r', e) \<and> bloom_safe (rg_filter r')
    \<and> (e = None \<longrightarrow> list_all (\<lambda>u. uw_address u = '''' \<or> registry_MayContain (Some r') (uw_address u) = Some True)
         (se_table env))"
proof -
  let ?t = "se_table env"
  have pos: "\<forall>u \<in> set ?t. 0 < uw_id u" using assms(3) by blast
  have goal: "list_all (\<lambda>u. uw_address u = '''' \<or> registry_MayContain (Some r') (uw_address u) = Some True) ?t
      = bloom.covers (rg_filter r') ?t" for r'
    by (auto simp: list_all_iff bloom.covers_def registry_MayContain_def)
  obtain s where safe: "bloom_safe (rg_filter r)" and s: "rg_synced_at r = Some s"
    "bloom.covers (rg_filter r) (filter (\<lambda>u. uw_id u \<le> rg_max_id r \<and> uw_updated_at u < s - updateSkew) ?t)"
    using assms(1) by (auto simp: in_step_def)
  show ?thesis
  proof (cases "bf_count (rg_filter r) > bf_capacity (rg_filter r)")
    case True
    obtain f m failed where "load_pages (se_fail env) (rg_batch r) ?t
        (NewBloomFilter (se_log env) (bf_capacity (rg_filter r) * 2) (se_rate env)) 0 = Some (f, m, failed)"
      "bloom_safe f" "\<not> failed \<longrightarrow> bloom.covers f ?t"
      using load_pages_covers [OF assms(2) rg_batch_pos assms(4) covers_low [OF pos]] by blast
    then show ?thesis using True safe unfolding goal by (cases failed) (simp_all add: Sync_def rebuild_def)
  next
    case False
    let ?old = "filter (\<lambda>u. uw_updated_at u < s - updateSkew) ?t"
    have cov: "\<exists>f m failed. load_pages (se_fail env) (rg_batch r) ?t (rg_filter r) (rg_max_id r) = Some (f, m, failed)
        \<and> bloom_safe f \<and> (\<not> failed \<longrightarrow> bloom.covers f ?old)"
      using load_pages_part [OF assms(2) rg_batch_pos safe s(2)] by blast
    then obtain f m failed where l: "load_pages (se_fail env) (rg_batch r) ?t (rg_filter r) (rg_max_id r) = Some (f, m, failed)"
      "bloom_safe f" "\<not> failed \<longrightarrow> bloom.covers f ?old" by blast
    show ?thesis
    proof (cases failed)
      case True
      then show ?thesis using False l by (simp add: Sync_def)
    next
      case ok: False
      let ?r = "r\<lparr>rg_filter := f, rg_max_id := m\<rparr>"
      have "\<exists>r' e. syncUpdated env (se_now env) ?r = Some (r', e) \<and> bloom_safe (rg_filter r')
          \<and> (e = None \<longrightarrow> bloom.covers (rg_filter r') ?t)"
        by (rule syncUpdated_covers [OF assms(2) pos, of ?r s]) (use l ok s in simp_all)
      then show ?thesis using False l ok unfolding goal by (auto simp: Sync_def)
    qed
  qed
qed

text \<open>A freshly allocated address is known at once, and no address is forgotten.\<close>

lemma registry_Add_known:
  assumes "bloom_safe (rg_filter r)" and "address \<noteq> ''''"
  shows "\<exists>r'. registry_Add (Some r) address = Some (Some r') \<and> bloom_safe (rg_filter r')
    \<and> registry_MayContain (Some r') address = Some True
    \<and> (\<forall>x. registry_MayContain (Some r) x = Some True \<longrightarrow> registry_MayContain (Some r') x = Some True)"
proof -
  obtain f where f: "filter_add (rg_filter r) address = Some f" "bloom_safe f"
    using bloom.add_ok [OF assms(1)] by blast
  then have "bloom_Add (Some (rg_filter r)) address = Some (Some f)"
    by (simp add: filter_add_def split: option.splits)
  then show ?thesis
    using f(2) assms(2) bloom.add_may [OF assms(1) f(1)] bloom.add_keeps [OF assms(1) f(1)]
    by (simp add: registry_Add_def registry_MayContain_def)
qed

section \<open>An instance\<close>

definition bloom_env :: sync_env where
  "bloom_env = \<lparr>se_log = (\<lambda>_. 0), se_rate = 0,
     se_table = [\<lparr>uw_id = 1, uw_merchant_id = ''M'', uw_uid = ''u'', uw_account = ''a'', uw_chain = ''TRON'',
       uw_address = ''T'', uw_addr_index = 0, uw_chain_idx = ''TRON'', uw_derive_path = '''', uw_purpose = ''deposit'',
       uw_status = 1, uw_created_at = 0, uw_updated_at = 0\<rparr>],
     se_fail = (\<lambda>_. False), se_fail_updated = False, se_now = 0\<rparr>"

definition bloom_registry :: registry where
  "bloom_registry = \<lparr>rg_filter = NewBloomFilter (\<lambda>_. 0) 1 0, rg_max_id = 0, rg_synced_at = Some 0, rg_page_size = 0\<rparr>"

lemma flat_log_safe: "bloom_safe (NewBloomFilter (\<lambda>_. 0) c r)"
  by (rule NewBloomFilter_safe) (simp add: Estimate_def Let_def uint64_of_float_def math_Ceil_def int_of_float_def)

theorem Sync_covers_witness:
  "\<exists>r' e. Sync bloom_env (Some bloom_registry) = Some (Some r', e) \<and> bloom_safe (rg_filter r')"
proof -
  have "in_step bloom_registry (se_table bloom_env)"
    by (simp add: in_step_def bloom_registry_def bloom_env_def flat_log_safe bloom.covers_def)
  moreover have "distinct (map uw_id (se_table bloom_env))" by (simp add: bloom_env_def)
  moreover have "0 < uw_id u" if "u \<in> set (se_table bloom_env)" for u using that by (auto simp: bloom_env_def)
  moreover have "bloom_safe (NewBloomFilter (se_log bloom_env) c (se_rate bloom_env))" for c
    by (simp add: bloom_env_def flat_log_safe)
  ultimately show ?thesis using Sync_covers [of bloom_registry bloom_env] by blast
qed

end
