(* ===== verification/Gateway.thy ===== *)
theory Gateway
  imports Chain Config
begin

text \<open>
  The failover loop of \<open>internal/chain/gateway.go\<close> and the throttling of \<open>ratelimit.go\<close>. Time passes
  while a call runs: the clock is part of its state, an exchange takes as long as its answer says, and
  \<open>ce_done\<close> is when the caller's context is cancelled. \<open>ce_exchange k\<close> is what becomes of the \<open>k\<close>-th
  request of the call; \<open>ce_date\<close> reads an HTTP date and \<open>ce_decodes\<close> says whether a body decodes.
\<close>

section \<open>Throttling\<close>

definition sec :: time where
  "sec = 1000000000"

definition maxRetryAfter :: time where
  "maxRetryAfter = 2 * 60 * sec"

definition defaultRetryAfter :: time where
  "defaultRetryAfter = 5 * sec"

record limiter =
  lm_qps :: float64
  lm_burst :: float64
  lm_tokens :: float64
  lm_last :: time

definition newLimiter :: "time \<Rightarrow> float64 \<Rightarrow> int \<Rightarrow> limiter option" where
  "newLimiter now qps burst =
     (if qps \<le> 0 then None
      else let b0 = float_of_int burst; b = (if b0 < 1 then 1 else b0)
           in Some \<lparr>lm_qps = qps, lm_burst = b, lm_tokens = b, lm_last = now\<rparr>)"

text \<open>\<open>Duration.Seconds\<close>.\<close>

definition Seconds :: "time \<Rightarrow> float64" where
  "Seconds d = fl64 (float_of_int (go_div d sec) + fl64 (float_of_int (d - go_div d sec * sec) / 1000000000))"

definition reserve :: "time \<Rightarrow> limiter \<Rightarrow> limiter \<times> time" where
  "reserve now l =
     (let t0 = fl64 (lm_tokens l + fl64 (Seconds (now - lm_last l) * lm_qps l));
          t1 = (if lm_burst l < t0 then lm_burst l else t0);
          t2 = fl64 (t1 - 1)
      in (l\<lparr>lm_tokens := t2, lm_last := now\<rparr>,
          if 0 \<le> t2 then 0 else int_of_float (fl64 (fl64 (- t2 / lm_qps l) * 1000000000))))"

text \<open>A cooldown is the time it ends; it never started when there is none.\<close>

definition cool_set :: "time \<Rightarrow> time \<Rightarrow> time option \<Rightarrow> time option" where
  "cool_set now d0 c =
     (let d1 = (if d0 \<le> 0 then defaultRetryAfter else d0);
          d = (if maxRetryAfter < d1 then maxRetryAfter else d1)
      in case c of None \<Rightarrow> Some (now + d) | Some u \<Rightarrow> if u < now + d then Some (now + d) else Some u)"

definition remaining :: "time \<Rightarrow> time option \<Rightarrow> time" where
  "remaining now c = (case c of None \<Rightarrow> - (2 ^ 63) | Some u \<Rightarrow> u - now)"

definition suspendedSeconds :: "string \<Rightarrow> int option" where
  "suspendedSeconds body =
     (let marker = ''suspended for ''
      in case str_index body marker of
           None \<Rightarrow> None
         | Some i \<Rightarrow>
             let digits = takeWhile is_digit (TrimSpace (drop (i + length marker) body))
             in if digits = '''' then None
                else case ParseInt digits of None \<Rightarrow> None | Some secs \<Rightarrow> if secs \<le> 0 then None else Some secs)"

definition parseRetryAfter :: "(string \<Rightarrow> time option) \<Rightarrow> time \<Rightarrow> string \<Rightarrow> string \<Rightarrow> time" where
  "parseRetryAfter date now header body =
     (let v = TrimSpace header;
          hint = (case suspendedSeconds body of None \<Rightarrow> defaultRetryAfter | Some secs \<Rightarrow> i64 (secs * sec));
          dated = (case date v of None \<Rightarrow> hint | Some t \<Rightarrow> if 0 < t - now then t - now else hint)
      in if v = '''' then hint
         else case ParseInt v of
           Some secs \<Rightarrow> if 0 < secs then i64 (secs * sec) else dated
         | None \<Rightarrow> dated)"

section \<open>Nodes\<close>

record gw_node =
  gn_conf :: node_config
  gn_limiter :: "limiter option"
  gn_cool :: "time option"

record gateway =
  gw_nodes :: "gw_node list"
  gw_retry_per_node :: int
  gw_solidity_confirm :: bool
  gw_rate_limit_wait :: time

definition defaultTronGridQPS :: float64 where
  "defaultTronGridQPS = 10"

definition new_node :: "time \<Rightarrow> node_config \<Rightarrow> gw_node" where
  "new_node now nc =
     (let qps = (if nd_qps nc = 0 \<and> EqualFold (nd_type nc) ''trongrid'' then defaultTronGridQPS else nd_qps nc)
      in \<lparr>gn_conf = nc, gn_limiter = newLimiter now qps (nd_burst nc), gn_cool = None\<rparr>)"

definition NewGateway :: "time \<Rightarrow> chain_config \<Rightarrow> gateway result" where
  "NewGateway now c =
     (let nodes = map (new_node now) (filter nd_enabled (hc_nodes c))
      in if nodes = [] then Inl (Err ErrNoNodeAvailable ''chain: no node available'')
         else Inr \<lparr>gw_nodes = sort_key (\<lambda>n. nd_priority (gn_conf n)) nodes,
                   gw_retry_per_node = max (hc_retry_per_node c) 1,
                   gw_solidity_confirm = hc_solidity_for_confirm c,
                   gw_rate_limit_wait = hc_rate_limit_wait c\<rparr>)"

text \<open>The cut of a body for the log goes back to the first byte of a character.\<close>

definition RuneStart :: "char \<Rightarrow> bool" where
  "RuneStart c \<longleftrightarrow> \<not> (128 \<le> (of_char c :: nat) \<and> (of_char c :: nat) < 192)"

fun rune_cut :: "string \<Rightarrow> nat \<Rightarrow> nat" where
  "rune_cut s 0 = 0"
| "rune_cut s (Suc n) = (if RuneStart (s ! Suc n) then Suc n else rune_cut s n)"

definition truncate_runes :: "string \<Rightarrow> nat \<Rightarrow> string" where
  "truncate_runes s n = (if length s \<le> n then s else take (rune_cut s n) s @ ''...'')"

section \<open>One request\<close>

record gw_request =
  gr_method :: string
  gr_url :: string
  gr_headers :: "(string \<times> string) list"
  gr_payload :: "string option"

text \<open>What becomes of a request, and how long it takes: no answer, or a status, the \<open>Retry-After\<close> header
  and the body.\<close>

datatype exchange = Unreachable nat string | Answered nat int string string

record call_env =
  ce_exchange :: "nat \<Rightarrow> gw_request \<Rightarrow> exchange"
  ce_done :: "time option"
  ce_date :: "string \<Rightarrow> time option"
  ce_decodes :: "string \<Rightarrow> bool"

text \<open>\<open>cs_sent\<close> is the history: the nodes asked, when, and their cooldowns at that moment.\<close>

record call_state =
  cs_now :: time
  cs_count :: nat
  cs_last :: "go_error option"
  cs_reopen :: time
  cs_sent :: "(string \<times> time \<times> time option) list"

definition canceled :: "call_env \<Rightarrow> time \<Rightarrow> bool" where
  "canceled env t \<longleftrightarrow> (case ce_done env of None \<Rightarrow> False | Some d \<Rightarrow> d \<le> t)"

definition ctx_err :: go_error where
  "ctx_err = Err ErrCanceled ''context canceled''"

definition node_request :: "gw_node \<Rightarrow> string \<Rightarrow> string option \<Rightarrow> gw_request" where
  "node_request n path payload =
     \<lparr>gr_method = (if payload = None then ''GET'' else ''POST''),
      gr_url = TrimRight (\<lambda>c. c = CHR ''/'') (nd_endpoint (gn_conf n)) @ path,
      gr_headers = [(''Content-Type'', ''application/json'')] @
        (if nd_api_key (gn_conf n) \<noteq> '''' then [(''TRON-PRO-API-KEY'', nd_api_key (gn_conf n))] else []) @
        nd_headers (gn_conf n),
      gr_payload = payload\<rparr>"

text \<open>Waiting for a token: the node with it taken, when the wait is over, and whether the context ended it.\<close>

definition limiter_wait :: "call_env \<Rightarrow> time \<Rightarrow> gw_node \<Rightarrow> gw_node \<times> time \<times> bool" where
  "limiter_wait env now n =
     (case gn_limiter n of
        None \<Rightarrow> (n, now, False)
      | Some l \<Rightarrow>
          let (l', d) = reserve now l; n' = n\<lparr>gn_limiter := Some l'\<rparr>
          in if d \<le> 0 then (n', now, canceled env now)
             else if canceled env (now + d) then
               (n', max now (case ce_done env of None \<Rightarrow> now | Some t \<Rightarrow> t), True)
             else (n', now + d, False))"

definition rateLimitError :: "string \<Rightarrow> go_error" where
  "rateLimitError body = Err ErrRateLimited (''http 429: '' @ body)"

definition node_do ::
  "call_env \<Rightarrow> string \<Rightarrow> string option \<Rightarrow> gw_node \<Rightarrow> call_state \<Rightarrow> gw_node \<times> call_state \<times> string result" where
  "node_do env path payload n0 st =
     (let (n, now, stop) = limiter_wait env (cs_now st) n0
      in if stop then (n, st\<lparr>cs_now := now\<rparr>, Inl ctx_err)
         else
           let st1 = st\<lparr>cs_count := Suc (cs_count st), cs_sent := cs_sent st @ [(nd_name (gn_conf n), cs_now st, gn_cool n0)]\<rparr>
           in case ce_exchange env (cs_count st) (node_request n path payload) of
                Unreachable t msg \<Rightarrow> (n, st1\<lparr>cs_now := now + int t\<rparr>, Inl (errors_new msg))
              | Answered t code header raw \<Rightarrow>
                  let later = now + int t; st2 = st1\<lparr>cs_now := later\<rparr>
                  in if code = 429 then
                       (n\<lparr>gn_cool := cool_set later (parseRetryAfter (ce_date env) later header raw) (gn_cool n)\<rparr>,
                        st2, Inl (rateLimitError (truncate_runes raw 200)))
                     else if 400 \<le> code then
                       (n, st2, Inl (errors_new (''http '' @ big_String code @ '': '' @ truncate_runes raw 200)))
                     else (n, st2, Inr raw))"

section \<open>The failover loop\<close>

definition note_reopen :: "time \<Rightarrow> call_state \<Rightarrow> call_state" where
  "note_reopen left st =
     (if 0 < left \<and> (cs_reopen st = 0 \<or> left < cs_reopen st) then st\<lparr>cs_reopen := left\<rparr> else st)"

text \<open>The attempts on one node; \<open>Some raw\<close> is an answer that decodes, which ends the call.\<close>

fun attempts_on ::
  "call_env \<Rightarrow> string \<Rightarrow> string option \<Rightarrow> nat \<Rightarrow> gw_node \<Rightarrow> call_state \<Rightarrow> gw_node \<times> call_state \<times> string option" where
  "attempts_on env path payload 0 n st = (n, st, None)"
| "attempts_on env path payload (Suc k) n st =
     (case node_do env path payload n st of
        (n', st', Inl e) \<Rightarrow>
          let st2 = st'\<lparr>cs_last := Some (wrap_err (nd_name (gn_conf n') @ '': '') e)\<rparr>
          in if err_is e = ErrRateLimited then
               (n', note_reopen (remaining (cs_now st2) (gn_cool n')) st2, None)
             else attempts_on env path payload k n' st2
      | (n', st', Inr raw) \<Rightarrow>
          if ce_decodes env raw then (n', st', Some raw)
          else attempts_on env path payload k n'
                 (st'\<lparr>cs_last := Some (errors_new (nd_name (gn_conf n') @ '': decode '' @ path))\<rparr>))"

fun try_nodes ::
  "call_env \<Rightarrow> string \<Rightarrow> string option \<Rightarrow> nat \<Rightarrow> gw_node list \<Rightarrow> call_state \<Rightarrow>
     gw_node list \<times> call_state \<times> string option" where
  "try_nodes env path payload k [] st = ([], st, None)"
| "try_nodes env path payload k (n # ns) st =
     (let left = remaining (cs_now st) (gn_cool n)
      in if 0 < left then
           (let (ns', st', r) = try_nodes env path payload k ns (note_reopen left st) in (n # ns', st', r))
         else case attempts_on env path payload k n st of
           (n', st1, Some raw) \<Rightarrow> (n' # ns, st1, Some raw)
         | (n', st1, None) \<Rightarrow>
             (let (ns', st', r) = try_nodes env path payload k ns st1 in (n' # ns', st', r)))"

definition no_node :: "go_error option \<Rightarrow> go_error" where
  "no_node lastErr =
     Err ErrNoNodeAvailable (''chain: no node available: '' @
       (case lastErr of None \<Rightarrow> ''chain: no node available'' | Some e \<Rightarrow> err_msg e))"

text \<open>Time never runs backwards, so the wait for a node to reopen ends before \<open>giveUp\<close>.\<close>

lemma limiter_wait_time: "limiter_wait env now n = (n', now', b) \<Longrightarrow> now \<le> now'"
  by (auto simp: limiter_wait_def Let_def split: option.splits prod.splits if_splits)

lemma node_do_time: "node_do env path payload n st = (n', st', r) \<Longrightarrow> cs_now st \<le> cs_now st'"
  using limiter_wait_time [of env "cs_now st" n]
  by (auto simp: node_do_def Let_def split: prod.splits exchange.splits if_splits)

lemma note_reopen_simps [simp]:
  "cs_now (note_reopen l st) = cs_now st" "cs_sent (note_reopen l st) = cs_sent st"
  "cs_last (note_reopen l st) = cs_last st" "cs_count (note_reopen l st) = cs_count st"
  by (simp_all add: note_reopen_def)

lemma attempts_on_time: "attempts_on env path payload k n st = (n', st', r) \<Longrightarrow> cs_now st \<le> cs_now st'"
proof (induction k arbitrary: n st)
  case (Suc k)
  obtain n1 st1 q where d: "node_do env path payload n st = (n1, st1, q)" by (metis prod_cases3)
  have t: "cs_now st \<le> cs_now st1" by (rule node_do_time [OF d])
  show ?case using Suc.prems Suc.IH [of n1 "st1\<lparr>cs_last := x\<rparr>" for x] t
    by (fastforce simp: d Let_def split: sum.splits if_splits dest: Suc.IH)
qed simp

lemma try_nodes_time: "try_nodes env path payload k ns st = (ns', st', r) \<Longrightarrow> cs_now st \<le> cs_now st'"
proof (induction ns arbitrary: st ns')
  case (Cons n ns)
  show ?case
  proof (cases "0 < remaining (cs_now st) (gn_cool n)")
    case True
    then show ?thesis using Cons.prems Cons.IH by (fastforce simp: Let_def split: prod.splits)
  next
    case False
    obtain n1 st1 q where a: "attempts_on env path payload k n st = (n1, st1, q)" by (metis prod_cases3)
    show ?thesis using Cons.prems False attempts_on_time [OF a] Cons.IH [of st1]
      by (fastforce simp: Let_def a split: prod.splits option.splits)
  qed
qed simp

function call_loop ::
  "call_env \<Rightarrow> string \<Rightarrow> string option \<Rightarrow> nat \<Rightarrow> time \<Rightarrow> gw_node list \<Rightarrow> call_state \<Rightarrow>
     gw_node list \<times> call_state \<times> string result" where
  "call_loop env path payload k giveUp nodes st =
     (case try_nodes env path payload k nodes (st\<lparr>cs_reopen := 0\<rparr>) of
        (nodes', st', Some raw) \<Rightarrow> (nodes', st', Inr raw)
      | (nodes', st', None) \<Rightarrow>
          if cs_reopen st' \<le> 0 \<or> giveUp < cs_now st' + cs_reopen st' then
            (nodes', st', Inl (no_node (cs_last st')))
          else
            let wake = cs_now st' + cs_reopen st' + 100000000
            in if canceled env wake then
                 (nodes', st'\<lparr>cs_now := max (cs_now st') (case ce_done env of None \<Rightarrow> wake | Some t \<Rightarrow> t)\<rparr>, Inl ctx_err)
               else call_loop env path payload k giveUp nodes' (st'\<lparr>cs_now := wake\<rparr>))"
  by pat_completeness auto
termination
proof (relation "measure (\<lambda>(env, path, payload, k, giveUp, nodes, st). nat (giveUp - cs_now st))")
  fix env path payload k giveUp nodes st nodes' rest st' and q :: "string option" and wake
  assume "(nodes', rest) = try_nodes env path payload k nodes (st\<lparr>cs_reopen := 0\<rparr>)" and "(st', q) = rest"
    and "\<not> (cs_reopen st' \<le> 0 \<or> giveUp < cs_now st' + cs_reopen st')"
    and "wake = cs_now st' + cs_reopen st' + 100000000"
  moreover from this(1,2) have "cs_now st \<le> cs_now st'"
    using try_nodes_time [of env path payload k nodes "st\<lparr>cs_reopen := 0\<rparr>" nodes' st' q] by simp
  ultimately show "((env, path, payload, k, giveUp, nodes', st'\<lparr>cs_now := wake\<rparr>), env, path, payload, k, giveUp, nodes, st)
      \<in> measure (\<lambda>(env, path, payload, k, giveUp, nodes, st). nat (giveUp - cs_now st))"
    by simp
qed simp

declare call_loop.simps [simp del]

definition gw_call ::
  "call_env \<Rightarrow> string \<Rightarrow> string option \<Rightarrow> time \<Rightarrow> gateway \<Rightarrow> gateway \<times> call_state \<times> string result" where
  "gw_call env path payload now g =
     (let (nodes', st', r) = call_loop env path payload (nat (gw_retry_per_node g)) (now + gw_rate_limit_wait g)
            (gw_nodes g) \<lparr>cs_now = now, cs_count = 0, cs_last = None, cs_reopen = 0, cs_sent = []\<rparr>
      in (g\<lparr>gw_nodes := nodes'\<rparr>, st', r))"

section \<open>What a call returns\<close>

text \<open>A throttled node is parked for at most two minutes, whatever it asks for.\<close>

lemma cool_set_bounds:
  "cool_set now d c = Some u \<Longrightarrow> now < u \<and> (u \<le> now + maxRetryAfter \<or> c = Some u)"
  by (auto simp: cool_set_def maxRetryAfter_def defaultRetryAfter_def sec_def Let_def split: option.splits if_splits)

lemma remaining_mono: "t \<le> t' \<Longrightarrow> remaining t c \<le> 0 \<Longrightarrow> remaining t' c \<le> 0"
  by (auto simp: remaining_def split: option.splits)

lemma limiter_wait_keeps:
  "limiter_wait env now n = (n', now', b) \<Longrightarrow> gn_conf n' = gn_conf n \<and> gn_cool n' = gn_cool n"
  by (auto simp: limiter_wait_def Let_def split: option.splits prod.splits if_splits)

text \<open>The answers a call has seen: \<open>raw\<close> came with a good status.\<close>

definition answered_by :: "call_env \<Rightarrow> nat \<Rightarrow> string \<Rightarrow> bool" where
  "answered_by env c raw \<longleftrightarrow>
     (\<exists>k < c. \<exists>req t code header. ce_exchange env k req = Answered t code header raw \<and> code < 400)"

lemma answered_by_mono: "answered_by env c raw \<Longrightarrow> c \<le> c' \<Longrightarrow> answered_by env c' raw"
  unfolding answered_by_def by (meson less_le_trans)

text \<open>No request goes to a node that is cooling down.\<close>

definition open_only :: "call_state \<Rightarrow> bool" where
  "open_only st \<longleftrightarrow> (\<forall>name t c. (name, t, c) \<in> set (cs_sent st) \<longrightarrow> remaining t c \<le> 0)"

lemma node_do_cases:
  assumes "node_do env path payload n st = (n', st', r)"
  shows "gn_conf n' = gn_conf n"
    and "r = Inl e \<Longrightarrow> err_is e \<noteq> ErrRateLimited \<Longrightarrow> gn_cool n' = gn_cool n"
    and "r = Inr raw \<Longrightarrow> gn_cool n' = gn_cool n"
    and "r = Inr raw \<Longrightarrow> answered_by env (cs_count st') raw"
    and "cs_count st \<le> cs_count st'"
    and "open_only st \<Longrightarrow> remaining (cs_now st) (gn_cool n) \<le> 0 \<Longrightarrow> open_only st'"
proof -
  obtain n1 now1 stop where w: "limiter_wait env (cs_now st) n = (n1, now1, stop)" by (metis prod_cases3)
  note k = limiter_wait_keeps [OF w]
  note d = assms [unfolded node_do_def w Let_def prod.case]
  show "gn_conf n' = gn_conf n" "r = Inl e \<Longrightarrow> err_is e \<noteq> ErrRateLimited \<Longrightarrow> gn_cool n' = gn_cool n"
    "r = Inr raw \<Longrightarrow> gn_cool n' = gn_cool n" "cs_count st \<le> cs_count st'"
    "open_only st \<Longrightarrow> remaining (cs_now st) (gn_cool n) \<le> 0 \<Longrightarrow> open_only st'"
    using d k by (auto simp: rateLimitError_def open_only_def split: exchange.splits if_splits)
  show "answered_by env (cs_count st') raw" if "r = Inr raw"
    using d k that unfolding answered_by_def
    by (auto split: exchange.splits if_splits) (use not_le lessI in blast)
qed

lemma attempts_on_spec:
  assumes "attempts_on env path payload k n st = (n', st', r)"
    and "open_only st" and "remaining (cs_now st) (gn_cool n) \<le> 0"
  shows "open_only st' \<and> cs_count st \<le> cs_count st' \<and>
    (\<forall>raw. r = Some raw \<longrightarrow> ce_decodes env raw \<and> answered_by env (cs_count st') raw)"
  using assms
proof (induction k arbitrary: n st)
  case (Suc k)
  obtain n1 st1 q where d: "node_do env path payload n st = (n1, st1, q)" by (metis prod_cases3)
  note c = node_do_cases [OF d]
  have o: "open_only st1" using c(6) Suc.prems(2,3) by blast
  have t: "cs_now st \<le> cs_now st1" by (rule node_do_time [OF d])
  have next': "open_only st' \<and> cs_count st1 \<le> cs_count st' \<and>
      (\<forall>raw. r = Some raw \<longrightarrow> ce_decodes env raw \<and> answered_by env (cs_count st') raw)"
    if "attempts_on env path payload k n1 (st1\<lparr>cs_last := l\<rparr>) = (n', st', r)" and "gn_cool n1 = gn_cool n" for l
    using Suc.IH [OF that(1)] o remaining_mono [OF t Suc.prems(3)] that(2) by (simp add: open_only_def)
  show ?case
  proof (cases q)
    case (Inl e)
    show ?thesis
    proof (cases "err_is e = ErrRateLimited")
      case True
      then show ?thesis using Suc.prems(1) c(5) o by (auto simp: d Inl Let_def open_only_def)
    next
      case False
      then show ?thesis using Suc.prems(1) next' c(2,5) Inl by (fastforce simp: d Let_def)
    qed
  next
    case (Inr raw)
    show ?thesis
    proof (cases "ce_decodes env raw")
      case True
      then show ?thesis using Suc.prems(1) c(4,5) o by (auto simp: d Inr)
    next
      case False
      then show ?thesis using Suc.prems(1) next' c(3,5) Inr by (fastforce simp: d)
    qed
  qed
qed simp

lemma try_nodes_spec:
  assumes "try_nodes env path payload k ns st = (ns', st', r)" and "open_only st"
  shows "open_only st' \<and> cs_count st \<le> cs_count st' \<and>
    (\<forall>raw. r = Some raw \<longrightarrow> ce_decodes env raw \<and> answered_by env (cs_count st') raw)"
  using assms
proof (induction ns arbitrary: st ns')
  case (Cons n ns)
  show ?case
  proof (cases "0 < remaining (cs_now st) (gn_cool n)")
    case True
    have "open_only (note_reopen (remaining (cs_now st) (gn_cool n)) st)" using Cons.prems(2) by (simp add: open_only_def)
    then show ?thesis using Cons.prems(1) Cons.IH True by (fastforce simp: Let_def split: prod.splits)
  next
    case False
    obtain n1 st1 q where a: "attempts_on env path payload k n st = (n1, st1, q)" by (metis prod_cases3)
    note sp = attempts_on_spec [OF a Cons.prems(2)]
    show ?thesis
    proof (cases q)
      case None
      obtain ns2 st2 q2 where t: "try_nodes env path payload k ns st1 = (ns2, st2, q2)" by (metis prod_cases3)
      have e: "st2 = st'" "q2 = r" using Cons.prems(1) False by (simp_all add: Let_def a None t)
      show ?thesis using Cons.IH [OF t [unfolded e]] sp False by fastforce
    next
      case (Some raw)
      then have "st' = st1" "r = Some raw" using Cons.prems(1) False by (simp_all add: Let_def a)
      then show ?thesis using sp False Some by simp
    qed
  qed
qed simp

lemma call_loop_spec:
  assumes "call_loop env path payload k giveUp nodes st = (nodes', st', r)" and "open_only st"
  shows "open_only st' \<and>
    (case r of
       Inr raw \<Rightarrow> ce_decodes env raw \<and> answered_by env (cs_count st') raw
     | Inl e \<Rightarrow> err_is e = ErrNoNodeAvailable \<or> e = ctx_err \<and> ce_done env \<noteq> None)"
  using assms
proof (induction env path payload k giveUp nodes st rule: call_loop.induct)
  case (1 env path payload k giveUp nodes st)
  obtain nodes1 st1 q where t: "try_nodes env path payload k nodes (st\<lparr>cs_reopen := 0\<rparr>) = (nodes1, st1, q)"
    by (metis prod_cases3)
  have sp: "open_only st1 \<and> (\<forall>raw. q = Some raw \<longrightarrow> ce_decodes env raw \<and> answered_by env (cs_count st1) raw)"
    using try_nodes_spec [OF t] 1(3) by (simp add: open_only_def)
  note run = 1(2) [unfolded call_loop.simps [of env path payload k giveUp nodes st] t prod.case]
  show ?case
  proof (cases q)
    case (Some raw)
    then show ?thesis using run sp by auto
  next
    case None
    let ?stop = "cs_reopen st1 \<le> 0 \<or> giveUp < cs_now st1 + cs_reopen st1"
    let ?wake = "cs_now st1 + cs_reopen st1 + 100000000"
    show ?thesis
    proof (cases "?stop \<or> canceled env ?wake")
      case True
      then show ?thesis using run sp None
        by (auto simp: Let_def no_node_def canceled_def open_only_def split: if_splits option.splits)
    next
      case False
      then have "call_loop env path payload k giveUp nodes1 (st1\<lparr>cs_now := ?wake\<rparr>) = (nodes', st', r)"
        using run None by (simp add: Let_def)
      moreover have "open_only (st1\<lparr>cs_now := ?wake\<rparr>)" using sp by (simp add: open_only_def)
      ultimately show ?thesis using 1(1) [OF t [symmetric] _ None _ refl] False by blast
    qed
  qed
qed

text \<open>C30. Every call returns, and how it ends is one of three things: the body of an answer some node gave
  with a status below 400 and that decodes; the error that no node is available; or, only when the
  caller's context can end, its error. Along the way no request ever goes to a node that is cooling
  down.\<close>

theorem call_result:
  "case gw_call env path payload now g of (g', st', r) \<Rightarrow>
     list_all (\<lambda>(name, t, c). remaining t c \<le> 0) (cs_sent st') \<and>
     (case r of
        Inr raw \<Rightarrow> ce_decodes env raw \<and>
          (\<exists>k < cs_count st'. \<exists>req t code header. ce_exchange env k req = Answered t code header raw \<and> code < 400)
      | Inl e \<Rightarrow> err_is e = ErrNoNodeAvailable \<or> e = ctx_err \<and> ce_done env \<noteq> None)"
proof -
  let ?st = "\<lparr>cs_now = now, cs_count = 0, cs_last = None, cs_reopen = 0, cs_sent = []\<rparr>"
  obtain nodes' st' r where c: "call_loop env path payload (nat (gw_retry_per_node g)) (now + gw_rate_limit_wait g)
      (gw_nodes g) ?st = (nodes', st', r)" by (metis prod_cases3)
  have "open_only ?st" by (simp add: open_only_def)
  from call_loop_spec [OF c this] show ?thesis
    by (auto simp: gw_call_def c open_only_def answered_by_def list_all_iff split: sum.splits)
qed

section \<open>Failing over\<close>

text \<open>A node that would answer any request of this call.\<close>

definition answering :: "call_env \<Rightarrow> string \<Rightarrow> string option \<Rightarrow> gw_node \<Rightarrow> bool" where
  "answering env path payload n \<longleftrightarrow>
     (\<forall>k. \<exists>t code header raw. ce_exchange env k (node_request n path payload) = Answered t code header raw
        \<and> code < 400 \<and> ce_decodes env raw)"

lemma answering_do:
  assumes "answering env path payload n" and "ce_done env = None"
    and "node_do env path payload n st = (n', st', r)"
  shows "\<exists>raw. r = Inr raw \<and> ce_decodes env raw"
proof -
  obtain n1 now1 stop where w: "limiter_wait env (cs_now st) n = (n1, now1, stop)" by (metis prod_cases3)
  have "\<not> stop" using w assms(2)
    by (auto simp: limiter_wait_def Let_def canceled_def split: option.splits prod.splits if_splits)
  moreover have "node_request n1 path payload = node_request n path payload"
    using limiter_wait_keeps [OF w] by (simp add: node_request_def)
  moreover obtain t code header raw where
    "ce_exchange env (cs_count st) (node_request n path payload) = Answered t code header raw"
    "code < 400" "ce_decodes env raw" using assms(1) unfolding answering_def by blast
  ultimately show ?thesis using assms(3) by (auto simp: node_do_def w Let_def)
qed

lemma try_nodes_answering:
  assumes "n \<in> set ns" and "answering env path payload n" and "ce_done env = None"
    and "remaining (cs_now st) (gn_cool n) \<le> 0" and "0 < k"
  shows "\<exists>ns' st' raw. try_nodes env path payload k ns st = (ns', st', Some raw)"
  using assms(1,4)
proof (induction ns arbitrary: st)
  case (Cons m ns)
  obtain j where k: "k = Suc j" using assms(5) by (cases k) auto
  show ?case
  proof (cases "0 < remaining (cs_now st) (gn_cool m)")
    case True
    then have n: "n \<in> set ns" using Cons.prems by auto
    from Cons.IH [OF n, of "note_reopen (remaining (cs_now st) (gn_cool m)) st"] Cons.prems(2) True
    show ?thesis by (auto simp: Let_def)
  next
    case False
    obtain m1 st1 q where a: "attempts_on env path payload k m st = (m1, st1, q)" by (metis prod_cases3)
    show ?thesis
    proof (cases q)
      case (Some raw)
      then show ?thesis using False by (simp add: a Let_def)
    next
      case None
      have "m \<noteq> n"
      proof
        assume "m = n"
        obtain n2 st2 r2 where d: "node_do env path payload n st = (n2, st2, r2)" by (metis prod_cases3)
        obtain raw where "r2 = Inr raw" "ce_decodes env raw" using answering_do [OF assms(2,3) d] by blast
        then show False using a None \<open>m = n\<close> by (simp add: k d)
      qed
      then have n: "n \<in> set ns" using Cons.prems(1) by simp
      have "remaining (cs_now st1) (gn_cool n) \<le> 0"
        by (rule remaining_mono [OF attempts_on_time [OF a] Cons.prems(2)])
      from Cons.IH [OF n this] obtain ns2 st2 raw where "try_nodes env path payload k ns st1 = (ns2, st2, Some raw)" by blast
      then show ?thesis using False by (simp add: a None Let_def)
    qed
  qed
qed simp

text \<open>C31. Failing over works: as long as one node of the gateway is not cooling down and would answer, a call
  returns an answer, however the other nodes fail, throttle or garble theirs.\<close>

theorem call_fails_over:
  assumes "n \<in> set (gw_nodes g)" and "remaining now (gn_cool n) \<le> 0" and "answering env path payload n"
    and "ce_done env = None" and "1 \<le> gw_retry_per_node g"
  shows "\<exists>g' st' raw. gw_call env path payload now g = (g', st', Inr raw)"
proof -
  let ?k = "nat (gw_retry_per_node g)"
  let ?st = "\<lparr>cs_now = now, cs_count = 0, cs_last = None, cs_reopen = 0, cs_sent = []\<rparr>"
  have r: "remaining (cs_now (?st\<lparr>cs_reopen := 0\<rparr>)) (gn_cool n) \<le> 0" using assms(2) by simp
  have k: "0 < ?k" using assms(5) by simp
  from try_nodes_answering [OF assms(1,3,4) r k] obtain ns' st' raw where
    t: "try_nodes env path payload ?k (gw_nodes g) (?st\<lparr>cs_reopen := 0\<rparr>) = (ns', st', Some raw)" by blast
  show ?thesis
    unfolding gw_call_def Let_def call_loop.simps [of env path payload ?k _ "gw_nodes g" ?st] t prod.case option.case
    by blast
qed

definition sample_node :: "string \<Rightarrow> gw_node" where
  "sample_node endpoint =
     new_node 0 \<lparr>nd_name = ''n'', nd_type = ''fullnode'', nd_endpoint = endpoint, nd_api_key = '''', nd_headers = [],
       nd_priority = 1, nd_enabled = True, nd_qps = 0, nd_burst = 0\<rparr>"

definition failover_env :: call_env where
  "failover_env = \<lparr>ce_exchange = (\<lambda>k req. if HasPrefix (gr_url req) ''http://down'' then Answered 3 500 '''' ''oops''
       else Answered 2 200 '''' ''{}''), ce_done = None, ce_date = (\<lambda>_. None), ce_decodes = (\<lambda>raw. raw = ''{}'')\<rparr>"

text \<open>The first node is down, the second answers.\<close>

theorem call_fails_over_witness:
  "\<exists>g' st' raw. gw_call failover_env ''/wallet/getnowblock'' (Some ''{}'') 0
     \<lparr>gw_nodes = [sample_node ''http://down'', sample_node ''http://up''], gw_retry_per_node = 2,
      gw_solidity_confirm = True, gw_rate_limit_wait = 0\<rparr> = (g', st', Inr raw)"
proof (rule call_fails_over)
  show "answering failover_env ''/wallet/getnowblock'' (Some ''{}'') (sample_node ''http://up'')"
    by (auto simp: answering_def failover_env_def sample_node_def new_node_def node_request_def HasPrefix_def
        TrimRight_def Let_def)
qed (simp_all add: failover_env_def sample_node_def new_node_def remaining_def Let_def)

end
