(* ===== verification/Energy.thy ===== *)
theory Energy
  imports Store "HOL-Library.List_Lexorder" "HOL-Library.Char_ord" "HOL-Library.Product_Lexorder"
begin

text \<open>
  \<open>internal/energy\<close>: the provider interface and the burn provider, the manager that quotes, rents
  and waits (\<open>manager.go\<close>), and the hot wallet's pool (\<open>pool.go\<close>). A call reads the clock once;
  the polling loop of \<open>wait\<close> is given what each round saw, and the deadline is the end of the rounds.
\<close>

section \<open>Providers\<close>

definition ResourceEnergy :: string where
  "ResourceEnergy = ''energy''"

definition StatePending :: string where "StatePending = ''pending''"
definition StateDelegated :: string where "StateDelegated = ''delegated''"
definition StateFailed :: string where "StateFailed = ''failed''"
definition StateCancelled :: string where "StateCancelled = ''cancelled''"

record provider =
  p_name :: string
  p_quote :: "quote_request \<Rightarrow> quote result"
  p_ensure :: "order_request \<Rightarrow> rent_order result"
  p_poll :: "string \<Rightarrow> rent_order result"
  p_balance :: "(float64 \<times> string) result"

lemma takeWhile_sep: "c \<notin> set xs \<Longrightarrow> takeWhile (\<lambda>x. x \<noteq> c) (xs @ c # ys) = xs"
  by (induction xs) auto

text \<open>What the manager relies on: a quote carries its provider's name and bills what was asked for.\<close>

locale energy_provider =
  fixes prov :: provider
  assumes quote_named: "p_quote prov req = Inr q \<Longrightarrow> q_provider q = p_name prov"
    and quote_covers: "p_quote prov req = Inr q \<Longrightarrow> qr_amount req \<le> q_billed_units q"
    and name_plain: "CHR ''|'' \<notin> set (p_name prov)"
begin

lemma quote_prefix:
  "p_quote prov req = Inr q \<Longrightarrow> takeWhile (\<lambda>c. c \<noteq> CHR ''|'') (p_name prov @ ''|'' @ s) = q_provider q"
  using name_plain by (simp add: quote_named takeWhile_sep)

end

text \<open>\<open>trxburn.go\<close>: burning TRX, priced like a rental.\<close>

definition burn_order :: "string \<Rightarrow> rent_order" where
  "burn_order requestID =
     \<lparr>o_provider = ProviderTRXBurn, o_provider_order_id = '''', o_request_id = requestID,
      o_state = StateDelegated, o_provider_state = ''burn'', o_delegated_energy = 0, o_cost_trx = 0,
      o_delegate_txid = '''', o_message = ''''\<rparr>"

definition burn_quote :: "int \<Rightarrow> quote_request \<Rightarrow> quote" where
  "burn_quote energyFeeSun req =
     \<lparr>q_provider = ProviderTRXBurn,
      q_cost_trx = fl64 (fl64 (float_of_int (qr_amount req) * float_of_int energyFeeSun) / 1000000),
      q_billed_units = qr_amount req, q_available = 0, q_period = qr_period req\<rparr>"

definition trxburn :: "int \<Rightarrow> provider" where
  "trxburn energyFeeSun =
     \<lparr>p_name = ProviderTRXBurn,
      p_quote = (\<lambda>req. Inr (burn_quote energyFeeSun req)),
      p_ensure = (\<lambda>req. Inr (burn_order (or_idempotency_key req))),
      p_poll = (\<lambda>requestID. Inr (burn_order requestID)),
      p_balance = Inr (0, '''')\<rparr>"

definition trxburn_New :: "int \<Rightarrow> provider" where
  "trxburn_New energyFeeSun = trxburn (if energyFeeSun \<le> 0 then 100 else energyFeeSun)"

definition SetEnergyFee :: "int \<Rightarrow> int \<Rightarrow> int" where
  "SetEnergyFee sun energyFeeSun = (if 0 < sun then sun else energyFeeSun)"

interpretation burn: energy_provider "trxburn fee" for fee
  by unfold_locales (auto simp: trxburn_def burn_quote_def ProviderTRXBurn_def)

section \<open>The manager\<close>

datatype energy_stmt = EoCreate | EoTake | EoEnsureFailed | EoEnsured | EoWaitFailed | EoMark | EoFind | EoSettle

text \<open>One round of \<open>wait\<close>: the provider's answer, what the chain then says, and a cancelled context.\<close>

record wait_round =
  wr_poll :: "string \<Rightarrow> rent_order result"
  wr_node :: node_api
  wr_cancelled :: bool

record energy_env =
  me_cfg :: energy_config
  me_provs :: "(string \<times> provider) list"
  me_node :: node_api
  me_now :: time
  me_rounds :: "wait_round list"
  me_fail :: "energy_stmt \<Rightarrow> bool"

definition defaultPeriod :: "energy_config \<Rightarrow> string" where
  "defaultPeriod c = (if ec_default_period c \<noteq> '''' then ec_default_period c else ''1h'')"

subsection \<open>Quotes\<close>

definition quote_key :: "provider \<Rightarrow> quote_request \<Rightarrow> string" where
  "quote_key p req =
     p_name p @ ''|'' @ qr_resource req @ ''|'' @ big_String (qr_amount req) @ ''|'' @ qr_period req"

definition quoteOne :: "energy_env \<Rightarrow> provider \<Rightarrow> quote_request \<Rightarrow> world \<Rightarrow> world \<times> quote result" where
  "quoteOne env p req w =
     (let key = quote_key p req;
          fetch = (case p_quote p req of
                     Inl e \<Rightarrow> (w, Inl e)
                   | Inr q \<Rightarrow> (w\<lparr>quotes := (key, \<lparr>cq_quote = q,
                                 cq_expires = me_now env + ec_quote_cache_ttl (me_cfg env)\<rparr>) # quotes w\<rparr>,
                               Inr q))
      in case map_of (quotes w) key of
           Some c \<Rightarrow> if me_now env < cq_expires c then (w, Inr (cq_quote c)) else fetch
         | None \<Rightarrow> fetch)"

text \<open>Rentals by name, the burn fallback last.\<close>

definition orderedNames :: "(string \<times> provider) list \<Rightarrow> string list" where
  "orderedNames provs = sort_key (\<lambda>n. (n = ProviderTRXBurn, n)) (map fst provs)"

fun quote_all :: "energy_env \<Rightarrow> quote_request \<Rightarrow> string list \<Rightarrow> world \<Rightarrow> world \<times> (string \<times> quote result) list" where
  "quote_all env req [] w = (w, [])"
| "quote_all env req (n # ns) w =
     (let (w1, r) = (case map_of (me_provs env) n of
                       Some p \<Rightarrow> quoteOne env p req w
                     | None \<Rightarrow> (w, Inl (Err RuntimePanic ''nil provider'')));
          (w2, rs) = quote_all env req ns w1
      in (w2, (n, r) # rs))"

fun join :: "string \<Rightarrow> string list \<Rightarrow> string" where
  "join sep [] = ''''"
| "join sep [s] = s"
| "join sep (s # ss) = s @ sep @ join sep ss"

text \<open>The selection: the first answer in priority mode, otherwise the first of the cheapest.\<close>

fun pick_quote ::
  "bool \<Rightarrow> quote option \<Rightarrow> string list \<Rightarrow> (string \<times> quote result) list \<Rightarrow> quote result" where
  "pick_quote priority best errs [] =
     (case best of
        None \<Rightarrow> Inl (Err ErrNoProvider (''energy: no provider available: '' @ join ''; '' errs))
      | Some q \<Rightarrow> Inr q)"
| "pick_quote priority best errs ((n, r) # rs) =
     (case r of
        Inl e \<Rightarrow> pick_quote priority best (errs @ [n @ '': '' @ err_msg e]) rs
      | Inr q \<Rightarrow>
          if priority then Inr q
          else if (case best of None \<Rightarrow> True | Some b \<Rightarrow> q_cost_trx q < q_cost_trx b)
          then pick_quote priority (Some q) errs rs
          else pick_quote priority best errs rs)"

definition burn_not_allowed :: go_error where
  "burn_not_allowed = Err ErrBurnNotAllowed ''energy: rental unavailable and burning TRX is not allowed''"

definition BestQuote :: "energy_env \<Rightarrow> quote_request \<Rightarrow> world \<Rightarrow> world \<times> quote result" where
  "BestQuote env req0 w =
     (let cfg = me_cfg env;
          req1 = (if qr_period req0 = '''' then req0\<lparr>qr_period := defaultPeriod cfg\<rparr> else req0);
          req = (if \<not> RentalOn cfg then req1\<lparr>qr_exclude_burn := False\<rparr> else req1)
      in if ec_mode cfg = ''fixed'' then
           if qr_exclude_burn req \<and> ec_fixed cfg = ProviderTRXBurn then (w, Inl burn_not_allowed)
           else case map_of (me_provs env) (ec_fixed cfg) of
             None \<Rightarrow> (w, Inl (errors_new (''energy: fixed provider '' @ ec_fixed cfg @ '' is not enabled'')))
           | Some p \<Rightarrow> quoteOne env p req w
         else
           let all = orderedNames (me_provs env);
               names = (if qr_exclude_burn req then filter (\<lambda>n. n \<noteq> ProviderTRXBurn) all else all)
           in if qr_exclude_burn req \<and> names = [] then (w, Inl burn_not_allowed)
              else let (w', rs) = quote_all env req names w
                   in (w', pick_quote (ec_mode cfg = ''priority'') None [] rs))"

subsection \<open>On-chain checks\<close>

text \<open>Providers round the delegation, so five percent may be missing.\<close>

definition confirmOnChain :: "node_api \<Rightarrow> string \<Rightarrow> int \<Rightarrow> int \<Rightarrow> bool result" where
  "confirmOnChain g addr baseline need =
     (case GetAccountResource g addr of
        Inl e \<Rightarrow> Inl e
      | Inr res \<Rightarrow> Inr (i64 (AvailableEnergy res - baseline) \<ge> go_div (i64 (need * 95)) 100))"

definition availableEnergy :: "node_api \<Rightarrow> string \<Rightarrow> int" where
  "availableEnergy g addr =
     (case GetAccountResource g addr of
        Inl _ \<Rightarrow> 0
      | Inr res \<Rightarrow> let available = AvailableEnergy res in if available < 0 then 0 else available)"

definition delegateBlock :: "node_api \<Rightarrow> string \<Rightarrow> int" where
  "delegateBlock g txid =
     (if txid = '''' then 0
      else case GetTxInfoByID g txid of
        Inl _ \<Rightarrow> 0
      | Inr None \<Rightarrow> 0
      | Inr (Some info) \<Rightarrow> ti_block_number info)"

definition DefaultSafetyFactor :: float64 where
  "DefaultSafetyFactor = fl64 (115 / 100)"

definition RetrySafetyFactor :: "int \<Rightarrow> float64" where
  "RetrySafetyFactor attempt =
     (if attempt \<le> 0 then DefaultSafetyFactor else if attempt = 1 then fl64 (13 / 10) else 3 / 2)"

definition EstimateEnergyFactor ::
  "energy_config \<Rightarrow> node_api \<Rightarrow> string \<Rightarrow> string \<Rightarrow> string \<Rightarrow> float64 \<Rightarrow> int result" where
  "EstimateEnergyFactor cfg g owner contract data factor0 =
     (case TriggerConstantContract g owner contract data of
        Inl e \<Rightarrow> Inl e
      | Inr (_, used) \<Rightarrow>
          let factor = (if factor0 < 1 then DefaultSafetyFactor else factor0)
          in if used \<le> 0 then Inr (int_of_float (fl64 (float_of_int (ec_energy_per_tx_new cfg) * factor)))
             else Inr (int_of_float (fl64 (float_of_int used * factor))))"

definition EstimateEnergy ::
  "energy_config \<Rightarrow> node_api \<Rightarrow> string \<Rightarrow> string \<Rightarrow> string \<Rightarrow> int result" where
  "EstimateEnergy cfg g owner contract data =
     EstimateEnergyFactor cfg g owner contract data DefaultSafetyFactor"

definition TransferBytes :: int where
  "TransferBytes = 345"

definition BurnCostSun :: "account_resource option \<Rightarrow> chain_parameters \<Rightarrow> int \<Rightarrow> int" where
  "BurnCostSun res params needEnergy =
     (let (haveEnergy, haveBandwidth) =
            (case res of None \<Rightarrow> (0, 0) | Some r \<Rightarrow> (AvailableEnergy r, AvailableBandwidth r));
          e = i64 (needEnergy - haveEnergy); missingEnergy = (if e < 0 then 0 else e);
          b = i64 (TransferBytes - haveBandwidth); missingBandwidth = (if b < 0 then 0 else b)
      in i64 (i64 (missingEnergy * cp_energy_fee_sun params)
              + i64 (missingBandwidth * cp_transaction_fee_sun params)))"

definition FeeMode :: "string \<Rightarrow> string" where
  "FeeMode provider = (if provider = ProviderTRXBurn then ''burn'' else ''rent:'' @ provider)"

subsection \<open>Orders\<close>

text \<open>
  \<open>Model(row).UpdateColumns\<close> changes the copy in memory and, unless the statement fails, the row; the
  code ignores its error.
\<close>

definition update_order ::
  "bool \<Rightarrow> (energy_rent_order \<Rightarrow> energy_rent_order) \<Rightarrow> energy_rent_order \<Rightarrow> world \<Rightarrow> world" where
  "update_order fail f row w =
     (if fail then w
      else w\<lparr>energy_orders := update_where (\<lambda>r. eo_id r = eo_id row) f (energy_orders w)\<rparr>)"

text \<open>The insert; a duplicate request id means the rental was already attempted.\<close>

definition create_or_take ::
  "energy_env \<Rightarrow> energy_rent_order \<Rightarrow> world \<Rightarrow> world \<times> energy_rent_order result" where
  "create_or_take env row w =
     (if \<not> me_fail env EoCreate \<and> (\<forall>r \<in> set (energy_orders w). eo_request_id r \<noteq> eo_request_id row) then
        let created = row\<lparr>eo_id := fresh_id (map eo_id (energy_orders w))\<rparr>
        in (w\<lparr>energy_orders := energy_orders w @ [created]\<rparr>, Inr created)
      else if me_fail env EoTake then (w, Inl db_err)
      else case take_first (\<lambda>r. eo_request_id r = eo_request_id row) (energy_orders w) of
        Some existing \<Rightarrow> (w, Inr existing)
      | None \<Rightarrow> (w, Inl db_err))"

definition mark_updates ::
  "energy_env \<Rightarrow> rent_order option \<Rightarrow> energy_rent_order \<Rightarrow> energy_rent_order" where
  "mark_updates env order r =
     (let now = me_now env;
          r = r\<lparr>eo_status := EnergyOrderDelegated, eo_finished_at := Some now, eo_updated_at := now\<rparr>
      in case order of
           None \<Rightarrow> r
         | Some ord \<Rightarrow>
             let r = r\<lparr>eo_provider_status := o_provider_state ord, eo_delegate_txid := o_delegate_txid ord\<rparr>;
                 r = (if 0 < o_delegated_energy ord then r\<lparr>eo_delegated_energy := o_delegated_energy ord\<rparr> else r);
                 r = (if 0 < o_cost_trx ord then r\<lparr>eo_cost_trx := o_cost_trx ord, eo_amount := FormatTRX (o_cost_trx ord)\<rparr>
                      else r);
                 blk = delegateBlock (me_node env) (o_delegate_txid ord)
             in if 0 < blk then r\<lparr>eo_block_number := blk\<rparr> else r)"

text \<open>
  \<open>markDelegated\<close> updates through \<open>Model(&EnergyRentOrder{})\<close>, so only the status of the copy in
  memory changes.
\<close>

definition markDelegated ::
  "energy_env \<Rightarrow> energy_rent_order \<Rightarrow> rent_order option \<Rightarrow> world \<Rightarrow> world \<times> energy_rent_order" where
  "markDelegated env row order w =
     (update_order (me_fail env EoMark) (mark_updates env order) row w,
      row\<lparr>eo_status := EnergyOrderDelegated\<rparr>)"

definition poll_key :: "provider \<Rightarrow> energy_rent_order \<Rightarrow> string" where
  "poll_key p row = (if p_name p = ''gasstation'' then eo_request_id row else eo_provider_order_id row)"

fun wait ::
  "energy_env \<Rightarrow> provider \<Rightarrow> energy_rent_order \<Rightarrow> int \<Rightarrow> rent_order option \<Rightarrow> wait_round list \<Rightarrow>
     world \<Rightarrow> world \<times> rent_order result" where
  "wait env p row baseline prev [] w =
     (w, Inl (errors_new (''energy: timed out waiting for '' @ p_name p @ '' order '' @ poll_key p row @
        '' (last state '' @ (case prev of None \<Rightarrow> ''unknown'' | Some ord \<Rightarrow> o_provider_state ord) @ '')'')))"
| "wait env p row baseline prev (r # rs) w =
     (let (done, prev') =
        (case wr_poll r (poll_key p row) of
           Inl _ \<Rightarrow> (None, prev)
         | Inr ord \<Rightarrow>
             (if o_state ord = StateDelegated then
                (if confirmOnChain (wr_node r) (eo_receive_address row) baseline (eo_requested_energy row) = Inr True
                 then Some (w, Inr ord) else None)
              else if o_state ord = StateFailed \<or> o_state ord = StateCancelled then
                Some (update_order (me_fail env EoWaitFailed)
                        (\<lambda>x. x\<lparr>eo_status := EnergyOrderFailed, eo_provider_status := o_provider_state ord,
                                eo_updated_at := me_now env\<rparr>) row w,
                      Inl (errors_new (''energy: '' @ p_name p @ '' order '' @ poll_key p row @
                        '' ended in state '' @ o_provider_state ord)))
              else None,
              Some ord))
      in case done of
           Some out \<Rightarrow> out
         | None \<Rightarrow>
             if wr_cancelled r then (w, Inl (Err ErrCanceled ''context canceled''))
             else wait env p row baseline prev' rs w)"

definition acquire ::
  "energy_env \<Rightarrow> string \<Rightarrow> string \<Rightarrow> int \<Rightarrow> string \<Rightarrow> bool \<Rightarrow> world \<Rightarrow> world \<times> energy_rent_order result" where
  "acquire env purpose receiver need requestID excludeBurn0 w =
     (let cfg = me_cfg env; now = me_now env;
          excludeBurn = (if \<not> RentalOn cfg then False else excludeBurn0);
          (w0, q) = BestQuote env \<lparr>qr_resource = ResourceEnergy, qr_amount = need,
             qr_period = defaultPeriod cfg, qr_receiver = receiver, qr_exclude_burn = excludeBurn\<rparr> w
      in case q of
        Inl e \<Rightarrow> (w0, Inl e)
      | Inr quote \<Rightarrow>
          let baseline = availableEnergy (me_node env) receiver;
              (w1, created) = create_or_take env
                \<lparr>eo_id = 0, eo_provider = q_provider quote, eo_request_id = requestID,
                 eo_provider_order_id = '''', eo_receive_address = receiver,
                 eo_resource_type = ResourceEnergy, eo_requested_energy = q_billed_units quote,
                 eo_delegated_energy = 0, eo_baseline_energy = baseline, eo_period = q_period quote,
                 eo_cost_trx = q_cost_trx quote, eo_amount = FormatTRX (q_cost_trx quote),
                 eo_status = EnergyOrderCreated, eo_provider_status = '''', eo_delegate_txid = '''',
                 eo_block_number = 0, eo_purpose = purpose, eo_created_at = now, eo_updated_at = now,
                 eo_finished_at = None\<rparr> w0
          in case created of
            Inl e \<Rightarrow> (w1, Inl e)
          | Inr row \<Rightarrow>
              if q_provider quote = ProviderTRXBurn then
                let (w2, row') = markDelegated env row (Some (burn_order ''''\<lparr>o_provider := ''''\<rparr>)) w1
                in (w2, Inr row')
              else case map_of (me_provs env) (q_provider quote) of
                None \<Rightarrow> (w1, Inl (Err RuntimePanic ''nil provider''))
              | Some p \<Rightarrow>
                  let req = \<lparr>or_resource = ResourceEnergy, or_amount = q_billed_units quote,
                        or_period = q_period quote, or_receiver = receiver, or_idempotency_key = requestID\<rparr>;
                      w2 = w1\<lparr>placed := placed w1 @ [(q_provider quote, req)]\<rparr>
                  in case p_ensure p req of
                    Inl e \<Rightarrow>
                      (update_order (me_fail env EoEnsureFailed)
                         (\<lambda>x. x\<lparr>eo_status := EnergyOrderFailed,
                                 eo_provider_status := truncate_str (err_msg e) 32, eo_updated_at := now\<rparr>) row w2,
                       Inl (wrap_err (''energy: '' @ q_provider quote @ '' order failed: '') e))
                  | Inr ord \<Rightarrow>
                      let f = (\<lambda>x. x\<lparr>eo_provider_order_id := o_provider_order_id ord,
                                 eo_provider_status := o_provider_state ord, eo_updated_at := now\<rparr>);
                          w3 = update_order (me_fail env EoEnsured) f row w2;
                          row' = f row;
                          (w4, final) = wait env p row' baseline None (me_rounds env) w3
                      in case final of
                           Inl e \<Rightarrow> (w4, Inl e)
                         | Inr ord' \<Rightarrow>
                             let (w5, row'') = markDelegated env row' (Some ord') w4 in (w5, Inr row''))"

definition Acquire where
  "Acquire env purpose receiver need requestID = acquire env purpose receiver need requestID False"

definition AcquireRented where
  "AcquireRented env purpose receiver need requestID = acquire env purpose receiver need requestID True"

definition burnCostTRX :: "energy_env \<Rightarrow> int \<Rightarrow> float64" where
  "burnCostTRX env need =
     (case map_of (me_provs env) ProviderTRXBurn of
        None \<Rightarrow> 0
      | Some p \<Rightarrow>
          (case p_quote p \<lparr>qr_resource = ResourceEnergy, qr_amount = need,
                  qr_period = defaultPeriod (me_cfg env), qr_receiver = '''', qr_exclude_burn = False\<rparr> of
             Inl _ \<Rightarrow> 0
           | Inr q \<Rightarrow> q_cost_trx q))"

definition AcquireBurn ::
  "energy_env \<Rightarrow> string \<Rightarrow> string \<Rightarrow> int \<Rightarrow> string \<Rightarrow> world \<Rightarrow> world \<times> energy_rent_order result" where
  "AcquireBurn env purpose receiver need requestID w =
     (let cost = burnCostTRX env need; now = me_now env;
          (w1, created) = create_or_take env
            \<lparr>eo_id = 0, eo_provider = ProviderTRXBurn, eo_request_id = requestID,
             eo_provider_order_id = '''', eo_receive_address = receiver,
             eo_resource_type = ResourceEnergy, eo_requested_energy = need, eo_delegated_energy = 0,
             eo_baseline_energy = availableEnergy (me_node env) receiver,
             eo_period = defaultPeriod (me_cfg env), eo_cost_trx = cost, eo_amount = FormatTRX cost,
             eo_status = EnergyOrderCreated, eo_provider_status = '''', eo_delegate_txid = '''',
             eo_block_number = 0, eo_purpose = purpose, eo_created_at = now, eo_updated_at = now,
             eo_finished_at = None\<rparr> w
      in case created of
        Inl e \<Rightarrow> (w1, Inl e)
      | Inr row \<Rightarrow>
          let (w2, row') = markDelegated env row
                (Some (burn_order ''''\<lparr>o_provider := '''', o_cost_trx := cost\<rparr>)) w1
          in (w2, Inr row'))"

subsection \<open>Reconciliation\<close>

definition PendingOrders :: "energy_env \<Rightarrow> world \<Rightarrow> energy_rent_order list result" where
  "PendingOrders env w =
     (if me_fail env EoFind then Inl db_err
      else Inr (select_limit (\<lambda>r. eo_status r = EnergyOrderCreated \<and>
                  eo_created_at r < me_now env - ec_pending_grace (me_cfg env)) 200 (energy_orders w)))"

text \<open>The two guarded writes; both are \<open>WHERE id = ? AND status = 'created'\<close>.\<close>

definition settle_order ::
  "energy_env \<Rightarrow> energy_rent_order \<Rightarrow> energy_order_state \<Rightarrow> string \<Rightarrow> world \<Rightarrow> world \<times> go_error option" where
  "settle_order env row st providerStatus w =
     (if me_fail env EoSettle then (w, Some db_err)
      else (w\<lparr>energy_orders := update_where
              (\<lambda>r. eo_id r = eo_id row \<and> eo_status r = EnergyOrderCreated)
              (\<lambda>r. r\<lparr>eo_status := st, eo_provider_status := providerStatus,
                      eo_finished_at := Some (me_now env), eo_updated_at := me_now env\<rparr>)
              (energy_orders w)\<rparr>, None))"

definition abandon ::
  "energy_env \<Rightarrow> energy_rent_order \<Rightarrow> string \<Rightarrow> bool \<Rightarrow> world \<Rightarrow> world \<times> go_error option" where
  "abandon env row reason expired w =
     (if \<not> expired then (w, None)
      else settle_order env row EnergyOrderAbandoned (truncate_str reason 32) w)"

definition reconcile_energy ::
  "energy_env \<Rightarrow> energy_rent_order \<Rightarrow> world \<Rightarrow> world \<times> go_error option" where
  "reconcile_energy env row w =
     (let expired = me_now env - eo_created_at row > ec_pending_timeout (me_cfg env)
      in case map_of (me_provs env) (eo_provider row) of
        None \<Rightarrow> abandon env row ''provider disabled'' expired w
      | Some p \<Rightarrow>
          if poll_key p row = '''' then abandon env row ''no provider order id'' expired w
          else case p_poll p (poll_key p row) of
            Inl e \<Rightarrow> abandon env row (''poll failed: '' @ err_msg e) expired w
          | Inr ord \<Rightarrow>
              if o_state ord = StateDelegated then (fst (markDelegated env row (Some ord) w), None)
              else if o_state ord = StateFailed \<or> o_state ord = StateCancelled then
                settle_order env row EnergyOrderFailed (o_provider_state ord) w
              else abandon env row (''still '' @ o_provider_state ord) expired w)"

definition ReconcilePending :: "energy_env \<Rightarrow> world \<Rightarrow> world \<times> go_error option" where
  "ReconcilePending env w =
     (case PendingOrders env w of
        Inl e \<Rightarrow> (w, Some e)
      | Inr rows \<Rightarrow> (foldl (\<lambda>w row. fst (reconcile_energy env row w)) w rows, None))"

section \<open>The hot wallet's pool\<close>

definition hour :: time where
  "hour = 3600 * 1000000000"

definition roll_hour :: "time \<Rightarrow> energy_pool \<Rightarrow> energy_pool" where
  "roll_hour now p = (if now - ep_hour_start p \<ge> hour then p\<lparr>ep_hour_start := now, ep_last_hour_used := 0\<rparr> else p)"

definition batchSize :: "energy_pool_config \<Rightarrow> time \<Rightarrow> energy_pool \<Rightarrow> energy_pool \<times> int" where
  "batchSize cfg now p0 =
     (let b0 = (if pc_batch_txs cfg \<le> 0 then 10 else pc_batch_txs cfg);
          p = roll_hour now p0;
          b1 = (if 0 < ep_last_hour_used p \<and> ep_last_hour_used p < b0 then ep_last_hour_used p else b0);
          b2 = (if 0 < pc_max_batch_txs cfg \<and> pc_max_batch_txs cfg < b1 then pc_max_batch_txs cfg else b1)
      in (p, if b2 < 1 then 1 else b2))"

definition RecordUsage :: "time \<Rightarrow> int \<Rightarrow> energy_pool \<Rightarrow> energy_pool" where
  "RecordUsage now txs p0 =
     (let p = roll_hour now p0 in p\<lparr>ep_last_hour_used := i64 (ep_last_hour_used p + txs)\<rparr>)"

definition HasEnergyFor :: "node_api \<Rightarrow> energy_pool \<Rightarrow> int \<Rightarrow> bool" where
  "HasEnergyFor g p need =
     (case GetAccountResource g (ep_addr p) of Inl _ \<Rightarrow> False | Inr res \<Rightarrow> AvailableEnergy res \<ge> need)"

definition pool_request_id :: "energy_pool \<Rightarrow> time \<Rightarrow> string" where
  "pool_request_id p now =
     ''pool-'' @ drop (length (ep_addr p) - 6) (ep_addr p) @ ''-'' @ big_String (now div 1000000)"

definition topUp :: "energy_env \<Rightarrow> energy_pool \<Rightarrow> world \<Rightarrow> world \<times> go_error option" where
  "topUp env p0 w =
     (case GetAccountResource (me_node env) (ep_addr p0) of
        Inl e \<Rightarrow> (w, Some e)
      | Inr res \<Rightarrow>
          let cfg = ec_pool (me_cfg env);
              perTx = ec_energy_per_tx_new (me_cfg env);
              available = AvailableEnergy res;
              lowWater = i64 (pc_low_water_txs cfg * perTx)
          in if available \<ge> lowWater then (w, None)
             else
               let (p, batchTxs) = batchSize cfg (me_now env) p0;
                   w0 = w\<lparr>pool := Some p\<rparr>;
                   need = i64 (i64 (batchTxs * perTx) - available)
               in if need \<le> 0 then (w0, None)
                  else
                    let (w1, r) = AcquireRented env ''hot_pool'' (ep_addr p) need
                          (pool_request_id p (me_now env)) w0
                    in case r of Inl e \<Rightarrow> (w1, Some e) | Inr _ \<Rightarrow> (w1, None))"

section \<open>Properties\<close>

subsection \<open>Quotes\<close>

text \<open>Every cached quote is filed under its provider's name; the manager's map does the same.\<close>

definition cache_ok :: "world \<Rightarrow> bool" where
  "cache_ok w \<longleftrightarrow>
     list_all (\<lambda>(key, c). takeWhile (\<lambda>x. x \<noteq> CHR ''|'') key = q_provider (cq_quote c)) (quotes w)"

definition provs_ok :: "(string \<times> provider) list \<Rightarrow> bool" where
  "provs_ok provs \<longleftrightarrow> (\<forall>(n, p) \<in> set provs. p_name p = n \<and> energy_provider p)"

lemma cache_ok_lookup:
  assumes "cache_ok w" and "map_of (quotes w) (quote_key p req) = Some c" and "energy_provider p"
  shows "q_provider (cq_quote c) = p_name p"
proof -
  have "(quote_key p req, c) \<in> set (quotes w)" using assms(2) by (rule map_of_SomeD)
  then have "takeWhile (\<lambda>x. x \<noteq> CHR ''|'') (quote_key p req) = q_provider (cq_quote c)"
    using assms(1) by (auto simp: cache_ok_def list_all_iff)
  then show ?thesis
    using energy_provider.name_plain [OF assms(3)] by (simp add: quote_key_def takeWhile_sep)
qed

lemma quoteOne_ok:
  assumes "cache_ok w" and "energy_provider p" and "quoteOne env p req w = (w', r)"
  shows "cache_ok w' \<and> (\<forall>q. r = Inr q \<longrightarrow> q_provider q = p_name p)"
proof -
  have n: "takeWhile (\<lambda>x. x \<noteq> CHR ''|'') (quote_key p req) = p_name p"
    using energy_provider.name_plain [OF assms(2)] by (simp add: quote_key_def takeWhile_sep)
  show ?thesis
    using assms cache_ok_lookup [OF assms(1) _ assms(2)] n
    by (auto simp: quoteOne_def Let_def cache_ok_def energy_provider.quote_named
        split: option.splits if_splits sum.splits)
qed

lemma quote_all_ok:
  assumes "cache_ok w" and "provs_ok (me_provs env)" and "quote_all env req ns w = (w', rs)"
  shows "cache_ok w' \<and> map fst rs = ns \<and> (\<forall>(n, r) \<in> set rs. \<forall>q. r = Inr q \<longrightarrow> q_provider q = n)"
  using assms(1,3)
proof (induction ns arbitrary: w w' rs)
  case (Cons n ns)
  obtain w1 r where r: "(case map_of (me_provs env) n of Some p \<Rightarrow> quoteOne env p req w
      | None \<Rightarrow> (w, Inl (Err RuntimePanic ''nil provider''))) = (w1, r)" by fastforce
  have one: "cache_ok w1 \<and> (\<forall>q. r = Inr q \<longrightarrow> q_provider q = n)"
    using r Cons.prems(1) assms(2)
    by (fastforce simp: provs_ok_def dest: map_of_SomeD quoteOne_ok split: option.splits)
  obtain w2 rs2 where rs2: "quote_all env req ns w1 = (w2, rs2)" by fastforce
  have "cache_ok w1" using one by blast
  note ih = Cons.IH [OF this rs2]
  have "w' = w2 \<and> rs = (n, r) # rs2" using Cons.prems(2) r rs2 by simp
  then show ?case using ih one by simp
qed simp

lemma pick_quote_Inr:
  "pick_quote prio best errs rs = Inr q \<Longrightarrow> best = Some q \<or> (\<exists>n. (n, Inr q) \<in> set rs)"
  by (induction prio best errs rs rule: pick_quote.induct)
    (auto split: option.splits sum.splits if_splits)

lemma orderedNames_set: "set (orderedNames provs) = fst ` set provs"
  by (simp add: orderedNames_def)

lemma BestQuote_rental:
  assumes "RentalOn (me_cfg env)" and "qr_exclude_burn req"
  defines "req' \<equiv> (if qr_period req = '''' then req\<lparr>qr_period := defaultPeriod (me_cfg env)\<rparr> else req)"
    and "ns \<equiv> filter (\<lambda>n. n \<noteq> ProviderTRXBurn) (orderedNames (me_provs env))"
  shows "BestQuote env req w =
     (if ec_mode (me_cfg env) = ''fixed'' then
        if ec_fixed (me_cfg env) = ProviderTRXBurn then (w, Inl burn_not_allowed)
        else case map_of (me_provs env) (ec_fixed (me_cfg env)) of
          None \<Rightarrow> (w, Inl (errors_new (''energy: fixed provider '' @ ec_fixed (me_cfg env) @ '' is not enabled'')))
        | Some p \<Rightarrow> quoteOne env p req' w
      else if ns = [] then (w, Inl burn_not_allowed)
      else let (w', rs) = quote_all env req' ns w
           in (w', pick_quote (ec_mode (me_cfg env) = ''priority'') None [] rs))"
proof -
  have "qr_exclude_burn req'" using assms(2) by (simp add: req'_def)
  then show ?thesis
    using assms(1) unfolding BestQuote_def Let_def req'_def [symmetric] ns_def by simp
qed

lemma BestQuote_no_burn_aux:
  assumes "BestQuote env req w = (w', Inr q)" and "RentalOn (me_cfg env)" and "qr_exclude_burn req"
    and "cache_ok w" and "provs_ok (me_provs env)"
  shows "q_provider q \<noteq> ProviderTRXBurn \<and> map_of (me_provs env) (q_provider q) \<noteq> None \<and> cache_ok w'"
proof -
  let ?req = "if qr_period req = '''' then req\<lparr>qr_period := defaultPeriod (me_cfg env)\<rparr> else req"
  let ?ns = "filter (\<lambda>n. n \<noteq> ProviderTRXBurn) (orderedNames (me_provs env))"
  note eq = BestQuote_rental [OF assms(2,3), of w]
  show ?thesis
  proof (cases "ec_mode (me_cfg env) = ''fixed''")
    case True
    with assms(1) eq obtain p where p: "map_of (me_provs env) (ec_fixed (me_cfg env)) = Some p"
      "quoteOne env p ?req w = (w', Inr q)" "ec_fixed (me_cfg env) \<noteq> ProviderTRXBurn"
      by (simp split: if_split_asm option.split_asm)
    from p(1) assms(5) have "p_name p = ec_fixed (me_cfg env)" "energy_provider p"
      by (auto simp: provs_ok_def dest!: map_of_SomeD)
    with p(1,3) quoteOne_ok [OF assms(4) _ p(2)] show ?thesis by simp
  next
    case False
    obtain w1 rs where rs: "quote_all env ?req ?ns w = (w1, rs)" by (rule prod.exhaust)
    have "?ns \<noteq> []" using assms(1) eq False by (metis (no_types, lifting) Inl_Inr_False snd_conv)
    then have "BestQuote env req w = (w1, pick_quote (ec_mode (me_cfg env) = ''priority'') None [] rs)"
      using eq False rs by simp
    then have pick: "pick_quote (ec_mode (me_cfg env) = ''priority'') None [] rs = Inr q" and "w1 = w'"
      using assms(1) by simp_all
    from pick_quote_Inr [OF pick] obtain n where n: "(n, Inr q) \<in> set rs" by auto
    from quote_all_ok [OF assms(4,5) rs] n have q: "q_provider q = n" "cache_ok w1" "map fst rs = ?ns"
      by auto
    have "n \<in> set ?ns" using n q(3) by (metis fst_conv image_eqI set_map)
    then have "map_of (me_provs env) n \<noteq> None" "n \<noteq> ProviderTRXBurn"
      by (simp_all add: orderedNames_set map_of_eq_None_iff)
    with q \<open>w1 = w'\<close> show ?thesis by simp
  qed
qed

text \<open>A caller that must not burn TRX is never given the burn provider's quote while rental is on:
  whatever the selection mode, the quote names another provider that is configured.\<close>

theorem BestQuote_no_burn:
  assumes "BestQuote env req w = (w', Inr q)" and "RentalOn (me_cfg env)" and "qr_exclude_burn req"
    and "cache_ok w" and "provs_ok (me_provs env)"
  shows "q_provider q \<noteq> ProviderTRXBurn \<and> map_of (me_provs env) (q_provider q) \<noteq> None \<and> cache_ok w'"
  using assms by (rule BestQuote_no_burn_aux)

lemma pick_quote_cheapest:
  "pick_quote False best errs rs = Inr q \<Longrightarrow>
     (case best of None \<Rightarrow> True | Some b \<Rightarrow> q_cost_trx q \<le> q_cost_trx b)
     \<and> (\<forall>(n, r) \<in> set rs. \<forall>q'. r = Inr q' \<longrightarrow> q_cost_trx q \<le> q_cost_trx q')"
proof (induction rs arbitrary: best errs)
  case (Cons x rs)
  obtain n r where x: "x = (n, r)" by (cases x)
  show ?case
  proof (cases r)
    case (Inl e)
    with Cons show ?thesis by (simp add: x)
  next
    case (Inr p)
    show ?thesis
      using Cons.IH [of "Some p" errs] Cons.IH [of best errs] Cons.prems
      by (cases best) (auto simp: x Inr split: if_splits)
  qed
qed (auto split: option.splits)

lemma pick_quote_fails:
  "pick_quote prio None errs rs = Inl e \<Longrightarrow> err_is e = ErrNoProvider \<and> (\<forall>(n, r) \<in> set rs. \<exists>e. r = Inl e)"
proof (induction rs arbitrary: errs)
  case (Cons x rs)
  have "pick_quote prio (Some q) errs' rs' \<noteq> Inl e" for q errs' rs'
    by (induction rs' arbitrary: q errs') (auto split: sum.splits prod.splits if_split_asm)
  then show ?case using Cons by (cases x) (auto split: sum.splits if_splits)
qed auto

text \<open>In the cheapest mode the selection is optimal and complete: the chosen quote is one of the
  answers and no answer is cheaper, and the selection only fails when every provider failed.\<close>

theorem BestQuote_cheapest:
  assumes "ec_mode (me_cfg env) \<noteq> ''fixed''" and "ec_mode (me_cfg env) \<noteq> ''priority''"
    and "qr_exclude_burn req = False" and "qr_period req \<noteq> ''''"
    and "quote_all env req (orderedNames (me_provs env)) w = (w', rs)"
  shows "fst (BestQuote env req w) = w'
    \<and> (case snd (BestQuote env req w) of
         Inr q \<Rightarrow> (\<exists>n. (n, Inr q) \<in> set rs)
           \<and> (\<forall>(n, r) \<in> set rs. \<forall>q'. r = Inr q' \<longrightarrow> q_cost_trx q \<le> q_cost_trx q')
       | Inl e \<Rightarrow> err_is e = ErrNoProvider \<and> (\<forall>(n, r) \<in> set rs. \<exists>e. r = Inl e))"
proof -
  have req: "req\<lparr>qr_exclude_burn := False\<rparr> = req" using assms(3) by simp
  have "BestQuote env req w = (w', pick_quote False None [] rs)"
    using assms by (simp add: BestQuote_def Let_def req)
  then show ?thesis
    using pick_quote_cheapest [of None "[]" rs] pick_quote_Inr [of False None "[]" rs]
      pick_quote_fails [of False "[]" rs]
    by (cases "pick_quote False None [] rs") auto
qed

subsection \<open>Orders\<close>

lemma wait_confirmed:
  "wait env p row baseline prev rs w = (w', Inr ord) \<Longrightarrow>
     w' = w \<and> o_state ord = StateDelegated \<and>
     (\<exists>r \<in> set rs. wr_poll r (poll_key p row) = Inr ord \<and>
        confirmOnChain (wr_node r) (eo_receive_address row) baseline (eo_requested_energy row) = Inr True)"
  by (induction env p row baseline prev rs w rule: wait.induct)
    (fastforce simp: Let_def split: sum.splits if_splits)+

lemma update_order_frame [simp]:
  "placed (update_order b f row w) = placed w"
  "quotes (update_order b f row w) = quotes w"
  "map eo_id (energy_orders w) = map eo_id (energy_orders w) \<Longrightarrow>
     length (energy_orders (update_order b f row w)) = length (energy_orders w)"
  by (simp_all add: update_order_def)

lemma wait_frame: "placed (fst (wait env p row baseline prev rs w)) = placed w"
  by (induction env p row baseline prev rs w rule: wait.induct)
    (auto simp: Let_def split: sum.splits if_splits)

lemma quoteOne_frame: "quoteOne env p req w = (w', r) \<Longrightarrow> w' = w\<lparr>quotes := quotes w'\<rparr>"
  by (auto simp: quoteOne_def Let_def split: option.splits sum.splits if_splits)

lemma quote_all_frame: "quote_all env req ns w = (w', rs) \<Longrightarrow> w' = w\<lparr>quotes := quotes w'\<rparr>"
proof (induction ns arbitrary: w w' rs)
  case (Cons n ns)
  obtain w1 r where r: "(case map_of (me_provs env) n of Some p \<Rightarrow> quoteOne env p req w
      | None \<Rightarrow> (w, Inl (Err RuntimePanic ''nil provider''))) = (w1, r)" by fastforce
  obtain w2 rs2 where rs2: "quote_all env req ns w1 = (w2, rs2)" by fastforce
  have "w1 = w\<lparr>quotes := quotes w1\<rparr>"
    using r by (auto split: option.splits dest: quoteOne_frame)
  moreover have "w2 = w1\<lparr>quotes := quotes w2\<rparr>" by (rule Cons.IH [OF rs2])
  ultimately have "w2 = w\<lparr>quotes := quotes w2\<rparr>" by (metis world.update_convs(16) world.surjective)
  moreover have "w' = w2" using Cons.prems r rs2 by simp
  ultimately show ?case by simp
qed simp

lemma BestQuote_frame: "BestQuote env req w = (w', r) \<Longrightarrow> w' = w\<lparr>quotes := quotes w'\<rparr>"
  unfolding BestQuote_def Let_def
  by (auto split: if_split_asm option.split_asm prod.split_asm dest: quoteOne_frame quote_all_frame)

lemma create_or_take_frame: "create_or_take env row w = (w', r) \<Longrightarrow> w' = w\<lparr>energy_orders := energy_orders w'\<rparr>"
  by (auto simp: create_or_take_def Let_def split: if_splits option.splits)

text \<open>The row \<open>acquire\<close> writes before it pays.\<close>

definition acquire_row ::
  "energy_env \<Rightarrow> string \<Rightarrow> string \<Rightarrow> string \<Rightarrow> quote \<Rightarrow> energy_rent_order" where
  "acquire_row env purpose receiver requestID quote =
     \<lparr>eo_id = 0, eo_provider = q_provider quote, eo_request_id = requestID,
      eo_provider_order_id = '''', eo_receive_address = receiver,
      eo_resource_type = ResourceEnergy, eo_requested_energy = q_billed_units quote,
      eo_delegated_energy = 0, eo_baseline_energy = availableEnergy (me_node env) receiver,
      eo_period = q_period quote, eo_cost_trx = q_cost_trx quote,
      eo_amount = FormatTRX (q_cost_trx quote), eo_status = EnergyOrderCreated,
      eo_provider_status = '''', eo_delegate_txid = '''', eo_block_number = 0,
      eo_purpose = purpose, eo_created_at = me_now env, eo_updated_at = me_now env,
      eo_finished_at = None\<rparr>"

definition acquire_quote :: "energy_env \<Rightarrow> string \<Rightarrow> int \<Rightarrow> bool \<Rightarrow> quote_request" where
  "acquire_quote env receiver need excludeBurn =
     \<lparr>qr_resource = ResourceEnergy, qr_amount = need, qr_period = defaultPeriod (me_cfg env),
      qr_receiver = receiver, qr_exclude_burn = RentalOn (me_cfg env) \<and> excludeBurn\<rparr>"

text \<open>The two ways in which \<open>acquire\<close> hands out a row.\<close>

lemma acquire_Inr:
  assumes "acquire env purpose receiver need requestID ex w = (w', Inr out)"
  obtains w0 q w1 row where
    "BestQuote env (acquire_quote env receiver need ex) w = (w0, Inr q)"
    "create_or_take env (acquire_row env purpose receiver requestID q) w0 = (w1, Inr row)"
    "eo_status out = EnergyOrderDelegated" "eo_id out = eo_id row" "eo_request_id out = eo_request_id row"
    "eo_provider out = eo_provider row"
    "q_provider q = ProviderTRXBurn \<or>
     (\<exists>r \<in> set (me_rounds env). confirmOnChain (wr_node r) (eo_receive_address out)
        (availableEnergy (me_node env) receiver) (eo_requested_energy out) = Inr True)"
proof -
  have ex: "(if \<not> RentalOn (me_cfg env) then False else ex) = (RentalOn (me_cfg env) \<and> ex)" by simp
  obtain w0 q where q: "BestQuote env (acquire_quote env receiver need ex) w = (w0, Inr q)"
    using assms
    by (cases "BestQuote env (acquire_quote env receiver need ex) w"; cases "snd (BestQuote env (acquire_quote env receiver need ex) w)")
      (simp_all add: acquire_def ex acquire_quote_def Let_def)
  obtain w1 row where row: "create_or_take env (acquire_row env purpose receiver requestID q) w0 = (w1, Inr row)"
    using assms q
    by (cases "create_or_take env (acquire_row env purpose receiver requestID q) w0";
        cases "snd (create_or_take env (acquire_row env purpose receiver requestID q) w0)")
      (simp_all add: acquire_def ex acquire_quote_def acquire_row_def Let_def)
  note acq = assms [unfolded acquire_def Let_def ex acquire_quote_def [symmetric], unfolded q,
      simplified, folded acquire_row_def, unfolded row, simplified]
  show ?thesis
  proof (cases "q_provider q = ProviderTRXBurn")
    case True
    with acq have "out = row\<lparr>eo_status := EnergyOrderDelegated\<rparr>" by (simp add: markDelegated_def)
    then show ?thesis using that [OF q row] True by simp
  next
    case False
    then show ?thesis
      using acq by (auto simp: markDelegated_def split: option.splits sum.splits prod.splits
          dest!: wait_confirmed intro!: that [OF q row])
  qed
qed

text \<open>The manager touches its own tables and nothing else.\<close>

definition energy_only :: "world \<Rightarrow> world \<Rightarrow> bool" where
  "energy_only w w' \<longleftrightarrow> (\<exists>q e p. w' = w\<lparr>quotes := q, energy_orders := e, placed := p\<rparr>)"

lemma energy_only_refl [simp]: "energy_only w w"
  unfolding energy_only_def by (metis world.surjective world.update_convs(9,16,19))

lemma energy_only_trans: "energy_only w w' \<Longrightarrow> energy_only w' w'' \<Longrightarrow> energy_only w w''"
  unfolding energy_only_def by fastforce

lemma energy_only_frame:
  assumes "energy_only w w'"
  shows "withdraws w' = withdraws w" "outbox w' = outbox w" "broadcasts w' = broadcasts w"
    "pool w' = pool w" "sweeps w' = sweeps w" "deposits w' = deposits w" "user_wallets w' = user_wallets w"
    "redis_keys w' = redis_keys w" "event_ids w' = event_ids w" "topups w' = topups w" "sweep_skips w' = sweep_skips w"
  using assms by (auto simp: energy_only_def event_ids_def)

lemma energy_onlyI:
  "w' = w\<lparr>quotes := q\<rparr> \<Longrightarrow> energy_only w w'" "w' = w\<lparr>energy_orders := e\<rparr> \<Longrightarrow> energy_only w w'"
  "w' = w\<lparr>placed := p\<rparr> \<Longrightarrow> energy_only w w'"
  unfolding energy_only_def by (cases w; simp; blast)+

lemma update_order_only: "energy_only w (update_order b f row w)"
  by (auto simp: update_order_def intro: energy_onlyI)

lemma markDelegated_only: "markDelegated env row ord w = (w', row') \<Longrightarrow> energy_only w w'"
  using update_order_only by (auto simp: markDelegated_def)

lemma wait_only: "wait env p row baseline prev rs w = (w', r) \<Longrightarrow> energy_only w w'"
proof (induction env p row baseline prev rs w arbitrary: w' r rule: wait.induct)
  case (2 env p row baseline prev rnd rs w)
  then show ?case
    by (auto simp: Let_def update_order_only split: sum.splits if_splits)
qed simp

lemma acquire_only:
  assumes "acquire env purpose receiver need requestID ex w = (w', res)"
  shows "energy_only w w'"
proof -
  have ex: "(if \<not> RentalOn (me_cfg env) then False else ex) = (RentalOn (me_cfg env) \<and> ex)" by simp
  obtain w0 qr where q: "BestQuote env (acquire_quote env receiver need ex) w = (w0, qr)" by fastforce
  then have w0: "energy_only w w0" using BestQuote_frame [OF q] energy_onlyI(1) by blast
  show ?thesis
  proof (cases qr)
    case (Inl e)
    with assms q w0 show ?thesis by (simp add: acquire_def ex acquire_quote_def Let_def)
  next
    case (Inr q')
    obtain w1 r where r: "create_or_take env (acquire_row env purpose receiver requestID q') w0 = (w1, r)"
      by fastforce
    have w1: "energy_only w w1"
      using energy_only_trans [OF w0] create_or_take_frame [OF r] energy_onlyI(2) by blast
    have pl: "energy_only w1 (w1\<lparr>placed := p\<rparr>)" for p using energy_onlyI(3) by blast
    note acq = assms [unfolded acquire_def Let_def ex acquire_quote_def [symmetric], unfolded q Inr,
        simplified, folded acquire_row_def, unfolded r, simplified]
    note tr = energy_only_trans [OF w1] energy_only_trans [OF pl] energy_only_trans [OF update_order_only]
    have "energy_only w1 w'"
      using acq
      by (cases r)
        (auto split: if_splits option.splits sum.splits prod.splits
          intro: markDelegated_only pl update_order_only energy_only_trans [OF pl update_order_only]
            energy_only_trans [OF energy_only_trans [OF pl update_order_only] wait_only]
            energy_only_trans [OF energy_only_trans [OF energy_only_trans [OF pl update_order_only] wait_only] markDelegated_only])
    then show ?thesis by (rule energy_only_trans [OF w1])
  qed
qed

lemma AcquireBurn_only: "AcquireBurn env purpose receiver need requestID w = (w', res) \<Longrightarrow> energy_only w w'"
  unfolding AcquireBurn_def Let_def
  by (auto split: prod.splits sum.splits
      dest!: create_or_take_frame energy_onlyI(2) markDelegated_only intro: energy_only_trans)

text \<open>
  What it means that energy was rented, in terms of the platform and the chain: one order was added to
  those placed, at a configured provider that is not the burning of TRX, for at least the energy that is
  needed, to the address that needs it and under the key of the request, and the provider took it; a
  later read of the address on the chain shows at least 95 percent of the requested energy on top of
  what it could spend before. The code takes that baseline as zero when the read before the order
  failed. A request that had no row before is recorded with its own address and amount.
\<close>

definition energy_rented ::
  "energy_env \<Rightarrow> string \<Rightarrow> int \<Rightarrow> string \<Rightarrow> world \<Rightarrow> world \<Rightarrow> energy_rent_order \<Rightarrow> bool" where
  "energy_rented env receiver need requestID w w' out \<longleftrightarrow>
     (\<exists>name prov order ack.
        name \<noteq> ProviderTRXBurn \<and> map_of (me_provs env) name = Some prov
      \<and> placed w' = placed w @ [(name, order)]
      \<and> or_resource order = ResourceEnergy \<and> need \<le> or_amount order \<and> or_receiver order = receiver
      \<and> or_idempotency_key order = requestID \<and> p_ensure prov order = Inr ack
      \<and> ((\<forall>r \<in> set (energy_orders w). eo_request_id r \<noteq> requestID) \<longrightarrow>
           eo_receive_address out = receiver \<and> eo_requested_energy out = or_amount order))
   \<and> (\<exists>look \<in> set (me_rounds env). \<exists>after before.
        GetAccountResource (wr_node look) (eo_receive_address out) = Inr after
      \<and> before = (case GetAccountResource (me_node env) receiver of
           Inl _ \<Rightarrow> 0 | Inr res \<Rightarrow> if AvailableEnergy res < 0 then 0 else AvailableEnergy res)
      \<and> go_div (i64 (eo_requested_energy out * 95)) 100 \<le> i64 (AvailableEnergy after - before))
   \<and> eo_status out = EnergyOrderDelegated \<and> eo_request_id out = requestID"

lemma cut_bar:
  assumes "a @ CHR ''|'' # b = c @ CHR ''|'' # d" and "CHR ''|'' \<notin> set a" and "CHR ''|'' \<notin> set c"
  shows "a = c \<and> b = d"
  using assms takeWhile_sep [OF assms(2), of b] takeWhile_sep [OF assms(3), of d] by (metis list.inject same_append_eq)

lemma bar_not_digit: "CHR ''|'' \<notin> set (big_String i)"
proof -
  have "\<forall>c \<in> set (show_nat n). c \<noteq> CHR ''|''" for n
    using show_nat_digits [of n] by (auto simp: list_all_iff is_digit_def)
  then show ?thesis by (auto simp: big_String_def)
qed

text \<open>A cached quote for energy bills at least what its key asks for.\<close>

definition cache_covers :: "world \<Rightarrow> bool" where
  "cache_covers w \<longleftrightarrow> (\<forall>(key, c) \<in> set (quotes w). \<forall>n a t. CHR ''|'' \<notin> set n \<longrightarrow>
     key = n @ ''|'' @ ResourceEnergy @ ''|'' @ big_String a @ ''|'' @ t \<longrightarrow> a \<le> q_billed_units (cq_quote c))"

lemma quoteOne_covers:
  assumes "cache_covers w" and "energy_provider p" and "qr_resource req = ResourceEnergy"
    and "quoteOne env p req w = (w', r)"
  shows "cache_covers w' \<and> (\<forall>q. r = Inr q \<longrightarrow> qr_amount req \<le> q_billed_units q)"
proof -
  have plain: "CHR ''|'' \<notin> set (p_name p)" using energy_provider.name_plain [OF assms(2)] .
  have key: "a = qr_amount req"
    if eq: "quote_key p req = n @ ''|'' @ ResourceEnergy @ ''|'' @ big_String a @ ''|'' @ t" and n: "CHR ''|'' \<notin> set n" for n a t
  proof -
    have 1: "ResourceEnergy @ ''|'' @ big_String (qr_amount req) @ ''|'' @ qr_period req =
        ResourceEnergy @ ''|'' @ big_String a @ ''|'' @ t"
      using conjunct2 [OF cut_bar [OF eq [unfolded quote_key_def assms(3), simplified] plain n]] by simp
    then have "big_String (qr_amount req) = big_String a"
      using cut_bar [OF _ bar_not_digit bar_not_digit] by simp
    then show ?thesis by (simp add: big_String_inject)
  qed
  have hit: "qr_amount req \<le> q_billed_units (cq_quote c)" if "map_of (quotes w) (quote_key p req) = Some c" for c
    using map_of_SomeD [OF that] assms(1,3) plain by (fastforce simp: cache_covers_def quote_key_def)
  have new: "cache_covers (w\<lparr>quotes := (quote_key p req, \<lparr>cq_quote = q, cq_expires = x\<rparr>) # quotes w\<rparr>)"
    if "p_quote p req = Inr q" for q x
    using assms(1) key energy_provider.quote_covers [OF assms(2) that] by (auto simp: cache_covers_def)
  show ?thesis
    using assms(1,4) hit new energy_provider.quote_covers [OF assms(2)]
    by (auto simp: quoteOne_def Let_def split: option.splits if_splits sum.splits)
qed

lemma quote_all_covers:
  assumes "cache_covers w" and "provs_ok (me_provs env)" and "qr_resource req = ResourceEnergy"
    and "quote_all env req ns w = (w', rs)"
  shows "cache_covers w' \<and> (\<forall>(n, r) \<in> set rs. \<forall>q. r = Inr q \<longrightarrow> qr_amount req \<le> q_billed_units q)"
  using assms(1,4)
proof (induction ns arbitrary: w w' rs)
  case (Cons n ns)
  obtain w1 r where r: "(case map_of (me_provs env) n of Some p \<Rightarrow> quoteOne env p req w
      | None \<Rightarrow> (w, Inl (Err RuntimePanic ''nil provider''))) = (w1, r)" by fastforce
  have one: "cache_covers w1 \<and> (\<forall>q. r = Inr q \<longrightarrow> qr_amount req \<le> q_billed_units q)"
    using r Cons.prems(1) assms(2) quoteOne_covers [OF Cons.prems(1) _ assms(3)]
    by (fastforce simp: provs_ok_def dest: map_of_SomeD split: option.splits)
  obtain w2 rs2 where rs2: "quote_all env req ns w1 = (w2, rs2)" by fastforce
  have "cache_covers w1" using one by blast
  note ih = Cons.IH [OF this rs2]
  have "w' = w2 \<and> rs = (n, r) # rs2" using Cons.prems(2) r rs2 by simp
  then show ?case using ih one by simp
qed simp

lemma BestQuote_covers:
  assumes "BestQuote env req w = (w', Inr q)" and "RentalOn (me_cfg env)" and "qr_exclude_burn req"
    and "cache_covers w" and "provs_ok (me_provs env)" and "qr_resource req = ResourceEnergy"
  shows "qr_amount req \<le> q_billed_units q"
proof -
  let ?req = "if qr_period req = '''' then req\<lparr>qr_period := defaultPeriod (me_cfg env)\<rparr> else req"
  let ?ns = "filter (\<lambda>n. n \<noteq> ProviderTRXBurn) (orderedNames (me_provs env))"
  have req: "qr_resource ?req = ResourceEnergy" "qr_amount ?req = qr_amount req" using assms(6) by simp_all
  note eq = BestQuote_rental [OF assms(2,3), of w]
  show ?thesis
  proof (cases "ec_mode (me_cfg env) = ''fixed''")
    case True
    with assms(1) eq obtain p where p: "map_of (me_provs env) (ec_fixed (me_cfg env)) = Some p"
      "quoteOne env p ?req w = (w', Inr q)"
      by (simp split: if_split_asm option.split_asm)
    from p(1) assms(5) have "energy_provider p" by (auto simp: provs_ok_def dest!: map_of_SomeD)
    then show ?thesis using quoteOne_covers [OF assms(4) _ req(1) p(2)] req(2) by simp
  next
    case False
    obtain w1 rs where rs: "quote_all env ?req ?ns w = (w1, rs)" by (rule prod.exhaust)
    have "?ns \<noteq> []" using assms(1) eq False by (metis (no_types, lifting) Inl_Inr_False snd_conv)
    then have "pick_quote (ec_mode (me_cfg env) = ''priority'') None [] rs = Inr q"
      using assms(1) eq False rs by simp
    from pick_quote_Inr [OF this] obtain n where "(n, Inr q) \<in> set rs" by auto
    then show ?thesis using quote_all_covers [OF assms(4,5) req(1) rs] req(2) by auto
  qed
qed

lemma available_before:
  "availableEnergy g addr = (case GetAccountResource g addr of
     Inl _ \<Rightarrow> 0 | Inr res \<Rightarrow> if AvailableEnergy res < 0 then 0 else AvailableEnergy res)"
  by (cases "GetAccountResource g addr") (simp_all add: availableEnergy_def Let_def)

text \<open>What \<open>create_or_take\<close> hands out: the new row, or one with the same request id.\<close>

lemma create_or_take_row:
  assumes "create_or_take env row w = (w1, Inr got)"
  shows "eo_request_id got = eo_request_id row \<and> placed w1 = placed w
    \<and> ((\<forall>r \<in> set (energy_orders w). eo_request_id r \<noteq> eo_request_id row) \<longrightarrow>
         eo_receive_address got = eo_receive_address row \<and> eo_requested_energy got = eo_requested_energy row)"
  using assms by (auto simp: create_or_take_def Let_def dest: take_first_Some split: if_splits option.splits)

lemma AcquireRented_rents:
  assumes "AcquireRented env purpose receiver need requestID w = (w', Inr out)"
    and "RentalOn (me_cfg env)" and "cache_ok w" and "cache_covers w" and "provs_ok (me_provs env)"
  shows "energy_rented env receiver need requestID w w' out"
proof -
  let ?rq = "acquire_quote env receiver need True"
  have ex: "(if \<not> RentalOn (me_cfg env) then False else True) = (RentalOn (me_cfg env) \<and> True)" by simp
  note acq0 = assms(1) [unfolded AcquireRented_def acquire_def Let_def ex acquire_quote_def [symmetric]]
  obtain w0 q where q: "BestQuote env ?rq w = (w0, Inr q)"
    using acq0 by (cases "BestQuote env ?rq w"; cases "snd (BestQuote env ?rq w)") simp_all
  have burn: "qr_exclude_burn ?rq" "qr_amount ?rq = need" "qr_resource ?rq = ResourceEnergy"
    using assms(2) by (simp_all add: acquire_quote_def)
  obtain prov where prov: "q_provider q \<noteq> ProviderTRXBurn" "map_of (me_provs env) (q_provider q) = Some prov"
    using BestQuote_no_burn_aux [OF q assms(2) burn(1) assms(3,5)] by auto
  have need: "need \<le> q_billed_units q" using BestQuote_covers [OF q assms(2) burn(1) assms(4,5) burn(3)] burn(2) by simp
  have w0: "placed w0 = placed w" "energy_orders w0 = energy_orders w"
    by (subst BestQuote_frame [OF q], simp)+
  note acq1 = acq0 [unfolded q, simplified, folded acquire_row_def]
  obtain w1 row where row: "create_or_take env (acquire_row env purpose receiver requestID q) w0 = (w1, Inr row)"
    using acq1 by (cases "create_or_take env (acquire_row env purpose receiver requestID q) w0";
        cases "snd (create_or_take env (acquire_row env purpose receiver requestID q) w0)") simp_all
  note got = create_or_take_row [OF row, unfolded w0]
  let ?order = "\<lparr>or_resource = ResourceEnergy, or_amount = q_billed_units q, or_period = q_period q,
     or_receiver = receiver, or_idempotency_key = requestID\<rparr>"
  note acq2 = acq1 [unfolded row, simplified]
  obtain ack where ack: "p_ensure prov ?order = Inr ack"
    using acq2 prov by (cases "p_ensure prov ?order") simp_all
  let ?f = "\<lambda>x. x\<lparr>eo_provider_order_id := o_provider_order_id ack, eo_provider_status := o_provider_state ack,
     eo_updated_at := me_now env\<rparr>"
  let ?w3 = "update_order (me_fail env EoEnsured) ?f row (w1\<lparr>placed := placed w1 @ [(q_provider q, ?order)]\<rparr>)"
  obtain w4 final where wt: "wait env prov (?f row) (availableEnergy (me_node env) receiver) None (me_rounds env) ?w3 = (w4, final)"
    by fastforce
  note acq3 = acq2 [unfolded prov(2) ack option.case sum.case wt]
  obtain ord where ord: "final = Inr ord" using acq2 prov ack wt by (cases final) simp_all
  have out: "out = (?f row)\<lparr>eo_status := EnergyOrderDelegated\<rparr>" "placed w' = placed w4"
    using acq2 prov ack wt ord by (auto simp: markDelegated_def)
  from wait_confirmed [OF wt [unfolded ord]] obtain look where look: "look \<in> set (me_rounds env)" "w4 = ?w3"
    "confirmOnChain (wr_node look) (eo_receive_address row) (availableEnergy (me_node env) receiver) (eo_requested_energy row) = Inr True"
    by auto
  then obtain after where after: "GetAccountResource (wr_node look) (eo_receive_address row) = Inr after"
    "go_div (i64 (eo_requested_energy row * 95)) 100 \<le> i64 (AvailableEnergy after - availableEnergy (me_node env) receiver)"
    by (auto simp: confirmOnChain_def split: sum.splits)
  have fields: "eo_receive_address out = eo_receive_address row" "eo_requested_energy out = eo_requested_energy row"
    "eo_status out = EnergyOrderDelegated" "eo_request_id out = requestID" "placed w' = placed w @ [(q_provider q, ?order)]"
    using out look(2) got by (simp_all add: acquire_row_def)
  show ?thesis
    unfolding energy_rented_def fields(1,2) available_before [symmetric]
    using prov need ack fields(3-5) got look(1) after by (fastforce simp: acquire_row_def)
qed

text \<open>What is rented does not depend on the rest of the world.\<close>

lemma energy_rented_cong:
  assumes "placed w1 = placed w" and "energy_orders w1 = energy_orders w" and "placed w2 = placed w'"
  shows "energy_rented env receiver need requestID w1 w2 out = energy_rented env receiver need requestID w w' out"
  by (simp only: energy_rented_def assms)

text \<open>C34. Renting never pays silently in TRX and never takes the provider's word: when \<open>AcquireRented\<close>
  returns an order while rental is on, an order for at least the energy needed was placed at a configured
  provider that is not the burning of TRX, and the receiving address was read on chain and held at least
  95 percent of the requested energy on top of what it could spend before the order - or, when that
  earlier read failed, at all. The quotes in the cache are those of the providers they are filed under.\<close>

theorem AcquireRented_confirmed:
  assumes "AcquireRented env purpose receiver need requestID w = (w', Inr out)"
    and "RentalOn (me_cfg env)" and "cache_ok w" and "cache_covers w" and "provs_ok (me_provs env)"
  shows "energy_rented env receiver need requestID w w' out"
  using assms by (rule AcquireRented_rents)

text \<open>
  The divergence recorded with the findings: when the read before the order fails the baseline is zero, so
  energy the address already had counts as the delegation.
\<close>

lemma failed_baseline_accepts:
  assumes "GetAccountResource g0 receiver = Inl e" and "GetAccountResource g receiver = Inr res"
    and "go_div (i64 (need * 95)) 100 \<le> i64 (AvailableEnergy res)"
  shows "confirmOnChain g receiver (availableEnergy g0 receiver) need = Inr True"
  using assms by (simp add: confirmOnChain_def availableEnergy_def)

text \<open>At most one row per id and per request id.\<close>

definition orders_ok :: "world \<Rightarrow> bool" where
  "orders_ok w \<longleftrightarrow> distinct (map eo_id (energy_orders w)) \<and> distinct (map eo_request_id (energy_orders w))"

lemma create_or_take_ok:
  assumes "orders_ok w" and "create_or_take env row w = (w', r)"
  shows "orders_ok w' \<and> (\<forall>x. r = Inr x \<longrightarrow> x \<in> set (energy_orders w') \<and> eo_request_id x = eo_request_id row)"
  using assms fresh_id_not_in [of "map eo_id (energy_orders w)"]
  by (auto simp: create_or_take_def orders_ok_def Let_def dest: take_first_Some split: if_splits option.splits)
    metis

lemma update_order_ids:
  assumes "\<And>x. eo_id (f x) = eo_id x \<and> eo_request_id (f x) = eo_request_id x"
  shows "map eo_id (energy_orders (update_order b f row w)) = map eo_id (energy_orders w)"
    and "map eo_request_id (energy_orders (update_order b f row w)) = map eo_request_id (energy_orders w)"
  using assms by (simp_all add: update_order_def map_update_where)

lemma mark_updates_ids [simp]:
  "eo_id (mark_updates env ord x) = eo_id x" "eo_request_id (mark_updates env ord x) = eo_request_id x"
  by (simp_all add: mark_updates_def Let_def split: option.split)

lemma wait_ids:
  "map eo_id (energy_orders (fst (wait env p row baseline prev rs w))) = map eo_id (energy_orders w)"
  "map eo_request_id (energy_orders (fst (wait env p row baseline prev rs w))) = map eo_request_id (energy_orders w)"
  by (induction env p row baseline prev rs w rule: wait.induct)
    (auto simp: Let_def update_order_ids split: sum.splits if_splits)

lemma wait_ids_dest:
  "wait env p row baseline prev rs w = (w', r) \<Longrightarrow>
     map eo_id (energy_orders w') = map eo_id (energy_orders w)
     \<and> map eo_request_id (energy_orders w') = map eo_request_id (energy_orders w)"
  using wait_ids [of env p row baseline prev rs w] by simp

lemma wait_frame_dest: "wait env p row baseline prev rs w = (w', r) \<Longrightarrow> placed w' = placed w"
  using wait_frame [of env p row baseline prev rs w] by simp

lemma markDelegated_ids:
  "markDelegated env row ord w = (w', row') \<Longrightarrow>
     map eo_id (energy_orders w') = map eo_id (energy_orders w)
     \<and> map eo_request_id (energy_orders w') = map eo_request_id (energy_orders w)
     \<and> eo_id row' = eo_id row \<and> eo_request_id row' = eo_request_id row"
  by (auto simp: markDelegated_def update_order_ids)

text \<open>What follows the insert only rewrites rows in place.\<close>

lemma acquire_ids:
  assumes "acquire env purpose receiver need requestID ex w = (w', res)"
  shows "map eo_id (energy_orders w') = map eo_id (energy_orders w)
       \<and> map eo_request_id (energy_orders w') = map eo_request_id (energy_orders w)
     \<or> (\<exists>w0 q w1 r. energy_orders w0 = energy_orders w
          \<and> create_or_take env (acquire_row env purpose receiver requestID q) w0 = (w1, r)
          \<and> map eo_id (energy_orders w') = map eo_id (energy_orders w1)
          \<and> map eo_request_id (energy_orders w') = map eo_request_id (energy_orders w1))"
proof -
  have ex: "(if \<not> RentalOn (me_cfg env) then False else ex) = (RentalOn (me_cfg env) \<and> ex)" by simp
  obtain w0 qr where q: "BestQuote env (acquire_quote env receiver need ex) w = (w0, qr)" by fastforce
  then have w0: "energy_orders w0 = energy_orders w"
    using BestQuote_frame [OF q] by (metis world.select_convs(9) world.surjective world.update_convs(16))
  show ?thesis
  proof (cases qr)
    case (Inl e)
    with assms q w0 show ?thesis by (simp add: acquire_def ex acquire_quote_def Let_def)
  next
    case (Inr q')
    obtain w1 r where r: "create_or_take env (acquire_row env purpose receiver requestID q') w0 = (w1, r)"
      by fastforce
    note acq = assms [unfolded acquire_def Let_def ex acquire_quote_def [symmetric], unfolded q Inr,
        simplified, folded acquire_row_def, unfolded r, simplified]
    have "map eo_id (energy_orders w') = map eo_id (energy_orders w1)
       \<and> map eo_request_id (energy_orders w') = map eo_request_id (energy_orders w1)"
      using acq
      by (cases r)
        (auto simp: update_order_ids markDelegated_def split: if_splits option.splits sum.splits prod.splits
          dest!: wait_ids_dest)
    with w0 r show ?thesis by blast
  qed
qed

lemma orders_ok_cong:
  "map eo_id (energy_orders w') = map eo_id (energy_orders w) \<Longrightarrow>
   map eo_request_id (energy_orders w') = map eo_request_id (energy_orders w) \<Longrightarrow>
   orders_ok w' \<longleftrightarrow> orders_ok w"
  by (simp add: orders_ok_def)

lemma acquire_orders:
  assumes "orders_ok w" and "acquire env purpose receiver need requestID ex w = (w', res)"
  shows "orders_ok w'"
  using acquire_ids [OF assms(2)]
proof
  assume "map eo_id (energy_orders w') = map eo_id (energy_orders w)
    \<and> map eo_request_id (energy_orders w') = map eo_request_id (energy_orders w)"
  with assms(1) show ?thesis by (simp add: orders_ok_def)
next
  assume "\<exists>w0 q w1 r. energy_orders w0 = energy_orders w
          \<and> create_or_take env (acquire_row env purpose receiver requestID q) w0 = (w1, r)
          \<and> map eo_id (energy_orders w') = map eo_id (energy_orders w1)
          \<and> map eo_request_id (energy_orders w') = map eo_request_id (energy_orders w1)"
  then obtain w0 q w1 r where "energy_orders w0 = energy_orders w"
    and c: "create_or_take env (acquire_row env purpose receiver requestID q) w0 = (w1, r)"
    and "map eo_id (energy_orders w') = map eo_id (energy_orders w1)"
      "map eo_request_id (energy_orders w') = map eo_request_id (energy_orders w1)"
    by blast
  moreover from this assms(1) have "orders_ok w1"
    using create_or_take_ok [OF _ c] by (simp add: orders_ok_def)
  ultimately show ?thesis by (simp add: orders_ok_def)
qed

lemma AcquireBurn_orders:
  assumes "orders_ok w"
  shows "orders_ok (fst (AcquireBurn env purpose receiver need requestID w))"
proof (cases "create_or_take env
    \<lparr>eo_id = 0, eo_provider = ProviderTRXBurn, eo_request_id = requestID,
     eo_provider_order_id = '''', eo_receive_address = receiver,
     eo_resource_type = ResourceEnergy, eo_requested_energy = need, eo_delegated_energy = 0,
     eo_baseline_energy = availableEnergy (me_node env) receiver,
     eo_period = defaultPeriod (me_cfg env), eo_cost_trx = burnCostTRX env need,
     eo_amount = FormatTRX (burnCostTRX env need), eo_status = EnergyOrderCreated,
     eo_provider_status = '''', eo_delegate_txid = '''', eo_block_number = 0, eo_purpose = purpose,
     eo_created_at = me_now env, eo_updated_at = me_now env, eo_finished_at = None\<rparr> w")
  case (Pair w1 r)
  note ok = create_or_take_ok [OF assms Pair]
  have "\<And>row o' w2 row'. markDelegated env row o' w1 = (w2, row') \<Longrightarrow> orders_ok w2"
    using markDelegated_ids ok orders_ok_cong by blast
  then show ?thesis
    using Pair ok by (auto simp: AcquireBurn_def Let_def split: sum.splits prod.splits)
qed

lemma reconcile_energy_orders: "orders_ok w \<Longrightarrow> orders_ok (fst (reconcile_energy env row w))"
proof -
  assume w: "orders_ok w"
  have m: "orders_ok (fst (markDelegated env row ord w))" for ord
    using w by (simp add: markDelegated_def orders_ok_def update_order_ids)
  have s: "orders_ok (fst (settle_order env row st ps w))" for st ps
    using w by (simp add: settle_order_def orders_ok_def map_update_where)
  show ?thesis
    using w m s by (simp add: reconcile_energy_def abandon_def Let_def split: option.split sum.split)
qed

text \<open>Rows are only added under a new id and a new request id, whatever the calls and however their
  statements fail: renting, recording a burn and reconciling keep one row per request id.\<close>

theorem energy_orders_unique:
  assumes "orders_ok w"
  shows "orders_ok (fst (acquire env purpose receiver need requestID ex w))
    \<and> orders_ok (fst (AcquireBurn env purpose receiver need requestID w))
    \<and> orders_ok (fst (ReconcilePending env w))"
proof -
  have "orders_ok (foldl (\<lambda>w row. fst (reconcile_energy env row w)) w rows)" for rows
    using assms by (induction rows arbitrary: w) (simp_all add: reconcile_energy_orders)
  then have "orders_ok (fst (ReconcilePending env w))"
    using assms by (simp add: ReconcilePending_def split: sum.split)
  then show ?thesis
    using acquire_orders [OF assms prod.collapse [symmetric], of env purpose receiver need requestID ex]
      AcquireBurn_orders [OF assms, of env purpose receiver need requestID] by simp
qed

lemma create_or_take_dup:
  assumes "r \<in> set (energy_orders w)" and "eo_request_id r = eo_request_id row" and "\<not> me_fail env EoTake"
  shows "\<exists>x. create_or_take env row w = (w, Inr x)"
proof (cases "take_first (\<lambda>x. eo_request_id x = eo_request_id row) (energy_orders w)")
  case None
  then show ?thesis using assms(1,2) by (simp add: take_first_None)
next
  case (Some x)
  then show ?thesis using assms by (auto simp: create_or_take_def)
qed

text \<open>The defect recorded with the findings: a request id that already has a row is paid for again.\<close>

theorem acquire_duplicate_places:
  assumes "r \<in> set (energy_orders w)" and "eo_request_id r = requestID"
    and "BestQuote env (acquire_quote env receiver need ex) w = (w0, Inr q)"
    and "q_provider q \<noteq> ProviderTRXBurn" and "map_of (me_provs env) (q_provider q) = Some p"
    and "\<not> me_fail env EoTake"
  shows "\<exists>req. placed (fst (acquire env purpose receiver need requestID ex w)) =
      placed w @ [(q_provider q, req)] \<and> or_idempotency_key req = requestID"
proof -
  have ex: "(if \<not> RentalOn (me_cfg env) then False else ex) = (RentalOn (me_cfg env) \<and> ex)" by simp
  have w0: "w0 = w\<lparr>quotes := quotes w0\<rparr>" using BestQuote_frame [OF assms(3)] .
  then have "r \<in> set (energy_orders w0)" "placed w0 = placed w"
    using assms(1) by (metis world.select_convs world.surjective world.update_convs(16))+
  then obtain row where row: "create_or_take env (acquire_row env purpose receiver requestID q) w0 = (w0, Inr row)"
    using create_or_take_dup [of r w0 "acquire_row env purpose receiver requestID q" env] assms(2,6)
    by (auto simp: acquire_row_def)
  show ?thesis
    using \<open>placed w0 = placed w\<close>
    unfolding acquire_def Let_def ex acquire_quote_def [symmetric] assms(3)
    by (simp add: acquire_row_def [symmetric] row assms(4,5) split: sum.split prod.split)
      (auto simp: markDelegated_def dest!: wait_frame_dest)
qed

subsection \<open>Estimates\<close>

text \<open>The head room never turns into a shortfall: for every factor the energy asked for is at least
  what the simulation of the transfer used (up to \<open>2^53\<close>, where a float64 counts every unit).\<close>

theorem EstimateEnergyFactor_covers:
  assumes "TriggerConstantContract g owner contract data = Inr (out, used)"
    and "0 < used" and "used \<le> 2 ^ 53"
  shows "\<exists>n. EstimateEnergyFactor cfg g owner contract data factor = Inr n \<and> used \<le> n"
proof -
  define f where "f = (if factor < 1 then DefaultSafetyFactor else factor)"
  have d: "1 \<le> DefaultSafetyFactor"
    using fl64_ge_int [of 1 "115 / 100"] by (simp add: DefaultSafetyFactor_def)
  then have f: "1 \<le> f" by (simp add: f_def)
  have u: "of_int used \<le> float_of_int used"
    using fl64_ge_int [of used "of_int used"] assms(2,3) by (simp add: float_of_int_def)
  then have "of_int used * 1 \<le> float_of_int used * f"
    using assms(2) f by (intro mult_mono) auto
  then have r: "of_int used \<le> fl64 (float_of_int used * f)"
    using fl64_ge_int [of used "float_of_int used * f"] assms(2,3) by simp
  then have "0 \<le> fl64 (float_of_int used * f)" using assms(2) by (smt (verit) of_int_0_le_iff order_trans less_imp_le)
  with r have "used \<le> int_of_float (fl64 (float_of_int used * f))"
    by (simp add: int_of_float_def le_floor_iff)
  with assms(1,2) show ?thesis
    by (simp add: EstimateEnergyFactor_def Let_def f_def [symmetric])
qed

definition estimating_node :: "int \<Rightarrow> node_api" where
  "estimating_node used = down_node\<lparr>na_trigger_constant := (\<lambda>_ _ _.
     Inr \<lparr>tg_result = True, tg_code = '''', tg_message = '''', tg_constant_result = [''00''],
          tg_transaction = None, tg_energy_used = used\<rparr>)\<rparr>"

theorem EstimateEnergyFactor_covers_witness:
  "\<exists>n. EstimateEnergyFactor (cf_energy (sample_config '''')) (estimating_node 31895) (sample_address 1)
         (sample_address 2) '''' 0 = Inr n \<and> 31895 \<le> n"
  by (rule EstimateEnergyFactor_covers [where out = "''00''"])
    (simp_all add: TriggerConstantContract_def estimating_node_def)

definition resource_ok :: "account_resource \<Rightarrow> bool" where
  "resource_ok r \<longleftrightarrow> (\<forall>x \<in> set [ar_free_net_limit r, ar_free_net_used r, ar_net_limit r, ar_net_used r,
     ar_energy_limit r, ar_energy_used r]. 0 \<le> x \<and> x < 2 ^ 60)"

lemma available_ok:
  assumes "resource_ok r"
  shows "0 \<le> AvailableEnergy r \<and> AvailableEnergy r < 2 ^ 60
    \<and> 0 \<le> AvailableBandwidth r \<and> AvailableBandwidth r < 2 ^ 61"
  using assms by (auto simp: resource_ok_def AvailableEnergy_def AvailableBandwidth_def Let_def i64_id in_i64_def)

text \<open>The burn estimate bills exactly what is missing: the energy and the 345 bytes beyond what the
  address can already spend, at the chain's prices, without wrapping; it is never negative and never
  more than the price of the whole transfer.\<close>

theorem BurnCostSun_missing:
  assumes "resource_ok r" and "0 \<le> need" and "need < 2 ^ 31"
    and "0 \<le> cp_energy_fee_sun p" and "cp_energy_fee_sun p < 2 ^ 30"
    and "0 \<le> cp_transaction_fee_sun p" and "cp_transaction_fee_sun p < 2 ^ 30"
  shows "BurnCostSun (Some r) p need =
      max 0 (need - AvailableEnergy r) * cp_energy_fee_sun p
      + max 0 (345 - AvailableBandwidth r) * cp_transaction_fee_sun p
    \<and> 0 \<le> BurnCostSun (Some r) p need \<and> BurnCostSun (Some r) p need \<le> BurnCostSun None p need"
proof -
  let ?e = "max 0 (need - AvailableEnergy r)" and ?b = "max 0 (345 - AvailableBandwidth r)"
  note a = available_ok [OF assms(1)]
  have m: "0 \<le> x * y \<and> x * y < 2 ^ 61" if "0 \<le> x" "x < 2 ^ 31" "0 \<le> y" "y < 2 ^ 30" for x y :: int
    using mult_strict_mono' [of x "2 ^ 31" y "2 ^ 30"] that by simp
  have e: "0 \<le> ?e * cp_energy_fee_sun p \<and> ?e * cp_energy_fee_sun p < 2 ^ 61"
    using a assms by (intro m) auto
  have b: "0 \<le> ?b * cp_transaction_fee_sun p \<and> ?b * cp_transaction_fee_sun p < 2 ^ 61"
    using a assms by (intro m) auto
  have n: "0 \<le> need * cp_energy_fee_sun p \<and> need * cp_energy_fee_sun p < 2 ^ 61"
    using assms by (intro m) auto
  have t: "0 \<le> 345 * cp_transaction_fee_sun p \<and> 345 * cp_transaction_fee_sun p < 2 ^ 61"
    using assms by (intro m) auto
  have eq: "BurnCostSun (Some r) p need = ?e * cp_energy_fee_sun p + ?b * cp_transaction_fee_sun p"
  proof -
    have i: "i64 (need - AvailableEnergy r) = need - AvailableEnergy r"
      "i64 (345 - AvailableBandwidth r) = 345 - AvailableBandwidth r"
      "i64 (?e * cp_energy_fee_sun p) = ?e * cp_energy_fee_sun p"
      "i64 (?b * cp_transaction_fee_sun p) = ?b * cp_transaction_fee_sun p"
      "i64 (?e * cp_energy_fee_sun p + ?b * cp_transaction_fee_sun p)
         = ?e * cp_energy_fee_sun p + ?b * cp_transaction_fee_sun p"
      using a assms(2,3) e b by (auto intro!: i64_id simp: in_i64_def simp del: max_less_iff_conj max.bounded_iff)
    have m: "(if x < 0 then 0 else x) = max 0 x" for x :: int by (simp add: max_def)
    show ?thesis by (simp only: BurnCostSun_def TransferBytes_def Let_def option.case prod.case i m)
  qed
  have none: "BurnCostSun None p need = need * cp_energy_fee_sun p + 345 * cp_transaction_fee_sun p"
    using assms(2,3) n t by (simp add: BurnCostSun_def TransferBytes_def Let_def i64_id in_i64_def)
  have "?e * cp_energy_fee_sun p \<le> need * cp_energy_fee_sun p"
    "?b * cp_transaction_fee_sun p \<le> 345 * cp_transaction_fee_sun p"
    using a assms by (auto intro!: mult_right_mono)
  with e b eq none show ?thesis by simp
qed

theorem BurnCostSun_missing_witness:
  "BurnCostSun (Some zero_resource) \<lparr>cp_energy_fee_sun = 100, cp_transaction_fee_sun = 1000\<rparr> 65000
     = 6845000"
proof -
  have "resource_ok zero_resource" by (simp add: resource_ok_def zero_resource_def)
  from BurnCostSun_missing [OF this, of 65000 "\<lparr>cp_energy_fee_sun = 100, cp_transaction_fee_sun = 1000\<rparr>"]
  show ?thesis by (simp add: zero_resource_def AvailableEnergy_def AvailableBandwidth_def i64_id in_i64_def)
qed

text \<open>A batch is at least one transfer and never above the configured size (ten when it is unset) or
  the configured maximum, and it shrinks to the last hour's use.\<close>

theorem batchSize_bounds:
  "let n = snd (batchSize cfg now p);
       batch = (if pc_batch_txs cfg \<le> 0 then 10 else pc_batch_txs cfg);
       used = ep_last_hour_used (fst (batchSize cfg now p))
   in 1 \<le> n \<and> n \<le> batch \<and> n \<le> (if pc_max_batch_txs cfg \<le> 0 then batch else pc_max_batch_txs cfg)
      \<and> n \<le> (if used \<le> 0 then batch else used)"
  by (simp add: batchSize_def Let_def)

subsection \<open>Instances\<close>

definition rental :: provider where
  "rental =
     \<lparr>p_name = ''p'',
      p_quote = (\<lambda>req. Inr \<lparr>q_provider = ''p'', q_cost_trx = 5, q_billed_units = qr_amount req,
        q_available = 0, q_period = qr_period req\<rparr>),
      p_ensure = (\<lambda>req. Inr (burn_order (or_idempotency_key req)\<lparr>o_provider := ''p'', o_provider_order_id := ''7''\<rparr>)),
      p_poll = (\<lambda>k. Inr (burn_order k\<lparr>o_provider := ''p''\<rparr>)), p_balance = Inr (1000, ''D'')\<rparr>"

interpretation rental: energy_provider rental
  by unfold_locales (auto simp: rental_def)

definition node_with_energy :: "int \<Rightarrow> node_api" where
  "node_with_energy n = down_node\<lparr>na_account_resource := (\<lambda>_. Inr (zero_resource\<lparr>ar_energy_limit := n\<rparr>))\<rparr>"

definition renting_env :: energy_env where
  "renting_env =
     \<lparr>me_cfg = cf_energy (sample_config ''''), me_provs = [(''p'', rental), (''trx_burn'', trxburn 100)],
      me_node = node_with_energy 0, me_now = 0,
      me_rounds = [\<lparr>wr_poll = (\<lambda>k. p_poll rental k), wr_node = node_with_energy 65000, wr_cancelled = False\<rparr>],
      me_fail = (\<lambda>_. False)\<rparr>"

lemma renting_env_ok:
  "RentalOn (me_cfg renting_env)" "provs_ok (me_provs renting_env)" "cache_ok empty_world" "orders_ok empty_world"
  using burn.energy_provider_axioms [of 100] rental.energy_provider_axioms
  by (auto simp: renting_env_def RentalOn_def sample_config_def provs_ok_def cache_ok_def orders_ok_def
      empty_world_def rental_def trxburn_def ProviderTRXBurn_def)

lemma ordered_renting: "orderedNames (me_provs renting_env) = [''p'', ''trx_burn'']"
  by (simp add: orderedNames_def renting_env_def ProviderTRXBurn_def)

lemmas renting_simps = renting_env_def sample_config_def rental_def empty_world_def RentalOn_def
  ProviderTRXBurn_def StateDelegated_def

lemma renting_quote:
  "\<exists>w' q. BestQuote renting_env (acquire_quote renting_env (sample_address 3) 65000 True) empty_world = (w', Inr q)"
  using ordered_renting
  by (simp add: BestQuote_def Let_def acquire_quote_def quoteOne_def renting_simps)

theorem BestQuote_no_burn_witness:
  "\<exists>w' q. BestQuote renting_env (acquire_quote renting_env (sample_address 3) 65000 True) empty_world = (w', Inr q)
     \<and> q_provider q \<noteq> ProviderTRXBurn"
proof -
  from renting_quote obtain w' q where
    q: "BestQuote renting_env (acquire_quote renting_env (sample_address 3) 65000 True) empty_world = (w', Inr q)"
    by blast
  moreover have "qr_exclude_burn (acquire_quote renting_env (sample_address 3) 65000 True)"
    using renting_env_ok(1) by (simp add: acquire_quote_def)
  ultimately show ?thesis
    using BestQuote_no_burn [OF q renting_env_ok(1) _ renting_env_ok(3,2)] by blast
qed

theorem BestQuote_cheapest_witness:
  "\<exists>q. snd (BestQuote renting_env (acquire_quote renting_env (sample_address 3) 65000 False) empty_world) = Inr q
     \<and> q_cost_trx q \<le> 5"
proof -
  let ?req = "acquire_quote renting_env (sample_address 3) 65000 False"
  obtain w' rs where rs: "quote_all renting_env ?req (orderedNames (me_provs renting_env)) empty_world = (w', rs)"
    by (rule prod.exhaust)
  have five: "\<exists>q. (''p'', Inr q) \<in> set rs \<and> q_cost_trx q = 5"
    using rs unfolding ordered_renting
    by (auto simp: quoteOne_def Let_def acquire_quote_def renting_simps trxburn_def split: prod.splits)
  have "case snd (BestQuote renting_env ?req empty_world) of
         Inr q \<Rightarrow> (\<exists>n. (n, Inr q) \<in> set rs)
           \<and> (\<forall>(n, r) \<in> set rs. \<forall>q'. r = Inr q' \<longrightarrow> q_cost_trx q \<le> q_cost_trx q')
       | Inl e \<Rightarrow> err_is e = ErrNoProvider \<and> (\<forall>(n, r) \<in> set rs. \<exists>e. r = Inl e)"
    using BestQuote_cheapest [OF _ _ _ _ rs]
    by (simp add: renting_env_def sample_config_def acquire_quote_def defaultPeriod_def)
  with five show ?thesis by (fastforce split: sum.splits)
qed

lemma renting_rents:
  assumes "quotes w = []" and "energy_orders w = []"
  shows "\<exists>w' out. AcquireRented renting_env purpose (sample_address n) 65000 requestID w = (w', Inr out)"
proof -
  have "\<exists>w0 q. BestQuote renting_env (acquire_quote renting_env (sample_address n) 65000 True) w = (w0, Inr q)"
    using ordered_renting assms(1) by (simp add: BestQuote_def Let_def acquire_quote_def quoteOne_def renting_simps)
  then obtain w0 q where q: "BestQuote renting_env (acquire_quote renting_env (sample_address n) 65000 True) w = (w0, Inr q)"
    by blast
  then have q': "q = \<lparr>q_provider = ''p'', q_cost_trx = 5, q_billed_units = 65000, q_available = 0, q_period = ''1h''\<rparr>"
    "energy_orders w0 = []"
    using ordered_renting BestQuote_frame [OF q] assms
    by (auto simp: BestQuote_def Let_def acquire_quote_def quoteOne_def renting_simps defaultPeriod_def)
  have ex: "(if \<not> RentalOn (me_cfg renting_env) then False else True) = (RentalOn (me_cfg renting_env) \<and> True)" by simp
  show ?thesis
    unfolding AcquireRented_def acquire_def Let_def ex acquire_quote_def [symmetric] q
    by (simp add: q' create_or_take_def Let_def)
      (simp add: renting_simps update_order_def confirmOnChain_def GetAccountResource_def
        availableEnergy_def node_with_energy_def AvailableEnergy_def zero_resource_def i64_id in_i64_def go_div_def
        burn_order_def markDelegated_def)
qed

lemma empty_quotes: "quotes w = [] \<Longrightarrow> cache_ok w" "quotes w = [] \<Longrightarrow> cache_covers w"
  by (simp_all add: cache_ok_def cache_covers_def)

theorem AcquireRented_confirmed_witness:
  "\<exists>w' out. AcquireRented renting_env ''sweep'' (sample_address 3) 65000 ''r1'' empty_world = (w', Inr out)
     \<and> energy_rented renting_env (sample_address 3) 65000 ''r1'' empty_world w' out"
proof -
  have w: "quotes empty_world = []" "energy_orders empty_world = []" by (simp_all add: empty_world_def)
  obtain w' out where
    a: "AcquireRented renting_env ''sweep'' (sample_address 3) 65000 ''r1'' empty_world = (w', Inr out)"
    using renting_rents [OF w] by blast
  from AcquireRented_confirmed [OF a renting_env_ok(1) empty_quotes [OF w(1)] renting_env_ok(2)] a
  show ?thesis by blast
qed

theorem energy_orders_unique_witness:
  "orders_ok (fst (ReconcilePending renting_env empty_world))"
  using energy_orders_unique [OF renting_env_ok(4)] by blast


end
