(* ===== verification/Merchant.thy ===== *)
theory Merchant
  imports Store "HOL-Library.List_Lexorder" "HOL-Library.Char_ord"
begin

text \<open>
  \<open>internal/merchant/merchant.go\<close>: the merchant directory and the signature on requests and callbacks. A
  \<open>map[string]any\<close> is an association list, read with \<^const>\<open>map_of\<close>; keys are sorted bytewise, as
  \<open>sort.Strings\<close> does. Texts are taken to be valid UTF-8, which \<open>json.Marshal\<close> copies above ASCII.
\<close>

section \<open>JSON text\<close>

definition json_char :: "char \<Rightarrow> string" where
  "json_char c =
     (if c = CHR 0x22 then [CHR 0x5C, c]
      else if c = CHR 0x5C then [CHR 0x5C, c]
      else if c = CHR 0x0A then [CHR 0x5C, CHR ''n'']
      else if c = CHR 0x0D then [CHR 0x5C, CHR ''r'']
      else if c = CHR 0x09 then [CHR 0x5C, CHR ''t'']
      else if c = CHR 0x08 then [CHR 0x5C, CHR ''b'']
      else if c = CHR 0x0C then [CHR 0x5C, CHR ''f'']
      else if (of_char c :: nat) < 32 \<or> c \<in> {CHR ''<'', CHR ''>'', CHR ''&''} then
        CHR 0x5C # ''u00'' @ hex_EncodeToString [of_char c]
      else [c])"

definition json_string :: "string \<Rightarrow> string" where
  "json_string s = CHR 0x22 # concat (map json_char s) @ [CHR 0x22]"

fun sep_by :: "string \<Rightarrow> string list \<Rightarrow> string" where
  "sep_by sep [] = []"
| "sep_by sep [x] = x"
| "sep_by sep (x # xs) = x @ sep @ sep_by sep xs"

fun json_Marshal :: "json \<Rightarrow> string" where
  "json_Marshal JNull = ''null''"
| "json_Marshal (JBool b) = (if b then ''true'' else ''false'')"
| "json_Marshal (JNum n) = n"
| "json_Marshal (JStr s) = json_string s"
| "json_Marshal (JArr xs) = ''['' @ sep_by '','' (map json_Marshal xs) @ '']''"
| "json_Marshal (JObj kvs) =
     ''{'' @ sep_by '','' (map (\<lambda>(k, v). json_string k @ '':'' @ v)
        (sort_key fst (map (\<lambda>kv. (fst kv, json_Marshal (snd kv))) kvs))) @ ''}''"

section \<open>The directory\<close>

definition MerchantStatusOn :: int where
  "MerchantStatusOn = 1"

definition merchant_Get :: "bool \<Rightarrow> string \<Rightarrow> world \<Rightarrow> merchant result" where
  "merchant_Get fail merchantID w =
     (if merchantID = '''' then Inl (Err ErrMissingID ''merchant_id is required'')
      else if fail then Inl db_err
      else case take_first (\<lambda>m. m_merchant_id m = merchantID) (merchants w) of
        None \<Rightarrow> Inl (Err ErrNotFound ''merchant not found'')
      | Some m \<Rightarrow> Inr m)"

definition GetEnabled :: "bool \<Rightarrow> string \<Rightarrow> world \<Rightarrow> merchant result" where
  "GetEnabled fail merchantID w =
     (case merchant_Get fail merchantID w of
        Inl e \<Rightarrow> Inl e
      | Inr m \<Rightarrow> if m_status m \<noteq> MerchantStatusOn then Inl (Err ErrDisabled ''merchant disabled'') else Inr m)"

definition MakeAccount :: "string \<Rightarrow> string \<Rightarrow> string" where
  "MakeAccount merchantID uid = merchantID @ ''_'' @ uid"

section \<open>Signatures\<close>

type_synonym params = "(string \<times> json) list"

definition SignField :: string where
  "SignField = ''sign''"

text \<open>The values that decoding with \<open>UseNumber\<close> yields; \<open>None\<close> is a value that is not signed.\<close>

fun valueString :: "json \<Rightarrow> string option" where
  "valueString JNull = None"
| "valueString (JStr s) = (if s = '''' then None else Some s)"
| "valueString (JNum n) = Some n"
| "valueString (JBool b) = Some (if b then ''true'' else ''false'')"
| "valueString v = Some (json_Marshal v)"

definition value_of :: "params \<Rightarrow> string \<Rightarrow> string option" where
  "value_of ps k = (case map_of ps k of None \<Rightarrow> None | Some v \<Rightarrow> valueString v)"

definition String_param :: "params \<Rightarrow> string \<Rightarrow> string" where
  "String_param ps key = (case value_of ps key of None \<Rightarrow> '''' | Some s \<Rightarrow> s)"

definition signed_keys :: "params \<Rightarrow> string list" where
  "signed_keys ps = sorted_list_of_set {k \<in> fst ` set ps. k \<noteq> SignField \<and> value_of ps k \<noteq> None}"

definition sign_text :: "params \<Rightarrow> string \<Rightarrow> string" where
  "sign_text ps secret =
     sep_by ''&'' (map (\<lambda>k. k @ ''='' @ String_param ps k) (signed_keys ps)) @ secret"

definition merchant_Sign :: "params \<Rightarrow> string \<Rightarrow> string" where
  "merchant_Sign ps secret = hex_EncodeToString (sha256 (bytes_of_string (sign_text ps secret)))"

definition Verify :: "params \<Rightarrow> string \<Rightarrow> go_error option" where
  "Verify ps secret =
     (let got = (case map_of ps SignField of Some (JStr s) \<Rightarrow> s | _ \<Rightarrow> '''')
      in if got = '''' then Some (Err ErrBadSign ''bad sign'')
         else if ToLower got \<noteq> merchant_Sign ps secret then Some (Err ErrBadSign ''bad sign'')
         else None)"

text \<open>\<open>json.Unmarshal\<close> into a map fails on anything but an object, and leaves it empty on \<open>null\<close>.\<close>

definition DecodeParams :: "json \<Rightarrow> params result" where
  "DecodeParams body =
     (case body of
        JObj kvs \<Rightarrow> Inr (rev kvs)
      | JNull \<Rightarrow> Inr []
      | _ \<Rightarrow> Inl (errors_new ''json: cannot unmarshal''))"

definition SignedPayload :: "params \<Rightarrow> string \<Rightarrow> params" where
  "SignedPayload payload secret =
     (let out = filter (\<lambda>kv. fst kv \<noteq> SignField) payload
      in (SignField, JStr (merchant_Sign out secret)) # out)"

section \<open>What the signature covers\<close>

lemma signed_keys_cong: "map_of p = map_of q \<Longrightarrow> signed_keys p = signed_keys q"
proof -
  assume eq: "map_of p = map_of q"
  have "fst ` set p = dom (map_of p)" "fst ` set q = dom (map_of q)" by (simp_all add: dom_map_of_conv_image_fst)
  then have "fst ` set p = fst ` set q" using eq by simp
  then show ?thesis by (simp add: signed_keys_def value_of_def eq)
qed

lemma sign_text_cong:
  assumes "\<And>k. k \<noteq> SignField \<Longrightarrow> map_of p k = map_of q k"
  shows "sign_text p secret = sign_text q secret"
proof -
  have val: "value_of p k = value_of q k" if "k \<noteq> SignField" for k using assms [OF that] by (simp add: value_of_def)
  have mem: "k \<in> fst ` set ps \<longleftrightarrow> map_of ps k \<noteq> None" for k and ps :: params
    by (simp add: map_of_eq_None_iff)
  have "k \<in> fst ` set p \<and> k \<noteq> SignField \<and> value_of p k \<noteq> None \<longleftrightarrow> k \<in> fst ` set q \<and> k \<noteq> SignField \<and> value_of q k \<noteq> None" for k
    unfolding mem by (cases "k = SignField") (simp_all add: assms val)
  then have "{k \<in> fst ` set p. k \<noteq> SignField \<and> value_of p k \<noteq> None} = {k \<in> fst ` set q. k \<noteq> SignField \<and> value_of q k \<noteq> None}"
    by (rule Collect_cong)
  then have keys: "signed_keys p = signed_keys q" by (simp only: signed_keys_def)
  have "k \<noteq> SignField" if "k \<in> set (signed_keys q)" for k using that by (simp add: signed_keys_def)
  then have "map (\<lambda>k. k @ ''='' @ String_param p k) (signed_keys q) = map (\<lambda>k. k @ ''='' @ String_param q k) (signed_keys q)"
    using val by (simp add: String_param_def)
  then show ?thesis by (simp only: sign_text_def keys)
qed

lemma sha256_length_hex: "hex_EncodeToString (sha256 m) \<noteq> []"
  using length_hex_EncodeToString [of "sha256 m"] length_sha256 [of m] by (metis length_0_conv mult_is_0 zero_neq_numeral)

text \<open>The signature is a function of what the parameters say, not of how they were written: the order of
  the keys, an old \<open>sign\<close> field and the case of the digits do not matter, and a payload signed with a
  merchant's secret verifies under exactly that signature.\<close>

theorem merchant_signature:
  assumes "\<And>k. k \<noteq> SignField \<Longrightarrow> map_of ps k = map_of (SignedPayload payload secret) k"
    and "map_of ps SignField = Some (JStr sig)"
  shows "Verify (SignedPayload payload secret) secret = None
    \<and> merchant_Sign ps secret = merchant_Sign payload secret
    \<and> (Verify ps secret = None \<longleftrightarrow> ToLower sig = merchant_Sign payload secret)"
proof -
  let ?out = "filter (\<lambda>kv. fst kv \<noteq> SignField) payload"
  have out: "map_of ?out k = map_of payload k" if "k \<noteq> SignField" for k
    using that by (induction payload) auto
  have s1: "merchant_Sign ?out secret = merchant_Sign payload secret"
    using sign_text_cong [of ?out payload secret] out by (simp add: merchant_Sign_def)
  have s2: "merchant_Sign (SignedPayload payload secret) secret = merchant_Sign payload secret"
    using sign_text_cong [of "SignedPayload payload secret" payload secret] out
    by (simp add: merchant_Sign_def SignedPayload_def Let_def)
  have s3: "merchant_Sign ps secret = merchant_Sign payload secret"
    using sign_text_cong [OF assms(1), of secret] s2 by (simp add: merchant_Sign_def)
  have ne: "merchant_Sign payload secret \<noteq> []" by (simp add: merchant_Sign_def sha256_length_hex)
  have low: "ToLower (merchant_Sign payload secret) = merchant_Sign payload secret" by (simp add: merchant_Sign_def)
  have "Verify (SignedPayload payload secret) secret = None"
    using s1 s2 ne low by (simp add: Verify_def SignedPayload_def Let_def)
  moreover have "sig = '''' \<Longrightarrow> ToLower sig \<noteq> merchant_Sign payload secret" using ne by (auto simp: ToLower_def)
  then have "Verify ps secret = None \<longleftrightarrow> ToLower sig = merchant_Sign payload secret"
    using assms(2) s3 by (auto simp: Verify_def)
  ultimately show ?thesis using s3 by blast
qed

theorem merchant_signature_witness:
  "\<exists>s. Verify [(''a'', JStr ''x''), (''uid'', JNum ''7''), (SignField, JStr s)] ''secret'' = None"
proof -
  let ?p = "[(''uid'', JNum ''7''), (''a'', JStr ''x'')]"
  let ?s = "merchant_Sign ?p ''secret''"
  let ?q = "[(''a'', JStr ''x''), (''uid'', JNum ''7''), (SignField, JStr ?s)]"
  have "map_of ?q k = map_of (SignedPayload ?p ''secret'') k" if "k \<noteq> SignField" for k
    using that by (simp add: SignedPayload_def SignField_def Let_def)
  moreover have "map_of ?q SignField = Some (JStr ?s)" by (simp add: SignField_def)
  ultimately have "Verify ?q ''secret'' = None \<longleftrightarrow> ToLower ?s = ?s"
    using merchant_signature [of ?q ?p "''secret''" ?s] by blast
  then show ?thesis by (intro exI [of _ ?s]) (simp add: merchant_Sign_def)
qed

section \<open>What the scheme leaves open\<close>

text \<open>Neither keys nor values are quoted in the signed text, so different parameters share a signature.\<close>

theorem signature_ambiguous:
  "merchant_Sign [(''a'', JStr ''1&b=2'')] secret = merchant_Sign [(''a'', JStr ''1''), (''b'', JStr ''2'')] secret"
proof -
  have "signed_keys [(''a'', JStr ''1&b=2'')] = [''a'']"
    by (simp add: signed_keys_def value_of_def SignField_def Collect_conv_if conj_commute cong: conj_cong)
  moreover have "signed_keys [(''a'', JStr ''1''), (''b'', JStr ''2'')] = [''a'', ''b'']"
  proof -
    have "{k \<in> fst ` set [(''a'', JStr ''1''), (''b'', JStr ''2'')]. k \<noteq> SignField \<and>
        value_of [(''a'', JStr ''1''), (''b'', JStr ''2'')] k \<noteq> None} = set [''a'', ''b'']"
      by (auto simp: value_of_def SignField_def)
    moreover have "sorted_list_of_set (set [''a'', ''b'']) = [''a'', ''b'']"
      by (rule sorted_list_of_set.idem_if_sorted_distinct) (simp_all add: less_eq_char_def)
    ultimately show ?thesis by (simp only: signed_keys_def)
  qed
  ultimately show ?thesis by (simp add: merchant_Sign_def sign_text_def String_param_def value_of_def)
qed

text \<open>The underscore may be in both parts, so two merchants can share an account.\<close>

theorem accounts_collide:
  "MakeAccount ''a'' ''b_c'' = MakeAccount ''a_b'' ''c''"
  by (simp add: MakeAccount_def)

end
