(* ===== verification/Environment.thy ===== *)
theory Environment
  imports Config "HOL-Library.List_Lexorder" "HOL-Library.Char_ord"
begin

text \<open>
  Where the settings come from: the \<open>.env\<close> file (\<open>internal/config/dotenv.go\<close>), the references to
  environment variables inside the parsed yaml document, the check of its sections and \<open>Load\<close>
  (\<open>internal/config/config.go\<close>). The process environment is an association list, a clean absolute path the
  list of its names from the deepest up; the yaml parser and the struct decoder are parameters. White
  space is ASCII white space, as in \<^const>\<open>TrimSpace\<close>.
\<close>

section \<open>Texts\<close>

text \<open>\<open>%q\<close>: escapes below and at 127, everything else (valid, printable UTF-8) as it is.\<close>

definition quote_char :: "char \<Rightarrow> string" where
  "quote_char c =
     (let n = (of_char c :: nat)
      in if n = 34 \<or> n = 92 then [CHR 0x5C, c]
         else if n = 7 then [CHR 0x5C, CHR ''a'']
         else if n = 8 then [CHR 0x5C, CHR ''b'']
         else if n = 12 then [CHR 0x5C, CHR ''f'']
         else if n = 10 then [CHR 0x5C, CHR ''n'']
         else if n = 13 then [CHR 0x5C, CHR ''r'']
         else if n = 9 then [CHR 0x5C, CHR ''t'']
         else if n = 11 then [CHR 0x5C, CHR ''v'']
         else if n < 32 \<or> n = 127 then CHR 0x5C # CHR ''x'' # hex_EncodeToString [of_char c]
         else [c])"

definition go_quote :: "string \<Rightarrow> string" where
  "go_quote s = CHR 0x22 # concat (map quote_char s) @ [CHR 0x22]"

text \<open>\<open>strings.Cut\<close> at a character.\<close>

definition str_cut :: "char \<Rightarrow> string \<Rightarrow> (string \<times> string) option" where
  "str_cut c s =
     (let a = takeWhile (\<lambda>x. x \<noteq> c) s
      in if length a < length s then Some (a, drop (Suc (length a)) s) else None)"

section \<open>The .env file\<close>

type_synonym environ = "(string \<times> string) list"

text \<open>The replacer, left to right; a lone backslash stays.\<close>

fun unescape :: "string \<Rightarrow> string" where
  "unescape [] = []"
| "unescape [c] = [c]"
| "unescape (c # d # r) =
     (if c \<noteq> CHR 0x5C then c # unescape (d # r)
      else if d = CHR ''n'' then CHR 0x0A # unescape r
      else if d = CHR 0x22 then CHR 0x22 # unescape r
      else if d = CHR 0x5C then CHR 0x5C # unescape r
      else c # unescape (d # r))"

text \<open>\<open>pre\<close> is what the loop has passed, last character first.\<close>

fun strip_from :: "string \<Rightarrow> string \<Rightarrow> string" where
  "strip_from pre [] = rev pre"
| "strip_from pre (r # v) =
     (if r \<noteq> CHR ''#'' then strip_from (r # pre) v
      else (case pre of
          [] \<Rightarrow> ''''
        | prev # _ \<Rightarrow> if is_space prev then TrimSpace (rev pre) else strip_from (r # pre) v))"

definition stripInlineComment :: "string \<Rightarrow> string" where
  "stripInlineComment v = strip_from '''' v"

definition dotenv_value :: "string \<Rightarrow> string" where
  "dotenv_value v =
     (if 2 \<le> length v \<and> HasPrefix v [CHR 0x22] \<and> HasSuffix v [CHR 0x22] then
        unescape (take (length v - 2) (drop 1 v))
      else if 2 \<le> length v \<and> HasPrefix v [CHR 0x27] \<and> HasSuffix v [CHR 0x27] then
        take (length v - 2) (drop 1 v)
      else stripInlineComment v)"

definition parseDotEnvLine :: "string \<Rightarrow> (string \<times> string) option" where
  "parseDotEnvLine line0 =
     (let line = TrimSpace line0
      in if line = '''' \<or> HasPrefix line ''#'' then None
         else (case str_cut (CHR ''='') (TrimPrefix line ''export '') of
             None \<Rightarrow> None
           | Some (k0, v0) \<Rightarrow>
               let k = TrimSpace k0
               in if k = '''' then None else Some (k, dotenv_value (TrimSpace v0))))"

text \<open>
  \<open>bufio.Scanner\<close> over lines: a trailing carriage return is dropped, and a line that fills the 64 KiB
  buffer ends the scan with an error.
\<close>

definition drop_cr :: "string \<Rightarrow> string" where
  "drop_cr l = (if l \<noteq> '''' \<and> last l = CHR 0x0D then butlast l else l)"

definition scan_lines :: "string \<Rightarrow> string list" where
  "scan_lines s =
     (let ls = split_on (CHR 0x0A) s in if last ls = '''' then butlast ls else ls)"

definition too_long :: "string \<Rightarrow> bool" where
  "too_long l \<longleftrightarrow> 65536 \<le> length l"

definition Setenv :: "string \<Rightarrow> string \<Rightarrow> environ \<Rightarrow> environ result" where
  "Setenv k v env =
     (if k = '''' \<or> CHR ''='' \<in> set k \<or> CHR 0x00 \<in> set k \<or> CHR 0x00 \<in> set v
      then Inl (errors_new ''setenv: invalid argument'')
      else Inr (AList.update k v env))"

fun load_lines :: "string list \<Rightarrow> environ \<Rightarrow> environ \<times> go_error option" where
  "load_lines [] env = (env, None)"
| "load_lines (l # ls) env =
     (if too_long l then (env, Some (errors_new ''bufio.Scanner: token too long''))
      else (case parseDotEnvLine (drop_cr l) of
          None \<Rightarrow> load_lines ls env
        | Some (key, v) \<Rightarrow>
            if map_of env key \<noteq> None then load_lines ls env
            else (case Setenv key v env of
                Inl e \<Rightarrow> (env, Some e)
              | Inr env' \<Rightarrow> load_lines ls env')))"

text \<open>What opening a file gives: nothing there, an error, or its text.\<close>

datatype file_read = NoFile | FileError string | FileText string

definition LoadDotEnv :: "file_read \<Rightarrow> environ \<Rightarrow> environ \<times> go_error option" where
  "LoadDotEnv f env =
     (case f of
        NoFile \<Rightarrow> (env, None)
      | FileError m \<Rightarrow> (env, Some (errors_new m))
      | FileText s \<Rightarrow> load_lines (scan_lines s) env)"

subsection \<open>Where it is\<close>

type_synonym dir_path = "string list"

definition path_string :: "dir_path \<Rightarrow> string" where
  "path_string d = concat (map (\<lambda>n. CHR ''/'' # n) (rev d))"

fun find_up :: "(dir_path \<Rightarrow> bool) \<Rightarrow> string \<Rightarrow> dir_path \<Rightarrow> dir_path option" where
  "find_up exists name [] = (if exists [name] then Some [name] else None)"
| "find_up exists name (d # parent) =
     (if exists (name # d # parent) then Some (name # d # parent) else find_up exists name parent)"

text \<open>\<open>None\<close> stands for the empty \<open>dir\<close>: the working directory, when there is one.\<close>

record os_env =
  os_getwd :: "dir_path option"
  os_stat :: "dir_path \<Rightarrow> bool"
  os_read :: "string \<Rightarrow> file_read"
  os_environ :: environ

definition FindUp :: "os_env \<Rightarrow> dir_path option \<Rightarrow> string \<Rightarrow> dir_path option" where
  "FindUp os dir name =
     (case (case dir of Some d \<Rightarrow> Some d | None \<Rightarrow> os_getwd os) of
        None \<Rightarrow> None
      | Some d \<Rightarrow> find_up (os_stat os) name d)"

text \<open>\<open>start\<close> is the directory of the configuration file's absolute path, when that is known.\<close>

definition loadEnvFileFor :: "os_env \<Rightarrow> dir_path option \<Rightarrow> environ \<times> go_error option" where
  "loadEnvFileFor os start =
     (let env = os_environ os;
          explicit = (case map_of env ''ENV_FILE'' of Some v \<Rightarrow> v | None \<Rightarrow> '''')
      in if explicit \<noteq> '''' then LoadDotEnv (os_read os explicit) env
         else (case FindUp os start ''.env'' of
             Some p \<Rightarrow> LoadDotEnv (os_read os (path_string p)) env
           | None \<Rightarrow>
               (case FindUp os None ''.env'' of
                  Some p \<Rightarrow> LoadDotEnv (os_read os (path_string p)) env
                | None \<Rightarrow> (env, None))))"

section \<open>References to the environment\<close>

definition name_start :: "char \<Rightarrow> bool" where
  "name_start c \<longleftrightarrow> (let n = (of_char c :: nat) in 65 \<le> n \<and> n \<le> 90 \<or> 97 \<le> n \<and> n \<le> 122 \<or> n = 95)"

definition name_char :: "char \<Rightarrow> bool" where
  "name_char c \<longleftrightarrow> name_start c \<or> is_digit c"

text \<open>
  \<open>envPattern\<close> at the head of a text: the name, the default when there is one, and what follows the closing
  brace. A name cannot go past the brace or the colon, so the greedy match is the only one.
\<close>

definition match_name :: "string \<Rightarrow> (string \<times> string) option" where
  "match_name s =
     (case s of
        c # d # r \<Rightarrow>
          if c = CHR ''$'' \<and> d = CHR ''{'' then
            (let name = takeWhile name_char r
             in if name \<noteq> '''' \<and> name_start (hd name) then Some (name, drop (length name) r) else None)
          else None
      | _ \<Rightarrow> None)"

definition match_ref :: "string \<Rightarrow> (string \<times> string option \<times> string) option" where
  "match_ref s =
     (case match_name s of
        None \<Rightarrow> None
      | Some (name, t) \<Rightarrow>
          if HasPrefix t ''}'' then Some (name, None, drop 1 t)
          else if HasPrefix t '':-'' then
            (case str_cut (CHR ''}'') (drop 2 t) of
               None \<Rightarrow> None
             | Some (dflt, rest) \<Rightarrow> Some (name, Some dflt, rest))
          else None)"

definition ref_value :: "environ \<Rightarrow> string \<Rightarrow> string option \<Rightarrow> string" where
  "ref_value env name dflt =
     (case dflt of
        Some d \<Rightarrow> (case map_of env name of None \<Rightarrow> d | Some v \<Rightarrow> if v = '''' then d else v)
      | None \<Rightarrow> (case map_of env name of None \<Rightarrow> '''' | Some v \<Rightarrow> v))"

lemma str_cut_length: "str_cut c s = Some (a, b) \<Longrightarrow> length b < length s"
  by (auto simp: str_cut_def Let_def split: if_splits)

lemma match_name_length: "match_name s = Some (name, t) \<Longrightarrow> length t < length s"
  by (auto simp: match_name_def Let_def split: list.splits if_splits)

lemma match_ref_length:
  assumes "match_ref s = Some (name, dflt, rest)"
  shows "length rest < length s"
proof -
  obtain t where t: "match_name s = Some (name, t)" "length rest \<le> length t"
    using assms str_cut_length
    by (fastforce simp: match_ref_def split: option.splits if_splits)
  then show ?thesis using match_name_length [OF t(1)] by simp
qed

function expandEnvString :: "environ \<Rightarrow> string \<Rightarrow> string" where
  "expandEnvString env s =
     (case s of
        [] \<Rightarrow> []
      | c # r \<Rightarrow>
          (case match_ref s of
             None \<Rightarrow> c # expandEnvString env r
           | Some (name, dflt, rest) \<Rightarrow> ref_value env name dflt @ expandEnvString env rest))"
  by pat_completeness auto

termination
  by (relation "measure (length \<circ> snd)") (auto dest: match_ref_length)

declare expandEnvString.simps [simp del]

section \<open>The document\<close>

datatype yaml_kind = DocumentNode | SequenceNode | MappingNode | ScalarNode | AliasNode

text \<open>\<open>yn_style\<close> is the bit set of yaml.v3: 2 double quoted, 4 single quoted.\<close>

datatype yaml_node =
  Node (yn_kind: yaml_kind) (yn_style: nat) (yn_tag: string) (yn_value: string) (yn_content: "yaml_node list")

definition expand_scalar :: "environ \<Rightarrow> nat \<Rightarrow> string \<Rightarrow> string \<Rightarrow> nat \<times> string \<times> string" where
  "expand_scalar env style tag val =
     (let v = expandEnvString env val
      in if v = val then (style, tag, val)
         else if style = 2 \<or> style = 4 then (style, ''!!str'', v)
         else (0, '''', v))"

fun expandEnvNode :: "environ \<Rightarrow> yaml_node \<Rightarrow> yaml_node" where
  "expandEnvNode env (Node kind style tag val content) =
     (let (style', tag', val') =
            (if kind = ScalarNode then expand_scalar env style tag val else (style, tag, val))
      in Node kind style' tag' val' (map (expandEnvNode env) content))"

definition configSections :: "string list" where
  "configSections =
     [''env'', ''network'', ''log'', ''mysql_server'', ''redis_server'', ''api_server'', ''sign_server'', ''wallet'',
      ''sweep_server'', ''bloom'', ''scanner_server'', ''deposit'', ''withdraw_server'', ''energy'', ''notify'']"

fun join_with :: "string \<Rightarrow> string list \<Rightarrow> string" where
  "join_with sep [] = ''''"
| "join_with sep [s] = s"
| "join_with sep (s # ss) = s @ sep @ join_with sep ss"

fun section_keys :: "yaml_node list \<Rightarrow> string list" where
  "section_keys (k # v # r) = yn_value k # section_keys r"
| "section_keys _ = []"

definition sortedKeys :: "string list \<Rightarrow> string list" where
  "sortedKeys m = sort m"

definition check_mapping :: "yaml_node \<Rightarrow> go_error option" where
  "check_mapping n =
     (if yn_kind n \<noteq> MappingNode then None
      else (case find (\<lambda>k. k \<notin> set configSections) (section_keys (yn_content n)) of
          None \<Rightarrow> None
        | Some key \<Rightarrow> Some (errors_new (''unknown section '' @ go_quote key @ '' (known sections: '' @
            join_with '', '' (sortedKeys configSections) @ '')''))))"

definition checkSections :: "yaml_node \<Rightarrow> go_error option" where
  "checkSections doc =
     (if yn_kind doc = DocumentNode then
        (case yn_content doc of [] \<Rightarrow> None | n # _ \<Rightarrow> check_mapping n)
      else check_mapping doc)"

section \<open>Loading\<close>

text \<open>\<open>yamlErrLine\<close>: the first \<open>line <digits>:\<close> of the parser's message.\<close>

fun err_line :: "string \<Rightarrow> string option" where
  "err_line [] = None"
| "err_line (c # r) =
     (let t = drop 5 (c # r); ds = takeWhile is_digit t
      in if HasPrefix (c # r) ''line '' \<and> ds \<noteq> '''' \<and> HasPrefix (drop (length ds) t) '':'' then Some ds
         else err_line r)"

definition sourceHint :: "string \<Rightarrow> string \<Rightarrow> string" where
  "sourceHint raw err =
     (case err_line err of
        None \<Rightarrow> ''''
      | Some ds \<Rightarrow>
          (case ParseInt ds of
             None \<Rightarrow> ''''
           | Some n \<Rightarrow>
               let ls = split_on (CHR 0x0A) raw
               in if n < 1 \<or> int (length ls) < n then ''''
                  else '' (line '' @ big_String n @ '': '' @ go_quote (ls ! nat (n - 1)) @ '')''))"

text \<open>An empty file parses to no node (\<open>doc.Kind == 0\<close>).\<close>

record yaml_lib =
  yl_parse :: "string \<Rightarrow> string + yaml_node option"
  yl_decode :: "yaml_node \<Rightarrow> string + config"

definition load_document :: "yaml_lib \<Rightarrow> environ \<Rightarrow> string \<Rightarrow> string \<Rightarrow> config result" where
  "load_document y env path raw =
     (case yl_parse y raw of
        Inl m \<Rightarrow> Inl (errors_new (''parse config '' @ path @ '': '' @ m @ sourceHint raw m))
      | Inr None \<Rightarrow> Inl (errors_new (''parse config '' @ path @ '': file is empty''))
      | Inr (Some doc) \<Rightarrow>
          (case checkSections doc of
             Some e \<Rightarrow> Inl (wrap_err (''config '' @ path @ '': '') e)
           | None \<Rightarrow>
               (case yl_decode y (expandEnvNode env doc) of
                  Inl m \<Rightarrow> Inl (errors_new (''decode config '' @ path @ '': '' @ m))
                | Inr c0 \<Rightarrow>
                    let c = applyDefaults c0
                    in (case validate c of Some e \<Rightarrow> Inl e | None \<Rightarrow> Inr c))))"

definition Load :: "yaml_lib \<Rightarrow> os_env \<Rightarrow> dir_path option \<Rightarrow> string \<Rightarrow> environ \<times> config result" where
  "Load y os start path =
     (case loadEnvFileFor os start of
        (env, Some e) \<Rightarrow> (env, Inl (wrap_err ''load env file: '' e))
      | (env, None) \<Rightarrow>
          (env, case os_read os path of
             NoFile \<Rightarrow> Inl (errors_new (''read config: open '' @ path @ '': no such file or directory''))
           | FileError m \<Rightarrow> Inl (errors_new (''read config: '' @ m))
           | FileText raw \<Rightarrow> load_document y env path raw))"

section \<open>What a .env file sets\<close>

definition dotenv_entries :: "string list \<Rightarrow> (string \<times> string) list" where
  "dotenv_entries ls = List.map_filter (\<lambda>l. parseDotEnvLine (drop_cr l)) ls"

lemma map_of_Setenv: "Setenv k v env = Inr env' \<Longrightarrow> map_of env' = (map_of env)(k \<mapsto> v)"
  by (auto simp: Setenv_def update_conv split: if_splits)

lemma load_lines_entries:
  "load_lines ls env = (env', None) \<Longrightarrow> map_of env' = map_of (dotenv_entries ls) ++ map_of env"
proof (induction ls env rule: load_lines.induct)
  case (1 env)
  then show ?case by (simp add: dotenv_entries_def map_filter_simps)
next
  case (2 l ls env)
  show ?case
  proof (cases "parseDotEnvLine (drop_cr l)")
    case None
    with 2 show ?thesis by (simp add: dotenv_entries_def map_filter_simps split: if_splits)
  next
    case (Some kv)
    obtain k v where kv: "kv = (k, v)" by fastforce
    show ?thesis
    proof (cases "map_of env k")
      case None
      then obtain e where e: "Setenv k v env = Inr e" "load_lines ls e = (env', None)"
        using 2(4) Some kv by (auto split: if_splits sum.splits)
      have "map_of env' = map_of (dotenv_entries ls) ++ map_of e"
        using 2 Some kv None e by (auto split: if_splits)
      then show ?thesis
        using Some kv map_of_Setenv [OF e(1)] None
        by (auto simp: dotenv_entries_def map_filter_simps map_add_def fun_eq_iff split: option.splits)
    next
      case (Some x)
      then have "load_lines ls env = (env', None)"
        using 2(4) \<open>parseDotEnvLine (drop_cr l) = Some kv\<close> kv by (auto split: if_splits)
      then have "map_of env' = map_of (dotenv_entries ls) ++ map_of env"
        using 2 \<open>parseDotEnvLine (drop_cr l) = Some kv\<close> kv Some by (auto split: if_splits)
      then show ?thesis
        using \<open>parseDotEnvLine (drop_cr l) = Some kv\<close> kv Some
        by (auto simp: dotenv_entries_def map_filter_simps map_add_def fun_eq_iff split: option.splits)
    qed
  qed
qed

lemma load_lines_keeps: "load_lines ls env = (env', r) \<Longrightarrow> map_of env \<subseteq>\<^sub>m map_of env'"
proof (induction ls arbitrary: env)
  case (Cons l ls)
  show ?case
  proof (cases "\<exists>k v e. parseDotEnvLine (drop_cr l) = Some (k, v) \<and> \<not> too_long l \<and> map_of env k = None \<and>
      Setenv k v env = Inr e")
    case True
    then obtain k v e where *: "parseDotEnvLine (drop_cr l) = Some (k, v)" "\<not> too_long l" "map_of env k = None"
      "Setenv k v env = Inr e" by blast
    then have "map_of e \<subseteq>\<^sub>m map_of env'" using Cons by auto
    moreover have "map_of env \<subseteq>\<^sub>m map_of e"
      using map_of_Setenv [OF *(4)] *(3) by (auto simp: map_le_def)
    ultimately show ?thesis by (rule map_le_trans [rotated])
  next
    case False
    then have "env' = env \<or> load_lines ls env = (env', r) \<and> \<not> too_long l"
      using Cons.prems by (auto split: if_splits option.splits sum.splits)
    then show ?thesis using Cons.IH by auto
  qed
qed auto

text \<open>Whatever is in the file, a variable of the process keeps its value.\<close>

lemma LoadDotEnv_keeps: "LoadDotEnv f env = (env', r) \<Longrightarrow> map_of env \<subseteq>\<^sub>m map_of env'"
  by (auto simp: LoadDotEnv_def load_lines_keeps split: file_read.splits)

subsection \<open>Writing one\<close>

definition escape_char :: "char \<Rightarrow> string" where
  "escape_char c =
     (if c = CHR 0x0A then [CHR 0x5C, CHR ''n'']
      else if c = CHR 0x22 \<or> c = CHR 0x5C then [CHR 0x5C, c]
      else [c])"

definition render_entry :: "string \<times> string \<Rightarrow> string" where
  "render_entry kv = fst kv @ ''='' @ CHR 0x22 # concat (map escape_char (snd kv)) @ [CHR 0x22]"

definition entry_ok :: "string \<times> string \<Rightarrow> bool" where
  "entry_ok kv \<longleftrightarrow> fst kv \<noteq> '''' \<and> list_all name_char (fst kv) \<and> CHR 0x00 \<notin> set (snd kv) \<and>
     length (render_entry kv) < 65536"

lemma unescape_escape: "unescape (concat (map escape_char v)) = v"
proof (induction v)
  case (Cons c v)
  have plain: "unescape (c # s) = c # unescape s" if "c \<noteq> CHR 0x5C" for s
    using that by (cases s) auto
  show ?case
    using Cons plain by (auto simp: escape_char_def)
qed simp

lemma name_char_code:
  "name_char c \<Longrightarrow> \<not> is_space c \<and> c \<noteq> CHR ''='' \<and> c \<noteq> CHR ''#'' \<and> c \<noteq> CHR 0x0A \<and> c \<noteq> CHR 0x00 \<and> c \<noteq> CHR 0x0D"
  by (auto simp: name_char_def name_start_def is_digit_def is_space_def Let_def)

lemma TrimSpace_ends: "s \<noteq> [] \<Longrightarrow> \<not> is_space (hd s) \<Longrightarrow> \<not> is_space (last s) \<Longrightarrow> TrimSpace s = s"
proof -
  assume s: "s \<noteq> []" "\<not> is_space (hd s)" "\<not> is_space (last s)"
  then have "dropWhile is_space s = s" by (cases s) auto
  moreover have "dropWhile is_space (rev s) = rev s" using s by (cases s rule: rev_cases) auto
  ultimately show ?thesis by (simp add: TrimSpace_def)
qed

lemma str_cut_append: "c \<notin> set a \<Longrightarrow> str_cut c (a @ c # b) = Some (a, b)"
proof -
  assume c: "c \<notin> set a"
  then have "takeWhile (\<lambda>x. x \<noteq> c) (a @ c # b) = a" by (induction a) auto
  then show ?thesis by (simp add: str_cut_def Let_def)
qed

lemma split_on_lines:
  "(\<And>l. l \<in> set ls \<Longrightarrow> c \<notin> set l) \<Longrightarrow> split_on c (concat (map (\<lambda>l. l @ [c]) ls)) = ls @ [[]]"
  by (induction ls) (simp_all add: split_on_append)

lemma escape_no_newline: "CHR 0x0A \<notin> set (concat (map escape_char v))"
  by (auto simp: escape_char_def)

lemma not_export:
  assumes "list_all name_char k"
  shows "\<not> HasPrefix (k @ ''='' @ r) ''export ''"
proof
  assume "HasPrefix (k @ ''='' @ r) ''export ''"
  then obtain s where s: "k @ ''='' @ r = ''export '' @ s"
    by (metis HasPrefix_def append_take_drop_id)
  have eq: "takeWhile (\<lambda>c. c \<noteq> CHR ''='') (k @ ''='' @ r) = k"
    using assms name_char_code by (induction k) auto
  have "takeWhile (\<lambda>c. c \<noteq> CHR ''='') (''export '' @ s) = k" using eq unfolding s .
  moreover have "CHR '' '' \<in> set (takeWhile (\<lambda>c. c \<noteq> CHR ''='') (''export '' @ s))" by simp
  ultimately have "CHR '' '' \<in> set k" by metis
  then have "name_char (CHR '' '')" using assms by (simp add: list_all_iff)
  then show False by (simp add: name_char_def name_start_def is_digit_def)
qed

lemma dotenv_value_quoted: "dotenv_value (CHR 0x22 # e @ [CHR 0x22]) = unescape e"
  by (simp add: dotenv_value_def HasPrefix_def HasSuffix_def)

lemma parse_render:
  assumes "entry_ok kv"
  shows "parseDotEnvLine (drop_cr (render_entry kv)) = Some kv"
proof -
  obtain k v where kv: "kv = (k, v)" by fastforce
  define body where "body = CHR 0x22 # concat (map escape_char v) @ [CHR 0x22]"
  have line: "render_entry kv = k @ ''='' @ body" by (simp add: render_entry_def kv body_def)
  have k: "k \<noteq> []" "list_all name_char k" using assms by (auto simp: entry_ok_def kv)
  have hd: "name_char (hd k)" "name_char (last k)" using k by (auto simp: list_all_iff)
  have quote: "\<not> is_space (CHR 0x22)" by (simp add: is_space_def)
  have "drop_cr (render_entry kv) = render_entry kv" by (simp add: drop_cr_def line body_def)
  moreover have "TrimSpace (render_entry kv) = render_entry kv"
    by (rule TrimSpace_ends) (use k hd name_char_code quote in \<open>auto simp: line body_def\<close>)
  moreover have "\<not> HasPrefix (render_entry kv) ''#''"
    using k hd name_char_code by (cases k) (auto simp: line HasPrefix_def)
  moreover have "TrimPrefix (render_entry kv) ''export '' = render_entry kv"
    using not_export [OF k(2)] by (simp add: TrimPrefix_def line)
  moreover have "str_cut (CHR ''='') (render_entry kv) = Some (k, body)"
    unfolding line append_Cons append_Nil
    by (rule str_cut_append) (use k name_char_code in \<open>auto simp: list_all_iff\<close>)
  moreover have "TrimSpace k = k"
    by (rule TrimSpace_ends) (use k hd name_char_code in auto)
  moreover have "TrimSpace body = body"
    by (rule TrimSpace_ends) (use quote in \<open>auto simp: body_def\<close>)
  moreover have "dotenv_value body = v"
    unfolding body_def by (simp add: dotenv_value_quoted unescape_escape)
  moreover have "render_entry kv \<noteq> []" by (simp add: line)
  ultimately show ?thesis
    using k by (simp add: parseDotEnvLine_def Let_def kv)
qed

lemma scan_render:
  assumes "list_all entry_ok kvs"
  shows "scan_lines (concat (map (\<lambda>kv. render_entry kv @ [CHR 0x0A]) kvs)) = map render_entry kvs"
proof -
  have "CHR 0x0A \<notin> set (render_entry kv)" if "kv \<in> set kvs" for kv
    using assms that escape_no_newline name_char_code
    by (fastforce simp: list_all_iff entry_ok_def render_entry_def)
  then have "split_on (CHR 0x0A) (concat (map (\<lambda>l. l @ [CHR 0x0A]) (map render_entry kvs))) = map render_entry kvs @ [[]]"
    by (intro split_on_lines) auto
  then show ?thesis by (simp add: scan_lines_def comp_def)
qed

lemma load_render:
  "list_all entry_ok kvs \<Longrightarrow> \<exists>env'. load_lines (map render_entry kvs) env = (env', None)"
proof (induction kvs arbitrary: env)
  case (Cons kv kvs)
  obtain k v where kv: "kv = (k, v)" by fastforce
  have ok: "entry_ok kv" using Cons.prems by simp
  have "k \<noteq> [] \<and> CHR ''='' \<notin> set k \<and> CHR 0x00 \<notin> set k \<and> CHR 0x00 \<notin> set v"
    using ok name_char_code by (auto simp: entry_ok_def kv list_all_iff)
  then have set: "Setenv k v env = Inr (AList.update k v env)" by (simp add: Setenv_def)
  have short: "\<not> too_long (render_entry kv)" using ok by (simp add: too_long_def entry_ok_def)
  show ?case
    using Cons.IH Cons.prems parse_render [OF ok] short set by (auto simp: kv split: option.splits)
qed simp

lemma entries_render: "list_all entry_ok kvs \<Longrightarrow> dotenv_entries (map render_entry kvs) = kvs"
  by (induction kvs) (simp_all add: dotenv_entries_def map_filter_simps parse_render)

text \<open>C37. A variable written to a .env file in double quotes, with quotes, backslashes and newlines escaped,
  is read back with exactly its value, whatever other bytes it holds; a variable the process already has
  keeps its own value, and of two lines for one name the first counts.\<close>

theorem dotenv_roundtrip:
  assumes "list_all entry_ok kvs"
  shows "\<exists>env'. LoadDotEnv (FileText (concat (map (\<lambda>kv. render_entry kv @ [CHR 0x0A]) kvs))) env = (env', None) \<and>
    map_of env' = map_of kvs ++ map_of env"
proof -
  obtain env' where e: "load_lines (map render_entry kvs) env = (env', None)"
    using load_render [OF assms] by blast
  then have "map_of env' = map_of kvs ++ map_of env"
    using load_lines_entries [OF e] by (simp add: entries_render [OF assms])
  then show ?thesis using e by (simp add: LoadDotEnv_def scan_render [OF assms])
qed

theorem dotenv_roundtrip_witness:
  "\<exists>env'. LoadDotEnv (FileText (concat (map (\<lambda>kv. render_entry kv @ [CHR 0x0A])
      [(''SIGN_TOKEN'', ''a b#'' @ [CHR 0x22, CHR 0x5C, CHR 0x0A]), (''MODE'', ''file'')]))) [(''MODE'', ''process'')] = (env', None) \<and>
    map_of env' ''MODE'' = Some ''process'' \<and>
    map_of env' ''SIGN_TOKEN'' = Some (''a b#'' @ [CHR 0x22, CHR 0x5C, CHR 0x0A])"
proof -
  have "list_all entry_ok [(''SIGN_TOKEN'', ''a b#'' @ [CHR 0x22, CHR 0x5C, CHR 0x0A]), (''MODE'', ''file'')]"
    by (simp add: entry_ok_def render_entry_def escape_char_def name_char_def name_start_def is_digit_def Let_def)
  from dotenv_roundtrip [OF this, of "[(''MODE'', ''process'')]"] show ?thesis
    by (auto simp: map_add_def)
qed

section \<open>What a reference stands for\<close>

text \<open>A text as a person reads it: literal pieces and references, each standing for a value.\<close>

datatype piece = Lit string | Ref string "string option"

fun piece_text :: "piece \<Rightarrow> string" where
  "piece_text (Lit s) = s"
| "piece_text (Ref name None) = ''${'' @ name @ ''}''"
| "piece_text (Ref name (Some d)) = ''${'' @ name @ '':-'' @ d @ ''}''"

text \<open>
  What the pieces stand for, by the rules of the shell: a variable holds its first binding, and nothing
  when it has none; a default steps in when that is empty.
\<close>

definition held :: "environ \<Rightarrow> string \<Rightarrow> string" where
  "held env name = concat (take 1 (map snd (filter (\<lambda>b. fst b = name) env)))"

fun piece_value :: "environ \<Rightarrow> piece \<Rightarrow> string" where
  "piece_value env (Lit s) = s"
| "piece_value env (Ref name None) = held env name"
| "piece_value env (Ref name (Some d)) = (if held env name \<noteq> '''' then held env name else d)"

lemma held_map_of: "held env name = (case map_of env name of None \<Rightarrow> '''' | Some v \<Rightarrow> v)"
  by (induction env) (auto simp: held_def)

lemma ref_value_piece: "ref_value env name dflt = piece_value env (Ref name dflt)"
  by (cases dflt) (auto simp: ref_value_def held_map_of split: option.split)

fun piece_ok :: "piece \<Rightarrow> bool" where
  "piece_ok (Lit s) \<longleftrightarrow> CHR ''$'' \<notin> set s"
| "piece_ok (Ref name dflt) \<longleftrightarrow> name \<noteq> '''' \<and> name_start (hd name) \<and> list_all name_char name \<and>
     (case dflt of None \<Rightarrow> True | Some d \<Rightarrow> CHR ''}'' \<notin> set d)"

lemma expand_Nil [simp]: "expandEnvString env [] = []"
  by (simp add: expandEnvString.simps)

lemma expand_plain: "CHR ''$'' \<noteq> c \<Longrightarrow> expandEnvString env (c # s) = c # expandEnvString env s"
  by (subst expandEnvString.simps) (auto simp: match_ref_def match_name_def split: list.split)

lemma expand_lit: "CHR ''$'' \<notin> set l \<Longrightarrow> expandEnvString env (l @ s) = l @ expandEnvString env s"
  by (induction l) (simp_all add: expand_plain)

lemma takeWhile_name:
  "list_all name_char name \<Longrightarrow> \<not> name_char c \<Longrightarrow> takeWhile name_char (name @ c # s) = name"
  by (induction name) auto

lemma match_name_ref:
  assumes "name \<noteq> ''''" and "name_start (hd name)" and "list_all name_char name" and "\<not> name_char c"
  shows "match_name (''${'' @ name @ c # s) = Some (name, c # s)"
  using assms takeWhile_name [OF assms(3,4)] by (simp add: match_name_def)

lemma not_name_char: "\<not> name_char (CHR ''}'')" "\<not> name_char (CHR '':'')"
  by (simp_all add: name_char_def name_start_def is_digit_def)

lemma match_ref_piece:
  assumes "piece_ok (Ref name dflt)"
  shows "match_ref (piece_text (Ref name dflt) @ s) = Some (name, dflt, s)"
proof (cases dflt)
  case None
  have "match_name (''${'' @ name @ CHR ''}'' # s) = Some (name, CHR ''}'' # s)"
    by (rule match_name_ref) (use assms not_name_char in auto)
  then show ?thesis by (simp add: match_ref_def None HasPrefix_def)
next
  case (Some d)
  have "match_name (''${'' @ name @ CHR '':'' # CHR ''-'' # d @ CHR ''}'' # s)
      = Some (name, CHR '':'' # CHR ''-'' # d @ CHR ''}'' # s)"
    by (rule match_name_ref) (use assms not_name_char in auto)
  moreover have "str_cut (CHR ''}'') (d @ CHR ''}'' # s) = Some (d, s)"
    by (rule str_cut_append) (use assms Some in simp)
  ultimately show ?thesis by (simp add: match_ref_def Some HasPrefix_def)
qed

lemma expand_ref:
  assumes "piece_ok (Ref name dflt)"
  shows "expandEnvString env (piece_text (Ref name dflt) @ s) = piece_value env (Ref name dflt) @ expandEnvString env s"
proof -
  obtain c r where cr: "piece_text (Ref name dflt) @ s = c # r"
    by (cases dflt) auto
  show ?thesis
    using match_ref_piece [OF assms, of s] unfolding cr
    by (subst expandEnvString.simps) (simp add: ref_value_piece del: piece_value.simps)
qed

lemma expand_pieces:
  "list_all piece_ok ps \<Longrightarrow>
   expandEnvString env (concat (map piece_text ps)) = concat (map (piece_value env) ps)"
proof (induction ps)
  case (Cons p ps)
  then show ?case
    by (cases p) (simp_all add: expand_lit expand_ref del: piece_text.simps(2,3) piece_ok.simps(2) piece_value.simps(2,3))
qed simp

text \<open>Values never change the shape of the document: its nodes stay where they are.\<close>

datatype yaml_shape = Shape yaml_kind "yaml_shape list"

fun shape_of :: "yaml_node \<Rightarrow> yaml_shape" where
  "shape_of (Node kind style tag val content) = Shape kind (map shape_of content)"

lemma expandEnvNode_shape: "shape_of (expandEnvNode env n) = shape_of n"
  by (induction n) (auto simp: Let_def split: prod.split)

text \<open>C36. A scalar of the configuration means what it says: literal text stays, \<open>${NAME}\<close> is the
  variable's value or nothing, \<open>${NAME:-default}\<close> the value unless it is unset or empty, and then the
  default, and a value is never itself expanded. No value changes which nodes the document has; a quoted
  scalar stays a string, and a plain one that changed loses its tag, so that it is resolved anew. The
  variables are named by letters, digits and underscores, and a default has no closing brace.\<close>

theorem expand_reference:
  assumes "list_all piece_ok ps"
  shows "expandEnvString env (concat (map piece_text ps)) = concat (map (piece_value env) ps) \<and>
    shape_of (expandEnvNode env doc) = shape_of doc \<and>
    (\<forall>style \<in> {2, 4}. expandEnvNode env (Node ScalarNode style ''!!str'' (concat (map piece_text ps)) []) =
      Node ScalarNode style ''!!str'' (concat (map (piece_value env) ps)) []) \<and>
    (concat (map (piece_value env) ps) \<noteq> concat (map piece_text ps) \<longrightarrow>
      expandEnvNode env (Node ScalarNode 0 tag (concat (map piece_text ps)) []) =
        Node ScalarNode 0 '''' (concat (map (piece_value env) ps)) [])"
  using expand_pieces [OF assms] expandEnvNode_shape
  by (simp add: expand_scalar_def Let_def)

theorem expand_reference_witness:
  "expandEnvString [(''DB'', ''u:p@${HOST}''), (''PORT'', '''')] ''${DB}/${PORT:-3306}'' = ''u:p@${HOST}/3306''"
proof -
  have "list_all piece_ok [Ref ''DB'' None, Lit ''/'', Ref ''PORT'' (Some ''3306'')]"
    by (simp add: name_char_def name_start_def is_digit_def Let_def)
  from expand_reference [OF this, of "[(''DB'', ''u:p@${HOST}''), (''PORT'', '''')]"] show ?thesis
    by (simp add: held_def)
qed

end
