(* ===== verification/Providers.thy ===== *)
theory Providers
  imports Energy Merchant Environment
begin

text \<open>
  The provider registry (\<open>internal/energy/provider.go\<close>) and the rental platforms behind it:
  \<open>gasstation/gasstation.go\<close>, \<open>tronenergyrent/tronenergyrent.go\<close> and the factory of
  \<open>trxburn/trxburn.go\<close>. An HTTP exchange is a parameter from the requested URL to what came back, with
  the body already decoded into the struct the code decodes it into (or the decoder's error); the AES
  block function is a parameter. Query strings, payload texts, padding and base64 are written out.
\<close>

section \<open>The registry\<close>

type_synonym factory = "provider_conf \<Rightarrow> provider result"

definition provider_Option :: "provider_conf \<Rightarrow> string \<Rightarrow> string \<Rightarrow> string" where
  "provider_Option conf key dflt =
     (case map_of (pv_options conf) key of
        Some v \<Rightarrow> if v \<noteq> '''' then v else dflt
      | None \<Rightarrow> dflt)"

definition Register :: "string \<Rightarrow> factory \<Rightarrow> (string \<times> factory) list \<Rightarrow> (string \<times> factory) list" where
  "Register name f reg = (name, f) # filter (\<lambda>e. fst e \<noteq> name) reg"

definition registeredNames :: "(string \<times> factory) list \<Rightarrow> string list" where
  "registeredNames reg = sort (map fst reg)"

text \<open>The loop over the sorted names; the first failing one ends it.\<close>

fun build_loop ::
  "(string \<times> factory) list \<Rightarrow> (string \<times> provider_conf) list \<Rightarrow> string list
   \<Rightarrow> (string \<times> provider) list result" where
  "build_loop reg confs [] = Inr []"
| "build_loop reg confs (name # names) =
     (case map_of confs name of
        None \<Rightarrow> build_loop reg confs names
      | Some conf \<Rightarrow>
          if \<not> pv_enabled conf then build_loop reg confs names
          else (case map_of reg name of
              None \<Rightarrow> Inl (errors_new (''energy: unknown provider '' @ go_quote name @ '' (registered: ['' @
                join '' '' (registeredNames reg) @ ''])''))
            | Some f \<Rightarrow>
                (case f conf of
                   Inl e \<Rightarrow> Inl (wrap_err (''energy: build provider '' @ name @ '': '') e)
                 | Inr p \<Rightarrow>
                     (case build_loop reg confs names of
                        Inl e \<Rightarrow> Inl e
                      | Inr out \<Rightarrow> Inr ((name, p) # out)))))"

definition Build :: "(string \<times> factory) list \<Rightarrow> energy_config \<Rightarrow> (string \<times> provider) list result" where
  "Build reg cfg =
     (case build_loop reg (ec_providers cfg) (sort (remdups (map fst (ec_providers cfg)))) of
        Inl e \<Rightarrow> Inl e
      | Inr out \<Rightarrow>
          if out = [] then Inl (Err ErrNoProvider ''energy: no provider available'') else Inr out)"

section \<open>Texts of the standard library\<close>

text \<open>
  \<open>strconv.ParseFloat\<close> on decimal texts. Beyond the range of a binary64 it is an error; the
  spellings of infinity and NaN and hexadecimal floats are left out (no \<^typ>\<open>float64\<close> stands for
  the first two).
\<close>

definition split_at_char :: "(char \<Rightarrow> bool) \<Rightarrow> string \<Rightarrow> string \<times> string option" where
  "split_at_char P s =
     (let a = takeWhile (\<lambda>c. \<not> P c) s
      in (a, if length a < length s then Some (drop (Suc (length a)) s) else None))"

definition digits_or_empty :: "string \<Rightarrow> nat option" where
  "digits_or_empty s = (if s = '''' then Some 0 else digits_value s)"

definition float_text_value :: "string \<Rightarrow> rat option" where
  "float_text_value s =
     (let (m, ex) = split_at_char (\<lambda>c. c = CHR ''e'' \<or> c = CHR ''E'') s;
          (w, fr) = split_at_char (\<lambda>c. c = CHR ''.'') m;
          f = (case fr of None \<Rightarrow> '''' | Some d \<Rightarrow> d)
      in if w = '''' \<and> f = '''' then None
         else (case (digits_or_empty w, digits_or_empty f, case ex of None \<Rightarrow> Some 0 | Some t \<Rightarrow> SetString t) of
                 (Some a, Some b, Some k) \<Rightarrow>
                   Some ((of_nat a + of_nat b / 10 ^ length f) * 10 powi k)
               | _ \<Rightarrow> None))"

definition num_error :: "string \<Rightarrow> string \<Rightarrow> string \<Rightarrow> go_error" where
  "num_error fn s what = errors_new (''strconv.'' @ fn @ '': parsing '' @ go_quote s @ '': '' @ what)"

definition ParseFloat :: "string \<Rightarrow> float64 result" where
  "ParseFloat s =
     (let (neg, t) = (case s of
                        [] \<Rightarrow> (False, s)
                      | c # r \<Rightarrow> if c = CHR ''-'' then (True, r) else if c = CHR ''+'' then (False, r) else (False, s))
      in case float_text_value t of
           None \<Rightarrow> Inl (num_error ''ParseFloat'' s ''invalid syntax'')
         | Some x \<Rightarrow>
             let v = fl64 (if neg then - x else x)
             in if \<bar>v\<bar> < 2 ^ 1024 then Inr v else Inl (num_error ''ParseFloat'' s ''value out of range''))"

text \<open>What \<open>v, _ := strconv.ParseInt(s, 10, 64)\<close> leaves in \<open>v\<close>: the nearest bound out of range.\<close>

definition ParseInt_value :: "string \<Rightarrow> int" where
  "ParseInt_value s =
     (case SetString s of
        None \<Rightarrow> 0
      | Some i \<Rightarrow> if i < - (2 ^ 63) then - (2 ^ 63) else if 2 ^ 63 \<le> i then 2 ^ 63 - 1 else i)"

text \<open>\<open>url.Values\<close>: one value per key here; \<open>Encode\<close> sorts by key.\<close>

definition url_char :: "char \<Rightarrow> string" where
  "url_char c =
     (if is_digit c \<or> (of_char c :: nat) \<in> {65..90} \<or> (of_char c :: nat) \<in> {97..122} \<or>
         c \<in> {CHR ''-'', CHR ''_'', CHR ''.'', CHR ''~''} then [c]
      else if c = CHR '' '' then ''+''
      else CHR ''%'' # ToUpper (hex_EncodeToString [of_char c]))"

definition QueryEscape :: "string \<Rightarrow> string" where
  "QueryEscape s = concat (map url_char s)"

type_synonym url_values = "(string \<times> string) list"

definition Values_Set :: "string \<Rightarrow> string \<Rightarrow> url_values \<Rightarrow> url_values" where
  "Values_Set k v vs = (k, v) # filter (\<lambda>e. fst e \<noteq> k) vs"

definition Values_Encode :: "url_values \<Rightarrow> string" where
  "Values_Encode vs = sep_by ''&'' (map (\<lambda>(k, v). QueryEscape k @ ''='' @ QueryEscape v) (sort_key fst vs))"

text \<open>\<open>json.Marshal\<close> of a struct: its fields in order.\<close>

definition json_struct :: "(string \<times> json) list \<Rightarrow> string" where
  "json_struct fs = ''{'' @ sep_by '','' (map (\<lambda>(k, v). json_string k @ '':'' @ json_Marshal v) fs) @ ''}''"

text \<open>Reading a missing key of a \<open>map[string]string\<close>.\<close>

definition map_string :: "(string \<times> string) list \<Rightarrow> string \<Rightarrow> string" where
  "map_string m k = (case map_of m k of Some v \<Rightarrow> v | None \<Rightarrow> '''')"

section \<open>Base64, PKCS7 and ECB\<close>

definition b64_alphabet :: string where
  "b64_alphabet = ''ABCDEFGHIJKLMNOPQRSTUVWXYZabcdefghijklmnopqrstuvwxyz0123456789+/''"

definition b64_char :: "nat \<Rightarrow> char" where
  "b64_char n = b64_alphabet ! n"

text \<open>\<open>base64.StdEncoding.EncodeToString\<close>: three bytes to four characters, padded.\<close>

fun b64_digits :: "nat list \<Rightarrow> string" where
  "b64_digits [] = []"
| "b64_digits [a] = [b64_char (a div 4), b64_char (a mod 4 * 16), CHR ''='', CHR ''='']"
| "b64_digits [a, b] =
     [b64_char (a div 4), b64_char (a mod 4 * 16 + b div 16), b64_char (b mod 16 * 4), CHR ''='']"
| "b64_digits (a # b # c # r) =
     b64_char (a div 4) # b64_char (a mod 4 * 16 + b div 16) # b64_char (b mod 16 * 4 + c div 64) #
     b64_char (c mod 64) # b64_digits r"

definition b64_Encode :: "bytes \<Rightarrow> string" where
  "b64_Encode bs = b64_digits (map unat bs)"

definition pkcs7_pad :: "bytes \<Rightarrow> bytes" where
  "pkcs7_pad plain = (let pad = 16 - length plain mod 16 in plain @ replicate pad (of_nat pad))"

text \<open>The loop over the blocks: \<open>Encrypt\<close> on each in place.\<close>

definition blocks_of :: "bytes \<Rightarrow> bytes list" where
  "blocks_of bs = map (\<lambda>i. take 16 (drop (16 * i) bs)) [0..<length bs div 16]"

definition ecb :: "(bytes \<Rightarrow> bytes) \<Rightarrow> bytes \<Rightarrow> bytes" where
  "ecb f bs = concat (map f (blocks_of bs))"

section \<open>GasStation\<close>

definition ResourceBandwidth :: string where
  "ResourceBandwidth = ''bandwidth''"

definition gs_Name :: string where
  "gs_Name = ''gasstation''"

type_synonym block_cipher = "bytes \<Rightarrow> bytes \<Rightarrow> bytes"

record gs_provider =
  gs_base_url :: string
  gs_app_id :: string
  gs_secret :: bytes
  gs_periods :: "(string \<times> string) list"

text \<open>
  What an exchange ends in: a request that could not be built, no response, a body cut short, a body that
  is no envelope, or an envelope whose data decodes or does not.
\<close>

datatype 'a gs_answer =
    GsBadRequest string
  | GsDown string
  | GsCut string
  | GsGarbled string
  | GsEnvelope int string "string + 'a"

datatype gs_error = GsError go_error | GsAPIError (gs_code: int) (gs_msg: string) (gs_path: string)

fun gs_Error :: "gs_error \<Rightarrow> go_error" where
  "gs_Error (GsError e) = e"
| "gs_Error (GsAPIError code msg path) =
     errors_new (''gasstation: '' @ path @ '' returned code '' @ big_String code @ '': '' @ msg)"

fun gs_Duplicate :: "gs_error \<Rightarrow> bool" where
  "gs_Duplicate (GsError e) = False"
| "gs_Duplicate (GsAPIError code msg path) = (code = 110044)"

record gs_price_entry =
  pe_service_charge_type :: string
  pe_price :: string
  pe_remaining_number :: string

record gs_price_data =
  pd_min_number :: int
  pd_max_number :: int
  pd_price_list :: "gs_price_entry list"

record gs_record_item =
  ri_trade_no :: string
  ri_status :: int
  ri_amount :: string
  ri_delegate_energy_num :: int
  ri_energy_txids :: "string list"

record gs_balance_data =
  bd_balance :: string
  bd_deposit_address :: string

text \<open>What the platform answers to each call, by the URL requested.\<close>

record gs_http =
  gh_price :: "string \<Rightarrow> gs_price_data gs_answer"
  gh_create :: "string \<Rightarrow> string gs_answer"
  gh_records :: "string \<Rightarrow> gs_record_item list gs_answer"
  gh_balance :: "string \<Rightarrow> gs_balance_data gs_answer"

definition gs_factory_conf :: "provider_conf \<Rightarrow> gs_provider result" where
  "gs_factory_conf conf =
     (let appID = provider_Option conf ''app_id'' '''';
          secret = provider_Option conf ''app_secret'' ''''
      in if appID = '''' \<or> secret = '''' then Inl (errors_new ''gasstation: app_id and app_secret are required'')
         else if length secret \<noteq> 16 \<and> length secret \<noteq> 24 \<and> length secret \<noteq> 32 then
           Inl (errors_new (''gasstation: app_secret must be 16/24/32 bytes for AES, got '' @
             big_String (int (length secret))))
         else Inr \<lparr>gs_base_url = TrimRight (\<lambda>c. c = CHR ''/'')
                     (provider_Option conf ''base_url'' ''https://openapi.gasstation.ai''),
                   gs_app_id = appID, gs_secret = bytes_of_string secret,
                   gs_periods = [(''10m'', provider_Option conf ''period_10m'' ''10010''),
                                 (''1h'', provider_Option conf ''period_1h'' ''20001''),
                                 (''1d'', provider_Option conf ''period_1d'' ''30001'')]\<rparr>)"

definition gs_encrypt :: "block_cipher \<Rightarrow> gs_provider \<Rightarrow> string \<Rightarrow> string result" where
  "gs_encrypt aes p plain =
     (if length (gs_secret p) \<notin> {16, 24, 32}
      then Inl (errors_new (''crypto/aes: invalid key size '' @ big_String (int (length (gs_secret p)))))
      else Inr (b64_Encode (ecb (aes (gs_secret p)) (pkcs7_pad (bytes_of_string plain)))))"

definition gs_endpoint :: "gs_provider \<Rightarrow> string \<Rightarrow> string \<Rightarrow> string" where
  "gs_endpoint p path data =
     gs_base_url p @ path @ ''?'' @
     Values_Encode (Values_Set ''data'' data (Values_Set ''app_id'' (gs_app_id p) []))"

definition gs_request ::
  "block_cipher \<Rightarrow> gs_provider \<Rightarrow> string \<Rightarrow> string \<Rightarrow> (string \<Rightarrow> 'a gs_answer) \<Rightarrow> gs_error + 'a" where
  "gs_request aes p path payload http =
     (case gs_encrypt aes p payload of
        Inl e \<Rightarrow> Inl (GsError e)
      | Inr data \<Rightarrow>
          (case http (gs_endpoint p path data) of
             GsBadRequest m \<Rightarrow> Inl (GsError (errors_new m))
           | GsDown m \<Rightarrow> Inl (GsError (errors_new (''gasstation: call '' @ path @ '': '' @ m)))
           | GsCut m \<Rightarrow> Inl (GsError (errors_new m))
           | GsGarbled m \<Rightarrow> Inl (GsError (errors_new (''gasstation: decode '' @ path @ '': '' @ m)))
           | GsEnvelope code msg d \<Rightarrow>
               if code \<noteq> 0 then Inl (GsAPIError code msg path)
               else (case d of Inl m \<Rightarrow> Inl (GsError (errors_new m)) | Inr x \<Rightarrow> Inr x)))"

subsection \<open>Quotes\<close>

definition gs_periodCode :: "gs_provider \<Rightarrow> string \<Rightarrow> string" where
  "gs_periodCode p period =
     (case map_of (gs_periods p) period of
        Some code \<Rightarrow> if code \<noteq> '''' then code else map_string (gs_periods p) ''1h''
      | None \<Rightarrow> map_string (gs_periods p) ''1h'')"

definition gs_price_payload :: "string \<Rightarrow> string \<Rightarrow> string" where
  "gs_price_payload resource code =
     json_struct ((''resource_type'', JStr resource) #
                  (if code = '''' then [] else [(''service_charge_type'', JStr code)]))"

fun gs_price_loop :: "quote_request \<Rightarrow> string \<Rightarrow> int \<Rightarrow> gs_price_entry list \<Rightarrow> quote result" where
  "gs_price_loop req code billed [] =
     Inl (errors_new (''gasstation: no price for period '' @ qr_period req @ '' (code '' @ code @ '')''))"
| "gs_price_loop req code billed (entry # entries) =
     (if pe_service_charge_type entry \<noteq> code then gs_price_loop req code billed entries
      else (case ParseFloat (pe_price entry) of
          Inl e \<Rightarrow> Inl (wrap_err (''gasstation: bad price '' @ go_quote (pe_price entry) @ '': '') e)
        | Inr unitSun \<Rightarrow>
            let remaining = ParseInt_value (pe_remaining_number entry)
            in if 0 < remaining \<and> remaining < billed then
                 Inl (errors_new (''gasstation: only '' @ big_String remaining @ '' units in stock, need '' @
                   big_String billed))
               else Inr \<lparr>q_provider = gs_Name,
                         q_cost_trx = fl64 (fl64 (unitSun * float_of_int billed) / 1000000),
                         q_billed_units = billed, q_available = remaining, q_period = qr_period req\<rparr>))"

definition gs_Quote :: "block_cipher \<Rightarrow> gs_http \<Rightarrow> gs_provider \<Rightarrow> quote_request \<Rightarrow> quote result" where
  "gs_Quote aes http p req =
     (let resource = (if qr_resource req = ResourceBandwidth then ''net'' else ''energy'');
          code = gs_periodCode p (qr_period req)
      in case gs_request aes p ''/api/tron/gas/order/price'' (gs_price_payload resource code) (gh_price http) of
           Inl e \<Rightarrow> Inl (gs_Error e)
         | Inr data \<Rightarrow>
             let billed = (if qr_amount req < pd_min_number data then pd_min_number data else qr_amount req)
             in if 0 < pd_max_number data \<and> pd_max_number data < billed then
                  Inl (errors_new (''gasstation: '' @ big_String billed @ '' units exceeds the max order size '' @
                    big_String (pd_max_number data)))
                else gs_price_loop req code billed (pd_price_list data))"

subsection \<open>Orders\<close>

definition int_field :: "string \<Rightarrow> int \<Rightarrow> (string \<times> json) list" where
  "int_field k n = (if n = 0 then [] else [(k, JInt n)])"

definition gs_order_payload :: "gs_provider \<Rightarrow> order_request \<Rightarrow> string" where
  "gs_order_payload p req =
     (let band = or_resource req = ResourceBandwidth
      in json_struct
           ([(''request_id'', JStr (or_idempotency_key req)), (''receive_address'', JStr (or_receiver req)),
             (''buy_type'', JInt 0), (''service_charge_type'', JStr (gs_periodCode p (or_period req)))] @
            int_field ''energy_num'' (if band then 0 else or_amount req) @
            int_field ''net_num'' (if band then or_amount req else 0)))"

definition gs_state :: "int \<Rightarrow> string" where
  "gs_state status =
     (if status = 1 \<or> status = 3 \<or> status = 10 then StateDelegated
      else if status = 2 then StateFailed
      else StatePending)"

definition gs_order :: "string \<Rightarrow> gs_record_item \<Rightarrow> rent_order" where
  "gs_order requestID it =
     \<lparr>o_provider = gs_Name, o_provider_order_id = ri_trade_no it, o_request_id = requestID,
      o_state = gs_state (ri_status it), o_provider_state = big_String (ri_status it),
      o_delegated_energy = ri_delegate_energy_num it,
      o_cost_trx = (case ParseFloat (ri_amount it) of Inl e \<Rightarrow> 0 | Inr x \<Rightarrow> x),
      o_delegate_txid = (case ri_energy_txids it of [] \<Rightarrow> '''' | t # ts \<Rightarrow> t), o_message = ''''\<rparr>"

definition gs_pending :: "string \<Rightarrow> string \<Rightarrow> rent_order" where
  "gs_pending tradeNo requestID =
     \<lparr>o_provider = gs_Name, o_provider_order_id = tradeNo, o_request_id = requestID, o_state = StatePending,
      o_provider_state = '''', o_delegated_energy = 0, o_cost_trx = 0, o_delegate_txid = '''', o_message = ''''\<rparr>"

definition gs_Poll :: "block_cipher \<Rightarrow> gs_http \<Rightarrow> gs_provider \<Rightarrow> string \<Rightarrow> rent_order result" where
  "gs_Poll aes http p requestID =
     (case gs_request aes p ''/api/tron/gas/record/list''
             (json_struct [(''request_ids'', JStr requestID)]) (gh_records http) of
        Inl e \<Rightarrow> Inl (gs_Error e)
      | Inr [] \<Rightarrow> Inr (gs_pending '''' requestID)
      | Inr (it # items) \<Rightarrow> Inr (gs_order requestID it))"

definition gs_Ensure :: "block_cipher \<Rightarrow> gs_http \<Rightarrow> gs_provider \<Rightarrow> order_request \<Rightarrow> rent_order result" where
  "gs_Ensure aes http p req =
     (case gs_request aes p ''/api/tron/gas/create_order'' (gs_order_payload p req) (gh_create http) of
        Inl e \<Rightarrow> if gs_Duplicate e then gs_Poll aes http p (or_idempotency_key req) else Inl (gs_Error e)
      | Inr tradeNo \<Rightarrow> Inr (gs_pending tradeNo (or_idempotency_key req)))"

definition gs_Balance :: "block_cipher \<Rightarrow> gs_http \<Rightarrow> time \<Rightarrow> gs_provider \<Rightarrow> (float64 \<times> string) result" where
  "gs_Balance aes http now p =
     (case gs_request aes p ''/api/tron/gas/balance''
             (json_struct [(''time'', JStr (big_String (now div 1000000000)))]) (gh_balance http) of
        Inl e \<Rightarrow> Inl (gs_Error e)
      | Inr data \<Rightarrow>
          (case ParseFloat (bd_balance data) of
             Inl e \<Rightarrow> Inl (wrap_err (''gasstation: bad balance '' @ go_quote (bd_balance data) @ '': '') e)
           | Inr b \<Rightarrow> Inr (b, bd_deposit_address data)))"

definition gasstation :: "block_cipher \<Rightarrow> gs_http \<Rightarrow> time \<Rightarrow> gs_provider \<Rightarrow> provider" where
  "gasstation aes http now p =
     \<lparr>p_name = gs_Name, p_quote = gs_Quote aes http p, p_ensure = gs_Ensure aes http p,
      p_poll = gs_Poll aes http p, p_balance = gs_Balance aes http now p\<rparr>"

definition gs_factory :: "block_cipher \<Rightarrow> gs_http \<Rightarrow> time \<Rightarrow> factory" where
  "gs_factory aes http now conf =
     (case gs_factory_conf conf of Inl e \<Rightarrow> Inl e | Inr p \<Rightarrow> Inr (gasstation aes http now p))"

section \<open>Tronenergyrent\<close>

definition ter_Name :: string where
  "ter_Name = ''tronenergyrent''"

record ter_provider =
  te_base_url :: string
  te_api_key :: string
  te_pre_activate :: bool

datatype 'a ter_answer =
    TerBadRequest string
  | TerDown
  | TerCut string
  | TerGarbled string
  | TerEnvelope string string string "string + 'a"

datatype ter_error = TerError go_error | TerAPIError (ter_code: string) (ter_desc: string) (ter_path: string)

fun ter_Error :: "ter_error \<Rightarrow> go_error" where
  "ter_Error (TerError e) = e"
| "ter_Error (TerAPIError code desc path) =
     errors_new (''tronenergyrent: '' @ path @ '' returned '' @ code @ '': '' @ desc)"

record ter_price_data =
  tp_available_energy :: int
  tp_minimum_order_energy :: int
  tp_available_bandwidth :: int
  tp_total_price_trx :: float64

record ter_order_data =
  td_order_id :: string
  td_total_price_trx :: float64
  td_state :: string

record ter_order_details =
  tt_order_id :: string
  tt_state :: string
  tt_energy_delegated_amount :: int
  tt_total_paid_trx :: float64
  tt_refunded_trx :: float64
  tt_transactions :: "string list"

record ter_account_info =
  ta_deposit_address :: string
  ta_balance_trx :: float64

record ter_http =
  th_price :: "string \<Rightarrow> ter_price_data ter_answer"
  th_order :: "string \<Rightarrow> ter_order_data ter_answer"
  th_details :: "string \<Rightarrow> ter_order_details ter_answer"
  th_account :: "string \<Rightarrow> ter_account_info ter_answer"

definition ter_factory_conf :: "provider_conf \<Rightarrow> ter_provider result" where
  "ter_factory_conf conf =
     (let apiKey = provider_Option conf ''api_key'' ''''
      in if apiKey = '''' then Inl (errors_new ''tronenergyrent: api_key is required'')
         else Inr \<lparr>te_base_url = TrimRight (\<lambda>c. c = CHR ''/'')
                     (provider_Option conf ''base_url'' ''https://api.tronenergyrent.com''),
                   te_api_key = apiKey,
                   te_pre_activate = (provider_Option conf ''pre_activate'' ''0'' \<noteq> ''0'')\<rparr>)"

definition ter_get ::
  "ter_provider \<Rightarrow> string \<Rightarrow> url_values \<Rightarrow> bool \<Rightarrow> (string \<Rightarrow> 'a ter_answer) \<Rightarrow> ter_error + 'a" where
  "ter_get p path params withKey http =
     (let params1 = (if withKey then Values_Set ''apiKey'' (te_api_key p) params else params)
      in case http (te_base_url p @ path @ ''?'' @ Values_Encode params1) of
           TerBadRequest m \<Rightarrow> Inl (TerError (errors_new m))
         | TerDown \<Rightarrow> Inl (TerError (errors_new (''tronenergyrent: call '' @ path @ '' failed'')))
         | TerCut m \<Rightarrow> Inl (TerError (errors_new m))
         | TerGarbled m \<Rightarrow> Inl (TerError (errors_new (''tronenergyrent: decode '' @ path @ '': '' @ m)))
         | TerEnvelope status code desc d \<Rightarrow>
             if status \<noteq> ''SUCCESS'' then Inl (TerAPIError code desc path)
             else (case d of Inl m \<Rightarrow> Inl (TerError (errors_new m)) | Inr x \<Rightarrow> Inr x))"

definition ter_preActivateValue :: "ter_provider \<Rightarrow> string" where
  "ter_preActivateValue p = (if te_pre_activate p then ''1'' else ''0'')"

definition normalisePeriod :: "string \<Rightarrow> string" where
  "normalisePeriod period =
     (if period \<in> {''1h'', ''1d'', ''3d'', ''30d''} then period
      else if period = ''10m'' then ''1h''
      else ''1h'')"

definition ter_amount_key :: "string \<Rightarrow> string" where
  "ter_amount_key resource = (if resource = ResourceBandwidth then ''bandwidthAmount'' else ''energyAmount'')"

definition ter_quoteAtMinimum ::
  "ter_http \<Rightarrow> ter_provider \<Rightarrow> quote_request \<Rightarrow> string \<Rightarrow> url_values \<Rightarrow> quote result" where
  "ter_quoteAtMinimum http p req path params =
     (let minimum = (if qr_resource req = ResourceBandwidth then 1000 else 15000)
      in if minimum \<le> qr_amount req
         then Inl (errors_new (''tronenergyrent: cannot quote '' @ big_String (qr_amount req) @ '' units''))
         else (case ter_get p path
                      (Values_Set (ter_amount_key (qr_resource req)) (big_String minimum) params) False (th_price http) of
             Inl e \<Rightarrow> Inl (ter_Error e)
           | Inr data \<Rightarrow>
               Inr \<lparr>q_provider = ter_Name, q_cost_trx = tp_total_price_trx data, q_billed_units = minimum,
                    q_available = 0, q_period = normalisePeriod (qr_period req)\<rparr>))"

fun ter_invalid :: "ter_error \<Rightarrow> bool" where
  "ter_invalid (TerError e) = False"
| "ter_invalid (TerAPIError code desc path) = Contains code ''INVALID''"

definition ter_Quote :: "ter_http \<Rightarrow> ter_provider \<Rightarrow> quote_request \<Rightarrow> quote result" where
  "ter_Quote http p req =
     (let period = normalisePeriod (qr_period req);
          band = qr_resource req = ResourceBandwidth;
          path = (if band then ''/calculate-bandwidth-price'' else ''/calculate-energy-price'');
          amount = qr_amount req;
          params = Values_Set (ter_amount_key (qr_resource req)) (big_String amount)
                     (Values_Set ''preActivateDestinationAddress'' (ter_preActivateValue p)
                        (Values_Set ''period'' period []))
      in case ter_get p path params False (th_price http) of
           Inl e \<Rightarrow> if ter_invalid e then ter_quoteAtMinimum http p req path params else Inl (ter_Error e)
         | Inr data \<Rightarrow>
             if \<not> band \<and> amount < tp_minimum_order_energy data then ter_quoteAtMinimum http p req path params
             else let available = (if band then tp_available_bandwidth data else tp_available_energy data)
                  in if 0 < available \<and> available < amount then
                       Inl (errors_new (''tronenergyrent: only '' @ big_String available @ '' units available, need '' @
                         big_String amount))
                     else Inr \<lparr>q_provider = ter_Name, q_cost_trx = tp_total_price_trx data,
                               q_billed_units = amount, q_available = available, q_period = period\<rparr>)"

definition mapState :: "string \<Rightarrow> string" where
  "mapState state =
     (if state = ''ENERGY_DELEGATED'' then StateDelegated
      else if state = ''ERROR_DELEGATION'' then StateFailed
      else if state = ''CANCELLED'' then StateCancelled
      else if state \<in> {''PAID_BY_USER'', ''WAITING_DELEGATION''} then StatePending
      else StatePending)"

definition ter_Ensure :: "ter_http \<Rightarrow> ter_provider \<Rightarrow> order_request \<Rightarrow> rent_order result" where
  "ter_Ensure http p req =
     (let params0 = Values_Set ''preActivateDestinationAddress'' (ter_preActivateValue p)
                      (Values_Set ''destinationAddress'' (or_receiver req)
                         (Values_Set ''period'' (normalisePeriod (or_period req)) []));
          path = (if or_resource req = ResourceBandwidth then ''/place-bandwidth-order'' else ''/place-energy-order'');
          params = Values_Set (ter_amount_key (or_resource req)) (big_String (or_amount req)) params0
      in case ter_get p path params True (th_order http) of
           Inl e \<Rightarrow> Inl (ter_Error e)
         | Inr data \<Rightarrow>
             Inr \<lparr>o_provider = ter_Name, o_provider_order_id = td_order_id data,
                  o_request_id = or_idempotency_key req, o_state = mapState (td_state data),
                  o_provider_state = td_state data, o_delegated_energy = 0,
                  o_cost_trx = td_total_price_trx data, o_delegate_txid = '''', o_message = ''''\<rparr>)"

definition ter_Poll :: "ter_http \<Rightarrow> ter_provider \<Rightarrow> string \<Rightarrow> rent_order result" where
  "ter_Poll http p providerOrderID =
     (case ter_get p ''/single-order-details'' (Values_Set ''orderId'' providerOrderID []) True (th_details http) of
        Inl e \<Rightarrow> Inl (ter_Error e)
      | Inr data \<Rightarrow>
          Inr \<lparr>o_provider = ter_Name, o_provider_order_id = tt_order_id data, o_request_id = '''',
               o_state = mapState (tt_state data), o_provider_state = tt_state data,
               o_delegated_energy = tt_energy_delegated_amount data,
               o_cost_trx = fl64 (tt_total_paid_trx data - tt_refunded_trx data),
               o_delegate_txid = (case tt_transactions data of [] \<Rightarrow> '''' | t # ts \<Rightarrow> t), o_message = ''''\<rparr>)"

definition ter_Balance :: "ter_http \<Rightarrow> ter_provider \<Rightarrow> (float64 \<times> string) result" where
  "ter_Balance http p =
     (case ter_get p ''/account-info'' [] True (th_account http) of
        Inl e \<Rightarrow> Inl (ter_Error e)
      | Inr info \<Rightarrow> Inr (ta_balance_trx info, ta_deposit_address info))"

definition tronenergyrent :: "ter_http \<Rightarrow> ter_provider \<Rightarrow> provider" where
  "tronenergyrent http p =
     \<lparr>p_name = ter_Name, p_quote = ter_Quote http p, p_ensure = ter_Ensure http p,
      p_poll = ter_Poll http p, p_balance = ter_Balance http p\<rparr>"

definition ter_factory :: "ter_http \<Rightarrow> factory" where
  "ter_factory http conf =
     (case ter_factory_conf conf of Inl e \<Rightarrow> Inl e | Inr p \<Rightarrow> Inr (tronenergyrent http p))"

section \<open>The registered factories\<close>

definition burn_factory :: factory where
  "burn_factory conf =
     (let s = provider_Option conf ''energy_fee_sun'' ''100''
      in case SetString s of
           None \<Rightarrow> Inl (num_error ''ParseInt'' s ''invalid syntax'')
         | Some fee \<Rightarrow> if in_i64 fee then Inr (trxburn fee)
                        else Inl (num_error ''ParseInt'' s ''value out of range''))"

text \<open>What the packages' \<open>init\<close> functions leave in the registry.\<close>

definition registry_of_factories :: "block_cipher \<Rightarrow> gs_http \<Rightarrow> ter_http \<Rightarrow> time \<Rightarrow> (string \<times> factory) list" where
  "registry_of_factories aes gs th now =
     Register ProviderTRXBurn burn_factory
       (Register ter_Name (ter_factory th) (Register gs_Name (gs_factory aes gs now) []))"

section \<open>What the manager may rely on\<close>

lemma gs_price_loop_quote:
  "gs_price_loop req code billed es = Inr q \<Longrightarrow> q_provider q = gs_Name \<and> q_billed_units q = billed"
  by (induction es) (auto simp: Let_def split: if_splits sum.splits)

lemma gs_Quote_covers:
  "gs_Quote aes http p req = Inr q \<Longrightarrow> q_provider q = gs_Name \<and> qr_amount req \<le> q_billed_units q"
  by (auto simp: gs_Quote_def Let_def split: sum.splits if_splits dest!: gs_price_loop_quote)

lemma ter_minimum_covers:
  "ter_quoteAtMinimum http p req path params = Inr q \<Longrightarrow>
   q_provider q = ter_Name \<and> qr_amount req \<le> q_billed_units q"
  by (auto simp: ter_quoteAtMinimum_def Let_def split: sum.splits if_splits)

lemma ter_Quote_covers:
  "ter_Quote http p req = Inr q \<Longrightarrow> q_provider q = ter_Name \<and> qr_amount req \<le> q_billed_units q"
  by (auto simp: ter_Quote_def Let_def split: sum.splits if_splits dest!: ter_minimum_covers)

interpretation gs: energy_provider "gasstation aes http now p" for aes http now p
  by unfold_locales (auto simp: gasstation_def gs_Name_def dest: gs_Quote_covers)

interpretation ter: energy_provider "tronenergyrent http p" for http p
  by unfold_locales (auto simp: tronenergyrent_def ter_Name_def dest: ter_Quote_covers)

text \<open>A factory that makes a provider of its name which keeps the contract.\<close>

definition factory_ok :: "string \<times> factory \<Rightarrow> bool" where
  "factory_ok nf \<longleftrightarrow> (\<forall>conf p. snd nf conf = Inr p \<longrightarrow> p_name p = fst nf \<and> energy_provider p)"

lemma factory_ok_Register:
  "factory_ok (n, f) \<Longrightarrow> list_all factory_ok reg \<Longrightarrow> list_all factory_ok (Register n f reg)"
  by (simp add: Register_def list_all_iff)

lemma registry_ok: "list_all factory_ok (registry_of_factories aes gs th now)"
  unfolding registry_of_factories_def
  by (intro factory_ok_Register)
    (auto simp: factory_ok_def burn_factory_def ter_factory_def gs_factory_def Let_def
        trxburn_def tronenergyrent_def gasstation_def
        split: sum.splits option.splits if_splits
        intro: burn.energy_provider_axioms [unfolded trxburn_def] gs.energy_provider_axioms [unfolded gasstation_def]
          ter.energy_provider_axioms [unfolded tronenergyrent_def])

lemma build_loop_ok:
  assumes "list_all factory_ok reg" and "build_loop reg confs names = Inr out"
  shows "provs_ok out \<and> map fst out =
     filter (\<lambda>n. case map_of confs n of None \<Rightarrow> False | Some c \<Rightarrow> pv_enabled c) names"
  using assms(2)
proof (induction names arbitrary: out)
  case (Cons n names)
  show ?case
  proof (cases "\<exists>c. map_of confs n = Some c \<and> pv_enabled c")
    case True
    then obtain c f p rest where c: "map_of confs n = Some c" "pv_enabled c"
      and f: "map_of reg n = Some f" "f c = Inr p"
      and rest: "build_loop reg confs names = Inr rest" "out = (n, p) # rest"
      using Cons.prems by (auto split: option.splits sum.splits if_splits)
    have "factory_ok (n, f)"
      using assms(1) f(1) by (auto simp: list_all_iff dest: map_of_SomeD)
    then have "p_name p = n \<and> energy_provider p"
      using f(2) by (simp add: factory_ok_def)
    with Cons.IH [OF rest(1)] rest(2) c show ?thesis by (simp add: provs_ok_def)
  next
    case False
    then have "build_loop reg confs names = Inr out"
      using Cons.prems by (auto split: option.splits)
    with Cons.IH [of out] False show ?thesis by (auto split: option.splits)
  qed
qed (simp add: provs_ok_def)

text \<open>C35. What \<open>Build\<close> returns is what the manager's guarantees rest on: one provider for every
  enabled block of the configuration, in name order, each filed under its own name and quoting at least
  the amount asked for under that name; and there is at least one.\<close>

theorem Build_provides:
  assumes "Build (registry_of_factories aes gs th now) cfg = Inr provs"
  shows "provs_ok provs \<and> provs \<noteq> [] \<and>
    map fst provs = filter (\<lambda>n. case map_of (ec_providers cfg) n of None \<Rightarrow> False | Some c \<Rightarrow> pv_enabled c)
      (sort (remdups (map fst (ec_providers cfg))))"
  using build_loop_ok [OF registry_ok] assms
  by (auto simp: Build_def split: sum.splits if_splits)

section \<open>The platform's side of the payload\<close>

text \<open>
  What the receiver of a \<open>data\<close> parameter does, as the package's test does it: decode the base64,
  decrypt each block, take off the padding.
\<close>

definition b64_val :: "char \<Rightarrow> nat" where
  "b64_val c = length (takeWhile (\<lambda>x. x \<noteq> c) b64_alphabet)"

fun b64_Decode :: "string \<Rightarrow> nat list" where
  "b64_Decode (w # x # y # z # r) =
     (let a = b64_val w; b = b64_val x; c = b64_val y; d = b64_val z
      in if y = CHR ''='' then [a * 4 + b div 16]
         else if z = CHR ''='' then [a * 4 + b div 16, b mod 16 * 16 + c div 4]
         else (a * 4 + b div 16) # (b mod 16 * 16 + c div 4) # (c mod 4 * 64 + d) # b64_Decode r)"
| "b64_Decode _ = []"

definition pkcs7_unpad :: "bytes \<Rightarrow> bytes" where
  "pkcs7_unpad bs = take (length bs - unat (last bs)) bs"

definition gs_decrypt :: "block_cipher \<Rightarrow> bytes \<Rightarrow> string \<Rightarrow> string" where
  "gs_decrypt dec key s = string_of_bytes (pkcs7_unpad (ecb (dec key) (map of_nat (b64_Decode s))))"

lemma b64_val_all: "list_all (\<lambda>n. b64_val (b64_char n) = n \<and> b64_char n \<noteq> CHR ''='') [0..<64]"
  by code_simp

lemma b64_val_char [simp]: "n < 64 \<Longrightarrow> b64_val (b64_char n) = n"
  and b64_char_pad [simp]: "n < 64 \<Longrightarrow> b64_char n \<noteq> CHR ''=''"
  using b64_val_all by (auto simp: list_all_iff)

lemma b64_Decode_digits: "list_all (\<lambda>n. n < 256) bs \<Longrightarrow> b64_Decode (b64_digits bs) = bs"
proof (induction bs rule: b64_digits.induct)
  case (2 a)
  then have "a div 4 < 64" "a mod 4 * 16 < 64" by auto
  then show ?case by simp
next
  case (3 a b)
  then have "a div 4 < 64" "a mod 4 * 16 + b div 16 < 64" "b mod 16 * 4 < 64" "b div 16 < 16"
    by auto
  then show ?case by (simp add: Let_def)
next
  case (4 a b c r)
  then have "a div 4 < 64" "a mod 4 * 16 + b div 16 < 64" "b mod 16 * 4 + c div 64 < 64" "c mod 64 < 64"
    "b div 16 < 16" "c div 64 < 4" by auto
  with 4 show ?case by (simp add: Let_def)
qed simp

lemma b64_roundtrip: "map of_nat (b64_Decode (b64_Encode bs)) = bs"
proof -
  have "list_all (\<lambda>n. n < 256) (map unat bs)"
    using unsigned_less [where ?'a = nat and ?'b = 8] by (auto simp: list_all_iff)
  then show ?thesis by (simp add: b64_Encode_def b64_Decode_digits comp_def)
qed

lemma concat_blocks:
  "length bs = 16 * n \<Longrightarrow> concat (map (\<lambda>i. take 16 (drop (16 * i) bs)) [0..<n]) = bs"
proof (induction n arbitrary: bs)
  case (Suc n)
  have "concat (map (\<lambda>i. take 16 (drop (16 * i) bs)) [0..<Suc n])
      = take 16 bs @ concat (map (\<lambda>i. take 16 (drop (16 * i) (drop 16 bs))) [0..<n])"
    by (simp add: upt_conv_Cons map_Suc_upt [symmetric] comp_def add.commute del: upt_Suc)
  also have "\<dots> = bs" using Suc.IH [of "drop 16 bs"] Suc.prems by simp
  finally show ?case .
qed simp

lemma blocks_of_concat:
  assumes "\<And>b. b \<in> set bss \<Longrightarrow> length b = 16"
  shows "blocks_of (concat bss) = bss"
  using assms
proof (induction bss)
  case (Cons b bss)
  have l: "length b = 16" using Cons.prems by simp
  have "length (concat bss) = 16 * length bss"
    using Cons.prems by (induction bss) auto
  then have "blocks_of (concat (b # bss)) = b # blocks_of (concat bss)"
    using l by (simp add: blocks_of_def upt_conv_Cons map_Suc_upt [symmetric] comp_def del: upt_Suc)
  then show ?case using Cons by simp
qed (simp add: blocks_of_def)

lemma blocks_of_length: "16 dvd length bs \<Longrightarrow> b \<in> set (blocks_of bs) \<Longrightarrow> length b = 16"
  by (auto simp: blocks_of_def dvd_def)

lemma ecb_inverse:
  assumes "16 dvd length bs" and "\<And>b. length b = 16 \<Longrightarrow> length (f b) = 16 \<and> g (f b) = b"
  shows "ecb g (ecb f bs) = bs"
proof -
  have b: "length b = 16" if "b \<in> set (blocks_of bs)" for b
    using blocks_of_length [OF assms(1) that] .
  have "blocks_of (ecb f bs) = map f (blocks_of bs)"
    unfolding ecb_def by (rule blocks_of_concat) (use b assms(2) in auto)
  then have "ecb g (ecb f bs) = concat (map (\<lambda>b. g (f b)) (blocks_of bs))"
    by (simp add: ecb_def comp_def)
  also have "map (\<lambda>b. g (f b)) (blocks_of bs) = blocks_of bs"
    by (rule map_idI) (use b assms(2) in auto)
  also have "concat (blocks_of bs) = bs"
    unfolding blocks_of_def by (rule concat_blocks) (use assms(1) in simp)
  finally show ?thesis .
qed

lemma pkcs7_length: "16 dvd length (pkcs7_pad bs)"
proof -
  obtain q r where l: "length bs = 16 * q + r" and r: "r < 16"
    using mult_div_mod_eq [of 16 "length bs", symmetric] by (metis mod_less_divisor zero_less_numeral)
  then have "length bs + (16 - length bs mod 16) = 16 * (q + 1)" by simp
  then show ?thesis by (simp add: pkcs7_pad_def Let_def)
qed

lemma pkcs7_roundtrip: "pkcs7_unpad (pkcs7_pad bs) = bs"
proof -
  define pad where "pad = 16 - length bs mod 16"
  have pad: "0 < pad" "pad \<le> 16" by (auto simp: pad_def)
  then have "unat (of_nat pad :: byte) = pad"
    by (simp add: unat_of_nat)
  with pad show ?thesis
    by (simp add: pkcs7_pad_def pkcs7_unpad_def Let_def pad_def [symmetric])
qed

lemma char_of_byte: "char_of (unat (of_char c :: byte)) = c"
proof -
  have "unat (of_nat (of_char c) :: byte) = of_char c mod 256" by (simp add: unat_of_nat)
  then show ?thesis by (metis char_of_char of_char_mod_256 of_nat_of_char)
qed

lemma string_bytes_id: "string_of_bytes (bytes_of_string s) = s"
  by (simp add: string_of_bytes_def bytes_of_string_def comp_def char_of_byte)

lemma gs_decrypt_encrypt:
  assumes "\<And>b. length b = 16 \<Longrightarrow> length (aes (gs_secret p) b) = 16 \<and> dec (gs_secret p) (aes (gs_secret p) b) = b"
    and "gs_encrypt aes p plain = Inr data"
  shows "gs_decrypt dec (gs_secret p) data = plain"
proof -
  have "data = b64_Encode (ecb (aes (gs_secret p)) (pkcs7_pad (bytes_of_string plain)))"
    using assms(2) by (simp add: gs_encrypt_def split: if_splits)
  then show ?thesis
    using ecb_inverse [of "pkcs7_pad (bytes_of_string plain)" "aes (gs_secret p)" "dec (gs_secret p)"]
      pkcs7_length assms(1)
    by (simp add: gs_decrypt_def b64_roundtrip pkcs7_roundtrip string_bytes_id)
qed

lemma gs_factory_key: "gs_factory_conf conf = Inr p \<Longrightarrow> length (gs_secret p) \<in> {16, 24, 32}"
  by (auto simp: gs_factory_conf_def Let_def bytes_of_string_def split: if_splits)

text \<open>Every payload survives the trip: from a provider the factory accepted, whatever the payload,
  encryption succeeds and what the platform decodes, decrypts and unpads is the payload, provided only
  that the block cipher inverts on 16-byte blocks.\<close>

theorem gs_payload_roundtrip:
  assumes "gs_factory_conf conf = Inr p"
    and "\<And>b. length b = 16 \<Longrightarrow> length (aes (gs_secret p) b) = 16 \<and> dec (gs_secret p) (aes (gs_secret p) b) = b"
  shows "case gs_encrypt aes p plain of
      Inl e \<Rightarrow> False
    | Inr data \<Rightarrow> gs_decrypt dec (gs_secret p) data = plain"
proof -
  obtain data where d: "gs_encrypt aes p plain = Inr data"
    using gs_factory_key [OF assms(1)] by (simp add: gs_encrypt_def)
  show ?thesis using gs_decrypt_encrypt [where aes = aes and dec = dec and p = p, OF _ d] assms(2) by (simp add: d)
qed

definition xor_cipher :: block_cipher where
  "xor_cipher key b = map2 xor (take 16 key) b"

definition demo_conf :: provider_conf where
  "demo_conf = \<lparr>pv_enabled = True, pv_options =
     [(''app_id'', ''merchant''), (''app_secret'', ''0123456789abcdef''), (''api_key'', ''k'')]\<rparr>"

theorem gs_payload_roundtrip_witness:
  "\<exists>p. gs_factory_conf demo_conf = Inr p \<and>
    (case gs_encrypt xor_cipher p (gs_price_payload ''energy'' ''20001'') of
       Inl e \<Rightarrow> False
     | Inr data \<Rightarrow> gs_decrypt xor_cipher (gs_secret p) data = gs_price_payload ''energy'' ''20001'')"
proof -
  obtain p where p: "gs_factory_conf demo_conf = Inr p" and s: "gs_secret p = bytes_of_string ''0123456789abcdef''"
    by (simp add: gs_factory_conf_def demo_conf_def provider_Option_def)
  have "length (xor_cipher (gs_secret p) b) = 16 \<and> xor_cipher (gs_secret p) (xor_cipher (gs_secret p) b) = b"
    if "length b = 16" for b
    using that by (auto simp: xor_cipher_def s bytes_of_string_def intro!: nth_equalityI)
  with gs_payload_roundtrip [where aes = xor_cipher and dec = xor_cipher, OF p] p show ?thesis by blast
qed

definition demo_energy_config :: energy_config where
  "demo_energy_config = (cf_energy (sample_config ''T''))\<lparr>ec_providers :=
     [(''trx_burn'', demo_conf), (''gasstation'', demo_conf\<lparr>pv_enabled := False\<rparr>),
      (''tronenergyrent'', demo_conf)]\<rparr>"

theorem Build_provides_witness:
  "\<forall>aes gs th now. \<exists>provs. Build (registry_of_factories aes gs th now) demo_energy_config = Inr provs \<and> provs_ok provs \<and>
     map fst provs = [''tronenergyrent'', ''trx_burn'']"
proof (intro allI)
  fix aes gs th now
  have names: "sort (remdups (map fst (ec_providers demo_energy_config))) =
      [''gasstation'', ''tronenergyrent'', ''trx_burn'']"
    by (simp add: demo_energy_config_def)
  obtain q where q: "ter_factory th demo_conf = Inr q"
    by (simp add: ter_factory_def ter_factory_conf_def demo_conf_def provider_Option_def)
  have en: "pv_enabled demo_conf" by (simp add: demo_conf_def)
  have fee: "SetString ''100'' = Some 100" "in_i64 100" by code_simp+
  have b: "burn_factory demo_conf = Inr (trxburn 100)"
    using fee by (simp add: burn_factory_def demo_conf_def provider_Option_def)
  have "\<exists>provs. Build (registry_of_factories aes gs th now) demo_energy_config = Inr provs"
    unfolding Build_def names
    by (simp add: demo_energy_config_def en registry_of_factories_def Register_def
        ProviderTRXBurn_def ter_Name_def gs_Name_def q b)
  then obtain provs where p: "Build (registry_of_factories aes gs th now) demo_energy_config = Inr provs" by blast
  from Build_provides [OF this] p
  show "\<exists>provs. Build (registry_of_factories aes gs th now) demo_energy_config = Inr provs \<and> provs_ok provs \<and>
     map fst provs = [''tronenergyrent'', ''trx_burn'']"
    unfolding names by (auto simp: demo_energy_config_def demo_conf_def)
qed

end
