(* ===== verification/Signer.thy ===== *)
theory Signer
  imports Store TronWire
begin

text \<open>
  The signing service: derivation paths (\<open>internal/hd\<close>), the signing policy and the handler
  (\<open>internal/signer\<close>). BIP32 derivation, the public key, Keccak-256 and the ECDSA signature are the
  fields of \<open>crypto\<close>; requests arrive bound from JSON, so a request itself is never nil. The numbers
  in \<open>raw_data\<close> carry the text \<open>json.Marshal\<close> writes for them.
\<close>

section \<open>Derivation\<close>

record ('m, 'k) crypto =
  cr_derive :: "'m \<Rightarrow> 32 word \<Rightarrow> 'm result"
  cr_ecpriv :: "'m \<Rightarrow> 'k result"
  cr_pubkey :: "'k \<Rightarrow> bytes"
  cr_keccak :: "bytes \<Rightarrow> bytes"
  cr_sign_compact :: "'k \<Rightarrow> bytes \<Rightarrow> bytes"

definition HardenedKeyStart :: "32 word" where
  "HardenedKeyStart = 0x80000000"

definition hardened_mark :: "char \<Rightarrow> bool" where
  "hardened_mark c \<longleftrightarrow> c = CHR 0x27 \<or> c = CHR ''h''"

fun parse_elements :: "string list \<Rightarrow> 32 word list result" where
  "parse_elements [] = Inr []"
| "parse_elements (p # ps) =
     (if p = '''' then parse_elements ps
      else
        let hardened = HasSuffix p [CHR 0x27] \<or> HasSuffix p ''h'';
            q = TrimRight hardened_mark p
        in case ParseUint32 q of
             None \<Rightarrow> Inl (errors_new (''hd: bad path element '' @ q))
           | Some v \<Rightarrow>
               let idx = of_nat v; idx' = (if hardened then idx + HardenedKeyStart else idx)
               in case parse_elements ps of Inl e \<Rightarrow> Inl e | Inr rest \<Rightarrow> Inr (idx' # rest))"

definition ParsePath :: "string \<Rightarrow> 32 word list result" where
  "ParsePath path =
     (case split_on (CHR ''/'') (TrimSpace path) of
        [] \<Rightarrow> Inl (errors_new (''hd: path must start with m/: '' @ path))
      | m # ps \<Rightarrow>
          if m \<noteq> ''m'' then Inl (errors_new (''hd: path must start with m/: '' @ path))
          else case parse_elements ps of
            Inl e \<Rightarrow> Inl e
          | Inr out \<Rightarrow> if out = [] then Inl (errors_new (''hd: empty path '' @ path)) else Inr out)"

definition AddressPath :: "string \<Rightarrow> int \<Rightarrow> string" where
  "AddressPath accountPath index = TrimRight (\<lambda>c. c = CHR ''/'') accountPath @ ''/'' @ big_String index"

fun derive_all :: "('m, 'k) crypto \<Rightarrow> string \<Rightarrow> 'm \<Rightarrow> 32 word list \<Rightarrow> 'm result" where
  "derive_all cr path key [] = Inr key"
| "derive_all cr path key (i # is) =
     (case cr_derive cr key i of
        Inl e \<Rightarrow> Inl (wrap_err (''hd: derive '' @ path @ '': '') e)
      | Inr key' \<Rightarrow> derive_all cr path key' is)"

definition DerivePrivateKey :: "('m, 'k) crypto \<Rightarrow> 'm \<Rightarrow> string \<Rightarrow> 'k result" where
  "DerivePrivateKey cr master path =
     (case ParsePath path of
        Inl e \<Rightarrow> Inl e
      | Inr indexes \<Rightarrow>
          case derive_all cr path master indexes of
            Inl e \<Rightarrow> Inl e
          | Inr key \<Rightarrow>
              case cr_ecpriv cr key of
                Inl e \<Rightarrow> Inl (wrap_err ''hd: ec priv key: '' e)
              | Inr priv \<Rightarrow> Inr priv)"

definition DeriveAddress :: "('m, 'k) crypto \<Rightarrow> 'm \<Rightarrow> string \<Rightarrow> string result" where
  "DeriveAddress cr master path =
     (case DerivePrivateKey cr master path of
        Inl e \<Rightarrow> Inl e
      | Inr priv \<Rightarrow> PubKeyToAddress (cr_keccak cr) (cr_pubkey cr priv))"

text \<open>
  From the mnemonic to the master key. NFKD normalisation, the BIP39 check, the seed and the master key
  are the library's; \<open>strings.Fields\<close> splits at ASCII white space.
\<close>

record 'm bip39 =
  bl_nfkd :: "string \<Rightarrow> string"
  bl_valid :: "string \<Rightarrow> bool"
  bl_seed :: "string \<Rightarrow> string \<Rightarrow> bytes"
  bl_master :: "bytes \<Rightarrow> 'm result"

definition Fields_of :: "string \<Rightarrow> string list" where
  "Fields_of s = filter (\<lambda>f. f \<noteq> '''') (split_on (CHR '' '') (map (\<lambda>c. if is_space c then CHR '' '' else c) s))"

definition NormalizeMnemonic :: "'m bip39 \<Rightarrow> string \<Rightarrow> string" where
  "NormalizeMnemonic b mnemonic =
     (case Fields_of (bl_nfkd b mnemonic) of
        [] \<Rightarrow> ''''
      | f # fs \<Rightarrow> f @ concat (map (\<lambda>g. CHR '' '' # g) fs))"

definition NormalizePassphrase :: "'m bip39 \<Rightarrow> string \<Rightarrow> string" where
  "NormalizePassphrase b passphrase = bl_nfkd b passphrase"

definition NewFromMnemonic :: "'m bip39 \<Rightarrow> string \<Rightarrow> string \<Rightarrow> 'm result" where
  "NewFromMnemonic b mnemonic0 passphrase =
     (let mnemonic = NormalizeMnemonic b mnemonic0
      in if mnemonic = '''' then Inl (errors_new ''hd: empty mnemonic'')
         else if \<not> bl_valid b mnemonic then Inl (errors_new ''hd: invalid mnemonic checksum'')
         else (case bl_master b (bl_seed b mnemonic (NormalizePassphrase b passphrase)) of
             Inl e \<Rightarrow> Inl (wrap_err ''hd: new master: '' e)
           | Inr master \<Rightarrow> Inr master))"

lemma split_on_words:
  "\<forall>w \<in> set (f # fs). c \<notin> set w \<Longrightarrow> split_on c (f @ concat (map (\<lambda>g. c # g) fs)) = f # fs"
  by (induction fs arbitrary: f) (simp_all add: split_on_single split_on_append)

text \<open>However its words are spaced, a mnemonic derives the same keys as its canonical spelling.\<close>

lemma Fields_of_canonical:
  assumes "list_all (\<lambda>w. w \<noteq> '''' \<and> list_all (\<lambda>c. \<not> is_space c) w) (f # fs)"
  shows "Fields_of (f @ concat (map (\<lambda>g. CHR '' '' # g) fs)) = f # fs"
proof -
  have sp: "is_space (CHR '' '')" by (simp add: is_space_def)
  have plain: "map (\<lambda>c. if is_space c then CHR '' '' else c) w = w" "CHR '' '' \<notin> set w" if "w \<in> set (f # fs)" for w
    using assms that sp by (auto simp: list_all_iff intro!: map_idI)
  have "map (\<lambda>c. if is_space c then CHR '' '' else c) (f @ concat (map (\<lambda>g. CHR '' '' # g) fs))
      = f @ concat (map (\<lambda>g. CHR '' '' # g) fs)"
    using plain(1) sp by (simp add: map_concat comp_def cong: map_cong)
  moreover have "split_on (CHR '' '') (f @ concat (map (\<lambda>g. CHR '' '' # g) fs)) = f # fs"
    by (rule split_on_words) (use plain(2) in blast)
  moreover have "filter (\<lambda>w. w \<noteq> '''') (f # fs) = f # fs"
    using assms by (auto simp: list_all_iff filter_id_conv)
  ultimately show ?thesis unfolding Fields_of_def by simp
qed

section \<open>Requests and policy\<close>

definition PurposeWithdraw :: string where "PurposeWithdraw = ''withdraw''"
definition PurposeSweep :: string where "PurposeSweep = ''sweep''"
definition PurposeTopup :: string where "PurposeTopup = ''topup''"

record sign_meta =
  sm_to_address :: string
  sm_contract :: string
  sm_amount_units :: string
  sm_amount_sun :: int

record sign_request =
  sr_purpose :: string
  sr_path :: string
  sr_address :: string
  sr_tx :: "transaction option"
  sr_meta :: sign_meta

record sign_response =
  sp_txid :: string
  sp_tx :: transaction

record policy =
  po_topup_whitelist :: "(string \<times> string) list"
  po_topup_max_sun :: int
  po_gas_account_address :: string
  po_sweep_destination :: string
  po_withdraw_from :: string
  po_allowed_contracts :: "string list"

text \<open>\<open>int64(conf.MaxSingleTopupTRX * 1e6)\<close>.\<close>

definition to_sun :: "float64 \<Rightarrow> int" where
  "to_sun trx = int_of_float (fl64 (trx * 1000000))"

definition PolicyFromConfig :: "config \<Rightarrow> policy" where
  "PolicyFromConfig c =
     (let topup = ec_auto_topup (cf_energy c)
      in \<lparr>po_topup_whitelist =
            map (\<lambda>(name, p). (name, tp_deposit_address_url p))
              (filter (\<lambda>(name, p). tp_deposit_address_url p \<noteq> '''') (at_providers topup)),
          po_topup_max_sun =
            foldl (\<lambda>m (name, p). if to_sun (tp_max_single_topup_trx p) > m
                                 then to_sun (tp_max_single_topup_trx p) else m) 0 (at_providers topup),
          po_gas_account_address = at_source_address topup,
          po_sweep_destination = sys_address (wc_sweep_wallet (cf_wallet c)),
          po_withdraw_from = sys_address (wc_hot_wallet (cf_wallet c)),
          po_allowed_contracts = map tc_contract (filter tc_enabled (wc_tokens (cf_wallet c)))\<rparr>)"

subsection \<open>The body of a TRX transfer\<close>

text \<open>
  \<open>json.Unmarshal\<close> into the anonymous struct: a missing or null field is the zero value, a value of
  another kind is an error (\<open>None\<close>). Field names are matched as the node spells them.
\<close>

definition field :: "string \<Rightarrow> (string \<times> json) list \<Rightarrow> json" where
  "field k kvs = (case map_of kvs k of None \<Rightarrow> JNull | Some v \<Rightarrow> v)"

fun get_string :: "json \<Rightarrow> string option" where
  "get_string JNull = Some ''''"
| "get_string (JStr s) = Some s"
| "get_string _ = None"

fun get_int64 :: "json \<Rightarrow> int option" where
  "get_int64 JNull = Some 0"
| "get_int64 (JNum t) = ParseInt t"
| "get_int64 _ = None"

fun get_object :: "json \<Rightarrow> (string \<times> json) list option" where
  "get_object JNull = Some []"
| "get_object (JObj kvs) = Some kvs"
| "get_object _ = None"

definition contract_fields :: "json \<Rightarrow> (string \<times> int) option" where
  "contract_fields j =
     (case get_object j of
        None \<Rightarrow> None
      | Some kvs \<Rightarrow>
          (case (get_string (field ''type'' kvs),
                 Option.bind (get_object (field ''parameter'' kvs)) (\<lambda>p.
                   Option.bind (get_object (field ''value'' p)) (\<lambda>v. get_int64 (field ''amount'' v)))) of
             (Some t, Some a) \<Rightarrow> Some (t, a)
           | _ \<Rightarrow> None))"

fun all_fields :: "json list \<Rightarrow> (string \<times> int) list option" where
  "all_fields [] = Some []"
| "all_fields (j # js) =
     (case (contract_fields j, all_fields js) of (Some c, Some cs) \<Rightarrow> Some (c # cs) | _ \<Rightarrow> None)"

fun raw_contracts :: "json \<Rightarrow> (string \<times> int) list option" where
  "raw_contracts JNull = Some []"
| "raw_contracts (JArr js) = all_fields js"
| "raw_contracts _ = None"

definition checkTRXTransferBody :: "transaction \<Rightarrow> int \<Rightarrow> go_error option" where
  "checkTRXTransferBody tx amountSun =
     (case tx_raw_data tx of
        None \<Rightarrow> None
      | Some kvs \<Rightarrow>
          case raw_contracts (field ''contract'' kvs) of
            None \<Rightarrow> None
          | Some [] \<Rightarrow> None
          | Some ((t, amount) # _) \<Rightarrow>
              if t \<noteq> ''TransferContract'' then
                Some (errors_new (''signer: expected TransferContract, got '' @ t))
              else if amount \<noteq> amountSun then
                Some (errors_new (''signer: declared '' @ big_String amountSun @
                  '' sun but the transaction moves '' @ big_String amount @ '' sun''))
              else None)"

subsection \<open>Checks\<close>

text \<open>A check returns the audit reason and the error; both are empty when it passes.\<close>

definition checkContract :: "(bytes \<Rightarrow> bytes) \<Rightarrow> policy \<Rightarrow> transaction \<Rightarrow> sign_meta \<Rightarrow> string \<times> go_error option" where
  "checkContract kec po tx m =
     (if po_allowed_contracts po \<noteq> [] \<and> sm_contract m \<notin> set (po_allowed_contracts po) then
        (''contract not allowed'', Some (errors_new (''signer: contract '' @ sm_contract m @ '' is not allowed'')))
      else if sm_to_address m = '''' \<or> \<not> IsValidAddress (sm_to_address m) then
        (''invalid destination'', Some (errors_new ''signer: invalid destination address''))
      else case SetString (sm_amount_units m) of
        None \<Rightarrow> (''invalid amount'', Some (errors_new ''signer: invalid amount''))
      | Some amount \<Rightarrow>
          if amount \<le> 0 then (''invalid amount'', Some (errors_new ''signer: invalid amount''))
          else case EncodeTRC20Transfer kec (sm_to_address m) amount of
            Inl e \<Rightarrow> (''encode failed'', Some e)
          | Inr want \<Rightarrow>
              if \<not> Contains (ToLower (tx_raw_data_hex tx)) (ToLower want) then
                (''calldata mismatch'',
                 Some (errors_new ''signer: transaction body does not match the declared transfer''))
              else ('''', None))"

definition checkTopup :: "policy \<Rightarrow> string \<Rightarrow> transaction \<Rightarrow> sign_meta \<Rightarrow> string \<times> go_error option" where
  "checkTopup po address tx m =
     (if po_gas_account_address po = '''' \<or> address \<noteq> po_gas_account_address po then
        (''topup from non gas account'',
         Some (errors_new ''signer: topups may only originate from the gas account''))
      else if \<not> list_ex (\<lambda>(name, addr). addr = sm_to_address m) (po_topup_whitelist po) then
        (''topup destination not whitelisted'',
         Some (errors_new (''signer: '' @ sm_to_address m @ '' is not a whitelisted provider deposit address'')))
      else if sm_amount_sun m \<le> 0 \<or> (0 < po_topup_max_sun po \<and> po_topup_max_sun po < sm_amount_sun m) then
        (''topup amount out of range'',
         Some (errors_new (''signer: topup amount '' @ big_String (sm_amount_sun m) @
           '' sun exceeds the per transfer cap'')))
      else if sm_contract m \<noteq> '''' then
        (''topup must be plain trx'', Some (errors_new ''signer: topups must be plain TRX transfers''))
      else case AddressToHex (sm_to_address m) of
        Inl e \<Rightarrow> (''bad destination'', Some e)
      | Inr toHex \<Rightarrow>
          if \<not> Contains (ToLower (tx_raw_data_hex tx)) (ToLower toHex) then
            (''topup body mismatch'',
             Some (errors_new ''signer: transaction body does not contain the whitelisted destination''))
          else case checkTRXTransferBody tx (sm_amount_sun m) of
            Some e \<Rightarrow> (''topup body mismatch'', Some e)
          | None \<Rightarrow> ('''', None))"

definition check :: "(bytes \<Rightarrow> bytes) \<Rightarrow> policy \<Rightarrow> sign_request \<Rightarrow> string \<times> go_error option" where
  "check kec po req =
     (case sr_tx req of
        None \<Rightarrow> (''empty tx'', Some (errors_new ''signer: empty transaction''))
      | Some tx \<Rightarrow>
          if tx_raw_data_hex tx = '''' then (''empty tx'', Some (errors_new ''signer: empty transaction''))
          else if sr_path req = '''' then
            (''empty path'', Some (errors_new ''signer: empty derivation path''))
          else if sr_purpose req = PurposeWithdraw then
            if po_withdraw_from po \<noteq> '''' \<and> sr_address req \<noteq> po_withdraw_from po then
              (''withdraw from non hot wallet'',
               Some (errors_new ''signer: withdrawals must originate from the hot wallet''))
            else checkContract kec po tx (sr_meta req)
          else if sr_purpose req = PurposeSweep then
            if po_sweep_destination po \<noteq> '''' \<and> sm_to_address (sr_meta req) \<noteq> po_sweep_destination po then
              (''sweep to non finance wallet'',
               Some (errors_new (''signer: sweep destination '' @ sm_to_address (sr_meta req) @
                 '' is not the finance wallet'')))
            else checkContract kec po tx (sr_meta req)
          else if sr_purpose req = PurposeTopup then checkTopup po (sr_address req) tx (sr_meta req)
          else (''unknown purpose'', Some (errors_new (''signer: unknown purpose '' @ sr_purpose req))))"

section \<open>The handler\<close>

text \<open>The signer's own state: its master key and policy; \<open>sv_fail\<close> is a failing audit insert.\<close>

record ('m, 'k) service =
  sv_crypto :: "('m, 'k) crypto"
  sv_master :: 'm
  sv_policy :: policy
  sv_now :: time
  sv_fail :: bool

definition recordAudit ::
  "('m, 'k) service \<Rightarrow> sign_request \<Rightarrow> string \<Rightarrow> string \<Rightarrow> bool \<Rightarrow> string \<Rightarrow> world \<Rightarrow> world" where
  "recordAudit s req txid caller allowed reason w =
     (if sv_fail s then w
      else w\<lparr>audits := audits w @
        [\<lparr>sa_id = fresh_id (map sa_id (audits w)), sa_purpose = sr_purpose req, sa_path = sr_path req,
          sa_address = sr_address req, sa_txid = txid, sa_caller = caller, sa_allowed = allowed,
          sa_reason = reason, sa_created_at = sv_now s\<rparr>]\<rparr>)"

definition Sign ::
  "('m, 'k) service \<Rightarrow> string \<Rightarrow> sign_request \<Rightarrow> world \<Rightarrow> world \<times> sign_response result" where
  "Sign s caller req w =
     (let cr = sv_crypto s
      in case check (cr_keccak cr) (sv_policy s) req of
        (reason, Some e) \<Rightarrow> (recordAudit s req '''' caller False reason w, Inl e)
      | (_, None) \<Rightarrow>
          case DerivePrivateKey cr (sv_master s) (sr_path req) of
            Inl e \<Rightarrow> (recordAudit s req '''' caller False ''derive failed'' w, Inl e)
          | Inr priv \<Rightarrow>
              case PubKeyToAddress (cr_keccak cr) (cr_pubkey cr priv) of
                Inl e \<Rightarrow> (w, Inl e)
              | Inr addr \<Rightarrow>
                  if sr_address req \<noteq> '''' \<and> addr \<noteq> sr_address req then
                    (recordAudit s req '''' caller False ''path/address mismatch'' w,
                     Inl (errors_new (''signer: derived address '' @ addr @ '' does not match requested '' @
                       sr_address req)))
                  else case SignTransaction (cr_sign_compact cr) (sr_tx req) priv of
                    Inl e \<Rightarrow> (recordAudit s req '''' caller False ''sign failed'' w, Inl e)
                  | Inr stx \<Rightarrow>
                      (recordAudit s req (tx_id stx) caller True '''' w,
                       Inr \<lparr>sp_txid = tx_id stx, sp_tx = stx\<rparr>))"

text \<open>The bearer token every route under \<open>/v1\<close> asks for; an unset token admits everyone.\<close>

definition authorize :: "string \<Rightarrow> string \<Rightarrow> bool" where
  "authorize token header \<longleftrightarrow> token = '''' \<or> TrimPrefix header ''Bearer '' = token"

section \<open>The contract the workers rely on\<close>

locale signing =
  fixes sign :: "sign_request \<Rightarrow> sign_response result"
  assumes sign_same: "sign req = Inr resp \<Longrightarrow>
    \<exists>tx. sr_tx req = Some tx \<and> tx_raw_data_hex (sp_tx resp) = tx_raw_data_hex tx
      \<and> TxIDFromRawHex (tx_raw_data_hex tx) = Inr (sp_txid resp)"
    and sign_id: "sign req = Inr resp \<Longrightarrow> sp_txid resp = tx_id (sp_tx resp) \<and> tx_signature (sp_tx resp) \<noteq> []"
begin

text \<open>What is signed is determined by the bytes the worker asked for.\<close>

lemma sign_id_of_raw:
  assumes "sign req = Inr resp" and "sign req' = Inr resp'" and "sr_tx req = sr_tx req'"
  shows "sp_txid resp = sp_txid resp'"
  using sign_same [OF assms(1)] sign_same [OF assms(2)] assms(3) by auto

end

lemma SignTransaction_fields:
  "SignTransaction sc txp priv = Inr tx' \<Longrightarrow>
     \<exists>tx. txp = Some tx \<and> tx_raw_data_hex tx' = tx_raw_data_hex tx
       \<and> TxIDFromRawHex (tx_raw_data_hex tx) = Inr (tx_id tx') \<and> tx_signature tx' \<noteq> []"
  by (auto simp: SignTransaction_def split: option.splits if_splits sum.splits)

lemma Sign_Inr:
  assumes "Sign s caller req w = (w', Inr resp)"
  obtains priv where
    "snd (check (cr_keccak (sv_crypto s)) (sv_policy s) req) = None"
    "DerivePrivateKey (sv_crypto s) (sv_master s) (sr_path req) = Inr priv"
    "sr_address req = '''' \<or> PubKeyToAddress (cr_keccak (sv_crypto s)) (cr_pubkey (sv_crypto s) priv) = Inr (sr_address req)"
    "SignTransaction (cr_sign_compact (sv_crypto s)) (sr_tx req) priv = Inr (sp_tx resp)"
    "sp_txid resp = tx_id (sp_tx resp)"
    "w' = recordAudit s req (sp_txid resp) caller True '''' w"
  using assms unfolding Sign_def Let_def
  by (auto split: prod.splits option.splits sum.splits if_splits)

interpretation service: signing "\<lambda>req. snd (Sign s caller req w)" for s caller w
proof
  fix req resp
  assume "snd (Sign s caller req w) = Inr resp"
  then obtain w' where s: "Sign s caller req w = (w', Inr resp)" by (metis prod.collapse)
  from s show "\<exists>tx. sr_tx req = Some tx \<and> tx_raw_data_hex (sp_tx resp) = tx_raw_data_hex tx
      \<and> TxIDFromRawHex (tx_raw_data_hex tx) = Inr (sp_txid resp)"
    by (rule Sign_Inr) (auto dest: SignTransaction_fields)
  from s show "sp_txid resp = tx_id (sp_tx resp) \<and> tx_signature (sp_tx resp) \<noteq> []"
    by (rule Sign_Inr) (auto dest: SignTransaction_fields)
qed

section \<open>Properties\<close>

lemma checkContract_ok:
  assumes "checkContract kec po tx m = (r, None)"
  shows "IsValidAddress (sm_to_address m)
    \<and> (po_allowed_contracts po = [] \<or> sm_contract m \<in> set (po_allowed_contracts po))
    \<and> (\<exists>amount want. SetString (sm_amount_units m) = Some amount \<and> 0 < amount
        \<and> EncodeTRC20Transfer kec (sm_to_address m) amount = Inr want
        \<and> Contains (ToLower (tx_raw_data_hex tx)) want)"
proof -
  from assms obtain amount want where "SetString (sm_amount_units m) = Some amount" "0 < amount"
    and want: "EncodeTRC20Transfer kec (sm_to_address m) amount = Inr want"
    and "Contains (ToLower (tx_raw_data_hex tx)) (ToLower want)" "IsValidAddress (sm_to_address m)"
      "po_allowed_contracts po = [] \<or> sm_contract m \<in> set (po_allowed_contracts po)"
    by (auto simp: checkContract_def split: if_splits option.splits sum.splits)
  moreover have "ToLower want = want"
    using want by (auto simp: EncodeTRC20Transfer_def Let_def split: sum.splits if_splits)
  ultimately show ?thesis by auto
qed

text \<open>C11. What the service signs for a withdrawal or a sweep obeys the policy: a valid destination, a
  positive amount, an allowed contract, the calldata of exactly that transfer inside the signed bytes,
  a withdrawal only out of the hot wallet and a sweep only to the finance wallet, and the key is the
  one of the address named in the request.\<close>

theorem Sign_transfer_policy:
  assumes "Sign s caller req w = (w', Inr resp)" and "sr_purpose req \<in> {PurposeWithdraw, PurposeSweep}"
  shows "(\<exists>amount want. SetString (sm_amount_units (sr_meta req)) = Some amount \<and> 0 < amount
      \<and> EncodeTRC20Transfer (cr_keccak (sv_crypto s)) (sm_to_address (sr_meta req)) amount = Inr want
      \<and> Contains (ToLower (tx_raw_data_hex (sp_tx resp))) want)
    \<and> IsValidAddress (sm_to_address (sr_meta req))
    \<and> (po_allowed_contracts (sv_policy s) = []
       \<or> sm_contract (sr_meta req) \<in> set (po_allowed_contracts (sv_policy s)))
    \<and> (sr_purpose req = PurposeWithdraw \<longrightarrow>
        po_withdraw_from (sv_policy s) \<in> {'''', sr_address req})
    \<and> (sr_purpose req = PurposeSweep \<longrightarrow>
        po_sweep_destination (sv_policy s) \<in> {'''', sm_to_address (sr_meta req)})
    \<and> (sr_address req = '''' \<or>
        DeriveAddress (sv_crypto s) (sv_master s) (sr_path req) = Inr (sr_address req))"
proof -
  from assms(1) obtain priv where c: "snd (check (cr_keccak (sv_crypto s)) (sv_policy s) req) = None"
    and d: "DerivePrivateKey (sv_crypto s) (sv_master s) (sr_path req) = Inr priv"
      "sr_address req = '''' \<or> PubKeyToAddress (cr_keccak (sv_crypto s)) (cr_pubkey (sv_crypto s) priv) = Inr (sr_address req)"
    and t: "SignTransaction (cr_sign_compact (sv_crypto s)) (sr_tx req) priv = Inr (sp_tx resp)"
    by (rule Sign_Inr)
  from SignTransaction_fields [OF t] obtain tx where tx: "sr_tx req = Some tx"
    "tx_raw_data_hex (sp_tx resp) = tx_raw_data_hex tx" by blast
  have "\<exists>r. checkContract (cr_keccak (sv_crypto s)) (sv_policy s) tx (sr_meta req) = (r, None)"
    and "sr_purpose req = PurposeWithdraw \<Longrightarrow> po_withdraw_from (sv_policy s) \<in> {'''', sr_address req}"
    and "sr_purpose req = PurposeSweep \<Longrightarrow> po_sweep_destination (sv_policy s) \<in> {'''', sm_to_address (sr_meta req)}"
    using c tx(1) assms(2)
    by (auto simp: check_def PurposeWithdraw_def PurposeSweep_def prod_eq_iff split: if_splits)
  moreover from this(1) obtain r where "checkContract (cr_keccak (sv_crypto s)) (sv_policy s) tx (sr_meta req) = (r, None)"
    by blast
  from checkContract_ok [OF this] tx(2) have "\<exists>amount want. SetString (sm_amount_units (sr_meta req)) = Some amount \<and> 0 < amount
      \<and> EncodeTRC20Transfer (cr_keccak (sv_crypto s)) (sm_to_address (sr_meta req)) amount = Inr want
      \<and> Contains (ToLower (tx_raw_data_hex (sp_tx resp))) want"
    "IsValidAddress (sm_to_address (sr_meta req))"
    "po_allowed_contracts (sv_policy s) = [] \<or> sm_contract (sr_meta req) \<in> set (po_allowed_contracts (sv_policy s))"
    by auto
  moreover have "sr_address req = '''' \<or> DeriveAddress (sv_crypto s) (sv_master s) (sr_path req) = Inr (sr_address req)"
    using d by (auto simp: DeriveAddress_def)
  ultimately show ?thesis by blast
qed

text \<open>A service on concrete cryptography.\<close>

definition sample_crypto :: "(unit, unit) crypto" where
  "sample_crypto = \<lparr>cr_derive = (\<lambda>_ _. Inr ()), cr_ecpriv = (\<lambda>_. Inr ()), cr_pubkey = (\<lambda>_. replicate 64 1),
     cr_keccak = (\<lambda>_. replicate 32 7), cr_sign_compact = (\<lambda>_ _. replicate 65 27)\<rparr>"

definition sample_service :: "policy \<Rightarrow> (unit, unit) service" where
  "sample_service po = \<lparr>sv_crypto = sample_crypto, sv_master = (), sv_policy = po, sv_now = 0, sv_fail = False\<rparr>"

definition sample_policy :: policy where
  "sample_policy = \<lparr>po_topup_whitelist = [(''p'', sample_address 9)], po_topup_max_sun = 100,
     po_gas_account_address = sample_address 7, po_sweep_destination = sample_address 8,
     po_withdraw_from = sample_address 7, po_allowed_contracts = [''C'']\<rparr>"

definition bare_tx :: "string \<Rightarrow> transaction" where
  "bare_tx raw = \<lparr>tx_visible = False, tx_id = '''', tx_raw_data = None, tx_raw_data_hex = raw, tx_signature = []\<rparr>"

lemma ParsePath_sample: "ParsePath ''m/0'' = Inr [0]"
  by (simp add: ParsePath_def TrimSpace_def is_space_def HasSuffix_def HasPrefix_def TrimRight_def
      hardened_mark_def ParseUint32_def digits_value_def is_digit_def digit_val_def from_digits_def Let_def)

lemma sample_derive: "DeriveAddress sample_crypto () ''m/0'' = Inr (sample_address 7)"
proof -
  show ?thesis
    by (simp add: DeriveAddress_def DerivePrivateKey_def sample_crypto_def PubKeyToAddress_def
        sample_address_def ParsePath_sample)
qed

lemma sample_sign:
  assumes "snd (check (\<lambda>_. replicate 32 7) po req) = None" and "sr_path req = ''m/0''"
    and "sr_address req = sample_address 7" and "sr_tx req = Some (bare_tx (hex_EncodeToString bs))"
    and "bs \<noteq> []"
  shows "\<exists>w' resp. Sign (sample_service po) caller req w = (w', Inr resp)"
proof -
  have "TxIDFromRawHex (hex_EncodeToString bs) = Inr (hex_EncodeToString (sha256 bs))"
    using hex_EncodeToString_no_0x [of bs] by (simp add: TxIDFromRawHex_def TrimPrefix_def)
  moreover have "hex_EncodeToString bs \<noteq> ''''" using assms(5) by (cases bs) simp_all
  ultimately obtain stx where "SignTransaction (\<lambda>_ _. replicate 65 27) (sr_tx req) () = Inr stx"
    using assms(4) by (simp add: SignTransaction_def bare_tx_def signRecoverable_def Let_def)
  then show ?thesis
    using assms(1,2,3) ParsePath_sample
    by (cases "check (\<lambda>_. replicate 32 7) po req")
      (simp add: Sign_def sample_service_def sample_crypto_def DerivePrivateKey_def PubKeyToAddress_def
        sample_address_def)
qed

definition sample_body :: bytes where
  "sample_body = replicate 4 7 @ replicate 12 0 @ replicate 20 9 @ word256 5"

lemma sample_body_nonempty [simp]: "sample_body \<noteq> []" "hex_EncodeToString sample_body \<noteq> ''''"
proof -
  show ne: "sample_body \<noteq> []" by (simp add: sample_body_def)
  then show "hex_EncodeToString sample_body \<noteq> ''''" by (metis length_0_conv length_hex_EncodeToString mult_eq_0_iff zero_neq_numeral)
qed

lemma Contains_refl [simp]: "Contains s s"
  by (auto simp: Contains_iff intro: exI [of _ "[]"])

definition sample_transfer :: sign_request where
  "sample_transfer = \<lparr>sr_purpose = PurposeWithdraw, sr_path = ''m/0'', sr_address = sample_address 7,
     sr_tx = Some (bare_tx (hex_EncodeToString sample_body)),
     sr_meta = \<lparr>sm_to_address = sample_address 9, sm_contract = ''C'', sm_amount_units = ''5'', sm_amount_sun = 0\<rparr>\<rparr>"

lemma sample_address_nonempty [simp]: "sample_address n \<noteq> ''''"
  using address_starts_T(2) [OF raw_sample [of n]] by (auto simp: sample_address_def)

lemma sample_transfer_checked: "snd (check (\<lambda>_. replicate 32 7) sample_policy sample_transfer) = None"
proof -
  have five: "SetString ''5'' = Some 5" by code_simp
  have e: "EncodeTRC20Transfer (\<lambda>_. replicate 32 7) (sample_address 9) 5 = Inr (hex_EncodeToString sample_body)"
    by (simp add: sample_body_def sample_address_def EncodeTRC20Transfer_eq transfer_selector_def)
  show ?thesis
    by (simp add: check_def checkContract_def sample_transfer_def sample_policy_def bare_tx_def five e
        PurposeWithdraw_def)
qed

theorem Sign_transfer_policy_witness:
  "\<exists>w' resp. Sign (sample_service sample_policy) ''w'' sample_transfer empty_world = (w', Inr resp)
     \<and> sm_to_address (sr_meta sample_transfer) = sample_address 9
     \<and> IsValidAddress (sm_to_address (sr_meta sample_transfer))"
proof -
  have "\<exists>w' resp. Sign (sample_service sample_policy) ''w'' sample_transfer empty_world = (w', Inr resp)"
    by (rule sample_sign [OF sample_transfer_checked, where bs = sample_body]) (simp_all add: sample_transfer_def)
  then obtain w' resp where s: "Sign (sample_service sample_policy) ''w'' sample_transfer empty_world = (w', Inr resp)"
    by blast
  from Sign_transfer_policy [OF s] s show ?thesis by (simp add: sample_transfer_def)
qed

text \<open>A decoded body whose first contract is of a kind and moves an amount, as the node spells it.\<close>

definition body_moves :: "(string \<times> json) list \<Rightarrow> string \<Rightarrow> int \<Rightarrow> bool" where
  "body_moves kvs kind amount \<longleftrightarrow>
     (\<exists>ct rest p v num. map_of kvs ''contract'' = Some (JArr (JObj ct # rest)) \<and> all_fields rest \<noteq> None
        \<and> map_of ct ''type'' = Some (JStr kind) \<and> map_of ct ''parameter'' = Some (JObj p)
        \<and> map_of p ''value'' = Some (JObj v) \<and> map_of v ''amount'' = Some (JNum num) \<and> ParseInt num = Some amount)"

lemma body_moves_checked:
  assumes "checkTRXTransferBody tx sun = None" and "tx_raw_data tx = Some kvs" and "body_moves kvs kind amount"
  shows "kind = ''TransferContract'' \<and> amount = sun"
proof -
  obtain cs where "raw_contracts (field ''contract'' kvs) = Some ((kind, amount) # cs)"
    using assms(3) by (auto simp: body_moves_def field_def contract_fields_def)
  then show ?thesis using assms(1,2) by (simp add: checkTRXTransferBody_def split: if_splits)
qed

text \<open>C22. A top-up signature is only given to the gas account and its own key, for a plain TRX transfer
  (no contract is declared) to a destination on the whitelist, with a declared amount that is positive
  and within the cap, and for bytes that name that destination; when the node's decoded body is there
  and readable, its first contract is a TRX transfer of exactly the declared amount.\<close>

theorem Sign_topup_policy:
  assumes "Sign s caller req w = (w', Inr resp)" and "sr_purpose req = PurposeTopup"
  shows "po_gas_account_address (sv_policy s) = sr_address req \<and> sr_address req \<noteq> ''''
    \<and> sm_to_address (sr_meta req) \<in> snd ` set (po_topup_whitelist (sv_policy s))
    \<and> 0 < sm_amount_sun (sr_meta req)
    \<and> (po_topup_max_sun (sv_policy s) \<le> 0 \<or> sm_amount_sun (sr_meta req) \<le> po_topup_max_sun (sv_policy s))
    \<and> (\<exists>toHex. AddressToHex (sm_to_address (sr_meta req)) = Inr toHex
        \<and> Contains (ToLower (tx_raw_data_hex (sp_tx resp))) (ToLower toHex))
    \<and> sm_contract (sr_meta req) = ''''
    \<and> DeriveAddress (sv_crypto s) (sv_master s) (sr_path req) = Inr (sr_address req)
    \<and> (\<exists>tx. sr_tx req = Some tx \<and> tx_raw_data_hex (sp_tx resp) = tx_raw_data_hex tx
        \<and> (\<forall>kvs kind amount. tx_raw_data tx = Some kvs \<longrightarrow> body_moves kvs kind amount \<longrightarrow>
             kind = ''TransferContract'' \<and> amount = sm_amount_sun (sr_meta req)))"
proof -
  from assms(1) obtain priv where c: "snd (check (cr_keccak (sv_crypto s)) (sv_policy s) req) = None"
    and d: "DerivePrivateKey (sv_crypto s) (sv_master s) (sr_path req) = Inr priv"
      "sr_address req = '''' \<or> PubKeyToAddress (cr_keccak (sv_crypto s)) (cr_pubkey (sv_crypto s) priv) = Inr (sr_address req)"
    and t: "SignTransaction (cr_sign_compact (sv_crypto s)) (sr_tx req) priv = Inr (sp_tx resp)"
    by (rule Sign_Inr)
  from SignTransaction_fields [OF t] obtain tx where tx: "sr_tx req = Some tx"
    "tx_raw_data_hex (sp_tx resp) = tx_raw_data_hex tx" by blast
  have "snd (checkTopup (sv_policy s) (sr_address req) tx (sr_meta req)) = None"
    using c tx(1) assms(2)
    by (auto simp: check_def PurposeWithdraw_def PurposeSweep_def PurposeTopup_def split: if_splits)
  then have top: "po_gas_account_address (sv_policy s) = sr_address req \<and> sr_address req \<noteq> ''''
      \<and> sm_to_address (sr_meta req) \<in> snd ` set (po_topup_whitelist (sv_policy s))
      \<and> 0 < sm_amount_sun (sr_meta req)
      \<and> (po_topup_max_sun (sv_policy s) \<le> 0 \<or> sm_amount_sun (sr_meta req) \<le> po_topup_max_sun (sv_policy s))
      \<and> (\<exists>toHex. AddressToHex (sm_to_address (sr_meta req)) = Inr toHex
          \<and> Contains (ToLower (tx_raw_data_hex (sp_tx resp))) (ToLower toHex))
      \<and> sm_contract (sr_meta req) = ''''" and body: "checkTRXTransferBody tx (sm_amount_sun (sr_meta req)) = None"
    using tx by (force simp: checkTopup_def list_ex_iff split: if_splits sum.splits option.splits)+
  then have "DeriveAddress (sv_crypto s) (sv_master s) (sr_path req) = Inr (sr_address req)"
    using d by (auto simp: DeriveAddress_def)
  then show ?thesis using top tx body_moves_checked [OF body] by blast
qed

definition sample_topup :: sign_request where
  "sample_topup = \<lparr>sr_purpose = PurposeTopup, sr_path = ''m/0'', sr_address = sample_address 7,
     sr_tx = Some (bare_tx (hex_EncodeToString (AddressPrefix # replicate 20 9))),
     sr_meta = \<lparr>sm_to_address = sample_address 9, sm_contract = '''', sm_amount_units = '''', sm_amount_sun = 60\<rparr>\<rparr>"

lemma sample_topup_checked: "snd (check (\<lambda>_. replicate 32 7) sample_policy sample_topup) = None"
  by (simp add: check_def checkTopup_def sample_topup_def sample_policy_def bare_tx_def
      PurposeWithdraw_def PurposeSweep_def PurposeTopup_def checkTRXTransferBody_def
      del: hex_EncodeToString_Cons) simp

theorem Sign_topup_policy_witness:
  "\<exists>w' resp. Sign (sample_service sample_policy) ''w'' sample_topup empty_world = (w', Inr resp)
     \<and> 0 < sm_amount_sun (sr_meta sample_topup)"
proof -
  have "\<exists>w' resp. Sign (sample_service sample_policy) ''w'' sample_topup empty_world = (w', Inr resp)"
    by (rule sample_sign [OF sample_topup_checked, where bs = "AddressPrefix # replicate 20 9"]) (simp_all add: sample_topup_def)
  then obtain w' resp where s: "Sign (sample_service sample_policy) ''w'' sample_topup empty_world = (w', Inr resp)"
    by blast
  from Sign_topup_policy [OF s] s show ?thesis by (simp add: sample_topup_def)
qed

lemma Contains_around:
  assumes "raw' = pre @ raw @ post" and "Contains (ToLower raw) (ToLower h)"
  shows "Contains (ToLower raw') (ToLower h)"
  using assms by (auto simp: Contains_iff ToLower_def) (metis append.assoc)

text \<open>
  A gap recorded with the findings: the allowlist is applied to the declared contract, and the bytes are
  only searched for the calldata. What surrounds it, and so the contract that is called, is free.
\<close>

theorem contract_undeclared:
  assumes "snd (checkContract kec po tx m) = None" and "tx_raw_data_hex tx' = pre @ tx_raw_data_hex tx @ post"
  shows "snd (checkContract kec po tx' m) = None"
  using Contains_around [OF assms(2)] assms(1) by (auto simp: checkContract_def split: if_splits sum.splits option.splits)

text \<open>
  The gap recorded with the findings: without \<open>raw_data\<close> the cap is on the declared amount only. Any
  bytes that contain the destination are signed, whatever amount they move.
\<close>

theorem topup_amount_undeclared:
  assumes "snd (checkTopup po address tx m) = None" and "tx_raw_data_hex tx' = pre @ tx_raw_data_hex tx @ post"
    and "tx_raw_data tx' = None"
  shows "snd (checkTopup po address tx' m) = None"
  using Contains_around [OF assms(2)] assms(1,3)
  by (auto simp: checkTopup_def checkTRXTransferBody_def split: if_splits sum.splits option.splits)

text \<open>Every decision leaves a trace: with a working audit table a request adds exactly one entry that
  names the request, allowed with the signed id on success and refused with a reason otherwise (a key
  whose public point has no address is the one silent refusal), and no entry is ever rewritten.\<close>

theorem Sign_audited:
  assumes "sv_fail s = False"
  shows "(\<exists>a. audits (fst (Sign s caller req w)) = audits w @ [a]
        \<and> sa_purpose a = sr_purpose req \<and> sa_path a = sr_path req \<and> sa_address a = sr_address req
        \<and> sa_caller a = caller
        \<and> (case snd (Sign s caller req w) of
             Inr resp \<Rightarrow> sa_allowed a = True \<and> sa_txid a = sp_txid resp
           | Inl _ \<Rightarrow> sa_allowed a = False \<and> sa_txid a = '''' \<and> sa_reason a \<noteq> ''''))
    \<or> (audits (fst (Sign s caller req w)) = audits w
        \<and> (\<exists>priv e. DerivePrivateKey (sv_crypto s) (sv_master s) (sr_path req) = Inr priv
            \<and> PubKeyToAddress (cr_keccak (sv_crypto s)) (cr_pubkey (sv_crypto s) priv) = Inl e))"
proof -
  have "snd (checkContract k po tx m) = None \<or> fst (checkContract k po tx m) \<noteq> ''''" for k po tx m
    by (simp add: checkContract_def split: option.split sum.split)
  moreover have "snd (checkTopup po ad tx m) = None \<or> fst (checkTopup po ad tx m) \<noteq> ''''" for po ad tx m
    by (simp add: checkTopup_def split: option.split sum.split)
  ultimately have "snd (check k po q) = None \<or> fst (check k po q) \<noteq> ''''" for k po q
    by (simp add: check_def split: option.split)
  then have r: "snd (check k po q) = Some e \<Longrightarrow> fst (check k po q) \<noteq> ''''" for k po q e
    by (metis option.discI)
  obtain reason err where c: "check (cr_keccak (sv_crypto s)) (sv_policy s) req = (reason, err)"
    by (rule prod.exhaust)
  show ?thesis
  proof (cases err)
    case (Some e)
    then show ?thesis using c assms r [of "cr_keccak (sv_crypto s)" "sv_policy s" req e]
      by (simp add: Sign_def recordAudit_def)
  next
    case None
    note sign = Sign_def [of s caller req w, unfolded Let_def c None, simplified]
    show ?thesis
    proof (cases "DerivePrivateKey (sv_crypto s) (sv_master s) (sr_path req)")
      case (Inl e)
      then show ?thesis using assms by (simp add: sign recordAudit_def)
    next
      case (Inr priv)
      then show ?thesis using assms
        by (cases "PubKeyToAddress (cr_keccak (sv_crypto s)) (cr_pubkey (sv_crypto s) priv)";
            cases "SignTransaction (cr_sign_compact (sv_crypto s)) (sr_tx req) priv")
          (simp_all add: sign recordAudit_def)
    qed
  qed
qed

theorem Sign_audited_witness:
  "length (audits (fst (Sign (sample_service sample_policy) ''w'' (sample_topup\<lparr>sr_path := ''''\<rparr>) empty_world))) = 1"
proof -
  have "sv_fail (sample_service sample_policy) = False" by (simp add: sample_service_def)
  from Sign_audited [OF this, of "''w''" "sample_topup\<lparr>sr_path := ''''\<rparr>" empty_world] show ?thesis
    by (auto simp: empty_world_def DerivePrivateKey_def ParsePath_def TrimSpace_def sample_topup_def)
qed

subsection \<open>Derivation paths\<close>

lemma parse_elements_append:
  "parse_elements (ps @ qs) =
     (case parse_elements ps of
        Inl e \<Rightarrow> Inl e
      | Inr a \<Rightarrow> (case parse_elements qs of Inl e \<Rightarrow> Inl e | Inr b \<Rightarrow> Inr (a @ b)))"
  by (induction ps) (auto simp: Let_def split: sum.split option.split)

lemma is_digit_not_mark: "is_digit c \<Longrightarrow> \<not> hardened_mark c"
  by (auto simp: hardened_mark_def is_digit_def)

lemma last_digit: "is_digit (last (show_nat n))"
  using show_nat_digits [of n] show_nat_nonempty [of n] by (simp add: list_all_iff del: show_nat_nonempty)

lemma show_nat_snoc: "\<exists>a c. show_nat n = a @ [c] \<and> is_digit c"
  using last_digit [of n] show_nat_nonempty [of n] by (metis append_butlast_last_id)

lemma parse_elements_index:
  "n < 2 ^ 32 \<Longrightarrow> parse_elements [show_nat n] = Inr [of_nat n]"
proof -
  assume n: "n < 2 ^ 32"
  obtain a c where s: "show_nat n = a @ [c]" "is_digit c" using show_nat_snoc by blast
  have "c \<noteq> CHR 0x27" "c \<noteq> CHR ''h''" using s(2) is_digit_not_mark by (auto simp: hardened_mark_def)
  then have "\<not> HasSuffix (show_nat n) [CHR 0x27]" "\<not> HasSuffix (show_nat n) ''h''"
    "TrimRight hardened_mark (show_nat n) = show_nat n"
    using s by (simp_all add: HasSuffix_def HasPrefix_def TrimRight_def hardened_mark_def)
  with n show ?thesis by (simp add: ParseUint32_def)
qed

lemma split_on_snoc:
  "split_on c (s @ c # t) = split_on c s @ split_on c t"
  by (induction s) (auto split: list.split)

lemma TrimRight_split: "\<exists>k. s = TrimRight (\<lambda>x. x = c) s @ replicate k c"
proof -
  have "rev s = takeWhile (\<lambda>x. x = c) (rev s) @ dropWhile (\<lambda>x. x = c) (rev s)" by simp
  then have "s = rev (dropWhile (\<lambda>x. x = c) (rev s)) @ rev (takeWhile (\<lambda>x. x = c) (rev s))"
    by (metis rev_append rev_rev_ident)
  moreover have "rev (takeWhile (\<lambda>x. x = c) (rev s)) = replicate (length (takeWhile (\<lambda>x. x = c) (rev s))) c"
    by (metis rev_replicate takeWhile_replicate_id)
  ultimately show ?thesis by (metis TrimRight_def)
qed

lemma split_on_trailing:
  "split_on c (s @ replicate k c) = split_on c s @ replicate k []"
proof (induction k)
  case (Suc k)
  have "split_on c (s @ replicate (Suc k) c) = split_on c ((s @ replicate k c) @ c # [])"
    by (simp add: replicate_append_same)
  also have "\<dots> = split_on c (s @ replicate k c) @ [[]]" by (subst split_on_snoc) simp
  finally show ?case using Suc by (simp add: replicate_append_same)
qed simp

lemma parse_elements_blank [simp]: "parse_elements (ps @ replicate k []) = parse_elements ps"
proof -
  have "parse_elements (replicate k []) = Inr []" by (induction k) simp_all
  then show ?thesis by (simp add: parse_elements_append split: sum.split)
qed

lemma TrimSpace_id:
  assumes "s \<noteq> []" and "\<not> is_space (hd s)" and "\<not> is_space (last s)"
  shows "TrimSpace s = s"
proof -
  have "dropWhile is_space s = s" using assms(1,2) by (cases s) auto
  moreover have "dropWhile is_space (rev s) = rev s" using assms(1,3) by (cases s rule: rev_cases) auto
  ultimately show ?thesis by (simp add: TrimSpace_def)
qed

lemma is_digit_not_space: "is_digit c \<Longrightarrow> \<not> is_space c"
  by (auto simp: is_digit_def is_space_def)

text \<open>Allocating a child address and deriving it agree: the path built for index \<open>i\<close> under an account
  path is parsed into the account's indexes followed by \<open>i\<close>, so two indexes below \<open>2^32\<close> never name
  the same child.\<close>

theorem ParsePath_AddressPath:
  assumes "ParsePath account = Inr idx" and "TrimSpace account = account"
    and "0 \<le> i" and "i < 2 ^ 32"
  shows "ParsePath (AddressPath account i) = Inr (idx @ [of_int i])"
proof -
  let ?t = "TrimRight (\<lambda>c. c = CHR ''/'') account"
  obtain k where k: "account = ?t @ replicate k (CHR ''/'')" using TrimRight_split by blast
  from assms(1,2) obtain ps where ps: "split_on (CHR ''/'') account = ''m'' # ps" "parse_elements ps = Inr idx"
    by (auto simp: ParsePath_def split: list.splits if_splits sum.splits)
  then have sp: "split_on (CHR ''/'') ?t @ replicate k [] = ''m'' # ps"
    using split_on_trailing [of "CHR ''/''" ?t k] k by simp
  then obtain qs where qs: "split_on (CHR ''/'') ?t = ''m'' # qs" "ps = qs @ replicate k []"
    by (cases "split_on (CHR ''/'') ?t") auto
  have num: "big_String i = show_nat (nat i)" using assms(3) by (simp add: big_String_def)
  have nd: "CHR ''/'' \<notin> set (show_nat (nat i))"
    using show_nat_digits [of "nat i"] by (auto simp: list_all_iff is_digit_def)
  have split: "split_on (CHR ''/'') (AddressPath account i) = ''m'' # (qs @ [show_nat (nat i)])"
    using split_on_snoc [of "CHR ''/''" ?t "show_nat (nat i)"] qs(1) split_on_single [OF nd]
    by (simp add: AddressPath_def num)
  have "?t \<noteq> []" using qs(1) by auto
  moreover have "hd ?t = CHR ''m''" using qs(1) by (cases ?t) (auto split: if_splits list.splits)
  ultimately have "TrimSpace (AddressPath account i) = AddressPath account i"
    using last_digit [of "nat i"]
    by (intro TrimSpace_id) (auto simp: AddressPath_def num is_space_def is_digit_def)
  moreover have "parse_elements qs = Inr idx" using ps(2) qs(2) by simp
  then have "parse_elements (qs @ [show_nat (nat i)]) = Inr (idx @ [of_int i])"
    using parse_elements_index [of "nat i"] assms(3,4)
    by (simp add: parse_elements_append nat_less_iff del: parse_elements.simps)
  ultimately show ?thesis using split by (simp add: ParsePath_def)
qed

theorem ParsePath_AddressPath_witness:
  "ParsePath (AddressPath ''m/0'' 12) = Inr [0, 12]"
  using ParsePath_AddressPath [OF ParsePath_sample, of 12] by (simp add: TrimSpace_def is_space_def)


end
