(* ===== verification/Remote.thy ===== *)
theory Remote
  imports Signer Bloom Merchant
begin

text \<open>
  The two conversations between processes. The signing service over HTTP: its routes
  (\<open>internal/signer/server.go\<close>) and the client the workers hold (\<open>internal/signer/client.go\<close>). The push of
  new addresses from the api to the scanner's filter (\<open>internal/bloom/http.go\<close>). JSON texts of the
  structs are a parameter with their reader; the texts written by hand are written out. TLS is not modelled.
\<close>

section \<open>The signing service\<close>

record http_call =
  hc_path :: string
  hc_authorization :: string
  hc_body :: string

type_synonym http_reply = "int \<times> string"

text \<open>
  The encodings the two sides share. A reader is given how many bytes of the body it may see
  (\<open>http.MaxBytesReader\<close>).
\<close>

record sign_json =
  sj_request :: "sign_request \<Rightarrow> string"
  sj_read_request :: "nat \<Rightarrow> string \<Rightarrow> string + sign_request"
  sj_response :: "sign_response \<Rightarrow> string"
  sj_read_response :: "string \<Rightarrow> string + sign_response"
  sj_read_path :: "nat \<Rightarrow> string \<Rightarrow> string + string"
  sj_read_address :: "string \<Rightarrow> string + string"

definition error_body :: "string \<Rightarrow> string" where
  "error_body m = json_Marshal (JObj [(''error'', JStr m)])"

definition Sign1 ::
  "sign_json \<Rightarrow> ('m, 'k) service \<Rightarrow> string \<Rightarrow> string \<Rightarrow> world \<Rightarrow> world \<times> http_reply" where
  "Sign1 j svc caller body w =
     (case sj_read_request j (2 ^ 20) body of
        Inl m \<Rightarrow> (w, 400, error_body m)
      | Inr req \<Rightarrow>
          (case Sign svc caller req w of
             (w', Inl e) \<Rightarrow> (w', 403, error_body (err_msg e))
           | (w', Inr resp) \<Rightarrow> (w', 200, sj_response j resp)))"

definition DeriveAddress1 :: "sign_json \<Rightarrow> ('m, 'k) service \<Rightarrow> string \<Rightarrow> http_reply" where
  "DeriveAddress1 j svc body =
     (case sj_read_path j (2 ^ 16) body of
        Inl m \<Rightarrow> (400, error_body m)
      | Inr path \<Rightarrow>
          (case DeriveAddress (sv_crypto svc) (sv_master svc) path of
             Inl e \<Rightarrow> (400, error_body (err_msg e))
           | Inr addr \<Rightarrow> (200, json_Marshal (JObj [(''address'', JStr addr), (''path'', JStr path)]))))"

text \<open>The routes, for the method each is registered under.\<close>

definition InitRouter ::
  "sign_json \<Rightarrow> ('m, 'k) service \<Rightarrow> string \<Rightarrow> string \<Rightarrow> http_call \<Rightarrow> world \<Rightarrow> world \<times> http_reply" where
  "InitRouter j svc token caller c w =
     (if hc_path c = ''/healthz'' then (w, 200, json_Marshal (JObj [(''ok'', JBool True)]))
      else if hc_path c \<noteq> ''/v1/sign'' \<and> hc_path c \<noteq> ''/v1/derive'' then (w, 404, ''404 page not found'')
      else if \<not> authorize token (hc_authorization c) then (w, 401, error_body ''unauthorized'')
      else if hc_path c = ''/v1/sign'' then Sign1 j svc caller (hc_body c) w
      else (w, DeriveAddress1 j svc (hc_body c)))"

text \<open>The mTLS subject when there is a client certificate, the peer address otherwise.\<close>

definition callerOf :: "string list \<Rightarrow> string \<Rightarrow> string" where
  "callerOf certificates remoteAddr = (case certificates of [] \<Rightarrow> remoteAddr | c # _ \<Rightarrow> c)"

subsection \<open>The client\<close>

record sign_client =
  cl_endpoint :: string
  cl_token :: string

definition normalizeEndpoint :: "string \<Rightarrow> bool \<Rightarrow> string" where
  "normalizeEndpoint endpoint tlsEnabled =
     (if tlsEnabled \<and> HasPrefix endpoint ''http://'' then ''https://'' @ TrimPrefix endpoint ''http://''
      else if \<not> tlsEnabled \<and> HasPrefix endpoint ''https://'' then ''http://'' @ TrimPrefix endpoint ''https://''
      else endpoint)"

text \<open>\<open>tls\<close> is what \<open>buildTLS\<close> makes of the certificate files, when TLS is enabled.\<close>

definition NewClient :: "string \<Rightarrow> string \<Rightarrow> go_error option option \<Rightarrow> sign_client result" where
  "NewClient endpoint token tls =
     (let c = \<lparr>cl_endpoint = normalizeEndpoint (TrimRight (\<lambda>x. x = CHR ''/'') endpoint) (tls \<noteq> None), cl_token = token\<rparr>
      in case tls of
           Some (Some e) \<Rightarrow> Inl e
         | _ \<Rightarrow> if cl_endpoint c = '''' then Inl (errors_new ''signer: sign.endpoint is required'') else Inr c)"

text \<open>
  A transport takes the endpoint and the call through some state: a connection error, or the reply.
\<close>

type_synonym 's transport = "string \<Rightarrow> http_call \<Rightarrow> 's \<Rightarrow> 's \<times> (string + http_reply)"

definition client_post ::
  "'s transport \<Rightarrow> sign_client \<Rightarrow> string \<Rightarrow> string \<Rightarrow> (string \<Rightarrow> string + 'a) \<Rightarrow> 's \<Rightarrow> 's \<times> 'a result" where
  "client_post http c path payload reader s =
     (case http (cl_endpoint c)
             \<lparr>hc_path = path, hc_authorization = (if cl_token c \<noteq> '''' then ''Bearer '' @ cl_token c else ''''),
              hc_body = payload\<rparr> s of
        (s', Inl m) \<Rightarrow> (s', Inl (errors_new m))
      | (s', Inr (status, raw)) \<Rightarrow>
          (s', if 400 \<le> status then Inl (errors_new (''signer: http '' @ big_String status @ '': '' @ raw))
               else (case reader raw of Inl m \<Rightarrow> Inl (errors_new m) | Inr x \<Rightarrow> Inr x)))"

definition client_Sign ::
  "sign_json \<Rightarrow> 's transport \<Rightarrow> sign_client \<Rightarrow> sign_request \<Rightarrow> 's \<Rightarrow> 's \<times> sign_response result" where
  "client_Sign j http c req = client_post http c ''/v1/sign'' (sj_request j req) (sj_read_response j)"

definition client_DeriveAddress ::
  "sign_json \<Rightarrow> 's transport \<Rightarrow> sign_client \<Rightarrow> string \<Rightarrow> 's \<Rightarrow> 's \<times> string result" where
  "client_DeriveAddress j http c path =
     client_post http c ''/v1/derive'' (json_Marshal (JObj [(''path'', JStr path)])) (sj_read_address j)"

subsection \<open>Client and service together\<close>

definition served ::
  "sign_json \<Rightarrow> ('m, 'k) service \<Rightarrow> string \<Rightarrow> string \<Rightarrow> world transport" where
  "served j svc token caller endpoint c w = (case InitRouter j svc token caller c w of (w', r) \<Rightarrow> (w', Inr r))"

lemma authorize_client [simp]:
  "authorize token (if tok \<noteq> '''' then ''Bearer '' @ tok else '''') \<longleftrightarrow> token = '''' \<or> token = tok"
  by (auto simp: authorize_def TrimPrefix_def HasPrefix_def)

text \<open>C32. Over the wire the service is the service: with the right token a request that reads back ends in
  the same state and the same signature as calling the policy and signer directly, and a refusal reaches
  the client as an error naming it; with a wrong token nothing is signed and nothing is recorded.\<close>

theorem client_Sign_refines:
  assumes "sj_read_request j (2 ^ 20) (sj_request j req) = Inr req"
    and "\<And>w' resp. Sign svc caller req w = (w', Inr resp) \<Longrightarrow> sj_read_response j (sj_response j resp) = Inr resp"
  shows "client_Sign j (served j svc token caller) c req w =
    (if token \<noteq> '''' \<and> cl_token c \<noteq> token
     then (w, Inl (errors_new (''signer: http 401: '' @ error_body ''unauthorized'')))
     else (case Sign svc caller req w of
         (w', Inl e) \<Rightarrow> (w', Inl (errors_new (''signer: http 403: '' @ error_body (err_msg e))))
       | (w', Inr resp) \<Rightarrow> (w', Inr resp)))"
proof -
  have n: "big_String 401 = ''401''" "big_String 403 = ''403''" by code_simp+
  show ?thesis
    using assms
    by (auto simp: client_Sign_def client_post_def served_def InitRouter_def Sign1_def n
        split: prod.split sum.split)
qed

definition one_request_json :: "sign_request \<Rightarrow> sign_response \<Rightarrow> sign_json" where
  "one_request_json req resp =
     \<lparr>sj_request = (\<lambda>_. ''request''),
      sj_read_request = (\<lambda>n t. if t = ''request'' then Inr req else Inl ''invalid character''),
      sj_response = (\<lambda>_. ''response''),
      sj_read_response = (\<lambda>t. if t = ''response'' then Inr resp else Inl ''invalid character''),
      sj_read_path = (\<lambda>n t. Inl ''invalid character''), sj_read_address = (\<lambda>t. Inl ''invalid character'')\<rparr>"

theorem client_Sign_refines_witness:
  "\<exists>w' resp.
     client_Sign (one_request_json sample_transfer resp)
       (served (one_request_json sample_transfer resp) (sample_service sample_policy) ''secret'' ''w'')
       \<lparr>cl_endpoint = ''http://sign'', cl_token = ''secret''\<rparr> sample_transfer empty_world = (w', Inr resp) \<and>
     client_Sign (one_request_json sample_transfer resp)
       (served (one_request_json sample_transfer resp) (sample_service sample_policy) ''secret'' ''w'')
       \<lparr>cl_endpoint = ''http://sign'', cl_token = ''guess''\<rparr> sample_transfer empty_world =
         (empty_world, Inl (errors_new (''signer: http 401: '' @ error_body ''unauthorized'')))"
proof -
  obtain w' resp where s: "Sign (sample_service sample_policy) ''w'' sample_transfer empty_world = (w', Inr resp)"
    using sample_sign [OF sample_transfer_checked, where bs = sample_body and caller = "''w''" and w = empty_world]
    by (auto simp: sample_transfer_def)
  let ?j = "one_request_json sample_transfer resp"
  have "client_Sign ?j (served ?j (sample_service sample_policy) ''secret'' ''w'') c sample_transfer empty_world =
    (if ''secret'' \<noteq> '''' \<and> cl_token c \<noteq> ''secret''
     then (empty_world, Inl (errors_new (''signer: http 401: '' @ error_body ''unauthorized'')))
     else (w', Inr resp))" for c
    using client_Sign_refines [of ?j sample_transfer "sample_service sample_policy" "''w''" empty_world "''secret''" c]
    by (simp add: one_request_json_def s)
  then show ?thesis by (intro exI [of _ w'] exI [of _ resp]) simp
qed

section \<open>The push of new addresses\<close>

text \<open>\<open>BloomAddAddress\<close>: each address that is not empty is added; \<open>None\<close> is the filter's panic.\<close>

fun push_addresses :: "string list \<Rightarrow> registry option \<Rightarrow> int \<Rightarrow> (registry option \<times> int) option" where
  "push_addresses [] ro added = Some (ro, added)"
| "push_addresses (a # as) ro added =
     (if a = '''' then push_addresses as ro added
      else (case registry_Add ro a of
          None \<Rightarrow> None
        | Some ro' \<Rightarrow> push_addresses as ro' (added + 1)))"

definition registry_Count :: "registry option \<Rightarrow> 64 word" where
  "registry_Count ro = (case ro of None \<Rightarrow> 0 | Some r \<Rightarrow> bf_count (rg_filter r))"

definition BloomAddAddress ::
  "string \<Rightarrow> string \<Rightarrow> string + string list \<Rightarrow> registry option \<Rightarrow> (registry option \<times> http_reply) option" where
  "BloomAddAddress token header body ro =
     (if token \<noteq> '''' \<and> header \<noteq> token then Some (ro, 401, error_body ''bad token'')
      else (case body of
          Inl m \<Rightarrow> Some (ro, 400, error_body m)
        | Inr addresses \<Rightarrow>
            (case push_addresses addresses ro 0 of
               None \<Rightarrow> None
             | Some (ro', added) \<Rightarrow>
                 Some (ro', 200, json_Marshal (JObj [(''added'', JInt added),
                   (''total'', JInt (uint (registry_Count ro')))])))))"

text \<open>
  \<open>http\<close> carries a token header and the addresses through some state and gives the status, or the error
  of a request that got no reply.
\<close>

type_synonym 's push_transport = "string \<Rightarrow> string list \<Rightarrow> 's \<Rightarrow> 's \<times> (string + int)"

definition Notify ::
  "string \<Rightarrow> string \<Rightarrow> 's push_transport \<Rightarrow> string list \<Rightarrow> 's \<Rightarrow> 's \<times> go_error option" where
  "Notify url token http addresses s =
     (if url = '''' \<or> addresses = [] then (s, None)
      else (case http token addresses s of
          (s', Inl m) \<Rightarrow> (s', Some (errors_new m))
        | (s', Inr status) \<Rightarrow>
            (s', if status \<noteq> 200 then Some (errors_new (''bloom notify: '' @ big_String status)) else None)))"

definition NotifyWithRetry ::
  "string \<Rightarrow> string \<Rightarrow> 's push_transport \<Rightarrow> string list \<Rightarrow> 's \<Rightarrow> 's" where
  "NotifyWithRetry url token http addresses s =
     (if url = '''' \<or> addresses = [] then s
      else (case Notify url token http addresses s of
          (s', None) \<Rightarrow> s'
        | (s', Some e) \<Rightarrow> fst (Notify url token http addresses s')))"

subsection \<open>What a push achieves\<close>

text \<open>The scanner's side as a transport: it is down for the first \<open>n\<close> requests.\<close>

definition scanner_side :: "string \<Rightarrow> (nat \<times> registry option) push_transport" where
  "scanner_side token header addresses s =
     (case s of
        (Suc n, ro) \<Rightarrow> ((n, ro), Inl ''connection refused'')
      | (0, ro) \<Rightarrow>
          (case BloomAddAddress token header (Inr addresses) ro of
             None \<Rightarrow> ((0, ro), Inl ''EOF'')
           | Some (ro', status, body) \<Rightarrow> ((0, ro'), Inr status)))"

definition registry_safe :: "registry option \<Rightarrow> bool" where
  "registry_safe ro \<longleftrightarrow> (case ro of None \<Rightarrow> True | Some r \<Rightarrow> bloom_safe (rg_filter r))"

lemma registry_Add_ok:
  assumes "registry_safe ro" and "a \<noteq> ''''"
  shows "\<exists>ro'. registry_Add ro a = Some ro' \<and> registry_safe ro' \<and> registry_MayContain ro' a = Some True \<and>
    (\<forall>x. registry_MayContain ro x = Some True \<longrightarrow> registry_MayContain ro' x = Some True)"
proof (cases ro)
  case None
  then show ?thesis by (simp add: registry_Add_def registry_safe_def registry_MayContain_def)
next
  case (Some r)
  then show ?thesis
    using registry_Add_known [of r a] assms by (auto simp: registry_safe_def)
qed

lemma push_addresses_ok:
  "registry_safe ro \<Longrightarrow> \<exists>ro' n. push_addresses as ro added = Some (ro', n) \<and> registry_safe ro' \<and>
    list_all (\<lambda>a. a = '''' \<or> registry_MayContain ro' a = Some True) as \<and>
    (\<forall>x. registry_MayContain ro x = Some True \<longrightarrow> registry_MayContain ro' x = Some True)"
proof (induction as arbitrary: ro added)
  case (Cons a as)
  show ?case
  proof (cases "a = ''''")
    case True
    then show ?thesis using Cons.IH [OF Cons.prems] by simp
  next
    case False
    from registry_Add_ok [OF Cons.prems False] obtain ro1 where 1: "registry_Add ro a = Some ro1" "registry_safe ro1"
      "registry_MayContain ro1 a = Some True"
      "\<And>x. registry_MayContain ro x = Some True \<Longrightarrow> registry_MayContain ro1 x = Some True" by blast
    from Cons.IH [OF 1(2), of "added + 1"] obtain ro' n where
      "push_addresses as ro1 (added + 1) = Some (ro', n)" "registry_safe ro'"
      "list_all (\<lambda>a. a = '''' \<or> registry_MayContain ro' a = Some True) as"
      "\<And>x. registry_MayContain ro1 x = Some True \<Longrightarrow> registry_MayContain ro' x = Some True" by blast
    then show ?thesis using 1 False by auto
  qed
qed simp

text \<open>A pushed address is matched from then on: when the scanner shares the token and misses at most one
  request, every address the api pushes is one the filter answers yes to, and so is every address
  it answered yes to before.\<close>

theorem NotifyWithRetry_matches:
  assumes "registry_safe ro" and "url \<noteq> ''''" and "down \<le> 1"
    and "NotifyWithRetry url token (scanner_side token) addresses (down, ro) = (down', ro')"
  shows "list_all (\<lambda>a. a = '''' \<or> registry_MayContain ro' a = Some True) addresses \<and> registry_safe ro' \<and>
    (\<forall>x. registry_MayContain ro x = Some True \<longrightarrow> registry_MayContain ro' x = Some True)"
proof (cases "addresses = []")
  case True
  then show ?thesis using assms by (simp add: NotifyWithRetry_def)
next
  case False
  obtain ro1 n where p: "push_addresses addresses ro 0 = Some (ro1, n)" "registry_safe ro1"
    "list_all (\<lambda>a. a = '''' \<or> registry_MayContain ro1 a = Some True) addresses"
    "\<forall>x. registry_MayContain ro x = Some True \<longrightarrow> registry_MayContain ro1 x = Some True"
    using push_addresses_ok [OF assms(1)] by blast
  have "down = 0 \<or> down = 1" using assms(3) by auto
  then have "ro' = ro1"
    using assms(2,4) False
    by (auto simp: NotifyWithRetry_def Notify_def scanner_side_def BloomAddAddress_def p(1))
  then show ?thesis using p by blast
qed

theorem NotifyWithRetry_matches_witness:
  "\<exists>s. NotifyWithRetry ''http://scanner'' ''t'' (scanner_side ''t'') [''TAddress''] (1, Some bloom_registry) = s \<and>
      registry_MayContain (snd s) ''TAddress'' = Some True"
proof -
  obtain down' ro' where s: "NotifyWithRetry ''http://scanner'' ''t'' (scanner_side ''t'') [''TAddress'']
      (1, Some bloom_registry) = (down', ro')" by fastforce
  have "registry_safe (Some bloom_registry)"
    using flat_log_safe by (simp add: registry_safe_def bloom_registry_def)
  from NotifyWithRetry_matches [OF this _ _ s] show ?thesis by (simp add: s [unfolded One_nat_def])
qed

end
