(* ===== verification/Api.thy ===== *)
theory Api
  imports Outbox Signer
begin

text \<open>
  \<open>internal/api\<close>: the interface of the business system. A handler maps the request and the state to the
  new state and the answer (status and JSON fields, or the rows a query returns). \<open>ap_json\<close> is what the
  JSON decoder makes of a body and \<open>ap_url\<close> the scheme and host of a URL, \<open>ap_derive\<close> the answer of the
  signing service; \<open>ap_fail\<close> says which statements fail. \<open>createAddress\<close> computes the merchant's
  signature and ignores the outcome, so it does not appear.
\<close>

section \<open>Requests and answers\<close>

record api_config =
  ac_hmac_secret :: string
  ac_allowed_ips :: "string list"
  ac_signature_skew :: time
  ac_max_body_bytes :: int

record api_request =
  aq_client_ip :: string
  aq_header :: "string \<Rightarrow> string"
  aq_body :: string
  aq_query :: "string \<Rightarrow> string"

datatype api_stmt =
    ApNonce | ApMerchantUpsert | ApMerchants | ApMerchant | ApExisting | ApAlloc alloc_stmt | ApWallet | ApWinner
  | ApOrder | ApOrderWinner | ApOrderGet | ApDeposits | ApDeposit | ApEvents

record api_env =
  ap_cfg :: config
  ap_api :: api_config
  ap_json :: "string \<Rightarrow> json option"
  ap_url :: "string \<Rightarrow> (string \<times> string) option"
  ap_derive :: "string \<Rightarrow> string result"
  ap_uuid :: string
  ap_now :: time
  ap_fail :: "api_stmt \<Rightarrow> bool"

datatype api_body =
    Fields "(string \<times> json) list"
  | MerchantRows "merchant list"
  | WithdrawRow withdraw_record
  | DepositRow deposit_record
  | DepositRows "deposit_record list"
  | EventRows "notify_outbox list"

type_synonym api_answer = "int \<times> api_body"

definition api_error :: "int \<Rightarrow> string \<Rightarrow> api_answer" where
  "api_error code msg = (code, Fields [(''error'', JStr msg)])"

definition ChainTRON :: string where
  "ChainTRON = ''TRON''"

definition maxBodyBytes :: "api_config \<Rightarrow> int" where
  "maxBodyBytes c = (if ac_max_body_bytes c \<le> 0 then 1048576 else ac_max_body_bytes c)"

text \<open>The Chinese parts of two messages, in UTF-8.\<close>

definition duplicate_order :: string where
  "duplicate_order =
     [CHR 0xE9, CHR 0x87, CHR 0x8D, CHR 0xE5, CHR 0xA4, CHR 0x8D, CHR 0xE8, CHR 0xAE, CHR 0xA2,
      CHR 0xE5, CHR 0x8D, CHR 0x95, CHR 0xE5, CHR 0x8F, CHR 0xB7]"

definition ask_signer :: string where
  "ask_signer =
     [CHR 0xE8, CHR 0xAF, CHR 0xB7, CHR 0xE6, CHR 0xB1, CHR 0x82,
      CHR 0xE7, CHR 0xAD, CHR 0xBE, CHR 0xE5, CHR 0x90, CHR 0x8D, CHR 0xE6, CHR 0x9C, CHR 0x8D]"

section \<open>Who may call\<close>

definition ipAllowlist :: "api_config \<Rightarrow> api_request \<Rightarrow> api_answer option" where
  "ipAllowlist c rq =
     (if ac_allowed_ips c = [] then None
      else if aq_client_ip rq \<notin> set (ac_allowed_ips c) then
        Some (api_error 403 (''ip not allowed'' @ aq_client_ip rq))
      else None)"

text \<open>\<open>time.Since\<close> saturates, and so does \<open>Abs\<close>.\<close>

definition since_abs :: "time \<Rightarrow> time \<Rightarrow> time" where
  "since_abs now t = min (2 ^ 63 - 1) \<bar>max (- (2 ^ 63)) (min (2 ^ 63 - 1) (now - t))\<bar>"

definition nonce_key :: "config \<Rightarrow> string \<Rightarrow> string" where
  "nonce_key c nonce = Key (cf_redis_prefix c) [''nonce'', hex_EncodeToString (bytes_of_string nonce)]"

text \<open>The signature covers the timestamp and the body as far as it is read; the request goes on with that.\<close>

definition limit_body :: "api_config \<Rightarrow> api_request \<Rightarrow> api_request" where
  "limit_body c rq = rq\<lparr>aq_body := take (nat (maxBodyBytes c)) (aq_body rq)\<rparr>"

definition authenticate :: "api_env \<Rightarrow> api_request \<Rightarrow> world \<Rightarrow> world \<times> (api_answer + api_request)" where
  "authenticate env rq0 w =
     (let c = ap_api env
      in if ac_hmac_secret c = '''' then (w, Inr rq0)
         else
           let rq = limit_body c rq0;
               ts = aq_header rq ''X-Timestamp'';
               nonce = aq_header rq ''X-Nonce''
           in if (case ParseInt ts of None \<Rightarrow> True
                  | Some unix \<Rightarrow> since_abs (ap_now env) (unix * 1000000000) > ac_signature_skew c) then
                (w, Inl (api_error 401 ''stale timestamp''))
              else if event_Sign (ac_hmac_secret c) ts (aq_body rq) \<noteq> aq_header rq ''X-Signature'' then
                (w, Inl (api_error 401 ''bad signature''))
              else case redis_keys w of
                None \<Rightarrow> (w, Inr rq)
              | Some ks \<Rightarrow>
                  if nonce = '''' \<or> ap_fail env ApNonce then (w, Inr rq)
                  else if nonce_key (ap_cfg env) nonce \<in> set ks then
                    (w, Inl (api_error 401 ''replayed nonce''))
                  else (w\<lparr>redis_keys := Some (nonce_key (ap_cfg env) nonce # ks)\<rparr>, Inr rq))"

section \<open>Decoding a body into a struct\<close>

text \<open>
  \<open>encoding/json\<close> gives a field the last value under its name, names compared without case; \<open>null\<close>
  leaves it alone (a pointer it clears) and any other kind of value is an error. \<open>binding:"required"\<close> refuses a zero value.
\<close>

definition bind_string :: "params \<Rightarrow> string \<Rightarrow> string result" where
  "bind_string ps tag =
     foldl (\<lambda>acc (k, v). case acc of
         Inl e \<Rightarrow> Inl e
       | Inr s \<Rightarrow>
           if EqualFold k tag then
             (case v of JNull \<Rightarrow> Inr s | JStr t \<Rightarrow> Inr t
              | _ \<Rightarrow> Inl (errors_new (''json: cannot unmarshal into field '' @ tag)))
           else Inr s) (Inr '''') ps"

definition bind_int :: "bool \<Rightarrow> int \<Rightarrow> params \<Rightarrow> string \<Rightarrow> int option result" where
  "bind_int ptr bits ps tag =
     foldl (\<lambda>acc (k, v). case acc of
         Inl e \<Rightarrow> Inl e
       | Inr s \<Rightarrow>
           if EqualFold k tag then
             (case v of JNull \<Rightarrow> Inr (if ptr then None else s)
              | JNum n \<Rightarrow> (case ParseInt n of
                    Some i \<Rightarrow> if - (2 ^ nat (bits - 1)) \<le> i \<and> i < 2 ^ nat (bits - 1) then Inr (Some i)
                        else Inl (errors_new (''json: cannot unmarshal into field '' @ tag))
                  | None \<Rightarrow> Inl (errors_new (''json: cannot unmarshal into field '' @ tag)))
              | _ \<Rightarrow> Inl (errors_new (''json: cannot unmarshal into field '' @ tag)))
           else Inr s) (Inr None) ps"

definition required :: "string result \<Rightarrow> string result" where
  "required r = (case r of Inl e \<Rightarrow> Inl e | Inr s \<Rightarrow> if s = '''' then Inl (errors_new ''required'') else Inr s)"

text \<open>The object of the body; \<open>null\<close> decodes to an empty struct.\<close>

definition body_object :: "api_env \<Rightarrow> api_request \<Rightarrow> params result" where
  "body_object env rq =
     (case ap_json env (aq_body rq) of
        Some (JObj kvs) \<Rightarrow> Inr kvs
      | Some JNull \<Rightarrow> Inr []
      | _ \<Rightarrow> Inl (errors_new ''invalid json''))"

section \<open>Merchants\<close>

record merchant_request =
  mr_merchant_id :: string
  mr_name :: string
  mr_callback_url :: string
  mr_symbol :: string
  mr_chain :: string
  mr_secret :: string
  mr_status :: "int option"

definition bind_merchant :: "params \<Rightarrow> merchant_request result" where
  "bind_merchant ps =
     (case (required (bind_string ps ''merchant_id''), required (bind_string ps ''name''),
            required (bind_string ps ''callback_url''), required (bind_string ps ''symbol''),
            required (bind_string ps ''chain''), required (bind_string ps ''secret''), bind_int True 8 ps ''status'') of
        (Inr i, Inr n, Inr u, Inr s, Inr c, Inr k, Inr st) \<Rightarrow>
          Inr \<lparr>mr_merchant_id = i, mr_name = n, mr_callback_url = u, mr_symbol = s, mr_chain = c, mr_secret = k,
               mr_status = st\<rparr>
      | _ \<Rightarrow> Inl (errors_new ''invalid request''))"

text \<open>\<open>ON CONFLICT (merchant_id)\<close>: the listed columns are overwritten, the row keeps its id.\<close>

definition put_merchant :: "merchant \<Rightarrow> merchant list \<Rightarrow> merchant list" where
  "put_merchant m t =
     (if \<exists>r \<in> set t. m_merchant_id r = m_merchant_id m then
        update_where (\<lambda>r. m_merchant_id r = m_merchant_id m)
          (\<lambda>r. r\<lparr>m_name := m_name m, m_callback_url := m_callback_url m, m_symbol := m_symbol m,
                  m_chain := m_chain m, m_secret := m_secret m, m_status := m_status m,
                  m_updated_at := m_updated_at m\<rparr>) t
      else t @ [m\<lparr>m_id := fresh_id (map m_id t)\<rparr>])"

definition upsertMerchant :: "api_env \<Rightarrow> api_request \<Rightarrow> world \<Rightarrow> world \<times> api_answer" where
  "upsertMerchant env rq w =
     (case (case body_object env rq of Inl e \<Rightarrow> Inl e | Inr ps \<Rightarrow> bind_merchant ps) of
        Inl e \<Rightarrow> (w, api_error 400 (err_msg e))
      | Inr r \<Rightarrow>
          if \<not> EqualFold (mr_chain r) ChainTRON then (w, api_error 400 (''unsupported chain: '' @ mr_chain r))
          else if EnabledToken (cf_wallet (ap_cfg env)) (mr_symbol r) = None then
            (w, api_error 400 (''unsupported symbol: '' @ mr_symbol r))
          else
            let status = (case mr_status r of None \<Rightarrow> MerchantStatusOn | Some s \<Rightarrow> s);
                m = \<lparr>m_id = 0, m_merchant_id = mr_merchant_id r, m_name = mr_name r,
                     m_callback_url = mr_callback_url r, m_symbol = mr_symbol r, m_chain = mr_chain r,
                     m_secret = mr_secret r, m_status = status, m_created_at = ap_now env, m_updated_at = ap_now env\<rparr>
            in if ap_fail env ApMerchantUpsert then (w, api_error 500 (err_msg db_err))
               else (w\<lparr>merchants := put_merchant m (merchants w)\<rparr>,
                     200, Fields [(''merchant_id'', JStr (mr_merchant_id r)), (''symbol'', JStr (mr_symbol r)),
                                  (''chain'', JStr (mr_chain r)), (''status'', JInt status)]))"

definition parseLimit :: "api_request \<Rightarrow> int \<Rightarrow> int \<Rightarrow> int" where
  "parseLimit rq dflt cap =
     (case ParseInt (aq_query rq ''limit'') of
        None \<Rightarrow> dflt
      | Some v \<Rightarrow> if v \<le> 0 then dflt else if cap < v then cap else v)"

text \<open>The secret carries \<open>json:"-"\<close>: it is left out of every answer.\<close>

definition listMerchants :: "api_env \<Rightarrow> api_request \<Rightarrow> world \<Rightarrow> api_answer" where
  "listMerchants env rq w =
     (if ap_fail env ApMerchants then api_error 500 (err_msg db_err)
      else (200, MerchantRows (map (\<lambda>m. m\<lparr>m_secret := ''''\<rparr>)
              (select_limit (\<lambda>_. True) (parseLimit rq 200 1000) (merchants w)))))"

section \<open>Addresses\<close>

text \<open>The request an address is allocated for, after every check; \<open>Inl\<close> is the refusal.\<close>

definition address_request :: "api_env \<Rightarrow> api_request \<Rightarrow> world \<Rightarrow> api_answer + merchant \<times> string \<times> string" where
  "address_request env rq w =
     (case ap_json env (take (nat (maxBodyBytes (ap_api env))) (aq_body rq)) of
        None \<Rightarrow> Inl (api_error 400 ''invalid json body'')
      | Some v \<Rightarrow>
          case DecodeParams v of
            Inl _ \<Rightarrow> Inl (api_error 400 ''invalid json body'')
          | Inr ps \<Rightarrow>
              let merchantID = String_param ps ''merchant_id''; uid = String_param ps ''uid'';
                  symbol = String_param ps ''symbol''; chain = String_param ps ''chain''
              in if merchantID = '''' \<or> uid = '''' \<or> symbol = '''' \<or> chain = '''' then
                   Inl (api_error 400 ''merchant_id, uid, symbol and chain are required'')
                 else case GetEnabled (ap_fail env ApMerchant) merchantID w of
                   Inl e \<Rightarrow> Inl (api_error (if err_is e \<in> {ErrNotFound, ErrDisabled} then 400 else 500) (err_msg e))
                 | Inr mch \<Rightarrow>
                     if \<not> EqualFold symbol (m_symbol mch) \<or> \<not> EqualFold chain (m_chain mch) then
                       Inl (api_error 400 ''symbol or chain does not match the merchant configuration'')
                     else if \<not> EqualFold chain ChainTRON then Inl (api_error 400 (''unsupported chain: '' @ chain))
                     else if EnabledToken (cf_wallet (ap_cfg env)) symbol = None then
                       Inl (api_error 400 (''unsupported symbol: '' @ symbol))
                     else Inr (mch, merchantID, uid))"

definition address_known :: "merchant \<Rightarrow> string \<Rightarrow> string \<Rightarrow> user_wallet \<Rightarrow> api_answer" where
  "address_known mch merchantID uid u =
     (200, Fields [(''merchant_id'', JStr merchantID), (''uid'', JStr uid), (''account'', JStr (MakeAccount merchantID uid)),
                   (''address'', JStr (uw_address u)), (''chain'', JStr (uw_chain u)), (''symbol'', JStr (m_symbol mch))])"

definition existing_wallet :: "string \<Rightarrow> world \<Rightarrow> user_wallet option" where
  "existing_wallet account w =
     take_first (\<lambda>u. uw_account u = account \<and> uw_chain u = ''TRON'' \<and> uw_purpose u = ''deposit'') (user_wallets w)"

text \<open>An index is reserved and its address derived; the row is not in the table yet.\<close>

definition new_wallet :: "api_env \<Rightarrow> string \<Rightarrow> string \<Rightarrow> int \<Rightarrow> string \<Rightarrow> string \<Rightarrow> user_wallet" where
  "new_wallet env merchantID uid index path address =
     \<lparr>uw_id = 0, uw_merchant_id = merchantID, uw_uid = uid, uw_account = MakeAccount merchantID uid,
      uw_chain = ''TRON'', uw_address = address, uw_addr_index = index, uw_chain_idx = ''TRON'',
      uw_derive_path = path, uw_purpose = ''deposit'', uw_status = 1, uw_created_at = ap_now env,
      uw_updated_at = ap_now env\<rparr>"

definition address_alloc ::
  "api_env \<Rightarrow> string \<Rightarrow> string \<Rightarrow> world \<Rightarrow> world \<times> (api_answer + user_wallet)" where
  "address_alloc env merchantID uid w =
     (case NextAddressIndex (\<lambda>s. ap_fail env (ApAlloc s)) (ap_now env) ''TRON'' w of
        (w', Inl e) \<Rightarrow> (w', Inl (api_error 500 (err_msg e)))
      | (w', Inr index) \<Rightarrow>
          let path = AddressPath (wc_account_path (cf_wallet (ap_cfg env))) index
          in case ap_derive env path of
               Inl e \<Rightarrow> (w', Inl (api_error 502 (ask_signer @ '',derive failed: '' @ err_msg e)))
             | Inr address \<Rightarrow> (w', Inr (new_wallet env merchantID uid index path address)))"

text \<open>The unique keys of the table: account, address, and chain with index.\<close>

definition wallet_clash :: "user_wallet \<Rightarrow> user_wallet \<Rightarrow> bool" where
  "wallet_clash a b \<longleftrightarrow> uw_account a = uw_account b \<or> uw_address a = uw_address b \<or>
     (uw_chain_idx a = uw_chain_idx b \<and> uw_addr_index a = uw_addr_index b)"

definition insert_wallet :: "user_wallet \<Rightarrow> user_wallet list \<Rightarrow> user_wallet list option" where
  "insert_wallet u t =
     (if \<exists>r \<in> set t. wallet_clash u r then None else Some (t @ [u\<lparr>uw_id := fresh_id (map uw_id t)\<rparr>]))"

text \<open>The wallet that is served: the one inserted, or after a conflict the row of the account.\<close>

definition address_insert :: "api_env \<Rightarrow> user_wallet \<Rightarrow> world \<Rightarrow> world \<times> (bool \<times> user_wallet) result" where
  "address_insert env row w =
     (case (if ap_fail env ApWallet then None else insert_wallet row (user_wallets w)) of
        Some t \<Rightarrow> (w\<lparr>user_wallets := t\<rparr>, Inr (True, row))
      | None \<Rightarrow>
          (w, case (if ap_fail env ApWinner then None
                    else take_first (\<lambda>u. uw_account u = uw_account row) (user_wallets w)) of
                Some u \<Rightarrow> Inr (False, u)
              | None \<Rightarrow> Inl db_err))"

definition createAddress :: "api_env \<Rightarrow> api_request \<Rightarrow> world \<Rightarrow> world \<times> api_answer" where
  "createAddress env rq w =
     (case address_request env rq w of
        Inl ans \<Rightarrow> (w, ans)
      | Inr (mch, merchantID, uid) \<Rightarrow>
          if ap_fail env ApExisting then (w, api_error 500 (err_msg db_err))
          else case existing_wallet (MakeAccount merchantID uid) w of
            Some u \<Rightarrow> (w, address_known mch merchantID uid u)
          | None \<Rightarrow>
              case address_alloc env merchantID uid w of
                (w1, Inl ans) \<Rightarrow> (w1, ans)
              | (w1, Inr row) \<Rightarrow>
                  case address_insert env row w1 of
                    (w2, Inl e) \<Rightarrow> (w2, api_error 500 (err_msg e))
                  | (w2, Inr (False, u)) \<Rightarrow> (w2, address_known mch merchantID uid u)
                  | (w2, Inr (True, u)) \<Rightarrow>
                      (w2, 200, Fields [(''merchant_id'', JStr merchantID), (''uid'', JStr uid),
                         (''address'', JStr (uw_address u)), (''chain'', JStr ChainTRON), (''symbol'', JStr (m_symbol mch))]))"

section \<open>Amounts and ids\<close>

definition isDigits :: "string \<Rightarrow> bool" where
  "isDigits s \<longleftrightarrow> s \<noteq> '''' \<and> list_all is_digit s"

text \<open>The text before and after the first dot; without one the fraction is empty.\<close>

definition split_dot :: "string \<Rightarrow> string \<times> string" where
  "split_dot s = (takeWhile (\<lambda>c. c \<noteq> CHR ''.'') s, drop 1 (dropWhile (\<lambda>c. c \<noteq> CHR ''.'') s))"

definition parseTokenAmount :: "string \<Rightarrow> int \<Rightarrow> int result" where
  "parseTokenAmount amount decimals =
     (if decimals < 0 then Inl (errors_new ''token decimals must not be negative'')
      else
        let (whole0, frac) = split_dot (TrimSpace amount);
            whole = (if whole0 = '''' then ''0'' else whole0)
        in if \<not> isDigits whole \<or> (frac \<noteq> '''' \<and> \<not> isDigits frac) then
             Inl (errors_new ''amount must be a decimal number in token units'')
           else if int (length frac) > decimals then
             Inl (errors_new (''amount has more than '' @ big_String decimals @ '' decimal places''))
           else case SetString (whole @ frac @ replicate (nat (decimals - int (length frac))) (CHR ''0'')) of
             None \<Rightarrow> Inl (errors_new ''invalid amount'')
           | Some units \<Rightarrow> if units \<le> 0 then Inl (errors_new ''amount must be positive'') else Inr units)"

definition splitEventID :: "string \<Rightarrow> (string \<times> int) result" where
  "splitEventID eventID =
     (case split_on (CHR '':'') eventID of
        [txid, i] \<Rightarrow>
          (case ParseInt i of
             None \<Rightarrow> Inl (errors_new ''invalid event index'')
           | Some index \<Rightarrow> Inr (txid, index))
      | _ \<Rightarrow> Inl (errors_new ''event_id must look like <txid>:<event_index>''))"

section \<open>Withdrawals\<close>

record withdraw_request =
  wr_order_no :: string
  wr_ext_param :: string
  wr_merchant_id :: string
  wr_symbol :: string
  wr_chain :: string
  wr_to_address :: string
  wr_amount :: string
  wr_notify_url :: string
  wr_order_time :: int
  wr_client_ip :: string
  wr_sign :: string

definition bind_withdraw :: "params \<Rightarrow> withdraw_request result" where
  "bind_withdraw ps =
     (case (required (bind_string ps ''order_no''), required (bind_string ps ''ext_param''),
            required (bind_string ps ''merchant_id''), required (bind_string ps ''symbol''),
            required (bind_string ps ''chain''), required (bind_string ps ''to_address''),
            required (bind_string ps ''amount''), required (bind_string ps ''notify_url''),
            bind_int False 64 ps ''order_time'', required (bind_string ps ''client_ip''), bind_string ps ''sgin'') of
        (Inr o_no, Inr ext, Inr mid, Inr symb, Inr chn, Inr to_addr, Inr amt, Inr url, Inr (Some t), Inr ip, Inr sg) \<Rightarrow>
          if t = 0 then Inl (errors_new ''invalid request'')
          else Inr \<lparr>wr_order_no = o_no, wr_ext_param = ext, wr_merchant_id = mid, wr_symbol = symb, wr_chain = chn,
                    wr_to_address = to_addr, wr_amount = amt, wr_notify_url = url, wr_order_time = t,
                    wr_client_ip = ip, wr_sign = sg\<rparr>
      | _ \<Rightarrow> Inl (errors_new ''invalid request''))"

definition isHTTPURL :: "api_env \<Rightarrow> string \<Rightarrow> bool" where
  "isHTTPURL env raw =
     (case ap_url env raw of
        None \<Rightarrow> False
      | Some (scheme, host) \<Rightarrow> (scheme = ''http'' \<or> scheme = ''https'') \<and> host \<noteq> '''')"

text \<open>The order the request asks for, or the message it is refused with.\<close>

definition withdraw_order :: "api_env \<Rightarrow> withdraw_request \<Rightarrow> withdraw_record result" where
  "withdraw_order env r =
     (if \<not> IsValidAddress (wr_to_address r) then Inl (errors_new ''invalid to_address'')
      else if \<not> isHTTPURL env (wr_notify_url r) then
        Inl (errors_new ''notify_url must be an absolute http(s) URL'')
      else if \<not> EqualFold (wr_chain r) ChainTRON then Inl (errors_new (''unsupported chain: '' @ wr_chain r))
      else case EnabledToken (cf_wallet (ap_cfg env)) (wr_symbol r) of
        None \<Rightarrow> Inl (errors_new (''unsupported symbol: '' @ wr_symbol r))
      | Some tok \<Rightarrow>
          case parseTokenAmount (wr_amount r) (tc_decimals tok) of
            Inl e \<Rightarrow> Inl e
          | Inr amount \<Rightarrow>
              Inr \<lparr>w_id = 0, w_order_no = wr_order_no r, w_trade_no = ap_uuid env, w_ext_param = wr_ext_param r,
                   w_merchant_id = wr_merchant_id r, w_chain = ChainTRON, w_symbol = tc_symbol tok,
                   w_contract = tc_contract tok,
                   w_from_address = sys_address (wc_hot_wallet (cf_wallet (ap_cfg env))),
                   w_to_address = wr_to_address r, w_notify_url = wr_notify_url r,
                   w_amount_units = big_String amount,
                   w_amount = FormatUnits (big_String amount) (tc_decimals tok), w_decimals = tc_decimals tok,
                   w_status = WithdrawCreated, w_fail_reason = '''', w_fail_code = '''', w_halt_count = 0,
                   w_txid = '''', w_block_number = 0, w_signed_raw = '''', w_expired_at = None, w_energy_used = 0,
                   w_fee_sun = 0, w_broadcast_at = None, w_confirmed_at = None, w_created_at = ap_now env,
                   w_updated_at = ap_now env\<rparr>)"

definition order_clash :: "withdraw_record \<Rightarrow> withdraw_record \<Rightarrow> bool" where
  "order_clash a b \<longleftrightarrow> w_order_no a = w_order_no b \<or> w_trade_no a = w_trade_no b"

definition insert_order :: "withdraw_record \<Rightarrow> withdraw_record list \<Rightarrow> withdraw_record list option" where
  "insert_order row t =
     (if \<exists>r \<in> set t. order_clash row r then None
      else Some (t @ [row\<lparr>w_id := fresh_id (map w_id t)\<rparr>]))"

definition createWithdraw :: "api_env \<Rightarrow> api_request \<Rightarrow> world \<Rightarrow> world \<times> api_answer" where
  "createWithdraw env rq w =
     (case (case body_object env rq of Inl e \<Rightarrow> Inl e | Inr ps \<Rightarrow>
              case bind_withdraw ps of Inl e \<Rightarrow> Inl e | Inr r \<Rightarrow> withdraw_order env r) of
        Inl e \<Rightarrow> (w, api_error 400 (err_msg e))
      | Inr row \<Rightarrow>
          case (if ap_fail env ApOrder then None else insert_order row (withdraws w)) of
            Some t \<Rightarrow>
              (w\<lparr>withdraws := t\<rparr>,
               200, Fields [(''merchant_id'', JStr (w_merchant_id row)), (''order_no'', JStr (w_order_no row)),
                 (''trade_no'', JStr (w_trade_no row)), (''create_time'', JInt (ap_now env div 1000000000))])
          | None \<Rightarrow>
              (w, if \<not> ap_fail env ApOrderWinner \<and> (\<exists>r \<in> set (withdraws w). w_order_no r = w_order_no row) then
                    api_error 400 (duplicate_order @ '': '' @ w_order_no row)
                  else api_error 500 (err_msg db_err)))"

definition answer_row :: "('r \<Rightarrow> api_body) \<Rightarrow> bool \<Rightarrow> 'r option \<Rightarrow> api_answer" where
  "answer_row body fail r =
     (if fail then api_error 500 (err_msg db_err)
      else case r of None \<Rightarrow> api_error 404 ''not found'' | Some x \<Rightarrow> (200, body x))"

definition getWithdraw :: "api_env \<Rightarrow> string \<Rightarrow> world \<Rightarrow> api_answer" where
  "getWithdraw env order_no w =
     answer_row WithdrawRow (ap_fail env ApOrderGet) (take_first (\<lambda>r. w_order_no r = order_no) (withdraws w))"

section \<open>Reconciliation\<close>

text \<open>The range a query names, by default the last 24 hours.\<close>

definition query_time :: "api_request \<Rightarrow> string \<Rightarrow> time \<Rightarrow> time option" where
  "query_time rq key dflt =
     (if aq_query rq key = '''' then Some dflt
      else map_option (\<lambda>unix. unix * 1000000000) (ParseInt (aq_query rq key)))"

definition parseRange :: "api_env \<Rightarrow> api_request \<Rightarrow> (time \<times> time) result" where
  "parseRange env rq =
     (case query_time rq ''from'' (ap_now env - 24 * 3600 * 1000000000) of
        None \<Rightarrow> Inl (errors_new ''invalid from'')
      | Some from \<Rightarrow>
          case query_time rq ''to'' (ap_now env) of
            None \<Rightarrow> Inl (errors_new ''invalid to'')
          | Some to \<Rightarrow>
              if to < from then Inl (errors_new ''to must be after from'') else Inr (from, to))"

definition listDeposits :: "api_env \<Rightarrow> api_request \<Rightarrow> world \<Rightarrow> api_answer" where
  "listDeposits env rq w =
     (case parseRange env rq of
        Inl e \<Rightarrow> api_error 400 (err_msg e)
      | Inr (from, to) \<Rightarrow>
          let mid = aq_query rq ''merchant_id''; uid = aq_query rq ''uid'';
              wanted = (\<lambda>d. d_status d = DepositConfirmed \<and> \<not> d_internal d \<and>
                (case d_confirmed_at d of None \<Rightarrow> False | Some t \<Rightarrow> from \<le> t \<and> t \<le> to) \<and>
                (mid = '''' \<or> d_merchant_id d = mid) \<and> (uid = '''' \<or> d_uid d = uid))
          in if ap_fail env ApDeposits then api_error 500 (err_msg db_err)
             else (200, DepositRows (select_limit wanted (parseLimit rq 200 1000) (deposits w))))"

definition getDeposit :: "api_env \<Rightarrow> string \<Rightarrow> world \<Rightarrow> api_answer" where
  "getDeposit env eventID w =
     (case splitEventID eventID of
        Inl e \<Rightarrow> api_error 400 (err_msg e)
      | Inr (txid, index) \<Rightarrow>
          answer_row DepositRow (ap_fail env ApDeposit)
            (take_first (\<lambda>d. d_txid d = txid \<and> d_event_index d = index) (deposits w)))"

fun outbox_state_name :: "outbox_state \<Rightarrow> string" where
  "outbox_state_name OutboxPending = ''pending''"
| "outbox_state_name OutboxSent = ''sent''"
| "outbox_state_name OutboxDead = ''dead''"

definition listEvents :: "api_env \<Rightarrow> api_request \<Rightarrow> world \<Rightarrow> api_answer" where
  "listEvents env rq w =
     (let status = aq_query rq ''status''; ty = aq_query rq ''type'';
          wanted = (\<lambda>e. (status = '''' \<or> outbox_state_name (ob_status e) = status) \<and> (ty = '''' \<or> ob_event_type e = ty))
      in if ap_fail env ApEvents then api_error 500 (err_msg db_err)
         else (200, EventRows (select_limit wanted (parseLimit rq 200 1000) (outbox w))))"

section \<open>What an insert promises\<close>

text \<open>
  A table with unique keys: an insert is refused exactly when a row with one of the new row's keys is
  there, and otherwise the row is appended under an id of its own. The clients' facts follow: no two
  rows ever share a key, and no row is lost.
\<close>

locale unique_table =
  fixes clash :: "'r \<Rightarrow> 'r \<Rightarrow> bool"
    and numbered :: "int \<Rightarrow> 'r \<Rightarrow> 'r"
    and ins :: "'r \<Rightarrow> 'r list \<Rightarrow> 'r list option"
  assumes clash_sym: "clash a b \<Longrightarrow> clash b a"
    and clash_numbered: "clash (numbered i a) b \<longleftrightarrow> clash a b"
    and ins_refused: "ins r t = None \<longleftrightarrow> (\<exists>x \<in> set t. clash r x)"
    and ins_done: "ins r t = Some t' \<Longrightarrow> \<exists>i. t' = t @ [numbered i r]"
begin

definition no_clash :: "'r list \<Rightarrow> bool" where
  "no_clash t \<longleftrightarrow> sorted_wrt (\<lambda>a b. \<not> clash a b) t"

lemma ins_no_clash:
  assumes "no_clash t" and "ins r t = Some t'"
  shows "no_clash t'"
proof -
  obtain i where t': "t' = t @ [numbered i r]" using ins_done [OF assms(2)] ..
  have "\<not> clash r x" if "x \<in> set t" for x using ins_refused [of r t] assms(2) that by auto
  then have "\<not> clash x (numbered i r)" if "x \<in> set t" for x
    using that clash_sym clash_numbered by blast
  then show ?thesis using assms(1) by (simp add: no_clash_def t' sorted_wrt_append)
qed

lemma ins_keeps: "ins r t = Some t' \<Longrightarrow> x \<in> set t \<Longrightarrow> x \<in> set t'"
  using ins_done by fastforce

lemma no_clash_unique:
  assumes "no_clash t" and "a \<in> set t" and "b \<in> set t" and "clash a b"
  shows "a = b"
proof (rule ccontr)
  assume "a \<noteq> b"
  obtain i j where ij: "i < length t" "a = t ! i" "j < length t" "b = t ! j"
    using assms(2,3) by (auto simp: in_set_conv_nth)
  then have "i < j \<or> j < i" using \<open>a \<noteq> b\<close> by (metis linorder_neqE_nat)
  then show False
    using assms(1,4) ij clash_sym by (auto simp: no_clash_def sorted_wrt_iff_nth_less)
qed

lemma no_clash_filter:
  assumes "no_clash t" and "u \<in> set t" and "p u" and "\<And>x. p x \<Longrightarrow> clash u x"
  shows "filter p t = [u]"
  using assms(1,2)
proof (induction t)
  case (Cons y ys)
  have nc: "no_clash ys" using Cons.prems(1) by (simp add: no_clash_def)
  show ?case
  proof (cases "u = y")
    case True
    then have "\<not> p x" if "x \<in> set ys" for x
      using Cons.prems(1) assms(4) that by (auto simp: no_clash_def)
    with True assms(3) show ?thesis by simp
  next
    case False
    then have u: "u \<in> set ys" using Cons.prems(2) by simp
    then have "\<not> p y" using Cons.prems(1) assms(4) clash_sym by (auto simp: no_clash_def)
    with Cons.IH [OF nc u] show ?thesis by simp
  qed
qed simp

end

interpretation wallet_table: unique_table wallet_clash "\<lambda>i u. u\<lparr>uw_id := i\<rparr>" insert_wallet
  by unfold_locales (auto simp: wallet_clash_def insert_wallet_def split: if_splits)

interpretation order_table: unique_table order_clash "\<lambda>i r. r\<lparr>w_id := i\<rparr>" insert_order
  by unfold_locales (auto simp: order_clash_def insert_order_def split: if_splits)

end
