(* ===== verification/Withdraw.thy ===== *)
theory Withdraw
  imports Energy Signer
begin

text \<open>
  \<open>internal/withdraw/worker.go\<close>: the withdrawal orders. A handler works on a copy of its row that may be
  stale; what it reads and which statements fail is its environment; a database transaction either
  happens whole or fails whole. \<open>we_node\<close> answers a run's first reads, \<open>we_node2\<close> the receipt it reads
  again before settling.
\<close>

datatype withdraw_stmt =
    WdFind | WdBlacklist | WdInternal1 | WdInternal2 | WdDaily | WdInflight | WdHalt | WdTx | WdSign | WdBroadcast

record withdraw_env =
  we_cfg :: config
  we_node :: node_api
  we_node2 :: node_api
  we_energy :: energy_env
  we_sign :: "sign_request \<Rightarrow> sign_response result"
  we_kec :: "bytes \<Rightarrow> bytes"
  we_now :: time
  we_lock_fail :: bool
  we_fail :: "withdraw_stmt \<Rightarrow> bool"

definition second :: time where
  "second = 1000000000"

definition days_start :: "time \<Rightarrow> time" where
  "days_start now = now - now mod (24 * hour)"

section \<open>Settings\<close>

definition tokensCf :: "config \<Rightarrow> (string \<times> token_config) list" where
  "tokensCf c = rev (map (\<lambda>t. (ToUpper (tc_symbol t), t)) (EnabledTokens (cf_wallet c)))"

definition token :: "config \<Rightarrow> string \<Rightarrow> token_config option" where
  "token c symbol = map_of (tokensCf c) (ToUpper symbol)"

definition New_worker :: "config \<Rightarrow> (string \<times> token_config) list result" where
  "New_worker c =
     (let hot = wc_hot_wallet (cf_wallet c)
      in if tokensCf c = [] then Inl (errors_new ''withdraw: no enabled token configured'')
         else if sys_address hot = '''' \<or> sys_path hot = '''' then
           Inl (errors_new ''withdraw: wallet.hot_wallet address and path are required'')
         else Inr (tokensCf c))"

definition haltMaxRetries :: "config \<Rightarrow> int" where
  "haltMaxRetries c = (if 0 < wd_halt_max_retries (cf_withdraw c) then wd_halt_max_retries (cf_withdraw c) else 10)"

definition confirmBlocks :: "config \<Rightarrow> int" where
  "confirmBlocks c =
     (if 0 < wd_confirm_blocks (cf_withdraw c) then wd_confirm_blocks (cf_withdraw c)
      else dc_confirmations (cf_deposit c))"

definition expirationSeconds :: "config \<Rightarrow> int" where
  "expirationSeconds c =
     (if 0 < wd_tx_expiration_sec (cf_withdraw c) then wd_tx_expiration_sec (cf_withdraw c) else 60)"

section \<open>Settling an order\<close>

fun withdraw_state_string :: "withdraw_state \<Rightarrow> string" where
  "withdraw_state_string WithdrawCreated = ''created''"
| "withdraw_state_string WithdrawSigned = ''signed''"
| "withdraw_state_string WithdrawBroadcast = ''broadcast''"
| "withdraw_state_string WithdrawConfirmed = ''confirmed''"
| "withdraw_state_string WithdrawFailed = ''failed''"
| "withdraw_state_string WithdrawRejected = ''rejected''"

definition withdraw_event_id :: "withdraw_record \<Rightarrow> string" where
  "withdraw_event_id row = ''withdraw:'' @ w_order_no row"

definition withdraw_event :: "withdraw_record \<Rightarrow> string \<Rightarrow> string \<Rightarrow> time \<Rightarrow> json" where
  "withdraw_event row outcome reason now = JObj
     [(''event_id'', JStr (withdraw_event_id row)), (''type'', JStr ''withdraw_result''),
      (''order_no'', JStr (w_order_no row)), (''trade_no'', JStr (w_trade_no row)),
      (''status'', JStr (withdraw_state_string (w_status row))), (''ext_param'', JStr (w_ext_param row)),
      (''chain'', JStr (w_chain row)), (''symbol'', JStr (w_symbol row)),
      (''amount'', JStr (w_amount_units row)), (''decimals'', JInt (w_decimals row)),
      (''to_address'', JStr (w_to_address row)), (''txid'', JStr (w_txid row)),
      (''result'', JStr outcome), (''reason'', JStr reason), (''fail_code'', JStr (w_fail_code row)),
      (''finished_at'', JInt (now div second))]"

definition announce :: "withdraw_record \<Rightarrow> string \<Rightarrow> string \<Rightarrow> time \<Rightarrow> world \<Rightarrow> world" where
  "announce row outcome reason now w =
     EnqueueOutbox now (withdraw_event_id row) ''withdraw_result'' (w_ext_param row) (w_merchant_id row)
       (w_notify_url row) (withdraw_event row outcome reason now) w"

text \<open>
  The shape all three settlements share: a transaction that moves the row if it is still in one of
  the states \<open>from\<close> and, only then, writes the outcome event.
\<close>

definition settle ::
  "withdraw_env \<Rightarrow> withdraw_state set \<Rightarrow> (withdraw_record \<Rightarrow> withdraw_record) \<Rightarrow> withdraw_record \<Rightarrow>
     string \<Rightarrow> string \<Rightarrow> world \<Rightarrow> world \<times> go_error option" where
  "settle env from f row outcome reason w =
     (let hit = (\<lambda>r. w_id r = w_id row \<and> w_status r \<in> from)
      in if we_fail env WdTx then (w, Some db_err)
         else if affected hit (withdraws w) = 0 then (w, None)
         else (announce row outcome reason (we_now env)
                 (w\<lparr>withdraws := update_where hit f (withdraws w)\<rparr>), None))"

definition reject :: "withdraw_env \<Rightarrow> withdraw_record \<Rightarrow> string \<Rightarrow> world \<Rightarrow> world \<times> go_error option" where
  "reject env row reason w =
     settle env {WithdrawCreated}
       (\<lambda>r. r\<lparr>w_status := WithdrawRejected, w_fail_reason := reason, w_fail_code := ''risk_rejected'',
               w_updated_at := we_now env\<rparr>)
       (row\<lparr>w_fail_code := ''risk_rejected'', w_status := WithdrawRejected\<rparr>) ''rejected'' reason w"

definition failHalted ::
  "withdraw_env \<Rightarrow> withdraw_record \<Rightarrow> string \<Rightarrow> string \<Rightarrow> int \<Rightarrow> world \<Rightarrow> world \<times> go_error option" where
  "failHalted env row failCode reason attempt w =
     (let failReason = reason @ '' (halted '' @ big_String attempt @ '' times, giving up)''
      in settle env {WithdrawCreated}
           (\<lambda>r. r\<lparr>w_status := WithdrawFailed, w_fail_reason := truncate_str failReason 240,
                   w_fail_code := failCode, w_halt_count := attempt, w_updated_at := we_now env\<rparr>)
           (row\<lparr>w_halt_count := attempt, w_fail_code := failCode, w_status := WithdrawFailed\<rparr>)
           ''failed'' failReason w)"

definition finish ::
  "withdraw_env \<Rightarrow> withdraw_record \<Rightarrow> withdraw_state \<Rightarrow> string \<Rightarrow> string \<Rightarrow> int \<Rightarrow> int \<Rightarrow>
     world \<Rightarrow> world \<times> go_error option" where
  "finish env row status reason0 failCode0 energyUsed fee w =
     (let now = we_now env;
          reason = (if status \<noteq> WithdrawConfirmed \<and> reason0 = '''' then
                      ''settled as '' @ withdraw_state_string status @ '' without a reported reason'' else reason0);
          failCode = (if status \<noteq> WithdrawConfirmed \<and> failCode0 = '''' then FailUnknown else failCode0);
          outcome = (if status \<noteq> WithdrawConfirmed then ''failed'' else ''success'')
      in settle env {WithdrawSigned, WithdrawBroadcast}
           (\<lambda>r. r\<lparr>w_status := status, w_fail_reason := truncate_str reason 240, w_fail_code := failCode,
                   w_energy_used := energyUsed, w_fee_sun := fee, w_updated_at := now,
                   w_confirmed_at := (if status = WithdrawConfirmed then Some now else w_confirmed_at r),
                   w_block_number := (if 0 < w_block_number row then w_block_number row else w_block_number r)\<rparr>)
           (row\<lparr>w_fail_code := failCode, w_status := status\<rparr>) outcome reason w)"

definition halt :: "withdraw_env \<Rightarrow> withdraw_record \<Rightarrow> string \<Rightarrow> string \<Rightarrow> world \<Rightarrow> world \<times> go_error option" where
  "halt env row failCode reason w =
     (let attempt = i64 (w_halt_count row + 1); limit = haltMaxRetries (we_cfg env)
      in if attempt \<ge> limit then
           (case failHalted env row failCode reason attempt w of
              (w', Some e) \<Rightarrow> (w', Some e)
            | (w', None) \<Rightarrow>
                (w', Some (Err ErrHaltedFailed (''withdraw: halted too many times, order failed: '' @ reason))))
         else
           ((if we_fail env WdHalt then w
             else w\<lparr>withdraws := update_where
                      (\<lambda>r. w_id r = w_id row \<and> w_status r = WithdrawCreated)
                      (\<lambda>r. r\<lparr>w_fail_reason := truncate_str reason 240, w_fail_code := failCode,
                              w_halt_count := attempt, w_updated_at := we_now env\<rparr>) (withdraws w)\<rparr>),
            Some (Err ErrHalted (''withdraw: halted, manual handling required: '' @ reason @ '' (attempt '' @
              big_String attempt @ ''/'' @ big_String limit @ '')''))))"

section \<open>Checks\<close>

definition tokenBalance :: "withdraw_env \<Rightarrow> string \<Rightarrow> string \<Rightarrow> int result" where
  "tokenBalance env contract address =
     (case EncodeTRC20BalanceOf (we_kec env) address of
        Inl e \<Rightarrow> Inl e
      | Inr data \<Rightarrow>
          case TriggerConstantContract (we_node env) address contract data of
            Inl e \<Rightarrow> Inl e
          | Inr (out, _) \<Rightarrow>
              case ParseUint256 out of
                None \<Rightarrow> Inl (errors_new (''withdraw: cannot parse balance '' @ out))
              | Some v \<Rightarrow> Inr v)"

text \<open>\<open>SUM(amount_units)\<close> over a \<open>decimal(38,0)\<close> column.\<close>

definition units_of :: "string \<Rightarrow> int" where
  "units_of s = (case SetString s of None \<Rightarrow> 0 | Some v \<Rightarrow> v)"

definition inflightUnits :: "withdraw_env \<Rightarrow> string \<Rightarrow> string \<Rightarrow> world \<Rightarrow> int result" where
  "inflightUnits env contract from w =
     (if we_fail env WdInflight then Inl (wrap_err ''withdraw: sum in-flight withdrawals: '' db_err)
      else Inr (sum_list (map (\<lambda>r. units_of (w_amount_units r))
             (filter (\<lambda>r. w_from_address r = from \<and> w_contract r = contract \<and>
                          w_status r \<in> {WithdrawSigned, WithdrawBroadcast}) (withdraws w)))))"

definition today_units :: "time \<Rightarrow> world \<Rightarrow> int" where
  "today_units now w =
     sum_list (map (\<lambda>r. units_of (w_amount_units r))
       (filter (\<lambda>r. w_created_at r \<ge> days_start now \<and> w_status r \<notin> {WithdrawFailed, WithdrawRejected})
         (withdraws w)))"

text \<open>A reason means the order is refused, an error that the check could not be made.\<close>

definition riskCheck :: "withdraw_env \<Rightarrow> withdraw_record \<Rightarrow> world \<Rightarrow> string result" where
  "riskCheck env row w =
     (let cfg = cf_withdraw (we_cfg env); to = w_to_address row
      in if \<not> IsValidAddress to then Inr ''invalid destination address''
         else case IsAddressBlacklisted (we_fail env WdBlacklist) to w of
           Inl e \<Rightarrow> Inl (wrap_err ''withdraw: query address blacklist: '' e)
         | Inr True \<Rightarrow> Inr ''destination address is blacklisted''
         | Inr False \<Rightarrow>
             if \<not> we_fail env WdInternal1 \<and> 0 < affected (\<lambda>u. uw_address u = to) (user_wallets w) then
               Inr ''destination is an internal wallet address''
             else if (case IsInternalWallet (we_fail env WdInternal2) to w of Inl _ \<Rightarrow> False | Inr n \<Rightarrow> 0 < n) then
               Inr ''destination is an internal wallet address''
             else case SetString (w_amount_units row) of
               None \<Rightarrow> Inr ''invalid amount''
             | Some amount \<Rightarrow>
                 if amount \<le> 0 then Inr ''invalid amount''
                 else if (case SetString (wd_max_amount_units cfg) of
                            None \<Rightarrow> False | Some m \<Rightarrow> 0 < m \<and> m < amount) then
                   Inr ''amount exceeds the single withdrawal limit''
                 else if (case SetString (wd_daily_max_units cfg) of
                            None \<Rightarrow> False
                          | Some limit \<Rightarrow> 0 < limit \<and> \<not> we_fail env WdDaily \<and>
                              limit < today_units (we_now env) w + amount) then
                   Inr ''daily withdrawal limit reached''
                 else Inr '''')"

definition checkBalance ::
  "withdraw_env \<Rightarrow> withdraw_record \<Rightarrow> token_config \<Rightarrow> string \<Rightarrow> int \<Rightarrow> world \<Rightarrow> world \<times> go_error option" where
  "checkBalance env row tok from amount w =
     (case tokenBalance env (tc_contract tok) from of
        Inl e \<Rightarrow> (w, Some (wrap_err ''withdraw: hot wallet balance query failed: '' e))
      | Inr balance \<Rightarrow>
          case inflightUnits env (tc_contract tok) from w of
            Inl e \<Rightarrow> (w, Some e)
          | Inr inflight \<Rightarrow>
              let needed = amount + inflight
              in if balance \<ge> needed then (w, None)
                 else halt env row ''hot_wallet_insufficient''
                   (''hot wallet '' @ tc_symbol tok @ '' balance insufficient: balance='' @ big_String balance @
                    '' required='' @ big_String needed @ '' (amount='' @ big_String amount @
                    '' in_flight='' @ big_String inflight @ '')'') w)"

definition checkBurnBudget ::
  "withdraw_env \<Rightarrow> withdraw_record \<Rightarrow> string \<Rightarrow> int \<Rightarrow> world \<Rightarrow> world \<times> go_error option" where
  "checkBurnBudget env row from need w =
     (case GetChainParameters (we_node env) of
        Inl e \<Rightarrow> (w, Some (wrap_err ''withdraw: chain parameters query failed: '' e))
      | Inr params \<Rightarrow>
          case GetAccountResource (we_node env) from of
            Inl e \<Rightarrow> (w, Some (wrap_err ''withdraw: hot wallet resource query failed: '' e))
          | Inr res \<Rightarrow>
              let costSun = BurnCostSun (Some res) params need;
                  limit = wd_fee_limit_sun (cf_withdraw (we_cfg env))
              in if 0 < limit \<and> limit < costSun then
                   halt env row ''hot_wallet_trx_insufficient''
                     (''burning TRX for this transfer costs '' @ big_String costSun @
                      '' sun, above withdraw_server.fee_limit_sun='' @ big_String limit) w
                 else case GetTRXBalance (we_node env) from of
                   Inl e \<Rightarrow> (w, Some (wrap_err ''withdraw: hot wallet TRX balance query failed: '' e))
                 | Inr balance \<Rightarrow>
                     if balance \<ge> costSun then (w, None)
                     else halt env row ''hot_wallet_trx_insufficient''
                       (''hot wallet TRX insufficient to burn the fee: balance='' @ big_String balance @
                        '' sun required='' @ big_String costSun @ '' sun (energy='' @ big_String need @ '')'') w)"

section \<open>Executing an order\<close>

text \<open>Handing the bytes to the nodes; \<open>broadcasts\<close> records that they left.\<close>

definition send :: "transaction \<Rightarrow> world \<Rightarrow> world" where
  "send tx w = w\<lparr>broadcasts := broadcasts w @ [tx]\<rparr>"

definition to_broadcast ::
  "withdraw_env \<Rightarrow> withdraw_record \<Rightarrow> (withdraw_record \<Rightarrow> withdraw_record) \<Rightarrow> world \<Rightarrow> world" where
  "to_broadcast env row f w =
     (if we_fail env WdBroadcast then w
      else w\<lparr>withdraws := update_where (\<lambda>r. w_id r = w_id row \<and> w_status r = WithdrawSigned)
               (\<lambda>r. f (r\<lparr>w_status := WithdrawBroadcast, w_broadcast_at := Some (we_now env),
                          w_updated_at := we_now env\<rparr>)) (withdraws w)\<rparr>)"

definition broadcast ::
  "withdraw_env \<Rightarrow> withdraw_record \<Rightarrow> string \<Rightarrow> transaction \<Rightarrow> world \<Rightarrow> world \<times> go_error option" where
  "broadcast env row txid tx w0 =
     (let w = send tx w0
      in case Broadcast (we_node env) tx of
        (result, Some e) \<Rightarrow>
          let (failCode, permanent) =
                (case result of None \<Rightarrow> (FailNode, False) | Some r \<Rightarrow> ClassifyBroadcast (br_code r) (br_message r))
          in if permanent then
               (case finish env (row\<lparr>w_txid := txid, w_fail_code := failCode\<rparr>) WithdrawFailed
                       (''broadcast rejected: '' @ err_msg e) failCode 0 0 w of
                  (w', Some fe) \<Rightarrow> (w', Some fe)
                | (w', None) \<Rightarrow> (w', Some e))
             else (to_broadcast env row
                     (\<lambda>r. r\<lparr>w_fail_reason := truncate_str (err_msg e) 240, w_fail_code := failCode\<rparr>) w, Some e)
      | (result, None) \<Rightarrow>
          let id' = (case result of None \<Rightarrow> '''' | Some r \<Rightarrow> br_txid r);
              w1 = to_broadcast env row (\<lambda>r. r\<lparr>w_txid := id', w_fail_reason := '''', w_fail_code := ''''\<rparr>) w
          in (w1\<lparr>pool := map_option (RecordUsage (we_now env) 1) (pool w1)\<rparr>, None))"

text \<open>
  Build, sign, and take the row with the compare-and-swap that lets one worker through. The result is
  the signed transaction with the worker's copy of the row, or the end of this run.
\<close>

type_synonym prepared = "withdraw_record \<times> transaction"

definition sign_and_take ::
  "withdraw_env \<Rightarrow> withdraw_record \<Rightarrow> token_config \<Rightarrow> string \<Rightarrow> world \<Rightarrow>
     world \<times> (go_error option + prepared)" where
  "sign_and_take env row tok data w =
     (let hot = wc_hot_wallet (cf_wallet (we_cfg env)); addr = sys_address hot
      in case BuildTRC20Transfer (we_node env) addr (tc_contract tok) data
                (wd_fee_limit_sun (cf_withdraw (we_cfg env))) of
        Inl e \<Rightarrow> (w, Inl (Some e))
      | Inr tx \<Rightarrow>
          case we_sign env \<lparr>sr_purpose = PurposeWithdraw, sr_path = sys_path hot, sr_address = addr,
              sr_tx = Some tx, sr_meta = \<lparr>sm_to_address = w_to_address row, sm_contract = tc_contract tok,
                sm_amount_units = w_amount_units row, sm_amount_sun = 0\<rparr>\<rparr> of
            Inl e \<Rightarrow> (w, Inl (Some e))
          | Inr resp \<Rightarrow>
              let hit = (\<lambda>r. w_id r = w_id row \<and> w_status r = WithdrawCreated);
                  raw = tx_raw_data_hex (sp_tx resp);
                  expiry = we_now env + i64 (expirationSeconds (we_cfg env) * second)
              in if we_fail env WdSign then (w, Inl (Some db_err))
                 else if affected hit (withdraws w) = 0 then (w, Inl None)
                 else (w\<lparr>withdraws := update_where hit
                          (\<lambda>r. r\<lparr>w_status := WithdrawSigned, w_txid := sp_txid resp, w_signed_raw := raw,
                                  w_from_address := addr, w_expired_at := Some expiry,
                                  w_updated_at := we_now env\<rparr>) (withdraws w)\<rparr>,
                       Inr (row\<lparr>w_txid := sp_txid resp, w_signed_raw := raw, w_from_address := addr\<rparr>, sp_tx resp)))"

definition pay_energy ::
  "withdraw_env \<Rightarrow> withdraw_record \<Rightarrow> string \<Rightarrow> int \<Rightarrow> world \<Rightarrow> world \<times> go_error option" where
  "pay_energy env row addr need w =
     (if \<not> WithdrawRentalOn (we_cfg env) then checkBurnBudget env row addr need w
      else if (case pool w of None \<Rightarrow> True | Some p \<Rightarrow> \<not> HasEnergyFor (we_node env) p need) then
        (case AcquireRented (we_energy env) ''withdraw'' addr need (''withdraw-'' @ big_String (w_id row)) w of
           (w', Inr _) \<Rightarrow> (w', None)
         | (w', Inl e) \<Rightarrow>
             halt env row ''energy_rental_failed''
               (''energy rental failed, withdrawal stopped (no TRX burn fallback): '' @ err_msg e) w')
      else (w, None))"

text \<open>\<open>execute\<close> up to the point where the order is signed and taken.\<close>

definition prepare ::
  "withdraw_env \<Rightarrow> withdraw_record \<Rightarrow> world \<Rightarrow> world \<times> (go_error option + prepared)" where
  "prepare env row w =
     (let stop = (\<lambda>(w, e). (w, Inl e))
      in case riskCheck env row w of
        Inl e \<Rightarrow> (w, Inl (Some e))
      | Inr reason \<Rightarrow>
          if reason \<noteq> '''' then stop (reject env row reason w)
          else case token (we_cfg env) (w_symbol row) of
            None \<Rightarrow> stop (reject env row (''unsupported symbol '' @ w_symbol row) w)
          | Some tok \<Rightarrow>
              case SetString (w_amount_units row) of
                None \<Rightarrow> stop (reject env row ''invalid amount'' w)
              | Some amount \<Rightarrow>
                  if amount \<le> 0 then stop (reject env row ''invalid amount'' w)
                  else
                    let addr = sys_address (wc_hot_wallet (cf_wallet (we_cfg env)))
                    in case EncodeTRC20Transfer (we_kec env) (w_to_address row) amount of
                         Inl _ \<Rightarrow> stop (reject env row ''invalid destination'' w)
                       | Inr data \<Rightarrow>
                           case checkBalance env row tok addr amount w of
                             (w1, Some e) \<Rightarrow> (w1, Inl (Some e))
                           | (w1, None) \<Rightarrow>
                               let need = (case EstimateEnergy (cf_energy (we_cfg env)) (we_node env) addr
                                                  (tc_contract tok) data of
                                             Inl _ \<Rightarrow> ec_energy_per_tx_new (cf_energy (we_cfg env))
                                           | Inr n \<Rightarrow> n)
                               in case pay_energy env row addr need w1 of
                                    (w2, Some e) \<Rightarrow> (w2, Inl (Some e))
                                  | (w2, None) \<Rightarrow> sign_and_take env row tok data w2)"

definition execute_locked :: "withdraw_env \<Rightarrow> withdraw_record \<Rightarrow> world \<Rightarrow> world \<times> go_error option" where
  "execute_locked env row w =
     (case prepare env row w of
        (w', Inl e) \<Rightarrow> (w', e)
      | (w', Inr (row', tx)) \<Rightarrow> broadcast env row' (w_txid row') tx w')"

definition execute :: "withdraw_env \<Rightarrow> withdraw_record \<Rightarrow> world \<Rightarrow> world \<times> go_error option" where
  "execute env row w =
     (let prefix = cf_redis_prefix (we_cfg env); key = ''withdraw:'' @ w_order_no row
      in case Lock prefix key (we_lock_fail env) w of
           None \<Rightarrow> (w, None)
         | Some w1 \<Rightarrow> let (w2, e) = execute_locked env row w1 in (Unlock prefix key w2, e))"

definition processCreated :: "(withdraw_record \<Rightarrow> withdraw_env) \<Rightarrow> bool \<Rightarrow> world \<Rightarrow> world \<times> go_error option" where
  "processCreated envs fail w =
     (if fail then (w, Some db_err)
      else (foldl (\<lambda>w row. fst (execute (envs row) row w)) w
              (select_limit (\<lambda>r. w_status r = WithdrawCreated) 20 (withdraws w)), None))"

section \<open>Reconciliation\<close>

definition transferred :: "(bytes \<Rightarrow> bytes) \<Rightarrow> tx_info \<Rightarrow> withdraw_record \<Rightarrow> bool" where
  "transferred kec info row =
     (case SetString (w_amount_units row) of
        None \<Rightarrow> False
      | Some amount \<Rightarrow>
          list_ex (\<lambda>lg.
            length (lg_topics lg) = 3 \<and> EqualFold (lg_topics lg ! 0) (TransferEventTopic kec) \<and>
            HexToAddress (lg_address lg) = Inr (w_contract row) \<and>
            (case HexToAddress (lg_topics lg ! 1) of
               Inl _ \<Rightarrow> False
             | Inr from \<Rightarrow> w_from_address row = '''' \<or> from = w_from_address row) \<and>
            HexToAddress (lg_topics lg ! 2) = Inr (w_to_address row) \<and>
            ParseUint256 (lg_data lg) = Some amount) (ti_log info))"

definition finalInfo :: "withdraw_env \<Rightarrow> string \<Rightarrow> int \<Rightarrow> tx_info option result" where
  "finalInfo env txid head =
     (if na_solidity_confirm (we_node2 env) then GetTxInfoByIDConfirmed (we_node2 env) txid
      else case GetTxInfoByID (we_node2 env) txid of
        Inl e \<Rightarrow> Inl e
      | Inr None \<Rightarrow> Inr None
      | Inr (Some info) \<Rightarrow>
          if i64 (head - ti_block_number info) < confirmBlocks (we_cfg env) then Inr None else Inr (Some info))"

definition rebroadcast :: "withdraw_env \<Rightarrow> withdraw_record \<Rightarrow> world \<Rightarrow> world \<times> go_error option" where
  "rebroadcast env row w =
     (let hot = wc_hot_wallet (cf_wallet (we_cfg env))
      in case we_sign env \<lparr>sr_purpose = PurposeWithdraw, sr_path = sys_path hot, sr_address = sys_address hot,
            sr_tx = Some \<lparr>tx_visible = False, tx_id = w_txid row, tx_raw_data = None,
              tx_raw_data_hex = w_signed_raw row, tx_signature = []\<rparr>,
            sr_meta = \<lparr>sm_to_address = w_to_address row, sm_contract = w_contract row,
              sm_amount_units = w_amount_units row, sm_amount_sun = 0\<rparr>\<rparr> of
        Inl e \<Rightarrow> (w, Some e)
      | Inr resp \<Rightarrow>
          if sp_txid resp \<noteq> w_txid row then
            (w, Some (errors_new (''withdraw: refusing to rebroadcast, txid changed from '' @ w_txid row @
              '' to '' @ sp_txid resp)))
          else
            let w1 = send (sp_tx resp) w
            in case Broadcast (we_node env) (sp_tx resp) of
                 (_, None) \<Rightarrow> (w1, None)
               | (None, Some e) \<Rightarrow> (w1, Some e)
               | (Some r, Some e) \<Rightarrow>
                   let (failCode, permanent) = ClassifyBroadcast (br_code r) (br_message r)
                   in if permanent then
                        (case finish env row WithdrawFailed (''broadcast rejected: '' @ err_msg e) failCode 0 0 w1 of
                           (w', Some fe) \<Rightarrow> (w', Some fe)
                         | (w', None) \<Rightarrow> (w', Some e))
                      else (w1, Some e))"

definition reconcileOne :: "withdraw_env \<Rightarrow> withdraw_record \<Rightarrow> int \<Rightarrow> world \<Rightarrow> world \<times> go_error option" where
  "reconcileOne env row0 head w =
     (if w_txid row0 = '''' then (w, None)
      else case GetTxInfoByID (we_node env) (w_txid row0) of
        Inl e \<Rightarrow> (w, Some e)
      | Inr None \<Rightarrow>
          (case w_expired_at row0 of
             Some t \<Rightarrow>
               if we_now env < t then
                 (if w_signed_raw row0 \<noteq> '''' then rebroadcast env row0 w else (w, None))
               else finish env row0 WithdrawFailed ''transaction expired without inclusion'' FailExpired 0 0 w
           | None \<Rightarrow> finish env row0 WithdrawFailed ''transaction expired without inclusion'' FailExpired 0 0 w)
      | Inr (Some _) \<Rightarrow>
          case finalInfo env (w_txid row0) head of
            Inl e \<Rightarrow> (w, Some e)
          | Inr None \<Rightarrow> (w, None)
          | Inr (Some final) \<Rightarrow>
              let row = row0\<lparr>w_block_number := ti_block_number final\<rparr>
              in if \<not> Succeeded final then
                   finish env row WithdrawFailed (''on-chain failure: '' @ FailureReason final)
                     (ClassifyReceipt (Some final)) (ti_energy_usage_total final) (ti_fee final) w
                 else if \<not> transferred (we_kec env) final row then
                   finish env row WithdrawFailed ''receipt succeeded but no matching Transfer event was emitted''
                     FailNoTransfer (ti_energy_usage_total final) (ti_fee final) w
                 else finish env row WithdrawConfirmed '''' '''' (ti_energy_usage_total final) (ti_fee final) w)"

definition Reconcile ::
  "node_api \<Rightarrow> (withdraw_record \<Rightarrow> withdraw_env) \<Rightarrow> bool \<Rightarrow> world \<Rightarrow> world \<times> go_error option" where
  "Reconcile g envs fail w =
     (let rows = select_limit (\<lambda>r. w_status r \<in> {WithdrawSigned, WithdrawBroadcast}) 100 (withdraws w);
          run = (\<lambda>head. (foldl (\<lambda>w row. fst (reconcileOne (envs row) row head w)) w rows, None))
      in if fail then (w, Some db_err)
         else if na_solidity_confirm g then run 0
         else case GetNowBlock g of Inl e \<Rightarrow> (w, Some e) | Inr b \<Rightarrow> run (b_number b))"

end
