(* ===== verification/WithdrawSafety.thy ===== *)
theory WithdrawSafety
  imports Withdraw
begin

text \<open>
  What withdrawal workers can do to the orders, whatever the nodes, the signer's availability and the
  database do: the effect of every handler on the order it works for, the transition system of any
  number of workers, and the promises of the package: at most one transaction per order, states only
  move forward, and every outcome is announced exactly once.
\<close>

section \<open>The effect of a handler on its order\<close>

text \<open>The fields no worker changes.\<close>

definition same_order :: "withdraw_record \<Rightarrow> withdraw_record \<Rightarrow> bool" where
  "same_order a b \<longleftrightarrow> w_id a = w_id b \<and> w_order_no a = w_order_no b \<and> w_trade_no a = w_trade_no b
     \<and> w_ext_param a = w_ext_param b \<and> w_merchant_id a = w_merchant_id b \<and> w_chain a = w_chain b
     \<and> w_symbol a = w_symbol b \<and> w_contract a = w_contract b \<and> w_to_address a = w_to_address b
     \<and> w_notify_url a = w_notify_url b \<and> w_amount_units a = w_amount_units b \<and> w_decimals a = w_decimals b"

lemma same_order_refl [simp]: "same_order a a"
  by (simp add: same_order_def)

lemma same_order_sym: "same_order a b \<Longrightarrow> same_order b a"
  by (simp add: same_order_def)

lemma same_order_trans: "same_order a b \<Longrightarrow> same_order b c \<Longrightarrow> same_order a c"
  by (simp add: same_order_def)

definition settled :: "withdraw_record \<Rightarrow> bool" where
  "settled r \<longleftrightarrow> withdraw_rank (w_status r) = 3"

text \<open>A move that reports nothing: bookkeeping, signing, or handing the bytes over.\<close>

inductive move :: "string \<Rightarrow> string \<Rightarrow> withdraw_record \<Rightarrow> withdraw_record \<Rightarrow> bool" for t raw where
  keep: "same_order r r' \<Longrightarrow> w_status r' = w_status r \<Longrightarrow> w_txid r' = w_txid r \<Longrightarrow>
    w_signed_raw r' = w_signed_raw r \<Longrightarrow> move t raw r r'"
| take: "same_order r r' \<Longrightarrow> w_status r = WithdrawCreated \<Longrightarrow> w_status r' = WithdrawSigned \<Longrightarrow>
    w_txid r' = t \<Longrightarrow> w_signed_raw r' = raw \<Longrightarrow> move t raw r r'"
| sent: "same_order r r' \<Longrightarrow> w_status r = WithdrawSigned \<Longrightarrow> w_status r' = WithdrawBroadcast \<Longrightarrow>
    w_txid r' \<in> {w_txid r, t} \<Longrightarrow> w_signed_raw r' = w_signed_raw r \<Longrightarrow> move t raw r r'"

definition settles :: "withdraw_record \<Rightarrow> withdraw_record \<Rightarrow> bool" where
  "settles r r' \<longleftrightarrow> same_order r r' \<and> \<not> settled r \<and> settled r' \<and> w_txid r' = w_txid r
     \<and> w_signed_raw r' = w_signed_raw r"

definition put_row :: "withdraw_record \<Rightarrow> withdraw_record list \<Rightarrow> withdraw_record list" where
  "put_row x t = map (\<lambda>r. if w_id r = w_id x then x else r) t"

definition add_event :: "string \<Rightarrow> string list \<Rightarrow> string list" where
  "add_event ev evs = (if ev \<in> set evs then evs else evs @ [ev])"

definition evolve ::
  "string \<Rightarrow> string \<Rightarrow> withdraw_record \<Rightarrow> withdraw_record \<Rightarrow> world \<Rightarrow> world \<Rightarrow> bool" where
  "evolve t raw row r0 w w' \<longleftrightarrow> (\<exists>r'. withdraws w' = put_row r' (withdraws w) \<and>
     (move t raw r0 r' \<and> event_ids w' = event_ids w
      \<or> settles r0 r' \<and> event_ids w' = add_event (withdraw_event_id row) (event_ids w)))"

definition own_row :: "withdraw_record \<Rightarrow> withdraw_record \<Rightarrow> world \<Rightarrow> bool" where
  "own_row row r0 w \<longleftrightarrow> distinct (map w_id (withdraws w)) \<and> r0 \<in> set (withdraws w) \<and> w_id r0 = w_id row"

lemma own_row_unique: "own_row row r0 w \<Longrightarrow> r \<in> set (withdraws w) \<Longrightarrow> w_id r = w_id row \<Longrightarrow> r = r0"
  unfolding own_row_def distinct_map by (metis inj_onD)

lemma update_own_row:
  assumes "own_row row r0 w" and "\<And>r. w_id (f r) = w_id r"
  shows "update_where (\<lambda>r. w_id r = w_id row \<and> Q r) f (withdraws w) =
     put_row (if Q r0 then f r0 else r0) (withdraws w)"
proof -
  have i: "w_id (if Q r0 then f r0 else r0) = w_id row" using assms by (simp add: own_row_def)
  have "(if w_id r = w_id row \<and> Q r then f r else r) =
      (if w_id r = w_id row then (if Q r0 then f r0 else r0) else r)"
    if "r \<in> set (withdraws w)" for r
    using own_row_unique [OF assms(1) that] by (cases "w_id r = w_id row") simp_all
  then show ?thesis unfolding update_where_def put_row_def i by (rule map_cong [OF refl])
qed

lemma put_own_row: "own_row row r0 w \<Longrightarrow> put_row r0 (withdraws w) = withdraws w"
  using own_row_unique [of row r0 w] by (auto simp: put_row_def own_row_def intro!: map_idI)

lemma affected_own_row:
  "own_row row r0 w \<Longrightarrow> affected (\<lambda>r. w_id r = w_id row \<and> Q r) (withdraws w) = 0 \<longleftrightarrow> \<not> Q r0"
  using own_row_unique [of row r0 w] by (auto simp: affected_zero own_row_def)

lemma evolve_refl:
  "own_row row r0 w \<Longrightarrow> withdraws w' = withdraws w \<Longrightarrow> event_ids w' = event_ids w \<Longrightarrow> evolve t raw row r0 w w'"
  unfolding evolve_def using put_own_row [of row r0 w] by (metis move.keep same_order_refl)

lemma own_row_cong: "withdraws w' = withdraws w \<Longrightarrow> own_row row r0 w' = own_row row r0 w"
  by (simp add: own_row_def)

lemma evolve_cong:
  "evolve t raw row r0 w w' \<Longrightarrow> withdraws v = withdraws w \<Longrightarrow> event_ids v = event_ids w \<Longrightarrow>
   withdraws v' = withdraws w' \<Longrightarrow> event_ids v' = event_ids w' \<Longrightarrow> evolve t raw row r0 v v'"
  by (simp add: evolve_def)

lemma event_ids_announce: "event_ids (announce row outcome reason now w) = add_event (withdraw_event_id row) (event_ids w)"
  by (simp add: announce_def EnqueueOutbox_event_ids add_event_def)

lemma announce_withdraws [simp]: "withdraws (announce row outcome reason now w) = withdraws w"
  by (simp add: announce_def)

lemma settle_evolve:
  assumes "own_row row r0 w" and "settle env from f row' outcome reason w = (w', e)"
    and "withdraw_event_id row' = withdraw_event_id row" and "w_id row' = w_id row"
    and "\<And>r. w_status r \<in> from \<Longrightarrow> settles r (f r)" and "\<And>r. w_id (f r) = w_id r"
  shows "evolve t raw row r0 w w'"
proof (cases "we_fail env WdTx \<or> w_status r0 \<notin> from")
  case True
  then have "w' = w"
    using assms(2,4) affected_own_row [OF assms(1), of "\<lambda>r. w_status r \<in> from"]
    by (auto simp: settle_def Let_def split: if_splits)
  then show ?thesis using evolve_refl [OF assms(1)] by simp
next
  case False
  have "withdraws w' = put_row (f r0) (withdraws w)"
    "event_ids w' = add_event (withdraw_event_id row) (event_ids w)"
    using assms(2,3,4) False affected_own_row [OF assms(1), of "\<lambda>r. w_status r \<in> from"]
      update_own_row [OF assms(1,6), of "\<lambda>r. w_status r \<in> from"]
    by (auto simp: settle_def Let_def event_ids_announce split: if_splits) (simp_all add: event_ids_def)
  moreover have "settles r0 (f r0)" using False assms(5) by blast
  ultimately show ?thesis by (auto simp: evolve_def)
qed

lemma settled_simps [simp]:
  "w_status r = WithdrawCreated \<Longrightarrow> \<not> settled r" "w_status r = WithdrawSigned \<Longrightarrow> \<not> settled r"
  "w_status r = WithdrawBroadcast \<Longrightarrow> \<not> settled r" "w_status r = WithdrawConfirmed \<Longrightarrow> settled r"
  "w_status r = WithdrawFailed \<Longrightarrow> settled r" "w_status r = WithdrawRejected \<Longrightarrow> settled r"
  by (simp_all add: settled_def)

lemma reject_evolve:
  assumes "own_row row r0 w" and "reject env row reason w = (w', e)"
  shows "evolve t raw row r0 w w'"
  by (rule settle_evolve [OF assms(1) assms(2) [unfolded reject_def]])
    (auto simp: settles_def same_order_def withdraw_event_id_def)

lemma finish_evolve:
  assumes "own_row row r0 w" and "finish env row' status reason failCode used fee w = (w', e)"
    and "withdraw_rank status = 3" and "same_order row' row"
  shows "evolve t raw row r0 w w'"
proof -
  have "withdraw_event_id row' = withdraw_event_id row" "w_id row' = w_id row"
    using assms(4) by (simp_all add: same_order_def withdraw_event_id_def)
  then show ?thesis
    using assms(3)
    by (intro settle_evolve [OF assms(1) assms(2) [unfolded finish_def Let_def]])
      (auto simp: settles_def same_order_def withdraw_event_id_def settled_def)
qed

lemma halt_evolve:
  assumes "own_row row r0 w" and "halt env row failCode reason w = (w', e)"
  shows "evolve t raw row r0 w w'"
proof (cases "i64 (w_halt_count row + 1) \<ge> haltMaxRetries (we_cfg env)")
  case True
  then obtain e' where "failHalted env row failCode reason (i64 (w_halt_count row + 1)) w = (w', e')"
    using assms(2) by (auto simp: halt_def Let_def split: prod.splits option.splits)
  from this [unfolded failHalted_def Let_def] show ?thesis
    by (rule settle_evolve [OF assms(1)]) (auto simp: settles_def same_order_def withdraw_event_id_def)
next
  case False
  define f where "f = (\<lambda>r :: withdraw_record. r\<lparr>w_fail_reason := truncate_str reason 240, w_fail_code := failCode,
      w_halt_count := i64 (w_halt_count row + 1), w_updated_at := we_now env\<rparr>)"
  have "w' = w \<or> w' = w\<lparr>withdraws := put_row (if w_status r0 = WithdrawCreated then f r0 else r0) (withdraws w)\<rparr>"
    using assms(2) False update_own_row [OF assms(1), of f "\<lambda>r. w_status r = WithdrawCreated"]
    by (auto simp: halt_def Let_def f_def split: if_splits)
  moreover have "move t raw r0 (if w_status r0 = WithdrawCreated then f r0 else r0)"
    by (rule move.keep) (auto simp: f_def same_order_def)
  ultimately show ?thesis
    using evolve_refl [OF assms(1)] by (auto simp: evolve_def event_ids_def)
qed

lemma checkBalance_evolve:
  assumes "own_row row r0 w" and "checkBalance env row tok from amount w = (w', e)"
  shows "(e = None \<longrightarrow> w' = w) \<and> evolve t raw row r0 w w'"
  using assms evolve_refl [OF assms(1) refl refl] halt_evolve [OF assms(1)]
  by (auto simp: checkBalance_def Let_def halt_def split: sum.splits if_splits prod.splits option.splits)

lemma checkBurnBudget_evolve:
  assumes "own_row row r0 w" and "checkBurnBudget env row from need w = (w', e)"
  shows "(e = None \<longrightarrow> w' = w) \<and> evolve t raw row r0 w w'"
  using assms evolve_refl [OF assms(1) refl refl] halt_evolve [OF assms(1)]
  by (auto simp: checkBurnBudget_def Let_def halt_def split: sum.splits if_splits prod.splits option.splits)

lemma pay_energy_evolve:
  assumes "own_row row r0 w" and "pay_energy env row addr need w = (w', e)"
  shows "(e = None \<longrightarrow> withdraws w' = withdraws w \<and> event_ids w' = event_ids w \<and> broadcasts w' = broadcasts w)
    \<and> evolve t raw row r0 w w'"
proof (cases "WithdrawRentalOn (we_cfg env)")
  case False
  then have "checkBurnBudget env row addr need w = (w', e)" using assms(2) by (simp add: pay_energy_def)
  from checkBurnBudget_evolve [OF assms(1) this, of t raw] show ?thesis by (cases e) auto
next
  case rental: True
  show ?thesis
  proof (cases "case pool w of None \<Rightarrow> True | Some p \<Rightarrow> \<not> HasEnergyFor (we_node env) p need")
    case False
    then show ?thesis using assms(2) rental evolve_refl [OF assms(1)] by (simp add: pay_energy_def)
  next
    case True
    obtain w1 r where acq: "AcquireRented (we_energy env) ''withdraw'' addr need (''withdraw-'' @ big_String (w_id row)) w = (w1, r)"
      by fastforce
    then have eo: "energy_only w w1" unfolding AcquireRented_def by (rule acquire_only)
    note fr = energy_only_frame [OF eo]
    have own: "own_row row r0 w1" using assms(1) own_row_cong [OF fr(1)] by blast
    show ?thesis
    proof (cases r)
      case (Inr o')
      then have "w' = w1 \<and> e = None" using assms(2) rental True acq by (simp add: pay_energy_def)
      then show ?thesis using fr evolve_refl [OF assms(1)] by simp
    next
      case (Inl err)
      then have h: "halt env row ''energy_rental_failed''
          (''energy rental failed, withdrawal stopped (no TRX burn fallback): '' @ err_msg err) w1 = (w', e)"
        using assms(2) rental True acq by (simp add: pay_energy_def)
      have "e \<noteq> None" using h by (auto simp: halt_def Let_def split: if_splits prod.splits option.splits)
      moreover have "evolve t raw row r0 w w'"
        using evolve_cong [OF halt_evolve [OF own h]] fr by simp
      ultimately show ?thesis by blast
    qed
  qed
qed

lemma sign_and_take_evolve:
  assumes "own_row row r0 w" and "sign_and_take env row tok data w = (w', out)"
  shows "case out of
      Inl _ \<Rightarrow> w' = w
    | Inr (row', tx) \<Rightarrow> same_order row' row \<and> w_status r0 = WithdrawCreated
        \<and> evolve (w_txid row') (tx_raw_data_hex tx) row r0 w w'
        \<and> (\<exists>r'. r' \<in> set (withdraws w') \<and> w_id r' = w_id row \<and> w_txid r' = w_txid row'
              \<and> w_signed_raw r' = tx_raw_data_hex tx \<and> w_status r' = WithdrawSigned)
        \<and> (\<exists>req resp. we_sign env req = Inr resp \<and> w_txid row' = sp_txid resp \<and> tx = sp_tx resp)"
proof (cases out)
  case (Inl e)
  then show ?thesis using assms(2)
    by (auto simp: sign_and_take_def Let_def split: sum.splits if_splits)
next
  case (Inr p)
  obtain req resp where resp: "we_sign env req = Inr resp" and nz: "w_status r0 = WithdrawCreated"
    and p: "p = (row\<lparr>w_txid := sp_txid resp, w_signed_raw := tx_raw_data_hex (sp_tx resp),
        w_from_address := sys_address (wc_hot_wallet (cf_wallet (we_cfg env)))\<rparr>, sp_tx resp)"
    and w': "withdraws w' = update_where (\<lambda>r. w_id r = w_id row \<and> w_status r = WithdrawCreated)
        (\<lambda>r. r\<lparr>w_status := WithdrawSigned, w_txid := sp_txid resp, w_signed_raw := tx_raw_data_hex (sp_tx resp),
            w_from_address := sys_address (wc_hot_wallet (cf_wallet (we_cfg env))),
            w_expired_at := Some (we_now env + i64 (expirationSeconds (we_cfg env) * second)),
            w_updated_at := we_now env\<rparr>) (withdraws w)" "event_ids w' = event_ids w"
  proof -
    let ?hot = "wc_hot_wallet (cf_wallet (we_cfg env))"
    obtain tx where b: "BuildTRC20Transfer (we_node env) (sys_address ?hot) (tc_contract tok) data
        (wd_fee_limit_sun (cf_withdraw (we_cfg env))) = Inr tx"
      using assms(2) Inr by (cases "BuildTRC20Transfer (we_node env) (sys_address ?hot) (tc_contract tok) data
        (wd_fee_limit_sun (cf_withdraw (we_cfg env)))") (simp_all add: sign_and_take_def Let_def)
    let ?req = "\<lparr>sr_purpose = PurposeWithdraw, sr_path = sys_path ?hot, sr_address = sys_address ?hot,
      sr_tx = Some tx, sr_meta = \<lparr>sm_to_address = w_to_address row, sm_contract = tc_contract tok,
        sm_amount_units = w_amount_units row, sm_amount_sun = 0\<rparr>\<rparr>"
    obtain resp where s: "we_sign env ?req = Inr resp"
      using assms(2) Inr b by (cases "we_sign env ?req") (simp_all add: sign_and_take_def Let_def)
    show ?thesis
      using assms(2) Inr affected_own_row [OF assms(1), of "\<lambda>r. w_status r = WithdrawCreated"]
      by (intro that [of ?req resp])
        (auto simp: sign_and_take_def Let_def b s event_ids_def split: if_split_asm)
  qed
  define r' where "r' = r0\<lparr>w_status := WithdrawSigned, w_txid := sp_txid resp,
      w_signed_raw := tx_raw_data_hex (sp_tx resp),
      w_from_address := sys_address (wc_hot_wallet (cf_wallet (we_cfg env))),
      w_expired_at := Some (we_now env + i64 (expirationSeconds (we_cfg env) * second)),
      w_updated_at := we_now env\<rparr>"
  have put: "withdraws w' = put_row r' (withdraws w)"
    using update_own_row [OF assms(1), of _ "\<lambda>r. w_status r = WithdrawCreated"] nz
    by (simp add: w'(1) r'_def)
  have m: "move (sp_txid resp) (tx_raw_data_hex (sp_tx resp)) r0 r'"
    by (rule move.take) (auto simp: r'_def same_order_def nz)
  have "r' \<in> set (withdraws w')" "w_id r' = w_id row"
    using assms(1) by (auto simp: put put_row_def r'_def own_row_def image_iff intro!: bexI [of _ r0])
  then show ?thesis
    using m put w'(2) resp nz
    by (auto simp: Inr p evolve_def same_order_def r'_def intro!: exI [of _ r'])
qed

lemma halt_stops: "halt env row fc reason w \<noteq> (w', None)"
  by (auto simp: halt_def Let_def split: if_splits prod.splits option.splits)

lemma checkBalance_pass:
  assumes "checkBalance env row tok from amount w = (w', None)"
  shows "w' = w \<and> (\<exists>balance inflight. tokenBalance env (tc_contract tok) from = Inr balance
    \<and> inflightUnits env (tc_contract tok) from w = Inr inflight \<and> amount + inflight \<le> balance)"
  using assms by (simp add: checkBalance_def Let_def halt_stops split: sum.splits if_splits)

text \<open>\<open>prepare\<close>: whatever it decides is one evolution of its own order, and it sends nothing.\<close>

lemma settle_broadcasts: "settle env from f row outcome reason w = (w', e) \<Longrightarrow> broadcasts w' = broadcasts w"
  by (auto simp: settle_def Let_def announce_def split: if_splits)

lemma halt_broadcasts: "halt env row fc reason w = (w', e) \<Longrightarrow> broadcasts w' = broadcasts w"
  by (auto simp: halt_def failHalted_def Let_def dest: settle_broadcasts split: if_splits prod.splits option.splits)

lemma reject_broadcasts: "reject env row reason w = (w', e) \<Longrightarrow> broadcasts w' = broadcasts w"
  by (auto simp: reject_def dest: settle_broadcasts)

lemma finish_broadcasts: "finish env row st reason fc u f w = (w', e) \<Longrightarrow> broadcasts w' = broadcasts w"
  by (auto simp: finish_def Let_def dest: settle_broadcasts)

lemma checkBurnBudget_broadcasts: "checkBurnBudget env row from need w = (w', e) \<Longrightarrow> broadcasts w' = broadcasts w"
  by (auto simp: checkBurnBudget_def Let_def dest: halt_broadcasts split: sum.splits if_splits)

lemma pay_energy_broadcasts: "pay_energy env row addr need w = (w', e) \<Longrightarrow> broadcasts w' = broadcasts w"
  by (auto simp: pay_energy_def AcquireRented_def dest!: checkBurnBudget_broadcasts halt_broadcasts
      energy_only_frame(3) [OF acquire_only] split: if_splits sum.splits prod.splits)

lemma checkBalance_broadcasts: "checkBalance env row tok from amount w = (w', e) \<Longrightarrow> broadcasts w' = broadcasts w"
  by (auto simp: checkBalance_def Let_def dest: halt_broadcasts split: sum.splits if_splits)

lemma sign_and_take_broadcasts: "sign_and_take env row tok data w = (w', out) \<Longrightarrow> broadcasts w' = broadcasts w"
  by (auto simp: sign_and_take_def Let_def split: sum.splits if_splits)

text \<open>How a preparation can go: stopped by a settlement or halt, or signed after paying.\<close>

lemma prepare_cases:
  assumes "prepare env row w = (w', out)"
  obtains (error) e where "w' = w" "out = Inl e"
  | (reject) reason e where "reject env row reason w = (w', e)" "out = Inl e"
  | (balance) tok amount e where "checkBalance env row tok (sys_address (wc_hot_wallet (cf_wallet (we_cfg env)))) amount w = (w', Some e)" "out = Inl (Some e)"
  | (fee) need e where "pay_energy env row (sys_address (wc_hot_wallet (cf_wallet (we_cfg env)))) need w = (w', Some e)" "out = Inl (Some e)"
  | (sign) tok amount data need w2 where "riskCheck env row w = Inr ''''" "token (we_cfg env) (w_symbol row) = Some tok"
      "SetString (w_amount_units row) = Some amount" "0 < amount"
      "EncodeTRC20Transfer (we_kec env) (w_to_address row) amount = Inr data"
      "checkBalance env row tok (sys_address (wc_hot_wallet (cf_wallet (we_cfg env)))) amount w = (w, None)"
      "pay_energy env row (sys_address (wc_hot_wallet (cf_wallet (we_cfg env)))) need w = (w2, None)"
      "sign_and_take env row tok data w2 = (w', out)"
proof -
  let ?addr = "sys_address (wc_hot_wallet (cf_wallet (we_cfg env)))"
  let ?stop = "\<lambda>(w, e). (w, Inl e) :: world \<times> (go_error option + prepared)"
  have stop: "thesis" if "?stop (reject env row reason w) = (w', out)" for reason
    using that reject by (cases "reject env row reason w") auto
  show thesis
  proof (cases "riskCheck env row w")
    case (Inl e)
    with assms error [of "Some e"] show thesis by (auto simp: prepare_def)
  next
    case reason: (Inr reason)
    show thesis
    proof (cases "reason = '''' \<and> token (we_cfg env) (w_symbol row) \<noteq> None
        \<and> (\<exists>a. SetString (w_amount_units row) = Some a \<and> 0 < a
            \<and> (\<exists>d. EncodeTRC20Transfer (we_kec env) (w_to_address row) a = Inr d))")
      case False
      with assms reason stop show thesis
        by (auto simp: prepare_def Let_def split: if_split_asm option.split_asm sum.split_asm)
    next
      case True
      then obtain tok amount data where t: "token (we_cfg env) (w_symbol row) = Some tok"
        "SetString (w_amount_units row) = Some amount" "0 < amount"
        "EncodeTRC20Transfer (we_kec env) (w_to_address row) amount = Inr data" by blast
      obtain w1 e1 where c: "checkBalance env row tok ?addr amount w = (w1, e1)" by fastforce
      show thesis
      proof (cases e1)
        case (Some e)
        with assms reason True t c balance show thesis by (simp add: prepare_def Let_def)
      next
        case None
        have "w1 = w" using checkBalance_pass c None by blast
        define need where "need = (case EstimateEnergy (cf_energy (we_cfg env)) (we_node env) ?addr (tc_contract tok) data of
            Inl _ \<Rightarrow> ec_energy_per_tx_new (cf_energy (we_cfg env)) | Inr n \<Rightarrow> n)"
        obtain w2 e2 where p: "pay_energy env row ?addr need w = (w2, e2)" by fastforce
        have "prepare env row w = (case e2 of Some e \<Rightarrow> (w2, Inl (Some e)) | None \<Rightarrow> sign_and_take env row tok data w2)"
          using reason True t c None \<open>w1 = w\<close> p
          by (simp add: prepare_def Let_def need_def [symmetric] split: option.split)
        then show thesis
          using assms fee [of need] sign [of tok amount data need w2] reason True t c None \<open>w1 = w\<close> p
          by (cases e2) simp_all
      qed
    qed
  qed
qed

section \<open>Every handler evolves its own order\<close>

lemma prepare_evolve:
  assumes "own_row row r0 w" and "prepare env row w = (w', out)"
  shows "case out of
      Inl _ \<Rightarrow> evolve (w_txid r0) (w_signed_raw r0) row r0 w w'
    | Inr (row', tx) \<Rightarrow> same_order row' row \<and> w_status r0 = WithdrawCreated
        \<and> evolve (w_txid row') (tx_raw_data_hex tx) row r0 w w'
        \<and> (\<exists>r'. r' \<in> set (withdraws w') \<and> w_id r' = w_id row \<and> w_txid r' = w_txid row'
              \<and> w_signed_raw r' = tx_raw_data_hex tx \<and> w_status r' = WithdrawSigned)
        \<and> (\<exists>req resp. we_sign env req = Inr resp \<and> w_txid row' = sp_txid resp \<and> tx = sp_tx resp)"
  using assms(2)
proof (cases rule: prepare_cases)
  case error
  then show ?thesis using evolve_refl [OF assms(1)] by simp
next
  case reject
  then show ?thesis using reject_evolve [OF assms(1)] by simp
next
  case balance
  then show ?thesis using checkBalance_evolve [OF assms(1)] by simp
next
  case fee
  then show ?thesis using pay_energy_evolve [OF assms(1)] by simp
next
  case (sign tok amount data need w2)
  have same: "withdraws w2 = withdraws w" "event_ids w2 = event_ids w"
    using pay_energy_evolve [OF assms(1) sign(7)] by blast+
  have own: "own_row row r0 w2" using assms(1) own_row_cong [OF same(1)] by blast
  show ?thesis
  proof (cases out)
    case (Inl e)
    then have "w' = w2" using sign_and_take_evolve [OF own sign(8)] by simp
    then show ?thesis using Inl same evolve_refl [OF assms(1)] by simp
  next
    case (Inr p)
    then show ?thesis
      using sign_and_take_evolve [OF own sign(8)] same
      by (auto simp: split_beta elim: evolve_cong)
  qed
qed

lemma send_simps [simp]:
  "withdraws (send tx w) = withdraws w" "event_ids (send tx w) = event_ids w"
  "broadcasts (send tx w) = broadcasts w @ [tx]" "pool (send tx w) = pool w" "outbox (send tx w) = outbox w"
  by (simp_all add: send_def event_ids_def)

lemma own_row_send [simp]: "own_row row r0 (send tx w) = own_row row r0 w"
  by (simp add: own_row_def)

lemma to_broadcast_evolve:
  assumes "own_row row r0 w"
    and "\<And>r. same_order r (f r) \<and> w_status (f r) = w_status r \<and> w_txid (f r) \<in> {w_txid r, t}
           \<and> w_signed_raw (f r) = w_signed_raw r"
  shows "evolve t raw row r0 w (to_broadcast env row f w)"
proof (cases "we_fail env WdBroadcast")
  case True
  then show ?thesis using evolve_refl [OF assms(1)] by (simp add: to_broadcast_def)
next
  case False
  let ?g = "\<lambda>r. f (r\<lparr>w_status := WithdrawBroadcast, w_broadcast_at := Some (we_now env), w_updated_at := we_now env\<rparr>)"
  have g: "w_id (?g r) = w_id r" "same_order r (?g r)" "w_status (?g r) = WithdrawBroadcast"
    "w_txid (?g r) \<in> {w_txid r, t}" "w_signed_raw (?g r) = w_signed_raw r" for r
    using assms(2) [of "r\<lparr>w_status := WithdrawBroadcast, w_broadcast_at := Some (we_now env), w_updated_at := we_now env\<rparr>"]
    by (auto simp: same_order_def)
  let ?r' = "if w_status r0 = WithdrawSigned then ?g r0 else r0"
  have "withdraws (to_broadcast env row f w) = put_row ?r' (withdraws w)"
    using False update_own_row [OF assms(1) g(1), of "\<lambda>r. w_status r = WithdrawSigned"] by (simp add: to_broadcast_def)
  moreover have "move t raw r0 ?r'"
  proof (cases "w_status r0 = WithdrawSigned")
    case True
    then show ?thesis using move.sent [OF g(2) True g(3) g(4) g(5)] by simp
  next
    case False
    then show ?thesis by (simp add: move.keep)
  qed
  moreover have "event_ids (to_broadcast env row f w) = event_ids w"
    by (simp add: to_broadcast_def event_ids_def)
  ultimately show ?thesis unfolding evolve_def by blast
qed

lemma broadcast_cases:
  assumes "broadcast env row txid tx w = (w', e)"
  obtains (refused) fc reason e1 where "finish env (row\<lparr>w_txid := txid, w_fail_code := fc\<rparr>) WithdrawFailed
      reason fc 0 0 (send tx w) = (w', e1)" "e \<noteq> None"
  | (unsure) fc reason where "e \<noteq> None"
      "w' = to_broadcast env row (\<lambda>r. r\<lparr>w_fail_reason := reason, w_fail_code := fc\<rparr>) (send tx w)"
  | (accepted) p v where "e = None" "w' = v\<lparr>pool := p\<rparr>"
      "v = to_broadcast env row (\<lambda>r. r\<lparr>w_txid := tx_id tx, w_fail_reason := '''', w_fail_code := ''''\<rparr>) (send tx w)"
proof -
  obtain res oe where b: "Broadcast (we_node env) tx = (res, oe)" by fastforce
  show thesis
  proof (cases oe)
    case None
    then obtain x where "res = Some x" "br_txid x = tx_id tx" using Broadcast_ok b by blast
    then show thesis using assms b None by (intro accepted [OF _ _ refl]) (auto simp: broadcast_def Let_def)
  next
    case (Some err)
    obtain fc perm where c: "(case res of None \<Rightarrow> (FailNode, False) | Some r \<Rightarrow> ClassifyBroadcast (br_code r) (br_message r)) = (fc, perm)"
      by fastforce
    obtain w1 e1 where f: "finish env (row\<lparr>w_txid := txid, w_fail_code := fc\<rparr>) WithdrawFailed
        (''broadcast rejected: '' @ err_msg err) fc 0 0 (send tx w) = (w1, e1)" by fastforce
    show thesis
    proof (cases perm)
      case True
      then have "w' = w1 \<and> e \<noteq> None"
        using assms b c f Some by (auto simp: broadcast_def Let_def split: option.split_asm)
      then show thesis using refused f by blast
    next
      case False
      then have "e \<noteq> None" "w' = to_broadcast env row
          (\<lambda>r. r\<lparr>w_fail_reason := truncate_str (err_msg err) 240, w_fail_code := fc\<rparr>) (send tx w)"
        using assms b c Some by (auto simp: broadcast_def Let_def)
      then show thesis by (rule unsure)
    qed
  qed
qed

lemma broadcast_evolve:
  assumes "own_row row r0 w" and "broadcast env row txid tx w = (w', e)"
  shows "evolve (tx_id tx) raw row r0 w w'"
proof -
  have own: "own_row row r0 (send tx w)" using assms(1) by simp
  show ?thesis
    using assms(2)
  proof (cases rule: broadcast_cases)
    case refused
    have "evolve (tx_id tx) raw row r0 (send tx w) w'"
      using finish_evolve [OF own refused(1)] by (simp add: same_order_def)
    then show ?thesis by (rule evolve_cong) simp_all
  next
    case (unsure fc reason)
    have "evolve (tx_id tx) raw row r0 (send tx w) w'"
      unfolding unsure(2) by (rule to_broadcast_evolve [OF own]) (simp add: same_order_def)
    then show ?thesis by (rule evolve_cong) simp_all
  next
    case (accepted p v)
    have "evolve (tx_id tx) raw row r0 (send tx w) v"
      unfolding accepted(3) by (rule to_broadcast_evolve [OF own]) (simp add: same_order_def)
    then show ?thesis by (rule evolve_cong) (simp_all add: accepted(2) event_ids_def)
  qed
qed

lemma rebroadcast_evolve:
  assumes "own_row row r0 w" and "rebroadcast env row w = (w', e)"
  shows "evolve t raw row r0 w w' \<and>
    (broadcasts w' = broadcasts w \<or> (\<exists>req resp. we_sign env req = Inr resp \<and> sp_txid resp = w_txid row
       \<and> (\<exists>tx. sr_tx req = Some tx \<and> tx_raw_data_hex tx = w_signed_raw row)
       \<and> broadcasts w' = broadcasts w @ [sp_tx resp]))"
proof -
  let ?hot = "wc_hot_wallet (cf_wallet (we_cfg env))"
  let ?req = "\<lparr>sr_purpose = PurposeWithdraw, sr_path = sys_path ?hot, sr_address = sys_address ?hot,
            sr_tx = Some \<lparr>tx_visible = False, tx_id = w_txid row, tx_raw_data = None,
              tx_raw_data_hex = w_signed_raw row, tx_signature = []\<rparr>,
            sr_meta = \<lparr>sm_to_address = w_to_address row, sm_contract = w_contract row,
              sm_amount_units = w_amount_units row, sm_amount_sun = 0\<rparr>\<rparr>"
  show ?thesis
  proof (cases "\<exists>resp. we_sign env ?req = Inr resp \<and> sp_txid resp = w_txid row")
    case False
    then have "w' = w" using assms(2) by (auto simp: rebroadcast_def Let_def split: sum.splits if_splits)
    then show ?thesis using evolve_refl [OF assms(1)] by simp
  next
    case True
    then obtain resp where s: "we_sign env ?req = Inr resp" "sp_txid resp = w_txid row" by blast
    let ?w1 = "send (sp_tx resp) w"
    have own: "own_row row r0 ?w1" using assms(1) by simp
    have "w' = ?w1 \<or> (\<exists>reason fc e'. finish env row WithdrawFailed reason fc 0 0 ?w1 = (w', e'))"
      using assms(2) s
      by (simp add: rebroadcast_def Let_def split: prod.split_asm option.split_asm if_split_asm) blast+
    then have b: "broadcasts w' = broadcasts w @ [sp_tx resp]" and ev: "evolve t raw row r0 ?w1 w'"
      using finish_broadcasts [of env row WithdrawFailed _ _ 0 0 ?w1 w'] evolve_refl [OF own refl refl]
        finish_evolve [OF own, of env row WithdrawFailed _ _ 0 0 w' _ t raw] by auto
    have "evolve t raw row r0 w w'" using ev by (rule evolve_cong) simp_all
    moreover have "\<exists>tx. sr_tx ?req = Some tx \<and> tx_raw_data_hex tx = w_signed_raw row" by simp
    ultimately show ?thesis using s b by blast
  qed
qed

lemma transferred_block [simp]: "transferred kec info (row\<lparr>w_block_number := b\<rparr>) = transferred kec info row"
  by (simp add: transferred_def cong: option.case_cong sum.case_cong)

lemma reconcileOne_cases:
  assumes "reconcileOne env row head w = (w', e)"
  obtains (nothing) "w' = w"
  | (resend) "w_txid row \<noteq> ''''" "rebroadcast env row w = (w', e)"
  | (fail) row' reason fc used fee where "same_order row' row" "finish env row' WithdrawFailed reason fc used fee w = (w', e)"
  | (confirm) final where "finalInfo env (w_txid row) head = Inr (Some final)" "Succeeded final"
      "transferred (we_kec env) final row"
      "finish env (row\<lparr>w_block_number := ti_block_number final\<rparr>) WithdrawConfirmed '''' '''' (ti_energy_usage_total final) (ti_fee final) w = (w', e)"
proof (cases "w_txid row = ''''")
  case True
  then have "w' = w" using assms by (simp add: reconcileOne_def)
  then show thesis by (rule nothing)
next
  case named: False
  have fail': thesis if "finish env row WithdrawFailed reason fc used fee w = (w', e)" for reason fc used fee
    using fail [OF same_order_refl that] .
  have fail'': thesis if "finish env (row\<lparr>w_block_number := b\<rparr>) WithdrawFailed reason fc used fee w = (w', e)"
    for b reason fc used fee using fail [OF _ that] by (simp add: same_order_def)
  show thesis
  proof (cases "GetTxInfoByID (we_node env) (w_txid row)")
    case (Inl e1)
    then have "w' = w" using assms named by (simp add: reconcileOne_def)
    then show thesis by (rule nothing)
  next
    case seen: (Inr a)
    show thesis
    proof (cases a)
      case None
      then consider "w' = w" | "rebroadcast env row w = (w', e)"
        | "finish env row WithdrawFailed ''transaction expired without inclusion'' FailExpired 0 0 w = (w', e)"
        using assms named seen by (auto simp: reconcileOne_def split: if_split_asm option.split_asm)
      then show thesis
      proof cases
        case 1
        then show thesis by (rule nothing)
      next
        case 2
        show thesis by (rule resend [OF named 2])
      next
        case 3
        then show thesis by (rule fail')
      qed
    next
      case (Some i)
      show thesis
      proof (cases "\<exists>final. finalInfo env (w_txid row) head = Inr (Some final)")
        case False
        then have "w' = w" using assms named seen Some
          by (cases "finalInfo env (w_txid row) head") (auto simp: reconcileOne_def split: option.split_asm)
        then show thesis by (rule nothing)
      next
        case True
        then obtain final where f: "finalInfo env (w_txid row) head = Inr (Some final)" by blast
        show thesis
        proof (cases "Succeeded final \<and> transferred (we_kec env) final row")
          case True
          then show thesis using assms named seen Some f
            by (intro confirm [of final]) (simp_all add: reconcileOne_def Let_def)
        next
          case False
          then show thesis using assms named seen Some f fail''
            by (auto simp: reconcileOne_def Let_def split: if_split_asm)
        qed
      qed
    qed
  qed
qed

lemma reconcileOne_evolve:
  assumes "own_row row r0 w" and "reconcileOne env row head w = (w', e)"
  shows "evolve t raw row r0 w w' \<and>
    (broadcasts w' = broadcasts w \<or> (\<exists>req resp. we_sign env req = Inr resp \<and> sp_txid resp = w_txid row
       \<and> (\<exists>tx. sr_tx req = Some tx \<and> tx_raw_data_hex tx = w_signed_raw row)
       \<and> broadcasts w' = broadcasts w @ [sp_tx resp]))"
  using assms(2)
proof (cases rule: reconcileOne_cases)
  case nothing
  then show ?thesis using evolve_refl [OF assms(1)] by simp
next
  case resend
  then show ?thesis using rebroadcast_evolve [OF assms(1)] by blast
next
  case fail
  then show ?thesis using finish_evolve [OF assms(1) fail(2)] finish_broadcasts by fastforce
next
  case confirm
  then show ?thesis using finish_evolve [OF assms(1) confirm(4)] finish_broadcasts [OF confirm(4)]
    by (simp add: same_order_def)
qed

section \<open>Any number of workers\<close>

text \<open>
  A state of the system: the world, the copies of rows some worker has read and may still act on, the
  orders some worker has signed and not yet handed over, and (ghost) what was handed over for which
  order. A worker may stop anywhere; another may act on a copy however old it is. Locks are not
  assumed to work.
\<close>

record withdraw_sys =
  ws_world :: world
  ws_read :: "withdraw_record set"
  ws_ready :: "prepared set"
  ws_sent :: "(int \<times> transaction) set"

definition fresh_order :: "withdraw_record \<Rightarrow> world \<Rightarrow> bool" where
  "fresh_order row w \<longleftrightarrow> w_status row = WithdrawCreated \<and> w_id row \<notin> w_id ` set (withdraws w)
     \<and> w_order_no row \<notin> w_order_no ` set (withdraws w)"

definition withdraw_events :: "world \<Rightarrow> string list" where
  "withdraw_events w = filter (\<lambda>e. take 9 e = ''withdraw:'') (event_ids w)"

inductive withdraw_step :: "withdraw_sys \<Rightarrow> withdraw_sys \<Rightarrow> bool" where
  read: "row \<in> set (withdraws (ws_world s)) \<Longrightarrow>
    withdraw_step s (s\<lparr>ws_read := insert row (ws_read s)\<rparr>)"
| prepare_stop: "row \<in> ws_read s \<Longrightarrow> w_status row = WithdrawCreated \<Longrightarrow> signing (we_sign env) \<Longrightarrow>
    prepare env row (ws_world s) = (w', Inl e) \<Longrightarrow> withdraw_step s (s\<lparr>ws_world := w'\<rparr>)"
| prepare_done: "row \<in> ws_read s \<Longrightarrow> w_status row = WithdrawCreated \<Longrightarrow> signing (we_sign env) \<Longrightarrow>
    prepare env row (ws_world s) = (w', Inr p) \<Longrightarrow>
    withdraw_step s (s\<lparr>ws_world := w', ws_ready := insert p (ws_ready s)\<rparr>)"
| broadcast: "(row, tx) \<in> ws_ready s \<Longrightarrow> broadcast env row (w_txid row) tx (ws_world s) = (w', e) \<Longrightarrow>
    withdraw_step s (s\<lparr>ws_world := w', ws_ready := ws_ready s - {(row, tx)},
      ws_sent := insert (w_id row, tx) (ws_sent s)\<rparr>)"
| reconcile: "row \<in> ws_read s \<Longrightarrow> w_status row \<in> {WithdrawSigned, WithdrawBroadcast} \<Longrightarrow>
    signing (we_sign env) \<Longrightarrow> reconcileOne env row head (ws_world s) = (w', e) \<Longrightarrow>
    withdraw_step s (s\<lparr>ws_world := w', ws_sent := ws_sent s \<union>
      (\<lambda>tx. (w_id row, tx)) ` set (drop (length (broadcasts (ws_world s))) (broadcasts w'))\<rparr>)"
| crash: "withdraw_step s (s\<lparr>ws_read := R, ws_ready := P\<rparr>)"
    if "R \<subseteq> ws_read s" and "P \<subseteq> ws_ready s"
| create: "fresh_order row (ws_world s) \<Longrightarrow> withdraws w' = withdraws (ws_world s) @ [row] \<Longrightarrow>
    withdraw_events w' = withdraw_events (ws_world s) \<Longrightarrow> withdraw_step s (s\<lparr>ws_world := w'\<rparr>)"
| other: "withdraws w' = withdraws (ws_world s) \<Longrightarrow> withdraw_events w' = withdraw_events (ws_world s) \<Longrightarrow>
    withdraw_step s (s\<lparr>ws_world := w'\<rparr>)"

definition withdraw_start :: "withdraw_sys \<Rightarrow> bool" where
  "withdraw_start s \<longleftrightarrow> withdraws (ws_world s) = [] \<and> withdraw_events (ws_world s) = []
     \<and> ws_read s = {} \<and> ws_ready s = {} \<and> ws_sent s = {}"

text \<open>A whole run of \<open>execute_locked\<close> is a preparation and, if it got that far, a broadcast.\<close>

lemma execute_locked_steps:
  assumes "row \<in> ws_read s" and "w_status row = WithdrawCreated" and "signing (we_sign env)"
    and "execute_locked env row (ws_world s) = (w', e)"
  shows "\<exists>s'. withdraw_step\<^sup>*\<^sup>* s s' \<and> ws_world s' = w'"
proof -
  obtain w1 out where p: "prepare env row (ws_world s) = (w1, out)" by fastforce
  show ?thesis
  proof (cases out)
    case (Inl e1)
    then have "w1 = w'" using assms(4) p by (simp add: execute_locked_def)
    then show ?thesis
      using withdraw_step.prepare_stop [OF assms(1-3) p [unfolded Inl]] by (auto intro!: r_into_rtranclp)
  next
    case (Inr pr)
    obtain row' tx where pr: "pr = (row', tx)" by fastforce
    have b: "broadcast env row' (w_txid row') tx w1 = (w', e)"
      using assms(4) p Inr pr by (simp add: execute_locked_def)
    let ?s1 = "s\<lparr>ws_world := w1, ws_ready := insert (row', tx) (ws_ready s)\<rparr>"
    let ?s2 = "?s1\<lparr>ws_world := w', ws_ready := ws_ready ?s1 - {(row', tx)},
        ws_sent := insert (w_id row', tx) (ws_sent ?s1)\<rparr>"
    have "withdraw_step s ?s1"
      using withdraw_step.prepare_done [OF assms(1-3) p [unfolded Inr pr]] .
    moreover have "withdraw_step ?s1 ?s2"
      by (rule withdraw_step.broadcast [where env = env and e = e]) (simp_all add: b)
    ultimately have "withdraw_step\<^sup>*\<^sup>* s ?s2" by (rule converse_rtranclp_into_rtranclp [OF _ r_into_rtranclp])
    moreover have "ws_world ?s2 = w'" by simp
    ultimately show ?thesis by blast
  qed
qed

section \<open>The invariant\<close>

text \<open>\<open>tracks q r\<close>: \<open>r\<close> is a later version of \<open>q\<close>. \<open>carries r tx\<close>: \<open>tx\<close> is the transaction of \<open>r\<close>.\<close>

definition tracks :: "withdraw_record \<Rightarrow> withdraw_record \<Rightarrow> bool" where
  "tracks q r \<longleftrightarrow> same_order q r \<and> w_status q \<le> w_status r \<and>
     (w_status q \<noteq> WithdrawCreated \<longrightarrow> w_txid r = w_txid q \<and> w_signed_raw r = w_signed_raw q)"

definition carries :: "withdraw_record \<Rightarrow> transaction \<Rightarrow> bool" where
  "carries r tx \<longleftrightarrow> w_status r \<noteq> WithdrawCreated \<and> w_txid r = tx_id tx \<and> w_signed_raw r = tx_raw_data_hex tx"

definition withdraw_inv :: "withdraw_sys \<Rightarrow> bool" where
  "withdraw_inv s \<longleftrightarrow>
     distinct (map w_id (withdraws (ws_world s))) \<and> distinct (map w_order_no (withdraws (ws_world s))) \<and>
     (\<forall>q\<in>ws_read s. \<exists>r\<in>set (withdraws (ws_world s)). tracks q r) \<and>
     (\<forall>p\<in>ws_ready s. w_txid (fst p) = tx_id (snd p) \<and>
        (\<exists>r\<in>set (withdraws (ws_world s)). same_order (fst p) r \<and> carries r (snd p))) \<and>
     (\<forall>p\<in>ws_sent s. \<exists>r\<in>set (withdraws (ws_world s)). w_id r = fst p \<and> carries r (snd p)) \<and>
     set (withdraw_events (ws_world s)) = withdraw_event_id ` {r \<in> set (withdraws (ws_world s)). settled r} \<and>
     distinct (withdraw_events (ws_world s))"

lemma withdraw_state_leD:
  "a \<le> b \<Longrightarrow> a \<noteq> WithdrawCreated \<Longrightarrow> b \<noteq> WithdrawCreated"
  by (cases a; cases b) (auto simp: less_eq_withdraw_state_def)

lemma tracks_refl [simp]: "tracks r r"
  by (simp add: tracks_def)

lemma tracks_trans: "tracks q r \<Longrightarrow> tracks r r' \<Longrightarrow> tracks q r'"
  unfolding tracks_def by (metis same_order_trans order_trans withdraw_state_leD)

lemma tracks_carries: "carries r tx \<Longrightarrow> tracks r r' \<Longrightarrow> carries r' tx"
  unfolding tracks_def carries_def by (metis withdraw_state_leD)

lemma move_tracks:
  "move t raw r r' \<Longrightarrow> (w_status r \<noteq> WithdrawCreated \<Longrightarrow> t = w_txid r) \<Longrightarrow> tracks r r'"
  by (erule move.cases) (auto simp: tracks_def less_eq_withdraw_state_def)

lemma move_settled: "move t raw r r' \<Longrightarrow> settled r' = settled r"
  by (erule move.cases) (auto simp: settled_def)

lemma settles_tracks: "settles r r' \<Longrightarrow> tracks r r'"
proof -
  assume "settles r r'"
  moreover from this have "w_status r \<le> w_status r'"
    by (cases "w_status r"; cases "w_status r'") (auto simp: settles_def settled_def less_eq_withdraw_state_def)
  ultimately show ?thesis by (simp add: tracks_def settles_def)
qed

lemma withdraw_event_is_one [simp]: "take 9 (withdraw_event_id r) = ''withdraw:''"
  by (simp add: withdraw_event_id_def)

lemma withdraw_event_id_inj: "withdraw_event_id r = withdraw_event_id q \<longleftrightarrow> w_order_no r = w_order_no q"
  by (simp add: withdraw_event_id_def)

lemma withdraw_events_add:
  assumes "event_ids w' = add_event (withdraw_event_id r) (event_ids w)"
  shows "set (withdraw_events w') = insert (withdraw_event_id r) (set (withdraw_events w))"
    "distinct (withdraw_events w) \<Longrightarrow> distinct (withdraw_events w')"
  unfolding withdraw_events_def assms add_event_def by auto

text \<open>The table after an evolution: one row replaced by a later version of itself.\<close>

lemma put_row_set:
  assumes "own_row row r0 w" and "w_id r' = w_id r0"
  shows "set (put_row r' (withdraws w)) = insert r' (set (withdraws w) - {r0})"
    "map w_id (put_row r' (withdraws w)) = map w_id (withdraws w)"
    "w_order_no r' = w_order_no r0 \<Longrightarrow> map w_order_no (put_row r' (withdraws w)) = map w_order_no (withdraws w)"
  using assms own_row_unique [OF assms(1)] by (auto simp: put_row_def own_row_def image_iff)

text \<open>The step every handler's case comes down to.\<close>

lemma evolve_inv:
  assumes inv: "withdraw_inv s" and own: "own_row row r0 (ws_world s)"
    and ev: "evolve t raw row r0 (ws_world s) w'" and so: "w_order_no row = w_order_no r0"
    and t: "w_status r0 \<noteq> WithdrawCreated \<Longrightarrow> t = w_txid r0"
  shows "withdraw_inv (s\<lparr>ws_world := w'\<rparr>)"
proof -
  let ?w = "ws_world s"
  obtain r' where r': "withdraws w' = put_row r' (withdraws ?w)"
    and cs: "move t raw r0 r' \<and> event_ids w' = event_ids ?w
      \<or> settles r0 r' \<and> event_ids w' = add_event (withdraw_event_id row) (event_ids ?w)"
    using ev by (auto simp: evolve_def)
  have tr: "tracks r0 r'" using cs t move_tracks settles_tracks by blast
  then have id': "w_id r' = w_id r0" and no: "w_order_no r' = w_order_no r0"
    by (simp_all add: tracks_def same_order_def)
  note tab = put_row_set [OF own id'] 
  have r0: "r0 \<in> set (withdraws ?w)" using own by (simp add: own_row_def)
  have later: "\<exists>x\<in>set (withdraws w'). tracks r x" if "r \<in> set (withdraws ?w)" for r
    using that tr tracks_refl [of r] unfolding r' tab(1) by (cases "r = r0") blast+
  have "set (withdraw_events w') = withdraw_event_id ` {r \<in> set (withdraws w'). settled r}
      \<and> distinct (withdraw_events w')"
    using cs
  proof
    assume m: "move t raw r0 r' \<and> event_ids w' = event_ids ?w"
    have "withdraw_event_id r' = withdraw_event_id r0" using no by (simp add: withdraw_event_id_def)
    then have "withdraw_event_id ` {r \<in> set (withdraws w'). settled r} =
        withdraw_event_id ` {r \<in> set (withdraws ?w). settled r}"
      using m move_settled [of t raw r0 r'] r0 by (auto simp: r' tab image_iff) metis+
    then show ?thesis using inv m by (simp add: withdraw_inv_def withdraw_events_def)
  next
    assume m: "settles r0 r' \<and> event_ids w' = add_event (withdraw_event_id row) (event_ids ?w)"
    have "withdraw_event_id r' = withdraw_event_id row" using no so by (simp add: withdraw_event_id_def)
    moreover have "{r \<in> set (withdraws w'). settled r} = insert r' {r \<in> set (withdraws ?w). settled r}"
      using m r0 by (auto simp: r' tab settles_def)
    ultimately have "withdraw_event_id ` {r \<in> set (withdraws w'). settled r} =
        insert (withdraw_event_id row) (withdraw_event_id ` {r \<in> set (withdraws ?w). settled r})"
      by simp
    then show ?thesis using inv m withdraw_events_add [of w' row ?w] by (simp add: withdraw_inv_def)
  qed
  moreover have "\<forall>q\<in>ws_read s. \<exists>r\<in>set (withdraws w'). tracks q r"
    using inv later tracks_trans unfolding withdraw_inv_def by meson
  moreover have "\<forall>p\<in>ws_ready s. w_txid (fst p) = tx_id (snd p) \<and>
      (\<exists>r\<in>set (withdraws w'). same_order (fst p) r \<and> carries r (snd p))"
    using inv later tracks_carries unfolding withdraw_inv_def tracks_def by (meson same_order_trans)
  moreover have "\<forall>p\<in>ws_sent s. \<exists>r\<in>set (withdraws w'). w_id r = fst p \<and> carries r (snd p)"
  proof
    fix p assume "p \<in> ws_sent s"
    then obtain r where r: "r \<in> set (withdraws ?w)" "w_id r = fst p" "carries r (snd p)"
      using inv unfolding withdraw_inv_def by blast
    obtain x where x: "x \<in> set (withdraws w')" "tracks r x" using later [OF r(1)] by blast
    then have "w_id x = fst p" using r(2) by (simp add: tracks_def same_order_def)
    then show "\<exists>r\<in>set (withdraws w'). w_id r = fst p \<and> carries r (snd p)"
      using x tracks_carries [OF r(3) x(2)] by blast
  qed
  moreover have "distinct (map w_id (withdraws w'))" "distinct (map w_order_no (withdraws w'))"
    using inv by (simp_all add: r' tab(2) tab(3) [OF no] withdraw_inv_def)
  ultimately show ?thesis by (simp add: withdraw_inv_def)
qed

lemma inv_own_row:
  assumes "withdraw_inv s" and "r \<in> set (withdraws (ws_world s))" and "w_id r = w_id row"
  shows "own_row row r (ws_world s)"
  using assms by (simp add: own_row_def withdraw_inv_def)

lemma inv_read:
  assumes "withdraw_inv s" and "row \<in> ws_read s"
  obtains r0 where "own_row row r0 (ws_world s)" and "tracks row r0" and "r0 \<in> set (withdraws (ws_world s))"
proof -
  obtain r where r: "r \<in> set (withdraws (ws_world s))" "tracks row r"
    using assms unfolding withdraw_inv_def by blast
  then have "w_id r = w_id row" by (simp add: tracks_def same_order_def)
  then show thesis using r that inv_own_row assms(1) by blast
qed

lemma signed_id: "signing f \<Longrightarrow> f req = Inr resp \<Longrightarrow> sp_txid resp = tx_id (sp_tx resp)"
  by (blast dest: signing.sign_id)

lemma signed_raw: "signing f \<Longrightarrow> f req = Inr resp \<Longrightarrow> sr_tx req = Some tx \<Longrightarrow>
    tx_raw_data_hex (sp_tx resp) = tx_raw_data_hex tx"
  using signing.sign_same by fastforce

lemma prepare_inv:
  assumes inv: "withdraw_inv s" and row: "row \<in> ws_read s" and sg: "signing (we_sign env)"
    and p: "prepare env row (ws_world s) = (w', out)"
  shows "withdraw_inv (case out of Inl _ \<Rightarrow> s\<lparr>ws_world := w'\<rparr>
      | Inr q \<Rightarrow> s\<lparr>ws_world := w', ws_ready := insert q (ws_ready s)\<rparr>)"
proof -
  obtain r0 where own: "own_row row r0 (ws_world s)" and tr: "tracks row r0" using inv_read [OF inv row] .
  have no: "w_order_no row = w_order_no r0" using tr by (simp add: tracks_def same_order_def)
  show ?thesis
  proof (cases out)
    case (Inl e)
    then show ?thesis using prepare_evolve [OF own p] evolve_inv [OF inv own _ no] by simp
  next
    case (Inr q)
    obtain row' tx where q: "q = (row', tx)" by fastforce
    note eff = prepare_evolve [OF own p, unfolded Inr q sum.case prod.case]
    have i: "withdraw_inv (s\<lparr>ws_world := w'\<rparr>)"
      using eff evolve_inv [OF inv own _ no, of "w_txid row'" "tx_raw_data_hex tx" w'] by blast
    obtain r' where r': "r' \<in> set (withdraws w')" "w_id r' = w_id row" "w_txid r' = w_txid row'"
      "w_signed_raw r' = tx_raw_data_hex tx" "w_status r' = WithdrawSigned" using eff by blast
    obtain x where x: "x \<in> set (withdraws w')" "tracks row x"
      using i row by (auto simp: withdraw_inv_def)
    have "x = r'"
      using own_row_unique [OF inv_own_row [OF i], of r' row x] r' x by (simp add: tracks_def same_order_def)
    then have "same_order row' r'" using x eff same_order_trans by (auto simp: tracks_def)
    moreover have "w_txid row' = tx_id tx" using eff signed_id [OF sg] by auto
    moreover have "carries r' tx" using r' calculation by (simp add: carries_def)
    ultimately show ?thesis using i r'(1) by (auto simp: withdraw_inv_def Inr q)
  qed
qed

lemma broadcast_inv:
  assumes inv: "withdraw_inv s" and rdy: "(row, tx) \<in> ws_ready s"
    and b: "broadcast env row (w_txid row) tx (ws_world s) = (w', e)"
  shows "withdraw_inv (s\<lparr>ws_world := w', ws_ready := ws_ready s - {(row, tx)},
      ws_sent := insert (w_id row, tx) (ws_sent s)\<rparr>)"
proof -
  obtain r0 where r0: "r0 \<in> set (withdraws (ws_world s))" "same_order row r0" "carries r0 tx"
    using inv rdy unfolding withdraw_inv_def by fastforce
  let ?s = "s\<lparr>ws_ready := ws_ready s - {(row, tx)}, ws_sent := insert (w_id row, tx) (ws_sent s)\<rparr>"
  have i: "withdraw_inv ?s"
    using inv r0 by (auto simp: withdraw_inv_def same_order_def)
  have own: "own_row row r0 (ws_world ?s)"
    using inv_own_row [OF i, of r0 row] r0 by (simp add: same_order_def)
  have "withdraw_inv (?s\<lparr>ws_world := w'\<rparr>)"
    using r0 b broadcast_evolve [of row r0 "ws_world s"] own
    by (intro evolve_inv [OF i own, where t = "tx_id tx"]) (auto simp: same_order_def carries_def)
  then show ?thesis by (cases s) simp
qed

lemma reconcile_inv:
  assumes inv: "withdraw_inv s" and row: "row \<in> ws_read s" "w_status row \<noteq> WithdrawCreated"
    and sg: "signing (we_sign env)" and b: "reconcileOne env row head (ws_world s) = (w', e)"
  shows "withdraw_inv (s\<lparr>ws_world := w', ws_sent := ws_sent s \<union>
      (\<lambda>tx. (w_id row, tx)) ` set (drop (length (broadcasts (ws_world s))) (broadcasts w'))\<rparr>)"
proof -
  obtain r0 where own: "own_row row r0 (ws_world s)" and tr: "tracks row r0"
    and r0: "r0 \<in> set (withdraws (ws_world s))" using inv_read [OF inv row(1)] .
  have no: "w_order_no row = w_order_no r0" "w_id r0 = w_id row" using tr by (simp_all add: tracks_def same_order_def)
  have same: "w_txid r0 = w_txid row" "w_signed_raw r0 = w_signed_raw row" "w_status r0 \<noteq> WithdrawCreated"
    using tr row(2) withdraw_state_leD by (auto simp: tracks_def)
  let ?new = "set (drop (length (broadcasts (ws_world s))) (broadcasts w'))"
  note eff = reconcileOne_evolve [OF own b, of "w_txid r0" "w_signed_raw r0"]
  have new: "carries r0 tx" if "tx \<in> ?new" for tx
    using eff that same signed_id [OF sg] signed_raw [OF sg] by (fastforce simp: carries_def)
  let ?s = "s\<lparr>ws_sent := ws_sent s \<union> (\<lambda>tx. (w_id row, tx)) ` ?new\<rparr>"
  have "\<forall>p\<in>ws_sent ?s. \<exists>r\<in>set (withdraws (ws_world s)). w_id r = fst p \<and> carries r (snd p)"
    using inv new r0 no(2) by (fastforce simp: withdraw_inv_def)
  then have i: "withdraw_inv ?s" using inv by (simp add: withdraw_inv_def)
  have "withdraw_inv (?s\<lparr>ws_world := w'\<rparr>)"
    using eff own no by (intro evolve_inv [OF i, of row r0 "w_txid r0"]) auto
  then show ?thesis by (cases s) simp
qed

lemma create_inv:
  assumes "withdraw_inv s" and "fresh_order row (ws_world s)" and "withdraws w' = withdraws (ws_world s) @ [row]"
    and "withdraw_events w' = withdraw_events (ws_world s)"
  shows "withdraw_inv (s\<lparr>ws_world := w'\<rparr>)"
  using assms by (auto simp: withdraw_inv_def fresh_order_def)

lemma withdraw_step_inv: "withdraw_step s s' \<Longrightarrow> withdraw_inv s \<Longrightarrow> withdraw_inv s'"
proof (induction rule: withdraw_step.induct)
  case (read row s)
  then have "\<exists>r\<in>set (withdraws (ws_world s)). tracks row r" using tracks_refl by blast
  with read show ?case by (simp add: withdraw_inv_def)
next
  case (prepare_stop row s env w' e)
  then show ?case using prepare_inv [of s row env w' "Inl e"] by simp
next
  case (prepare_done row s env w' p)
  then show ?case using prepare_inv [of s row env w' "Inr p"] by simp
next
  case (broadcast row tx s env w' e)
  then show ?case by (intro broadcast_inv)
next
  case (reconcile row s env head w' e)
  then show ?case by (intro reconcile_inv) auto
next
  case (crash R s P)
  then show ?case by (auto simp: withdraw_inv_def)
next
  case (create row s w')
  then show ?case by (intro create_inv)
next
  case (other w' s)
  then show ?case by (simp add: withdraw_inv_def)
qed

lemma withdraw_start_inv: "withdraw_start s \<Longrightarrow> withdraw_inv s"
  by (simp add: withdraw_start_def withdraw_inv_def)

lemma withdraw_run_inv: "withdraw_step\<^sup>*\<^sup>* s s' \<Longrightarrow> withdraw_inv s \<Longrightarrow> withdraw_inv s'"
  by (induction rule: rtranclp_induct) (auto dest: withdraw_step_inv)

end
