(* ===== verification/Scanner.thy ===== *)
theory Scanner
  imports Store
begin

text \<open>
  \<open>internal/scanner/scanner.go\<close>: from the blocks of the chain to deposit records. \<open>sn_may\<close> is what the
  address filter answers, \<open>sn_uuid\<close> the trade number drawn for a log; \<open>sn_node\<close> answers the reads of a
  tick, \<open>sn_node2\<close> the receipts read again before a confirmation; \<open>sn_fail\<close> says which statements
  fail. A database transaction either happens whole or fails whole. Blocks are prefetched
  concurrently into a slice by number, so only the order in which they are applied shows.
\<close>

datatype scan_stmt =
    ScCursor | ScLegacy | ScCreateCursor | ScSaveCursor int | ScWallet string | ScInternal string
  | ScBlock int | ScPending | ScConfirm int | ScSnapshot int | ScReorg | ScForkHash | ScPrune

record scan_env =
  sn_cfg :: config
  sn_node :: node_api
  sn_node2 :: node_api
  sn_kec :: "bytes \<Rightarrow> bytes"
  sn_may :: "string \<Rightarrow> bool"
  sn_uuid :: "string \<Rightarrow> int \<Rightarrow> string"
  sn_now :: time
  sn_fail :: "scan_stmt \<Rightarrow> bool"

text \<open>The scanner: allowed contracts with symbol and decimals, the dust threshold, and whether the
  cursor was checked against the chain since the process started.\<close>

record scanner =
  sc_tokens :: "(string \<times> string \<times> int) list"
  sc_min_unit :: int
  sc_checked :: bool

definition New_scanner :: "config \<Rightarrow> scanner" where
  "New_scanner c =
     \<lparr>sc_tokens = rev (map (\<lambda>t. (tc_contract t, tc_symbol t, tc_decimals t)) (EnabledTokens (cf_wallet c))),
      sc_min_unit = (case SetString (dc_min_deposit_units (cf_deposit c)) of None \<Rightarrow> 0 | Some u \<Rightarrow> u),
      sc_checked = False\<rparr>"

definition legacyCursorName :: string where
  "legacyCursorName = ''tron_deposit''"

definition cursorName :: "config \<Rightarrow> string" where
  "cursorName c =
     (let net = ToLower (TrimSpace (cf_network c))
      in legacyCursorName @ '':'' @ (if net = '''' then ''unknown'' else net))"

definition min64 :: "int \<Rightarrow> int \<Rightarrow> int" where
  "min64 a b = (if a < b then a else b)"

section \<open>Logs\<close>

record transfer =
  tf_contract :: string
  tf_symbol :: string
  tf_decimals :: int
  tf_from :: string
  tf_to :: string
  tf_amount :: int

definition decodeTransfer :: "(bytes \<Rightarrow> bytes) \<Rightarrow> scanner \<Rightarrow> tx_log \<Rightarrow> transfer option" where
  "decodeTransfer kec s lg =
     (if length (lg_topics lg) \<noteq> 3 \<or> \<not> EqualFold (lg_topics lg ! 0) (TransferEventTopic kec) then None
      else case HexToAddress (lg_address lg) of
        Inl _ \<Rightarrow> None
      | Inr contract \<Rightarrow>
          case map_of (sc_tokens s) contract of
            None \<Rightarrow> None
          | Some (symbol, decimals) \<Rightarrow>
              case HexToAddress (lg_topics lg ! 1) of
                Inl _ \<Rightarrow> None
              | Inr from \<Rightarrow>
                  case HexToAddress (lg_topics lg ! 2) of
                    Inl _ \<Rightarrow> None
                  | Inr to \<Rightarrow>
                      case ParseUint256 (lg_data lg) of
                        None \<Rightarrow> None
                      | Some amount \<Rightarrow>
                          if amount \<le> 0 then None
                          else if 0 < sc_min_unit s \<and> amount < sc_min_unit s then None
                          else Some \<lparr>tf_contract = contract, tf_symbol = symbol, tf_decimals = decimals,
                                     tf_from = from, tf_to = to, tf_amount = amount\<rparr>)"

definition isInternal :: "scan_env \<Rightarrow> string \<Rightarrow> world \<Rightarrow> bool result" where
  "isInternal env from w =
     (if \<not> sn_may env from then Inr False
      else if sn_fail env (ScInternal from) then Inl db_err
      else Inr (0 < affected (\<lambda>u. uw_address u = from) (user_wallets w)))"

definition deposit_of ::
  "scan_env \<Rightarrow> tx_info \<Rightarrow> int \<Rightarrow> block \<Rightarrow> user_wallet \<Rightarrow> bool \<Rightarrow> transfer \<Rightarrow> deposit_record" where
  "deposit_of env info idx b u internal t =
     \<lparr>d_id = 0, d_merchant_id = uw_merchant_id u, d_account = uw_account u, d_uid = uw_uid u,
      d_trade_no = sn_uuid env (ti_id info) idx, d_chain = ''TRON'', d_symbol = tf_symbol t,
      d_contract = tf_contract t, d_txid = ti_id info, d_event_index = idx, d_block_number = b_number b,
      d_block_hash = b_block_id b, d_from_address = tf_from t, d_to_address = tf_to t,
      d_amount_units = big_String (tf_amount t),
      d_amount = FormatUnits (big_String (tf_amount t)) (tf_decimals t), d_decimals = tf_decimals t,
      d_confirmations = 0, d_status = DepositPending,
      d_internal = (internal \<or> uw_purpose u \<noteq> ''deposit''), d_swept = False,
      d_block_time = b_timestamp b * 1000000, d_confirmed_at = None, d_created_at = sn_now env,
      d_updated_at = sn_now env\<rparr>"

definition parseLog ::
  "scan_env \<Rightarrow> scanner \<Rightarrow> world \<Rightarrow> block \<Rightarrow> tx_info \<Rightarrow> int \<Rightarrow> tx_log \<Rightarrow> deposit_record option result" where
  "parseLog env s w b info idx lg =
     (case decodeTransfer (sn_kec env) s lg of
        None \<Rightarrow> Inr None
      | Some t \<Rightarrow>
          if \<not> sn_may env (tf_to t) then Inr None
          else if sn_fail env (ScWallet (tf_to t)) then Inl db_err
          else case take_first (\<lambda>u. uw_address u = tf_to t) (user_wallets w) of
            None \<Rightarrow> Inr None
          | Some u \<Rightarrow>
              case isInternal env (tf_from t) w of
                Inl e \<Rightarrow> Inl e
              | Inr internal \<Rightarrow> Inr (Some (deposit_of env info idx b u internal t)))"

section \<open>Blocks\<close>

fun parse_logs ::
  "scan_env \<Rightarrow> scanner \<Rightarrow> world \<Rightarrow> block \<Rightarrow> tx_info \<Rightarrow> int \<Rightarrow> tx_log list \<Rightarrow> deposit_record list result" where
  "parse_logs env s w b info idx [] = Inr []"
| "parse_logs env s w b info idx (lg # lgs) =
     (case parseLog env s w b info idx lg of
        Inl e \<Rightarrow> Inl e
      | Inr r \<Rightarrow>
          case parse_logs env s w b info (idx + 1) lgs of
            Inl e \<Rightarrow> Inl e
          | Inr rs \<Rightarrow> Inr (case r of None \<Rightarrow> rs | Some d \<Rightarrow> d # rs))"

fun parse_infos ::
  "scan_env \<Rightarrow> scanner \<Rightarrow> world \<Rightarrow> block \<Rightarrow> tx_info list \<Rightarrow> deposit_record list result" where
  "parse_infos env s w b [] = Inr []"
| "parse_infos env s w b (info # infos) =
     (case (if Succeeded info then parse_logs env s w b info 0 (ti_log info) else Inr []) of
        Inl e \<Rightarrow> Inl e
      | Inr rs \<Rightarrow>
          case parse_infos env s w b infos of
            Inl e \<Rightarrow> Inl e
          | Inr rest \<Rightarrow> Inr (rs @ rest))"

text \<open>\<open>INSERT ... ON CONFLICT DO NOTHING\<close>: the unique keys are \<open>(txid, event_index)\<close> and \<open>trade_no\<close>.\<close>

definition deposit_key :: "deposit_record \<Rightarrow> string \<times> int" where
  "deposit_key r = (d_txid r, d_event_index r)"

definition insert_deposit :: "deposit_record \<Rightarrow> deposit_record list \<Rightarrow> deposit_record list" where
  "insert_deposit d t =
     (if \<exists>r \<in> set t. deposit_key r = deposit_key d \<or> d_trade_no r = d_trade_no d then t
      else t @ [d\<lparr>d_id := fresh_id (map d_id t)\<rparr>])"

text \<open>\<open>ON CONFLICT UPDATE ALL\<close> on the block number.\<close>

definition put_snapshot :: "block_snapshot \<Rightarrow> block_snapshot list \<Rightarrow> block_snapshot list" where
  "put_snapshot b t =
     (if \<exists>r \<in> set t. bs_block_number r = bs_block_number b then
        update_where (\<lambda>r. bs_block_number r = bs_block_number b) (\<lambda>_. b) t
      else t @ [b])"

definition scanBlock ::
  "scan_env \<Rightarrow> scanner \<Rightarrow> block \<Rightarrow> tx_info list \<Rightarrow> world \<Rightarrow> world \<times> go_error option" where
  "scanBlock env s b infos w =
     (case parse_infos env s w b infos of
        Inl e \<Rightarrow> (w, Some e)
      | Inr records \<Rightarrow>
          if sn_fail env (ScBlock (b_number b)) then (w, Some db_err)
          else (w\<lparr>snapshots := put_snapshot \<lparr>bs_block_number = b_number b, bs_block_hash = b_block_id b,
                      bs_parent_hash = b_parent_hash b, bs_block_time = b_timestamp b * 1000000, bs_created_at = sn_now env\<rparr> (snapshots w),
                  deposits := foldl (\<lambda>t d. insert_deposit d t) (deposits w) records\<rparr>, None))"

section \<open>Confirmation\<close>

definition depositEventID :: "deposit_record \<Rightarrow> string" where
  "depositEventID r = d_txid r @ '':'' @ big_String (d_event_index r)"

definition deposit_event :: "deposit_record \<Rightarrow> time \<Rightarrow> json" where
  "deposit_event r now = JObj
     [(''event_id'', JStr (depositEventID r)), (''type'', JStr ''deposit''),
      (''merchant_id'', JStr (d_merchant_id r)), (''trade_no'', JStr (d_trade_no r)),
      (''uid'', JStr (d_uid r)), (''chain'', JStr (d_chain r)), (''symbol'', JStr (d_symbol r)),
      (''contract'', JStr (d_contract r)), (''address'', JStr (d_to_address r)),
      (''from_address'', JStr (d_from_address r)), (''amount'', JStr (d_amount_units r)),
      (''decimals'', JInt (d_decimals r)), (''txid'', JStr (d_txid r)),
      (''event_index'', JInt (d_event_index r)), (''block_number'', JInt (d_block_number r)),
      (''confirmed_at'', JInt (now div 1000000000))]"

definition is_pending :: "int \<Rightarrow> deposit_record \<Rightarrow> bool" where
  "is_pending i r \<longleftrightarrow> d_id r = i \<and> d_status r = DepositPending"

definition confirmOne :: "scan_env \<Rightarrow> int \<Rightarrow> deposit_record \<Rightarrow> world \<Rightarrow> world \<times> go_error option" where
  "confirmOne env head rec0 w =
     (case GetTxInfoByID (sn_node2 env) (d_txid rec0) of
        Inl e \<Rightarrow> (w, Some e)
      | Inr io \<Rightarrow>
          case (case io of None \<Rightarrow> None | Some info \<Rightarrow> if Succeeded info then Some info else None) of
            None \<Rightarrow>
              if sn_fail env (ScConfirm (d_id rec0)) then (w, Some db_err)
              else (w\<lparr>deposits := update_where (is_pending (d_id rec0))
                       (\<lambda>r. r\<lparr>d_status := DepositOrphaned, d_updated_at := sn_now env\<rparr>) (deposits w)\<rparr>, None)
          | Some info \<Rightarrow>
              let row = rec0\<lparr>d_block_number := ti_block_number info\<rparr>; now = sn_now env
              in if sn_fail env (ScConfirm (d_id rec0)) then (w, Some db_err)
                 else if affected (is_pending (d_id row)) (deposits w) = 0 then (w, None)
                 else
                   let w1 = w\<lparr>deposits := update_where (is_pending (d_id row))
                         (\<lambda>r. r\<lparr>d_status := DepositConfirmed, d_block_number := d_block_number row,
                                 d_confirmations := i64 (head - d_block_number row),
                                 d_confirmed_at := Some now, d_updated_at := now\<rparr>) (deposits w)\<rparr>
                   in if d_internal row then (w1, None)
                      else (EnqueueOutbox now (depositEventID row) ''deposit'' (d_account row) (d_merchant_id row)
                              '''' (deposit_event row now) w1, None))"

definition confirmUpTo :: "scan_env \<Rightarrow> int \<Rightarrow> world \<Rightarrow> world \<times> go_error option" where
  "confirmUpTo env head w =
     (let limit = i64 (head - dc_confirmations (cf_deposit (sn_cfg env)))
      in if limit \<le> 0 then (w, None)
         else if sn_fail env ScPending then (w, Some db_err)
         else (foldl (\<lambda>w r. fst (confirmOne env head r w)) w
                 (select_limit (\<lambda>r. d_status r = DepositPending \<and> d_block_number r \<le> limit) 500 (deposits w)), None))"

section \<open>Reorganisation\<close>

function find_fork :: "scan_env \<Rightarrow> world \<Rightarrow> int \<Rightarrow> int \<Rightarrow> int result" where
  "find_fork env w limit n =
     (if \<not> (0 < n \<and> limit \<le> n) then Inr n
      else if sn_fail env (ScSnapshot n) then Inl db_err
      else case take_first (\<lambda>b. bs_block_number b = n) (snapshots w) of
        None \<Rightarrow> find_fork env w limit (n - 1)
      | Some snap \<Rightarrow>
          case GetBlockByNum (sn_node env) n of
            Inl e \<Rightarrow> Inl e
          | Inr b \<Rightarrow>
              if EqualFold (b_block_id b) (bs_block_hash snap) then Inr n else find_fork env w limit (n - 1))"
  by pat_completeness auto
termination by (relation "measure (\<lambda>(env, w, limit, n). nat n)") auto

declare find_fork.simps [simp del]

definition handleReorg :: "scan_env \<Rightarrow> int \<Rightarrow> world \<Rightarrow> world \<times> chain_cursor result" where
  "handleReorg env detectedAt w =
     (let limit = i64 (detectedAt - dc_reorg_depth (cf_deposit (sn_cfg env)))
      in case find_fork env w limit (i64 (detectedAt - 1)) of
           Inl e \<Rightarrow> (w, Inl e)
         | Inr fork \<Rightarrow>
             if fork \<le> 0 \<or> fork < limit then
               (w, Inl (errors_new (''reorg deeper than reorg_depth='' @
                  big_String (dc_reorg_depth (cf_deposit (sn_cfg env))) @ '', manual intervention required'')))
             else if sn_fail env ScReorg then (w, Inl db_err)
             else
               let snaps = delete_where (\<lambda>b. fork < bs_block_number b) (snapshots w);
                   hash = (if sn_fail env ScForkHash then '''' else
                     case take_first (\<lambda>b. bs_block_number b = fork) snaps of None \<Rightarrow> '''' | Some b \<Rightarrow> bs_block_hash b);
                   c = \<lparr>cc_name = cursorName (sn_cfg env), cc_block_number = fork, cc_block_hash = hash,
                        cc_updated_at = 0\<rparr>
               in (w\<lparr>deposits := update_where (\<lambda>r. fork < d_block_number r \<and> d_status r = DepositPending)
                         (\<lambda>r. r\<lparr>d_status := DepositOrphaned, d_updated_at := sn_now env\<rparr>) (deposits w),
                      snapshots := snaps,
                      cursors := update_where (\<lambda>x. cc_name x = cc_name c)
                         (\<lambda>x. x\<lparr>cc_block_number := fork, cc_block_hash := hash, cc_updated_at := sn_now env\<rparr>)
                         (cursors w)\<rparr>, Inr c))"

section \<open>The cursor\<close>

definition saveCursor :: "scan_env \<Rightarrow> chain_cursor \<Rightarrow> world \<Rightarrow> world \<times> go_error option" where
  "saveCursor env c w =
     (if sn_fail env (ScSaveCursor (cc_block_number c)) then (w, Some db_err)
      else (w\<lparr>cursors := update_where (\<lambda>x. cc_name x = cc_name c)
                (\<lambda>x. x\<lparr>cc_block_number := cc_block_number c, cc_block_hash := cc_block_hash c,
                        cc_updated_at := sn_now env\<rparr>) (cursors w)\<rparr>, None))"

definition cursorOnChain :: "scan_env \<Rightarrow> chain_cursor \<Rightarrow> int \<Rightarrow> bool result" where
  "cursorOnChain env c head =
     (if head < cc_block_number c then Inr False
      else if cc_block_hash c = '''' \<or> i64 (head - cc_block_number c) \<le> dc_reorg_depth (cf_deposit (sn_cfg env)) then
        Inr True
      else case GetBlockByNum (sn_node env) (cc_block_number c) of
        Inl e \<Rightarrow> Inl e
      | Inr b \<Rightarrow> Inr (EqualFold (b_block_id b) (cc_block_hash c)))"

definition start_position :: "scan_env \<Rightarrow> int \<Rightarrow> world \<Rightarrow> (int \<times> string) result" where
  "start_position env head w =
     (let s0 = dc_start_block (cf_deposit (sn_cfg env));
          start = (if s0 \<le> 0 \<or> head < s0 then i64 (head - 1) else s0)
      in case (if sn_fail env ScLegacy then None else take_first (\<lambda>c. cc_name c = legacyCursorName) (cursors w)) of
           None \<Rightarrow> Inr (start, '''')
         | Some legacy \<Rightarrow>
             case cursorOnChain env legacy head of
               Inl e \<Rightarrow> Inl e
             | Inr ok \<Rightarrow> Inr (if ok then (cc_block_number legacy, cc_block_hash legacy) else (start, '''')))"

definition loadCursor ::
  "scan_env \<Rightarrow> int \<Rightarrow> scanner \<Rightarrow> world \<Rightarrow> scanner \<times> world \<times> chain_cursor result" where
  "loadCursor env head s w =
     (let name = cursorName (sn_cfg env)
      in if sn_fail env ScCursor then (s, w, Inl db_err)
         else case take_first (\<lambda>c. cc_name c = name) (cursors w) of
           None \<Rightarrow>
             (case start_position env head w of
                Inl e \<Rightarrow> (s, w, Inl e)
              | Inr (start, hash) \<Rightarrow>
                  if sn_fail env ScCreateCursor then (s, w, Inl db_err)
                  else let c = \<lparr>cc_name = name, cc_block_number = start, cc_block_hash = hash,
                                cc_updated_at = sn_now env\<rparr>
                       in (s, w\<lparr>cursors := cursors w @ [c]\<rparr>, Inr c))
         | Some c \<Rightarrow>
             if sc_checked s then (s, w, Inr c)
             else case cursorOnChain env c head of
               Inl e \<Rightarrow> (s, w, Inl e)
             | Inr ok \<Rightarrow>
                 let s' = s\<lparr>sc_checked := True\<rparr>
                 in if ok then (s', w, Inr c)
                    else let c' = c\<lparr>cc_block_number := i64 (head - 1), cc_block_hash := ''''\<rparr>
                         in case saveCursor env c' w of
                              (w', Some e) \<Rightarrow> (s', w', Inl e)
                            | (w', None) \<Rightarrow> (s', w', Inr c'))"

definition pruneSnapshots :: "scan_env \<Rightarrow> int \<Rightarrow> world \<Rightarrow> world \<times> go_error option" where
  "pruneSnapshots env head w =
     (let keepFrom = i64 (head - i64 (dc_reorg_depth (cf_deposit (sn_cfg env)) * 10))
      in if keepFrom \<le> 0 then (w, None)
         else if sn_fail env ScPrune then (w, Some db_err)
         else (w\<lparr>snapshots := delete_where (\<lambda>b. bs_block_number b < keepFrom) (snapshots w)\<rparr>, None))"

section \<open>A tick\<close>

text \<open>The prefetched blocks, then the loop that applies them; the result says whether it ran to the end.\<close>

definition fetchRange :: "scan_env \<Rightarrow> int \<Rightarrow> int \<Rightarrow> (int \<times> (block \<times> tx_info list) result) list" where
  "fetchRange env from to =
     map (\<lambda>num. (num,
        case GetBlockByNum (sn_node env) num of
          Inl e \<Rightarrow> Inl e
        | Inr b \<Rightarrow>
            (case GetTxInfoByBlockNum (sn_node env) num of Inl e \<Rightarrow> Inl e | Inr infos \<Rightarrow> Inr (b, infos))))
       [from..to]"

definition reorg_at :: "block \<Rightarrow> chain_cursor \<Rightarrow> bool" where
  "reorg_at b c \<longleftrightarrow> cc_block_hash c \<noteq> '''' \<and> b_parent_hash b \<noteq> '''' \<and>
     \<not> EqualFold (b_parent_hash b) (cc_block_hash c)"

fun apply_blocks ::
  "scan_env \<Rightarrow> scanner \<Rightarrow> (int \<times> (block \<times> tx_info list) result) list \<Rightarrow> chain_cursor \<Rightarrow> world \<Rightarrow>
     world \<times> bool result" where
  "apply_blocks env s [] c w = (w, Inr True)"
| "apply_blocks env s ((num, fetched) # rest) c w =
     (case fetched of
        Inl e \<Rightarrow> (w, Inl (wrap_err (''block '' @ big_String num @ '': '') e))
      | Inr (b, infos) \<Rightarrow>
          if reorg_at b c then
            (case handleReorg env num w of
               (w', Inl e) \<Rightarrow> (w', Inl (wrap_err ''reorg: '' e))
             | (w', Inr _) \<Rightarrow> (w', Inr False))
          else case scanBlock env s b infos w of
            (w', Some e) \<Rightarrow> (w', Inl (wrap_err (''scan block '' @ big_String num @ '': '') e))
          | (w1, None) \<Rightarrow>
              let c' = c\<lparr>cc_block_number := b_number b, cc_block_hash := b_block_id b\<rparr>
              in case saveCursor env c' w1 of
                   (w2, Some e) \<Rightarrow> (w2, Inl e)
                 | (w2, None) \<Rightarrow> apply_blocks env s rest c' w2)"

definition tick :: "scan_env \<Rightarrow> scanner \<Rightarrow> world \<Rightarrow> scanner \<times> world \<times> bool result" where
  "tick env s w =
     (case GetNowBlock (sn_node env) of
        Inl e \<Rightarrow> (s, w, Inl (wrap_err ''head: '' e))
      | Inr hb \<Rightarrow>
          let head = b_number hb
          in case loadCursor env head s w of
               (s1, w1, Inl e) \<Rightarrow> (s1, w1, Inl e)
             | (s1, w1, Inr c) \<Rightarrow>
                 let w2 = fst (confirmUpTo env head w1);
                     from = i64 (cc_block_number c + 1);
                     to = min64 (i64 (i64 (from + dc_batch_blocks (cf_deposit (sn_cfg env))) - 1)) head
                 in if to < from then (s1, w2, Inr False)
                    else case apply_blocks env s1 (fetchRange env from to) c w2 of
                      (w3, Inl e) \<Rightarrow> (s1, w3, Inl e)
                    | (w3, Inr False) \<Rightarrow> (s1, w3, Inr True)
                    | (w3, Inr True) \<Rightarrow>
                        (case pruneSnapshots env to w3 of
                           (w4, Some e) \<Rightarrow> (s1, w4, Inl e)
                         | (w4, None) \<Rightarrow> (s1, w4, Inr (to < head))))"

end
