(* ===== verification/ScannerProps.thy ===== *)
theory ScannerProps
  imports Scanner TronWire
begin

text \<open>
  What the scanner promises: a block's qualifying logs all become records and nothing else does, a tick
  never moves the cursor over a block it did not record, a reorganisation rolls back to a block the
  chain still has, and every credited deposit is announced exactly once.
\<close>

text \<open>A number after the last colon of a key is read back unambiguously.\<close>

lemma colon_not_digit: "CHR '':'' \<notin> set (big_String i)"
proof -
  have "\<forall>c \<in> set (show_nat n). c \<noteq> CHR '':''" for n
    using show_nat_digits [of n] by (auto simp: list_all_iff is_digit_def)
  then show ?thesis by (auto simp: big_String_def)
qed

lemma split_colon:
  assumes "a @ CHR '':'' # b = c @ CHR '':'' # d" and "CHR '':'' \<notin> set b" and "CHR '':'' \<notin> set d"
  shows "a = c \<and> b = d"
proof -
  have "takeWhile (\<lambda>x. x \<noteq> CHR '':'') (rev (u @ CHR '':'' # v)) = rev v" if "CHR '':'' \<notin> set v" for u v
    using that takeWhile_append2 [of "rev v" "\<lambda>x. x \<noteq> CHR '':''" "CHR '':'' # rev u"] by auto
  from this [OF assms(2), of a] this [OF assms(3), of c] assms(1) show ?thesis by simp
qed

section \<open>One block\<close>

lemma parse_logs_set:
  "parse_logs env s w b info k lgs = Inr rs \<Longrightarrow>
   set rs = {d. \<exists>i < length lgs. parseLog env s w b info (k + int i) (lgs ! i) = Inr (Some d)}"
proof (induction lgs arbitrary: k rs)
  case (Cons lg lgs)
  obtain r rest where r: "parseLog env s w b info k lg = Inr r" "parse_logs env s w b info (k + 1) lgs = Inr rest"
    "rs = (case r of None \<Rightarrow> rest | Some d \<Rightarrow> d # rest)"
    using Cons.prems by (auto split: sum.splits)
  have split: "(\<exists>i < length (lg # lgs). P i) \<longleftrightarrow> P 0 \<or> (\<exists>i < length lgs. P (Suc i))" for P
    by (simp add: Ex_less_Suc2)
  show ?case unfolding split using Cons.IH [OF r(2)] r(1,3) by (auto simp: add.assoc split: option.splits)
qed simp

lemma parse_logs_total:
  "parse_logs env s w b info k lgs = Inr rs \<Longrightarrow> i < length lgs \<Longrightarrow>
   \<exists>r. parseLog env s w b info (k + int i) (lgs ! i) = Inr r"
proof (induction lgs arbitrary: k rs i)
  case (Cons lg lgs)
  obtain r rest where r: "parseLog env s w b info k lg = Inr r" "parse_logs env s w b info (k + 1) lgs = Inr rest"
    using Cons.prems(1) by (auto split: sum.splits)
  show ?case
  proof (cases i)
    case 0
    then show ?thesis using r(1) by simp
  next
    case (Suc j)
    then show ?thesis using Cons.IH [OF r(2), of j] Cons.prems(2) by (simp add: add.assoc)
  qed
qed simp

lemma parse_infos_set:
  "parse_infos env s w b infos = Inr rs \<Longrightarrow>
   set rs = {d. \<exists>info \<in> set infos. \<exists>i < length (ti_log info). Succeeded info \<and>
     parseLog env s w b info (int i) (ti_log info ! i) = Inr (Some d)}"
proof (induction infos arbitrary: rs)
  case (Cons info infos)
  obtain r rest where r: "(if Succeeded info then parse_logs env s w b info 0 (ti_log info) else Inr []) = Inr r"
    "parse_infos env s w b infos = Inr rest" "rs = r @ rest"
    using Cons.prems by (auto split: sum.splits)
  have "set r = {d. \<exists>i < length (ti_log info). Succeeded info \<and>
      parseLog env s w b info (int i) (ti_log info ! i) = Inr (Some d)}"
    using r(1) parse_logs_set [of env s w b info 0 "ti_log info" r] by (cases "Succeeded info") auto
  then show ?case using Cons.IH [OF r(2)] r(3) by auto
qed simp

lemma parse_infos_total:
  "parse_infos env s w b infos = Inr rs \<Longrightarrow> info \<in> set infos \<Longrightarrow> Succeeded info \<Longrightarrow> i < length (ti_log info) \<Longrightarrow>
   \<exists>r. parseLog env s w b info (int i) (ti_log info ! i) = Inr r"
proof (induction infos arbitrary: rs)
  case (Cons x infos)
  then show ?case
    using parse_logs_total [of env s w b x 0 "ti_log x" _ i] by (auto split: sum.splits if_splits)
qed simp

text \<open>Trade numbers are unique: a number drawn for a log is on no other record.\<close>

definition uuid_ok :: "scan_env \<Rightarrow> deposit_record list \<Rightarrow> bool" where
  "uuid_ok env t \<longleftrightarrow> (\<forall>x i y j. sn_uuid env x i = sn_uuid env y j \<longrightarrow> x = y \<and> i = j) \<and>
     (\<forall>r \<in> set t. \<forall>x i. d_trade_no r = sn_uuid env x i \<longrightarrow> deposit_key r = (x, i))"

definition drawn :: "scan_env \<Rightarrow> deposit_record \<Rightarrow> bool" where
  "drawn env d \<longleftrightarrow> d_trade_no d = sn_uuid env (d_txid d) (d_event_index d)"

lemma insert_deposit_spec:
  assumes "uuid_ok env t" and "drawn env d"
  shows "uuid_ok env (insert_deposit d t)"
    and "deposit_key ` set (insert_deposit d t) = insert (deposit_key d) (deposit_key ` set t)"
    and "set t \<subseteq> set (insert_deposit d t)"
    and "\<forall>r \<in> set (insert_deposit d t). r \<in> set t \<or> r = d\<lparr>d_id := d_id r\<rparr>"
proof -
  have dup: "deposit_key d \<in> deposit_key ` set t" if ex: "\<exists>r \<in> set t. deposit_key r = deposit_key d \<or> d_trade_no r = d_trade_no d"
  proof -
    obtain r where r: "r \<in> set t" "deposit_key r = deposit_key d \<or> d_trade_no r = d_trade_no d" using ex by blast
    moreover have "deposit_key r = deposit_key d" if "d_trade_no r = d_trade_no d"
      using that assms r(1) by (simp add: uuid_ok_def drawn_def deposit_key_def [of d])
    ultimately show ?thesis by (metis imageI)
  qed
  have key: "deposit_key (d\<lparr>d_id := i\<rparr>) = deposit_key d" "d_trade_no (d\<lparr>d_id := i\<rparr>) = d_trade_no d" for i
    by (simp_all add: deposit_key_def)
  show "set t \<subseteq> set (insert_deposit d t)" by (auto simp: insert_deposit_def)
  show "\<forall>r \<in> set (insert_deposit d t). r \<in> set t \<or> r = d\<lparr>d_id := d_id r\<rparr>" by (auto simp: insert_deposit_def)
  show "deposit_key ` set (insert_deposit d t) = insert (deposit_key d) (deposit_key ` set t)"
  proof (cases "\<exists>r \<in> set t. deposit_key r = deposit_key d \<or> d_trade_no r = d_trade_no d")
    case True
    then show ?thesis using dup [OF True] by (simp add: insert_deposit_def insert_absorb)
  next
    case False
    then have "insert_deposit d t = t @ [d\<lparr>d_id := fresh_id (map d_id t)\<rparr>]" by (simp add: insert_deposit_def)
    then show ?thesis by (simp add: key)
  qed
  have "deposit_key d = (x, i)" if "d_trade_no d = sn_uuid env x i" for x i
    using assms that by (auto simp: drawn_def uuid_ok_def deposit_key_def)
  then show "uuid_ok env (insert_deposit d t)"
    using assms(1) by (auto simp: insert_deposit_def uuid_ok_def key)
qed

lemma insert_all_spec:
  assumes "uuid_ok env t" and "\<And>d. d \<in> set ds \<Longrightarrow> drawn env d"
  shows "uuid_ok env (foldl (\<lambda>t d. insert_deposit d t) t ds) \<and>
    deposit_key ` set (foldl (\<lambda>t d. insert_deposit d t) t ds) = deposit_key ` set ds \<union> deposit_key ` set t \<and>
    set t \<subseteq> set (foldl (\<lambda>t d. insert_deposit d t) t ds) \<and>
    (\<forall>r \<in> set (foldl (\<lambda>t d. insert_deposit d t) t ds). r \<in> set t \<or> (\<exists>d \<in> set ds. r = d\<lparr>d_id := d_id r\<rparr>))"
  using assms
proof (induction ds arbitrary: t)
  case (Cons d ds)
  note one = insert_deposit_spec [OF Cons.prems(1) Cons.prems(2) [of d, simplified]]
  have ih: "uuid_ok env (foldl (\<lambda>t d. insert_deposit d t) (insert_deposit d t) ds)"
    "deposit_key ` set (foldl (\<lambda>t d. insert_deposit d t) (insert_deposit d t) ds)
      = deposit_key ` set ds \<union> deposit_key ` set (insert_deposit d t)"
    "set (insert_deposit d t) \<subseteq> set (foldl (\<lambda>t d. insert_deposit d t) (insert_deposit d t) ds)"
    "\<forall>r \<in> set (foldl (\<lambda>t d. insert_deposit d t) (insert_deposit d t) ds).
      r \<in> set (insert_deposit d t) \<or> (\<exists>d \<in> set ds. r = d\<lparr>d_id := d_id r\<rparr>)"
    using Cons.IH [OF one(1)] Cons.prems(2) by auto
  have "\<forall>r \<in> set (foldl (\<lambda>t d. insert_deposit d t) (insert_deposit d t) ds).
      r \<in> set t \<or> (\<exists>x \<in> set (d # ds). r = x\<lparr>d_id := d_id r\<rparr>)"
    using ih(4) one(4) by (metis list.set_intros)
  then show ?case using ih(1-3) one(2,3) by auto
qed auto

lemma parseLog_drawn:
  "parseLog env s w b info i lg = Inr (Some d) \<Longrightarrow> drawn env d \<and> deposit_key d = (ti_id info, i)"
  by (auto simp: parseLog_def deposit_of_def drawn_def deposit_key_def split: option.splits if_splits sum.splits)

text \<open>
  What a deposit is, read off the configuration and the chain alone: a log with the three topics of a
  \<open>Transfer\<close> event, of the contract of an enabled token, of a positive amount that is at least the
  configured minimum when one is configured.
\<close>

definition qualifies :: "config \<Rightarrow> (bytes \<Rightarrow> bytes) \<Rightarrow> tx_log \<Rightarrow> transfer \<Rightarrow> bool" where
  "qualifies cfg kec lg t \<longleftrightarrow>
     (\<exists>event sender receiver. lg_topics lg = [event, sender, receiver]
        \<and> ToLower event = ToLower (TransferEventTopic kec)
        \<and> HexToAddress sender = Inr (tf_from t) \<and> HexToAddress receiver = Inr (tf_to t))
   \<and> HexToAddress (lg_address lg) = Inr (tf_contract t)
   \<and> (\<exists>tc \<in> set (wc_tokens (cf_wallet cfg)). tc_enabled tc \<and> tc_contract tc = tf_contract t
        \<and> tc_symbol tc = tf_symbol t \<and> tc_decimals tc = tf_decimals t)
   \<and> ParseUint256 (lg_data lg) = Some (tf_amount t) \<and> 0 < tf_amount t
   \<and> (\<forall>u. SetString (dc_min_deposit_units (cf_deposit cfg)) = Some u \<longrightarrow> u \<le> tf_amount t)"

text \<open>A scanner of the process that loaded the configuration, before or after its first tick.\<close>

definition scanner_of :: "config \<Rightarrow> scanner \<Rightarrow> bool" where
  "scanner_of cfg s \<longleftrightarrow> s = (New_scanner cfg)\<lparr>sc_checked := sc_checked s\<rparr>"

text \<open>A log the block's receipts hold that pays one of our addresses.\<close>

definition pays ::
  "scan_env \<Rightarrow> world \<Rightarrow> tx_info list \<Rightarrow> tx_info \<Rightarrow> nat \<Rightarrow> transfer \<Rightarrow> user_wallet \<Rightarrow> bool" where
  "pays env w infos info i t u \<longleftrightarrow> info \<in> set infos \<and> Succeeded info \<and> i < length (ti_log info) \<and>
     qualifies (sn_cfg env) (sn_kec env) (ti_log info ! i) t \<and> u \<in> set (user_wallets w) \<and> uw_address u = tf_to t"

lemma scanner_of_fields:
  assumes "scanner_of cfg s"
  shows "sc_tokens s = rev (map (\<lambda>t. (tc_contract t, tc_symbol t, tc_decimals t)) (EnabledTokens (cf_wallet cfg)))"
    and "sc_min_unit s = (case SetString (dc_min_deposit_units (cf_deposit cfg)) of None \<Rightarrow> 0 | Some u \<Rightarrow> u)"
proof -
  have s: "s = (New_scanner cfg)\<lparr>sc_checked := sc_checked s\<rparr>" using assms by (simp add: scanner_of_def)
  show "sc_tokens s = rev (map (\<lambda>t. (tc_contract t, tc_symbol t, tc_decimals t)) (EnabledTokens (cf_wallet cfg)))"
    by (subst s) (simp add: New_scanner_def)
  show "sc_min_unit s = (case SetString (dc_min_deposit_units (cf_deposit cfg)) of None \<Rightarrow> 0 | Some u \<Rightarrow> u)"
    by (subst s) (simp add: New_scanner_def)
qed

lemma threshold:
  assumes "scanner_of cfg s" and "0 < a"
  shows "(\<forall>u. SetString (dc_min_deposit_units (cf_deposit cfg)) = Some u \<longrightarrow> u \<le> a)
    \<longleftrightarrow> \<not> (0 < sc_min_unit s \<and> a < sc_min_unit s)"
  using assms(2) by (auto simp: scanner_of_fields(2) [OF assms(1)] split: option.splits)

lemma allowed_token:
  assumes "scanner_of cfg s"
  shows "map_of (sc_tokens s) c = Some (symbol, decimals) \<Longrightarrow> \<exists>tc \<in> set (wc_tokens (cf_wallet cfg)).
      tc_enabled tc \<and> tc_contract tc = c \<and> tc_symbol tc = symbol \<and> tc_decimals tc = decimals"
    and "tc \<in> set (wc_tokens (cf_wallet cfg)) \<Longrightarrow> tc_enabled tc \<Longrightarrow> tc_contract tc = c \<Longrightarrow>
      \<exists>symbol decimals. map_of (sc_tokens s) c = Some (symbol, decimals)"
proof -
  show "\<exists>tc \<in> set (wc_tokens (cf_wallet cfg)). tc_enabled tc \<and> tc_contract tc = c \<and> tc_symbol tc = symbol \<and> tc_decimals tc = decimals"
    if "map_of (sc_tokens s) c = Some (symbol, decimals)"
    using map_of_SomeD [OF that] by (auto simp: scanner_of_fields(1) [OF assms] EnabledTokens_def)
  assume "tc \<in> set (wc_tokens (cf_wallet cfg))" "tc_enabled tc" "tc_contract tc = c"
  then have "(c, tc_symbol tc, tc_decimals tc) \<in> set (sc_tokens s)"
    by (auto simp: scanner_of_fields(1) [OF assms] EnabledTokens_def)
  then show "\<exists>symbol decimals. map_of (sc_tokens s) c = Some (symbol, decimals)"
    by (metis weak_map_of_SomeI surj_pair)
qed

lemma three_topics: "length l = 3 \<longleftrightarrow> (\<exists>a b c. l = [a, b, c])"
  by (auto simp: length_Suc_conv eval_nat_numeral)

lemma decodeTransfer_sound:
  assumes "scanner_of cfg s" and "decodeTransfer kec s lg = Some t"
  shows "qualifies cfg kec lg t"
proof -
  have l: "length (lg_topics lg) = 3" using assms(2) by (auto simp: decodeTransfer_def split: if_splits)
  obtain a b c where top: "lg_topics lg = [a, b, c]" using l unfolding three_topics by blast
  obtain symbol decimals where m: "map_of (sc_tokens s) (tf_contract t) = Some (symbol, decimals)"
    and t: "HexToAddress (lg_address lg) = Inr (tf_contract t)" "tf_symbol t = symbol" "tf_decimals t = decimals"
      "EqualFold a (TransferEventTopic kec)" "HexToAddress b = Inr (tf_from t)" "HexToAddress c = Inr (tf_to t)"
      "ParseUint256 (lg_data lg) = Some (tf_amount t)" "0 < tf_amount t"
      "\<not> (0 < sc_min_unit s \<and> tf_amount t < sc_min_unit s)"
    using assms(2) by (auto simp: decodeTransfer_def top split: if_splits sum.splits option.splits)
  show ?thesis unfolding qualifies_def threshold [OF assms(1) t(8)]
    using allowed_token(1) [OF assms(1) m] t top by (auto simp: EqualFold_def)
qed

lemma decodeTransfer_complete:
  assumes "scanner_of cfg s" and "qualifies cfg kec lg t"
  shows "\<exists>t'. decodeTransfer kec s lg = Some t' \<and> tf_to t' = tf_to t"
proof -
  have pos: "0 < tf_amount t" using assms(2) by (simp add: qualifies_def)
  have "\<forall>u. SetString (dc_min_deposit_units (cf_deposit cfg)) = Some u \<longrightarrow> u \<le> tf_amount t"
    using assms(2) by (simp add: qualifies_def)
  then have min: "\<not> (0 < sc_min_unit s \<and> tf_amount t < sc_min_unit s)" using threshold [OF assms(1) pos] by simp
  obtain tc where "tc \<in> set (wc_tokens (cf_wallet cfg))" "tc_enabled tc" "tc_contract tc = tf_contract t"
    using assms(2) by (auto simp: qualifies_def)
  then obtain y d where "map_of (sc_tokens s) (tf_contract t) = Some (y, d)" using allowed_token(2) [OF assms(1)] by blast
  then show ?thesis using assms(2) pos min by (auto simp: qualifies_def decodeTransfer_def EqualFold_def)
qed

definition filter_sound :: "scan_env \<Rightarrow> world \<Rightarrow> bool" where
  "filter_sound env w \<longleftrightarrow> (\<forall>u \<in> set (user_wallets w). sn_may env (uw_address u))"

lemma parseLog_pays:
  assumes "parseLog env s w b info i lg = Inr r" and "decodeTransfer (sn_kec env) s lg = Some t"
    and "filter_sound env w" and "u \<in> set (user_wallets w)" and "uw_address u = tf_to t"
  shows "\<exists>d. r = Some d"
proof -
  have may: "sn_may env (tf_to t)" using assms(3-5) by (auto simp: filter_sound_def)
  obtain v where "take_first (\<lambda>u. uw_address u = tf_to t) (user_wallets w) = Some v"
    using assms(4,5) take_first_None [of "\<lambda>u. uw_address u = tf_to t" "user_wallets w"]
    by (cases "take_first (\<lambda>u. uw_address u = tf_to t) (user_wallets w)") auto
  then show ?thesis using assms(1,2) may by (auto simp: parseLog_def split: if_splits sum.splits)
qed

lemma parseLog_of:
  assumes "scanner_of (sn_cfg env) s" and "parseLog env s w b info (int i) (ti_log info ! i) = Inr (Some d)"
    and "info \<in> set infos" and "Succeeded info" and "i < length (ti_log info)"
  shows "\<exists>t u. pays env w infos info i t u \<and>
    d = deposit_of env info (int i) b u (sn_may env (tf_from t) \<and>
          0 < affected (\<lambda>x. uw_address x = tf_from t) (user_wallets w)) t"
proof -
  obtain t where t: "decodeTransfer (sn_kec env) s (ti_log info ! i) = Some t"
    using assms(2) by (auto simp: parseLog_def split: option.splits)
  show ?thesis
    using assms(2-5) decodeTransfer_sound [OF assms(1) t]
    by (auto simp: parseLog_def pays_def isInternal_def t dest: take_first_Some
        split: option.splits if_splits sum.splits intro!: exI [of _ t])
qed

lemma pays_recorded:
  assumes "scanBlock env s b infos w = (w', None)" and "uuid_ok env (deposits w)" and "filter_sound env w"
    and "pays env w infos info i t u" and "scanner_of (sn_cfg env) s"
  shows "(ti_id info, int i) \<in> deposit_key ` set (deposits w')"
proof -
  obtain rs where rs: "parse_infos env s w b infos = Inr rs"
    and w': "deposits w' = foldl (\<lambda>t d. insert_deposit d t) (deposits w) rs"
    using assms(1) by (auto simp: scanBlock_def split: sum.splits if_splits)
  have p: "info \<in> set infos" "Succeeded info" "i < length (ti_log info)" using assms(4) by (simp_all add: pays_def)
  obtain r where "parseLog env s w b info (int i) (ti_log info ! i) = Inr r"
    using parse_infos_total [OF rs p] by blast
  moreover obtain t' where "decodeTransfer (sn_kec env) s (ti_log info ! i) = Some t'" "tf_to t' = tf_to t"
    using decodeTransfer_complete [OF assms(5), of "sn_kec env" "ti_log info ! i" t] assms(4)
    unfolding pays_def by blast
  moreover from calculation obtain d where "r = Some d"
    using parseLog_pays [of env s w b info "int i" "ti_log info ! i" r t' u] assms(3,4) by (auto simp: pays_def)
  ultimately have d: "parseLog env s w b info (int i) (ti_log info ! i) = Inr (Some d)" by simp
  then have "d \<in> set rs" using p unfolding parse_infos_set [OF rs] by blast
  then have "deposit_key d \<in> deposit_key ` set rs" by (rule imageI)
  moreover have "drawn env d" if "d \<in> set rs" for d
    using that parseLog_drawn unfolding parse_infos_set [OF rs] by blast
  ultimately show ?thesis
    using conjunct2 [OF parseLog_drawn [OF d]] insert_all_spec [OF assms(2), of rs] by (simp add: w')
qed

text \<open>C17. Scanning a block credits exactly what the chain says: after a successful scan every log of a
  succeeded transaction that is a three-topic \<open>Transfer\<close> event of an enabled token's contract, of a
  positive amount no smaller than the configured minimum, and to one of our addresses has a record
  under its transaction and position; every record the scan added is such a log, pending, with the
  token, both addresses and the amount of the log, its receiver's account, and the internal flag when
  one of our own wallets paid; and no existing record changed, so replaying a block is harmless. The
  scanner is the one of the configuration; the address filter answers yes for every stored address
  (what \<open>Sync_covers\<close> maintains), and the trade numbers drawn are distinct and new.\<close>

theorem scanBlock_exact:
  assumes "scanBlock env s b infos w = (w', None)" and "uuid_ok env (deposits w)" and "filter_sound env w"
    and "scanner_of (sn_cfg env) s"
  shows "(\<forall>info i t u. pays env w infos info i t u \<longrightarrow>
       (ti_id info, int i) \<in> deposit_key ` set (deposits w'))
    \<and> (\<forall>r. r \<in> set (deposits w') - set (deposits w) \<longrightarrow>
       (\<exists>info i t u. pays env w infos info i t u \<and> deposit_key r = (ti_id info, int i)
          \<and> d_status r = DepositPending \<and> d_account r = uw_account u \<and> d_amount_units r = big_String (tf_amount t)
          \<and> d_contract r = tf_contract t \<and> d_symbol r = tf_symbol t \<and> d_decimals r = tf_decimals t
          \<and> d_from_address r = tf_from t \<and> d_to_address r = tf_to t \<and> d_block_number r = b_number b
          \<and> (d_internal r = (uw_purpose u \<noteq> ''deposit'' \<or>
               tf_from t \<in> uw_address ` set (user_wallets w)))))
    \<and> set (deposits w) \<subseteq> set (deposits w')"
proof -
  obtain rs where rs: "parse_infos env s w b infos = Inr rs"
    and w': "deposits w' = foldl (\<lambda>t d. insert_deposit d t) (deposits w) rs"
    using assms(1) by (auto simp: scanBlock_def split: sum.splits if_splits)
  note set_rs = parse_infos_set [OF rs]
  have dr: "drawn env d" if "d \<in> set rs" for d using that parseLog_drawn unfolding set_rs by blast
  have ins: "deposit_key ` set (deposits w') = deposit_key ` set rs \<union> deposit_key ` set (deposits w)"
    "set (deposits w) \<subseteq> set (deposits w')"
    "\<forall>r \<in> set (deposits w'). r \<in> set (deposits w) \<or> (\<exists>d \<in> set rs. r = d\<lparr>d_id := d_id r\<rparr>)"
    using insert_all_spec [OF assms(2) dr, of rs] unfolding w' by simp_all
  have b: "\<exists>info i t u. pays env w infos info i t u \<and> deposit_key r = (ti_id info, int i)
          \<and> d_status r = DepositPending \<and> d_account r = uw_account u \<and> d_amount_units r = big_String (tf_amount t)
          \<and> d_contract r = tf_contract t \<and> d_symbol r = tf_symbol t \<and> d_decimals r = tf_decimals t
          \<and> d_from_address r = tf_from t \<and> d_to_address r = tf_to t \<and> d_block_number r = b_number b
          \<and> (d_internal r = (uw_purpose u \<noteq> ''deposit'' \<or>
               tf_from t \<in> uw_address ` set (user_wallets w)))"
    if r: "r \<in> set (deposits w') - set (deposits w)" for r
  proof -
    obtain d k where d: "d \<in> set rs" "r = d\<lparr>d_id := k\<rparr>" using ins(3) r by blast
    obtain info i where p: "info \<in> set infos" "i < length (ti_log info)" "Succeeded info"
      "parseLog env s w b info (int i) (ti_log info ! i) = Inr (Some d)" using d(1) unfolding set_rs by blast
    obtain t u where tu: "pays env w infos info i t u"
      "d = deposit_of env info (int i) b u (sn_may env (tf_from t) \<and>
          0 < affected (\<lambda>x. uw_address x = tf_from t) (user_wallets w)) t"
      using parseLog_of [OF assms(4) p(4,1,3,2)] by blast
    have pos: "0 < affected (\<lambda>x. uw_address x = tf_from t) (user_wallets w) \<longleftrightarrow>
        tf_from t \<in> uw_address ` set (user_wallets w)"
      unfolding affected_pos by (metis image_iff)
    have may: "sn_may env (tf_from t)" if "tf_from t \<in> uw_address ` set (user_wallets w)"
      using that assms(3) by (auto simp: filter_sound_def)
    have "d_internal r = (uw_purpose u \<noteq> ''deposit'' \<or> tf_from t \<in> uw_address ` set (user_wallets w))"
      using may by (auto simp: d(2) tu(2) deposit_of_def pos)
    moreover have "deposit_key r = (ti_id info, int i)" "d_status r = DepositPending" "d_account r = uw_account u"
      "d_amount_units r = big_String (tf_amount t)" "d_contract r = tf_contract t" "d_block_number r = b_number b"
      "d_symbol r = tf_symbol t" "d_decimals r = tf_decimals t" "d_from_address r = tf_from t" "d_to_address r = tf_to t"
      by (simp_all add: d(2) tu(2) deposit_of_def deposit_key_def)
    ultimately show ?thesis using tu(1) by blast
  qed
  show ?thesis using pays_recorded [OF assms(1-3) _ assms(4)] b ins(2) by blast
qed

section \<open>A tick\<close>

text \<open>A block is recorded when all its qualifying logs have a record.\<close>

definition recorded :: "scan_env \<Rightarrow> world \<Rightarrow> int \<Rightarrow> world \<Rightarrow> bool" where
  "recorded env w n w' \<longleftrightarrow> (\<exists>infos. GetTxInfoByBlockNum (sn_node env) n = Inr infos \<and>
     (\<forall>info i t u. pays env w infos info i t u \<longrightarrow> (ti_id info, int i) \<in> deposit_key ` set (deposits w')))"

definition honest_blocks :: "node_api \<Rightarrow> bool" where
  "honest_blocks g \<longleftrightarrow> (\<forall>n b. GetBlockByNum g n = Inr b \<longrightarrow> b_number b = n)"

definition cursor_at :: "string \<Rightarrow> world \<Rightarrow> int option" where
  "cursor_at name w = map_option cc_block_number (take_first (\<lambda>c. cc_name c = name) (cursors w))"

lemma take_first_update_where:
  "(\<And>x. p x \<Longrightarrow> p (f x)) \<Longrightarrow> take_first p (update_where p f t) = map_option f (take_first p t)"
  by (induction t) (auto simp: take_first_def update_where_def)

text \<open>What confirming, rolling back and scanning leave of the identity of the records.\<close>

definition ident :: "deposit_record \<Rightarrow> int \<times> (string \<times> int) \<times> string" where
  "ident r = (d_id r, deposit_key r, d_trade_no r)"

lemma ident_keys:
  assumes "map ident t' = map ident t"
  shows "deposit_key ` set t' = deposit_key ` set t" and "uuid_ok env t' = uuid_ok env t"
    and "map d_id t' = map d_id t"
proof -
  have "map (fst \<circ> snd) (map ident t') = map (fst \<circ> snd) (map ident t)" by (simp only: assms)
  then have "map deposit_key t' = map deposit_key t" by (simp add: ident_def comp_def)
  then show "deposit_key ` set t' = deposit_key ` set t" by (metis set_map)
  have "snd ` set (map ident t') = snd ` set (map ident t)" by (simp only: assms)
  then have kt: "(\<lambda>r. (deposit_key r, d_trade_no r)) ` set t' = (\<lambda>r. (deposit_key r, d_trade_no r)) ` set t"
    by (simp add: ident_def image_image)
  have "(\<forall>r \<in> set u. \<forall>x i. d_trade_no r = sn_uuid env x i \<longrightarrow> deposit_key r = (x, i)) \<longleftrightarrow>
      (\<forall>(k, d) \<in> (\<lambda>r. (deposit_key r, d_trade_no r)) ` set u. \<forall>x i. d = sn_uuid env x i \<longrightarrow> k = (x, i))" for u
    by auto
  from this [of t] this [of t'] have "(\<forall>r \<in> set t'. \<forall>x i. d_trade_no r = sn_uuid env x i \<longrightarrow> deposit_key r = (x, i)) \<longleftrightarrow>
      (\<forall>r \<in> set t. \<forall>x i. d_trade_no r = sn_uuid env x i \<longrightarrow> deposit_key r = (x, i))"
    unfolding kt by (rule trans [OF _ sym, rotated])
  then show "uuid_ok env t' = uuid_ok env t" by (simp only: uuid_ok_def)
  have "map fst (map ident t') = map fst (map ident t)" by (simp only: assms)
  then show "map d_id t' = map d_id t" by (simp add: ident_def comp_def)
qed

definition same_rest :: "world \<Rightarrow> world \<Rightarrow> bool" where
  "same_rest w w' \<longleftrightarrow> map ident (deposits w') = map ident (deposits w) \<and> user_wallets w' = user_wallets w \<and>
     cursors w' = cursors w"

lemma ident_update [simp]:
  "(\<And>r. ident (f r) = ident r) \<Longrightarrow> map ident (update_where p f t) = map ident t"
  by (rule map_update_where)

lemma confirmOne_same_rest: "confirmOne env head r w = (w', e) \<Longrightarrow> same_rest w w'"
  by (auto simp: confirmOne_def same_rest_def Let_def ident_def deposit_key_def
      split: sum.splits option.splits if_splits intro!: map_update_where)

lemma confirm_fold_same_rest: "same_rest w (foldl (\<lambda>w r. fst (confirmOne env head r w)) w rs)"
proof (induction rs arbitrary: w)
  case (Cons r rs)
  obtain w1 e where "confirmOne env head r w = (w1, e)" by fastforce
  then show ?case using Cons.IH [of w1] confirmOne_same_rest [of env head r w w1 e] by (simp add: same_rest_def)
qed (simp add: same_rest_def)

lemma confirmUpTo_same_rest: "same_rest w (fst (confirmUpTo env head w))"
proof -
  have "same_rest w w" by (simp add: same_rest_def)
  then show ?thesis using confirm_fold_same_rest [of w env head] by (simp add: confirmUpTo_def Let_def)
qed

lemma pays_cong: "user_wallets w' = user_wallets w \<Longrightarrow> pays env w' = pays env w"
  by (intro ext) (simp add: pays_def)

lemma recorded_cong:
  assumes "user_wallets w' = user_wallets w"
  shows "recorded env w' = recorded env w"
  by (intro ext) (simp only: recorded_def pays_cong [OF assms])

lemma recorded_mono:
  "recorded env w n w1 \<Longrightarrow> deposit_key ` set (deposits w1) \<subseteq> deposit_key ` set (deposits w2) \<Longrightarrow> recorded env w n w2"
  unfolding recorded_def by (meson subsetD)

lemma find_fork_le: "find_fork env w limit n = Inr k \<Longrightarrow> k \<le> n"
proof (induction env w limit n rule: find_fork.induct)
  case (1 env w limit n)
  show ?case
    using 1 find_fork.simps [of env w limit n] by (fastforce split: if_splits option.splits sum.splits)
qed

lemma handleReorg_cursor:
  assumes "handleReorg env num w = (w', r)" and "cursor_at (cursorName (sn_cfg env)) w = Some k"
    and "1 \<le> num" and "num < 2 ^ 63"
  shows "user_wallets w' = user_wallets w \<and> map ident (deposits w') = map ident (deposits w)
    \<and> (\<exists>m. cursor_at (cursorName (sn_cfg env)) w' = Some m \<and> (m = k \<or> m \<le> num - 1))"
proof -
  have n: "i64 (num - 1) = num - 1" using assms(3,4) by (simp add: i64_id in_i64_def)
  have up: "map ident (update_where p (\<lambda>r. r\<lparr>d_status := DepositOrphaned, d_updated_at := x\<rparr>) t) = map ident t" for p x t
    by (rule map_update_where) (simp add: ident_def deposit_key_def)
  show ?thesis
    using assms(1,2) find_fork_le [of env w "i64 (num - dc_reorg_depth (cf_deposit (sn_cfg env)))" "num - 1"]
    by (auto simp: handleReorg_def Let_def n cursor_at_def up take_first_update_where
        split: sum.splits if_splits)
qed

lemma saveCursor_at:
  "saveCursor env c w = (w', None) \<Longrightarrow> cursor_at (cc_name c) w = Some k \<Longrightarrow>
   cursor_at (cc_name c) w' = Some (cc_block_number c)"
  "saveCursor env c w = (w', e) \<Longrightarrow> deposits w' = deposits w \<and> user_wallets w' = user_wallets w"
  "saveCursor env c w = (w', Some e0) \<Longrightarrow> w' = w"
  by (auto simp: saveCursor_def cursor_at_def take_first_update_where split: if_splits)

lemma scanBlock_keeps:
  assumes "scanBlock env s b infos w = (w', e)" and "uuid_ok env (deposits w)"
  shows "user_wallets w' = user_wallets w \<and> cursors w' = cursors w \<and> uuid_ok env (deposits w')
    \<and> deposit_key ` set (deposits w) \<subseteq> deposit_key ` set (deposits w')"
proof (cases "w' = w")
  case False
  then obtain rs where rs: "parse_infos env s w b infos = Inr rs"
    and w': "deposits w' = foldl (\<lambda>t d. insert_deposit d t) (deposits w) rs" "user_wallets w' = user_wallets w"
      "cursors w' = cursors w"
    using assms(1) by (auto simp: scanBlock_def split: sum.splits if_splits)
  have dr: "drawn env d" if "d \<in> set rs" for d
    using that parseLog_drawn unfolding parse_infos_set [OF rs] by blast
  show ?thesis using insert_all_spec [OF assms(2) dr, of rs] by (auto simp: w')
qed (use assms(2) in simp)

lemma fetchRange_step:
  "fetchRange env from to = (if from \<le> to then
     (from, case GetBlockByNum (sn_node env) from of
          Inl e \<Rightarrow> Inl e
        | Inr b \<Rightarrow>
            (case GetTxInfoByBlockNum (sn_node env) from of Inl e \<Rightarrow> Inl e | Inr infos \<Rightarrow> Inr (b, infos)))
       # fetchRange env (from + 1) to else [])"
  unfolding fetchRange_def by (subst upto.simps) simp

lemma apply_blocks_no_gap:
  assumes "apply_blocks env s L c w = (w', r)" and "L = fetchRange env (cc_block_number c + 1) to"
    and "honest_blocks (sn_node env)" and "uuid_ok env (deposits w)" and "filter_sound env w"
    and "cc_name c = cursorName (sn_cfg env)" and "cursor_at (cursorName (sn_cfg env)) w = Some (cc_block_number c)"
    and "0 \<le> cc_block_number c" and "to < 2 ^ 63"
    and "scanner_of (sn_cfg env) s"
  shows "user_wallets w' = user_wallets w \<and> deposit_key ` set (deposits w) \<subseteq> deposit_key ` set (deposits w')
    \<and> (\<exists>m. cursor_at (cursorName (sn_cfg env)) w' = Some m
        \<and> (\<forall>n. cc_block_number c < n \<longrightarrow> n \<le> m \<longrightarrow> recorded env w n w'))"
  using assms
proof (induction L arbitrary: c w)
  case (Cons hd rest)
  obtain num fetched where hd: "hd = (num, fetched)" by fastforce
  note prems = Cons.prems [unfolded hd]
  have num: "num = cc_block_number c + 1" "num \<le> to" and rest: "rest = fetchRange env (num + 1) to"
    and fet: "fetched = (case GetBlockByNum (sn_node env) num of Inl e \<Rightarrow> Inl e
        | Inr b \<Rightarrow> (case GetTxInfoByBlockNum (sn_node env) num of Inl e \<Rightarrow> Inl e | Inr infos \<Rightarrow> Inr (b, infos)))"
    using prems(2) fetchRange_step [of env "cc_block_number c + 1" to] by (auto split: if_splits)
  let ?name = "cursorName (sn_cfg env)"
  have still: ?case if "user_wallets w' = user_wallets w" "deposit_key ` set (deposits w) \<subseteq> deposit_key ` set (deposits w')"
    "\<exists>m. cursor_at ?name w' = Some m \<and> m \<le> cc_block_number c" using that by auto
  show ?case
  proof (cases fetched)
    case (Inl e)
    then have "w' = w" using prems(1) by simp
    then show ?thesis using prems(7) by (intro still) auto
  next
    case (Inr p)
    then obtain b infos where p: "p = (b, infos)" "GetBlockByNum (sn_node env) num = Inr b"
      "GetTxInfoByBlockNum (sn_node env) num = Inr infos" using fet by (auto split: sum.splits)
    have bn: "b_number b = num" using prems(3) p(2) by (simp add: honest_blocks_def)
    show ?thesis
    proof (cases "reorg_at b c")
      case True
      obtain w1 r1 where h: "handleReorg env num w = (w1, r1)" by fastforce
      have "w' = w1" using prems(1) Inr p(1) True h by (auto split: sum.splits)
      with handleReorg_cursor [OF h prems(7)] num prems(8,9) show ?thesis
        by (intro still) (auto dest: ident_keys(1))
    next
      case False
      obtain w1 e where sc: "scanBlock env s b infos w = (w1, e)" by fastforce
      note k = scanBlock_keeps [OF sc prems(4)]
      show ?thesis
      proof (cases e)
        case (Some e0)
        then have "w' = w1" using prems(1) Inr p(1) False sc by simp
        then show ?thesis using k prems(7) by (intro still) (auto simp: cursor_at_def)
      next
        case None
        let ?c = "c\<lparr>cc_block_number := b_number b, cc_block_hash := b_block_id b\<rparr>"
        obtain w2 e2 where sv: "saveCursor env ?c w1 = (w2, e2)" by fastforce
        have at1: "cursor_at ?name w1 = Some (cc_block_number c)" using k prems(7) by (simp add: cursor_at_def)
        show ?thesis
        proof (cases e2)
          case (Some e0)
          then have "w' = w1" using prems(1) Inr p(1) False sc None sv saveCursor_at(3) by auto
          then show ?thesis using k at1 by (intro still) auto
        next
          case e2: None
          have ap: "apply_blocks env s rest ?c w2 = (w', r)" using prems(1) Inr p(1) False sc None sv e2 by simp
          have fr: "deposits w2 = deposits w1" "user_wallets w2 = user_wallets w1" using saveCursor_at(2) [OF sv] by auto
          have at2: "cursor_at ?name w2 = Some (b_number b)"
            using saveCursor_at(1) [OF sv [unfolded e2]] at1 prems(6) by simp
          have ih: "user_wallets w' = user_wallets w2 \<and> deposit_key ` set (deposits w2) \<subseteq> deposit_key ` set (deposits w')
              \<and> (\<exists>m. cursor_at ?name w' = Some m \<and> (\<forall>n. num < n \<longrightarrow> n \<le> m \<longrightarrow> recorded env w2 n w'))"
            using Cons.IH [OF ap _ prems(3) _ _ _ _ _ prems(9,10)] k prems(5,6,8) rest num at2
            by (simp add: bn fr filter_sound_def)
          have keys: "deposit_key ` set (deposits w1) \<subseteq> deposit_key ` set (deposits w')" using ih fr by simp
          have "recorded env w num w1"
            unfolding recorded_def using p(3) pays_recorded [OF sc [unfolded None] prems(4,5) _ prems(10)] by blast
          then have now: "recorded env w num w'" using recorded_mono keys by blast
          have "recorded env w2 = recorded env w" by (rule recorded_cong) (simp add: fr k)
          then have "recorded env w n w'" if "cc_block_number c < n" "n \<le> m"
            "\<forall>n. num < n \<longrightarrow> n \<le> m \<longrightarrow> recorded env w2 n w'" for n m
            using that now num(1) by (cases "n = num") auto
          then show ?thesis using ih k keys fr by (metis (no_types, lifting) subset_trans)
        qed
      qed
    qed
  qed
qed auto

text \<open>What the confirmations before a scan leave alone, and the cursor the scan starts from.\<close>

lemma confirmUpTo_keeps:
  assumes "uuid_ok env (deposits w)" and "w1 = fst (confirmUpTo env head w)"
  shows "deposit_key ` set (deposits w1) = deposit_key ` set (deposits w)" and "uuid_ok env (deposits w1)"
    and "user_wallets w1 = user_wallets w" and "cursor_at name w1 = cursor_at name w"
proof -
  have "same_rest w w1" unfolding assms(2) by (rule confirmUpTo_same_rest)
  then show "deposit_key ` set (deposits w1) = deposit_key ` set (deposits w)" "uuid_ok env (deposits w1)"
    "user_wallets w1 = user_wallets w" "cursor_at name w1 = cursor_at name w"
    using ident_keys [of "deposits w1" "deposits w"] assms(1) by (auto simp: same_rest_def cursor_at_def)
qed

text \<open>
  The stored position cannot be one of this chain: it is above the head, or it lies deeper than a
  reorganisation reaches and the block the node has at that height is not the one that was scanned. The
  first tick of a process with such a cursor restarts just below the head.
\<close>

definition foreign_cursor :: "scan_env \<Rightarrow> world \<Rightarrow> int \<Rightarrow> bool" where
  "foreign_cursor env w head \<longleftrightarrow>
     (\<exists>c. take_first (\<lambda>c. cc_name c = cursorName (sn_cfg env)) (cursors w) = Some c \<and>
        (head < cc_block_number c
         \<or> cc_block_hash c \<noteq> '''' \<and> dc_reorg_depth (cf_deposit (sn_cfg env)) < i64 (head - cc_block_number c)
           \<and> (\<exists>b. GetBlockByNum (sn_node env) (cc_block_number c) = Inr b
                  \<and> ToLower (b_block_id b) \<noteq> ToLower (cc_block_hash c))))"

definition scan_base :: "scan_env \<Rightarrow> scanner \<Rightarrow> world \<Rightarrow> int \<Rightarrow> int" where
  "scan_base env s w n0 =
     (case GetNowBlock (sn_node env) of
        Inl _ \<Rightarrow> n0
      | Inr b \<Rightarrow> if \<not> sc_checked s \<and> foreign_cursor env w (b_number b) then b_number b - 1 else n0)"

lemma scanner_of_checked: "scanner_of cfg s \<Longrightarrow> scanner_of cfg (s\<lparr>sc_checked := x\<rparr>)"
  by (cases s) (simp add: scanner_of_def New_scanner_def)

lemma loadCursor_at:
  assumes "loadCursor env head s w = (s1, w1, rc)" and "cursor_at (cursorName (sn_cfg env)) w = Some n0"
    and "scanner_of (sn_cfg env) s"
  shows "scanner_of (sn_cfg env) s1 \<and> (sc_checked s \<longrightarrow> sc_checked s1)
    \<and> deposits w1 = deposits w \<and> user_wallets w1 = user_wallets w
    \<and> (case rc of
        Inl _ \<Rightarrow> cursor_at (cursorName (sn_cfg env)) w1 = Some n0
      | Inr c \<Rightarrow> cc_name c = cursorName (sn_cfg env)
          \<and> cursor_at (cursorName (sn_cfg env)) w1 = Some (cc_block_number c)
          \<and> cc_block_number c = (if \<not> sc_checked s \<and> foreign_cursor env w head then i64 (head - 1) else n0))"
proof -
  let ?name = "cursorName (sn_cfg env)"
  obtain c where c: "take_first (\<lambda>c. cc_name c = ?name) (cursors w) = Some c" "cc_block_number c = n0"
    using assms(2) by (auto simp: cursor_at_def)
  have name: "cc_name c = ?name" using take_first_Some [OF c(1)] by simp
  have foreign: "ok \<longleftrightarrow> \<not> foreign_cursor env w head" if "cursorOnChain env c head = Inr ok" for ok
    using that c by (auto simp: foreign_cursor_def cursorOnChain_def EqualFold_def split: if_splits sum.splits)
  show ?thesis
  proof (cases "sn_fail env ScCursor \<or> sc_checked s \<or> (\<exists>e. cursorOnChain env c head = Inl e)")
    case True
    then consider "(s1, w1, rc) = (s, w, Inl db_err)" | "sc_checked s" "(s1, w1, rc) = (s, w, Inr c)"
      | e where "cursorOnChain env c head = Inl e" "(s1, w1, rc) = (s, w, Inl e)"
      using assms(1) c(1) by (cases "sn_fail env ScCursor"; cases "sc_checked s") (auto simp: loadCursor_def Let_def)
    then show ?thesis using assms(2,3) c name by cases auto
  next
    case False
    then obtain ok where ok: "cursorOnChain env c head = Inr ok" by (cases "cursorOnChain env c head") auto
    obtain w2 e where sv: "saveCursor env (c\<lparr>cc_block_number := i64 (head - 1), cc_block_hash := ''''\<rparr>) w = (w2, e)"
      by fastforce
    note at = saveCursor_at [of env "c\<lparr>cc_block_number := i64 (head - 1), cc_block_hash := ''''\<rparr>" w w2]
    show ?thesis
    proof (cases ok)
      case True
      then show ?thesis using False assms c name ok foreign [OF ok] scanner_of_checked [OF assms(3), of True]
        by (auto simp: loadCursor_def Let_def)
    next
      case nok: False
      then show ?thesis
        using False assms c name ok foreign [OF ok] scanner_of_checked [OF assms(3), of True] sv at
        by (cases e) (auto simp: loadCursor_def Let_def)
    qed
  qed
qed

text \<open>C10. A scan tick never skips a block, but for the one case the code makes for it: in the first tick
  of a process, a cursor that cannot belong to the chain of the node (\<open>foreign_cursor\<close>) restarts at the
  block below the head. Whatever happens in a tick - a fetch that fails, a statement that fails, a
  reorganisation, a short batch - the cursor is still there, and either it did not move or every block
  from the one after the cursor it found (after the restart, in the foreign case) up to the one it
  leaves has a record for each log that pays one of our addresses. No record is lost on the way, and
  the scanner that ran its first tick stays one that does not restart. It is assumed that the cursor row
  exists, that the node's blocks carry the number they were asked for and its head a positive one, that
  the address filter answers yes for every stored address, and that trade numbers are distinct.\<close>

theorem tick_no_gap:
  assumes "tick env s w = (s', w', r)" and "scanner_of (sn_cfg env) s"
    and "cursor_at (cursorName (sn_cfg env)) w = Some n0" and "0 \<le> n0" and "n0 < 2 ^ 63 - 1"
    and "\<And>b. GetNowBlock (sn_node env) = Inr b \<Longrightarrow> 0 < b_number b \<and> b_number b < 2 ^ 63"
    and "honest_blocks (sn_node env)" and "filter_sound env w" and "uuid_ok env (deposits w)"
  shows "(\<exists>n1. cursor_at (cursorName (sn_cfg env)) w' = Some n1
      \<and> (n1 = n0 \<or> (\<forall>n. scan_base env s w n0 < n \<longrightarrow> n \<le> n1 \<longrightarrow> recorded env w n w')))
    \<and> deposit_key ` set (deposits w) \<subseteq> deposit_key ` set (deposits w')
    \<and> scanner_of (sn_cfg env) s' \<and> (sc_checked s \<longrightarrow> sc_checked s')"
proof -
  let ?name = "cursorName (sn_cfg env)"
  show ?thesis
  proof (cases "GetNowBlock (sn_node env)")
    case (Inl e)
    then show ?thesis using assms(1-3) by (auto simp: tick_def)
  next
    case (Inr hb)
    let ?head = "b_number hb" and ?base = "scan_base env s w n0"
    have base: "?base = (if \<not> sc_checked s \<and> foreign_cursor env w ?head then ?head - 1 else n0)"
      by (simp add: scan_base_def Inr)
    have range: "0 \<le> ?base" "?base < 2 ^ 63 - 1" "i64 (?head - 1) = ?head - 1"
      using assms(4,5) assms(6) [OF Inr] by (auto simp: base i64_id in_i64_def)
    obtain s1 w1 rc where ld: "loadCursor env ?head s w = (s1, w1, rc)" by (metis surj_pair)
    note at = loadCursor_at [OF ld assms(3,2)]
    show ?thesis
    proof (cases rc)
      case (Inl e)
      then have "s' = s1 \<and> w' = w1" using assms(1) Inr ld by (auto simp: tick_def Let_def)
      then show ?thesis using at Inl by auto
    next
      case rc: (Inr c)
      have c: "cc_name c = ?name" "cc_block_number c = ?base" "cursor_at ?name w1 = Some ?base"
        using at rc range(3) by (auto simp: base)
      let ?w = "fst (confirmUpTo env ?head w1)"
      let ?to = "min64 (i64 (i64 (?base + 1 + dc_batch_blocks (cf_deposit (sn_cfg env))) - 1)) ?head"
      have from1: "i64 (?base + 1) = ?base + 1" using range(1,2) by (simp add: i64_id in_i64_def)
      have keep: "deposit_key ` set (deposits ?w) = deposit_key ` set (deposits w)" "uuid_ok env (deposits ?w)"
        "user_wallets ?w = user_wallets w" "cursor_at ?name ?w = Some ?base"
        using confirmUpTo_keeps [of env w1, OF _ refl, where head = ?head] at assms(9) c(3) by simp_all
      show ?thesis
      proof (cases "?to < ?base + 1")
        case True
        then have "s' = s1 \<and> w' = ?w" using assms(1) Inr ld rc by (simp add: tick_def Let_def c(2) from1)
        then show ?thesis using keep at by auto
      next
        case False
        obtain w3 r3 where ap: "apply_blocks env s1 (fetchRange env (cc_block_number c + 1) ?to) c ?w = (w3, r3)"
          by fastforce
        have w': "s' = s1" "deposits w' = deposits w3" "cursors w' = cursors w3"
          using assms(1) Inr ld rc False ap
          by (auto simp: tick_def Let_def c(2) from1 pruneSnapshots_def split: sum.splits bool.splits if_splits)
        have "?to \<le> i64 (i64 (?base + 1 + dc_batch_blocks (cf_deposit (sn_cfg env))) - 1)" by (simp add: min64_def)
        then have to: "?to < 2 ^ 63" using in_i64_i64 unfolding in_i64_def by (meson order_le_less_trans)
        have "filter_sound env ?w" "0 \<le> cc_block_number c" "cursor_at ?name ?w = Some (cc_block_number c)"
          using assms(8) keep c(2) range(1) by (simp_all add: filter_sound_def)
        from apply_blocks_no_gap [OF ap refl assms(7) keep(2) this(1) c(1) this(3,2) to]
        have "deposit_key ` set (deposits w) \<subseteq> deposit_key ` set (deposits w')"
          "\<exists>m. cursor_at ?name w' = Some m \<and> (\<forall>n. ?base < n \<longrightarrow> n \<le> m \<longrightarrow> recorded env w n w')"
          using at keep(1) recorded_cong [OF keep(3), of env] by (simp_all add: w' cursor_at_def recorded_def c(2))
        then show ?thesis using at w'(1) by blast
      qed
    qed
  qed
qed

text \<open>
  The defect recorded with the findings: the scanner notes that it checked the cursor before the restart
  is stored. When that statement fails the cursor stays where it was, above the head, and no later tick
  of the process looks at it again: nothing is scanned until the chain reaches the foreign height.
\<close>

lemma realign_lost:
  assumes "take_first (\<lambda>c. cc_name c = cursorName (sn_cfg env)) (cursors w) = Some c" and "head < cc_block_number c"
    and "\<not> sn_fail env ScCursor" and "sn_fail env (ScSaveCursor (i64 (head - 1)))"
    and "sn_cfg env2 = sn_cfg env" and "\<not> sn_fail env2 ScCursor" and "\<not> sc_checked s"
  shows "\<exists>s1. loadCursor env head s w = (s1, w, Inl db_err) \<and> loadCursor env2 head2 s1 w = (s1, w, Inr c)"
  using assms by (simp add: loadCursor_def Let_def cursorOnChain_def saveCursor_def)

lemma find_fork_on_chain:
  "find_fork env w limit n = Inr k \<Longrightarrow> 0 < k \<Longrightarrow> limit \<le> k \<Longrightarrow>
   (\<exists>snap b. take_first (\<lambda>b. bs_block_number b = k) (snapshots w) = Some snap \<and>
      GetBlockByNum (sn_node env) k = Inr b \<and> EqualFold (b_block_id b) (bs_block_hash snap)) \<and>
   (\<forall>m. k < m \<longrightarrow> m \<le> n \<longrightarrow> (\<forall>snap. take_first (\<lambda>b. bs_block_number b = m) (snapshots w) = Some snap \<longrightarrow>
      (\<exists>b. GetBlockByNum (sn_node env) m = Inr b \<and> \<not> EqualFold (b_block_id b) (bs_block_hash snap))))"
proof (induction env w limit n rule: find_fork.induct)
  case (1 env w limit n)
  have run: "0 < n" "limit \<le> n" "\<not> sn_fail env (ScSnapshot n)"
    using 1(3-5) find_fork_le [OF 1(3)] by (subst (asm) find_fork.simps; auto split: if_splits)+
  show ?case
  proof (cases "take_first (\<lambda>b. bs_block_number b = n) (snapshots w)")
    case None
    then have st: "find_fork env w limit (n - 1) = Inr k"
      using 1(3) run by (subst (asm) find_fork.simps) simp
    have ih: "P \<and> (\<forall>m. k < m \<longrightarrow> m \<le> n - 1 \<longrightarrow> Q m) \<Longrightarrow> Q n \<Longrightarrow> P \<and> (\<forall>m. k < m \<longrightarrow> m \<le> n \<longrightarrow> Q m)" for P Q
      by (metis zle_diff1_eq order_le_less)
    show ?thesis using run None 1(4,5) st by (intro ih 1(1)) auto
  next
    case (Some snap)
    then obtain b where b: "GetBlockByNum (sn_node env) n = Inr b"
      using 1(3) run by (subst (asm) find_fork.simps) (auto split: sum.splits)
    show ?thesis
    proof (cases "EqualFold (b_block_id b) (bs_block_hash snap)")
      case True
      then have "k = n" using 1(3) run Some b by (subst (asm) find_fork.simps) simp
      then show ?thesis using Some b True by auto
    next
      case False
      then have st: "find_fork env w limit (n - 1) = Inr k"
        using 1(3) run Some b by (subst (asm) find_fork.simps) simp
      have ih: "P \<and> (\<forall>m. k < m \<longrightarrow> m \<le> n - 1 \<longrightarrow> Q m) \<Longrightarrow> Q n \<Longrightarrow> P \<and> (\<forall>m. k < m \<longrightarrow> m \<le> n \<longrightarrow> Q m)" for P Q
        by (metis zle_diff1_eq order_le_less)
      show ?thesis using run Some b False 1(4,5) st by (intro ih 1(2)) auto
    qed
  qed
qed

text \<open>C18. A reorganisation is rolled back exactly. The cursor goes to the fork, a block no deeper than
  the configured depth; a snapshot of the fork carries the hash the chain has now, and every snapshot
  above it below the detection point disagreed with the chain; pending records above the fork become
  orphaned, every other record - confirmed ones above all - is as it was, and no snapshot above the
  fork is left. If no such fork exists nothing at all changes and the error asks for an operator.\<close>

theorem reorg_rolls_back:
  assumes "handleReorg env num w = (w', r)" and "1 \<le> num" and "num < 2 ^ 63"
    and "0 \<le> dc_reorg_depth (cf_deposit (sn_cfg env))"
    and "dc_reorg_depth (cf_deposit (sn_cfg env)) < 2 ^ 63"
  shows "(case r of
      Inl e \<Rightarrow> w' = w
    | Inr c \<Rightarrow>
        let fork = cc_block_number c; depth = dc_reorg_depth (cf_deposit (sn_cfg env))
        in 0 < fork \<and> num - depth \<le> fork \<and> fork < num
         \<and> (\<exists>snap b. snap \<in> set (snapshots w) \<and> bs_block_number snap = fork \<and>
               GetBlockByNum (sn_node env) fork = Inr b \<and> EqualFold (b_block_id b) (bs_block_hash snap))
         \<and> (\<forall>m. fork < m \<longrightarrow> m < num \<longrightarrow>
               (\<forall>snap. take_first (\<lambda>b. bs_block_number b = m) (snapshots w) = Some snap \<longrightarrow>
                 (\<exists>b. GetBlockByNum (sn_node env) m = Inr b \<and> \<not> EqualFold (b_block_id b) (bs_block_hash snap))))
         \<and> (\<forall>i < length (deposits w). deposits w' ! i =
               (if fork < d_block_number (deposits w ! i) \<and> d_status (deposits w ! i) = DepositPending
                then (deposits w ! i)\<lparr>d_status := DepositOrphaned, d_updated_at := sn_now env\<rparr>
                else deposits w ! i))
         \<and> length (deposits w') = length (deposits w)
         \<and> set (snapshots w') = {b \<in> set (snapshots w). bs_block_number b \<le> fork}
         \<and> (\<forall>k. cursor_at (cursorName (sn_cfg env)) w = Some k \<longrightarrow>
               cursor_at (cursorName (sn_cfg env)) w' = Some fork)
         \<and> outbox w' = outbox w)"
proof -
  let ?depth = "dc_reorg_depth (cf_deposit (sn_cfg env))"
  have n: "i64 (num - 1) = num - 1" "i64 (num - ?depth) = num - ?depth"
    using assms(2-5) by (simp_all add: i64_id in_i64_def)
  show ?thesis
  proof (cases r)
    case (Inl e)
    then show ?thesis using assms(1) by (auto simp: handleReorg_def Let_def split: sum.splits if_splits)
  next
    case (Inr c)
    then obtain fork where fork: "find_fork env w (num - ?depth) (num - 1) = Inr fork" "0 < fork" "num - ?depth \<le> fork"
      "cc_block_number c = fork"
      and w': "deposits w' = update_where (\<lambda>r. fork < d_block_number r \<and> d_status r = DepositPending)
                (\<lambda>r. r\<lparr>d_status := DepositOrphaned, d_updated_at := sn_now env\<rparr>) (deposits w)"
        "snapshots w' = delete_where (\<lambda>b. fork < bs_block_number b) (snapshots w)" "outbox w' = outbox w"
        "cursors w' = update_where (\<lambda>x. cc_name x = cursorName (sn_cfg env))
                (\<lambda>x. x\<lparr>cc_block_number := fork, cc_block_hash := cc_block_hash c, cc_updated_at := sn_now env\<rparr>) (cursors w)"
      using assms(1) by (auto simp: handleReorg_def Let_def n split: sum.splits if_splits)
    have lt: "fork < num" using find_fork_le [OF fork(1)] by simp
    have at: "cursor_at (cursorName (sn_cfg env)) w = Some k \<Longrightarrow>
        cursor_at (cursorName (sn_cfg env)) w' = Some fork" for k
      by (auto simp: cursor_at_def w'(4) take_first_update_where)
    have snaps: "set (snapshots w') = {b \<in> set (snapshots w). bs_block_number b \<le> fork}"
      by (auto simp: w'(2) set_delete_where)
    have rows: "\<forall>i < length (deposits w). deposits w' ! i =
        (if fork < d_block_number (deposits w ! i) \<and> d_status (deposits w ! i) = DepositPending
         then (deposits w ! i)\<lparr>d_status := DepositOrphaned, d_updated_at := sn_now env\<rparr> else deposits w ! i)"
      "length (deposits w') = length (deposits w)"
      by (simp_all add: w'(1) update_where_def)
    note on = find_fork_on_chain [OF fork(1-3)]
    from on obtain snap b where sb: "snap \<in> set (snapshots w)" "bs_block_number snap = fork"
      "GetBlockByNum (sn_node env) fork = Inr b" "EqualFold (b_block_id b) (bs_block_hash snap)"
      by (auto dest: take_first_Some)
    show ?thesis
      unfolding Inr sum.case Let_def fork(4)
      using fork(2,3) lt sb conjunct2 [OF on] rows snaps at w'(3) by (intro conjI) (blast | simp)+
  qed
qed

section \<open>Instances\<close>

text \<open>A node whose head is a block with one transfer to our only wallet.\<close>

definition sample_block :: "int \<Rightarrow> block" where
  "sample_block n = \<lparr>b_block_id = ''h'' @ big_String n, b_number = n, b_timestamp = 0, b_parent_hash = '''',
     b_witness_address = ''''\<rparr>"

definition sample_info :: tx_info where
  "sample_info = \<lparr>ti_id = ''ab'', ti_block_number = 6, ti_block_timestamp = 0, ti_contract_address = '''',
     ti_fee = 0, ti_energy_usage_total = 0, ti_net_usage = 0, ti_receipt_result = ''SUCCESS'',
     ti_log = [\<lparr>lg_address = hex_EncodeToString (replicate 20 9), lg_topics =
        [TransferEventTopic (\<lambda>_. replicate 32 0), hex_EncodeToString (replicate 12 0 @ replicate 20 1),
         hex_EncodeToString (replicate 12 0 @ replicate 20 5)],
        lg_data = hex_EncodeToString (word256 40)\<rparr>],
     ti_result = '''', ti_res_message = ''''\<rparr>"

definition scan_node :: node_api where
  "scan_node = down_node\<lparr>na_now_block := Inr (sample_block 6), na_block := (\<lambda>n. Inr (sample_block n)),
     na_infos := (\<lambda>_. Inr [sample_info]), na_tx_info := (\<lambda>_ _. Inr sample_info)\<rparr>"

definition scan_sample_env :: scan_env where
  "scan_sample_env = \<lparr>sn_cfg = sample_config (sample_address 9), sn_node = scan_node, sn_node2 = scan_node,
     sn_kec = (\<lambda>_. replicate 32 0), sn_may = (\<lambda>_. True), sn_uuid = (\<lambda>x i. x @ CHR '':'' # big_String i),
     sn_now = 0, sn_fail = (\<lambda>_. False)\<rparr>"

definition sample_scanner :: scanner where
  "sample_scanner = \<lparr>sc_tokens = [(sample_address 9, ''USDT'', 6)], sc_min_unit = 0, sc_checked = True\<rparr>"

definition sample_wallet :: user_wallet where
  "sample_wallet = \<lparr>uw_id = 1, uw_merchant_id = ''M'', uw_uid = ''U'', uw_account = ''A'', uw_chain = ''TRON'',
     uw_address = sample_address 5, uw_addr_index = 0, uw_chain_idx = '''', uw_derive_path = '''',
     uw_purpose = ''deposit'', uw_status = 1, uw_created_at = 0, uw_updated_at = 0\<rparr>"

definition scan_world :: world where
  "scan_world = empty_world\<lparr>user_wallets := [sample_wallet],
     cursors := [\<lparr>cc_name = cursorName (sn_cfg scan_sample_env), cc_block_number = 5, cc_block_hash = '''', cc_updated_at = 0\<rparr>]\<rparr>"

lemma sample_transfer:
  "decodeTransfer (\<lambda>_. replicate 32 0) sample_scanner (ti_log sample_info ! 0) =
     Some \<lparr>tf_contract = sample_address 9, tf_symbol = ''USDT'', tf_decimals = 6, tf_from = sample_address 1,
       tf_to = sample_address 5, tf_amount = 40\<rparr>"
proof -
  have "HexToAddress (hex_EncodeToString (replicate 20 9)) = Inr (sample_address 9)"
    "HexToAddress (hex_EncodeToString (replicate 12 0 @ replicate 20 n)) = Inr (sample_address n)" for n
    by (simp_all add: HexToAddress_hex sample_address_def)
  then show ?thesis
    by (simp add: decodeTransfer_def sample_info_def sample_scanner_def ParseUint256_word256)
qed

lemma sample_scanner_of: "scanner_of (sample_config (sample_address 9)) sample_scanner"
proof -
  have "SetString [] = None" by (simp add: SetString_def)
  then show ?thesis
    by (simp add: scanner_of_def New_scanner_def sample_scanner_def sample_config_def EnabledTokens_def)
qed

lemma sample_scanner_of_env: "scanner_of (sn_cfg scan_sample_env) sample_scanner"
  using sample_scanner_of by (simp add: scan_sample_env_def)

lemma sample_succeeded: "Succeeded sample_info"
  by (simp add: Succeeded_def sample_info_def Let_def normResult_def TrimSpace_def is_space_def ToUpper_def upper_char_def)

lemma sample_pays: "pays scan_sample_env scan_world [sample_info] sample_info 0
    \<lparr>tf_contract = sample_address 9, tf_symbol = ''USDT'', tf_decimals = 6, tf_from = sample_address 1,
       tf_to = sample_address 5, tf_amount = 40\<rparr> sample_wallet"
  using decodeTransfer_sound [OF sample_scanner_of sample_transfer] sample_succeeded
  by (simp add: pays_def scan_sample_env_def scan_world_def sample_wallet_def sample_info_def)

lemma sample_uuid_ok: "uuid_ok scan_sample_env (deposits scan_world)"
proof -
  have "x = y \<and> i = j" if "x @ CHR '':'' # big_String i = y @ CHR '':'' # big_String j" for x y i j
    using split_colon [OF that] by (simp add: colon_not_digit big_String_inject)
  then show ?thesis by (simp add: uuid_ok_def scan_sample_env_def scan_world_def empty_world_def)
qed

lemma sample_filter_sound: "filter_sound scan_sample_env scan_world"
  by (simp add: filter_sound_def scan_sample_env_def)

lemma sample_scanBlock: "\<exists>w'. scanBlock scan_sample_env sample_scanner (sample_block 6) [sample_info] scan_world = (w', None)"
proof -
  have lg: "\<exists>l. ti_log sample_info = [l]" by (simp add: sample_info_def)
  then have "\<exists>rs. parse_infos scan_sample_env sample_scanner scan_world (sample_block 6) [sample_info] = Inr rs"
    using sample_transfer
    by (auto simp: sample_succeeded parseLog_def scan_sample_env_def scan_world_def sample_wallet_def take_first_def isInternal_def)
  then show ?thesis by (auto simp: scanBlock_def scan_sample_env_def)
qed

theorem scanBlock_exact_witness:
  "\<exists>w'. scanBlock scan_sample_env sample_scanner (sample_block 6) [sample_info] scan_world = (w', None)
     \<and> (''ab'', 0) \<in> deposit_key ` set (deposits w')"
proof -
  obtain w' where w': "scanBlock scan_sample_env sample_scanner (sample_block 6) [sample_info] scan_world = (w', None)"
    using sample_scanBlock by blast
  have "(ti_id sample_info, int 0) \<in> deposit_key ` set (deposits w')"
    using conjunct1 [OF scanBlock_exact [OF w' sample_uuid_ok sample_filter_sound sample_scanner_of_env]] sample_pays by blast
  then show ?thesis using w' by (simp add: sample_info_def)
qed

lemma sample_tick:
  "\<exists>s' w' r. tick scan_sample_env sample_scanner scan_world = (s', w', r)
     \<and> cursor_at (cursorName (sn_cfg scan_sample_env)) w' = Some 6"
proof -
  obtain w1 where w1: "scanBlock scan_sample_env sample_scanner (sample_block 6) [sample_info] scan_world = (w1, None)"
    using sample_scanBlock by blast
  have cur: "cursors w1 = [\<lparr>cc_name = cursorName (sn_cfg scan_sample_env), cc_block_number = 5, cc_block_hash = '''', cc_updated_at = 0\<rparr>]"
    using scanBlock_keeps [OF w1 sample_uuid_ok] by (simp add: scan_world_def)
  have node: "GetNowBlock (sn_node scan_sample_env) = Inr (sample_block 6)"
    "GetBlockByNum (sn_node scan_sample_env) 6 = Inr (sample_block 6)"
    "GetTxInfoByBlockNum (sn_node scan_sample_env) 6 = Inr [sample_info]" "b_number (sample_block 6) = 6"
    by (simp_all add: scan_sample_env_def scan_node_def GetNowBlock_def GetBlockByNum_def GetTxInfoByBlockNum_def sample_block_def)
  have cfg: "dc_confirmations (cf_deposit (sn_cfg scan_sample_env)) = 19"
    "dc_batch_blocks (cf_deposit (sn_cfg scan_sample_env)) = 20" "dc_reorg_depth (cf_deposit (sn_cfg scan_sample_env)) = 60"
    "sn_fail scan_sample_env = (\<lambda>_. False)" "sc_checked sample_scanner"
    by (simp_all add: scan_sample_env_def sample_config_def sample_scanner_def)
  have ld: "loadCursor scan_sample_env 6 sample_scanner scan_world = (sample_scanner, scan_world,
      Inr \<lparr>cc_name = cursorName (sn_cfg scan_sample_env), cc_block_number = 5, cc_block_hash = '''', cc_updated_at = 0\<rparr>)"
    by (simp add: loadCursor_def Let_def cfg take_first_def scan_world_def)
  show ?thesis
    by (simp add: tick_def node ld confirmUpTo_def cfg i64_id in_i64_def min64_def fetchRange_def reorg_at_def w1
        saveCursor_def pruneSnapshots_def Let_def cursor_at_def cur take_first_def update_where_def cong: if_cong)
qed

theorem tick_no_gap_witness:
  "\<exists>s' w' r. tick scan_sample_env sample_scanner scan_world = (s', w', r)
     \<and> recorded scan_sample_env scan_world 6 w'"
proof -
  obtain s' w' r where t: "tick scan_sample_env sample_scanner scan_world = (s', w', r)"
    "cursor_at (cursorName (sn_cfg scan_sample_env)) w' = Some 6" using sample_tick by blast
  have "cursor_at (cursorName (sn_cfg scan_sample_env)) scan_world = Some 5"
    by (simp add: cursor_at_def scan_world_def take_first_def)
  moreover have "honest_blocks (sn_node scan_sample_env)"
    by (auto simp: honest_blocks_def scan_sample_env_def scan_node_def GetBlockByNum_def sample_block_def split: if_splits)
  moreover have "scan_base scan_sample_env sample_scanner scan_world 5 = 5"
    by (simp add: scan_base_def sample_scanner_def split: sum.split)
  moreover have "0 < b_number b \<and> b_number b < 2 ^ 63" if "GetNowBlock (sn_node scan_sample_env) = Inr b" for b
    using that by (auto simp: scan_sample_env_def scan_node_def GetNowBlock_def sample_block_def split: if_splits)
  ultimately show ?thesis
    using tick_no_gap [OF t(1) sample_scanner_of_env _ _ _ _ _ sample_filter_sound sample_uuid_ok, of 5] t by auto
qed

theorem reorg_rolls_back_witness:
  "\<exists>w' c. handleReorg scan_sample_env 6 (scan_world\<lparr>snapshots := [\<lparr>bs_block_number = 5, bs_block_hash = ''h5'',
        bs_parent_hash = '''', bs_block_time = 0, bs_created_at = 0\<rparr>]\<rparr>) = (w', Inr c)
     \<and> 0 < cc_block_number c \<and> cc_block_number c < 6"
proof -
  let ?w = "scan_world\<lparr>snapshots := [\<lparr>bs_block_number = 5, bs_block_hash = ''h5'',
        bs_parent_hash = '''', bs_block_time = 0, bs_created_at = 0\<rparr>]\<rparr>"
  have depth: "dc_reorg_depth (cf_deposit (sn_cfg scan_sample_env)) = 60" "sn_fail scan_sample_env = (\<lambda>_. False)"
    by (simp_all add: scan_sample_env_def sample_config_def)
  have "big_String 5 = ''5''" by code_simp
  then have "GetBlockByNum (sn_node scan_sample_env) 5 = Inr (sample_block 5)" "b_block_id (sample_block 5) = ''h5''"
    by (simp_all add: scan_sample_env_def scan_node_def GetBlockByNum_def sample_block_def)
  then have "find_fork scan_sample_env ?w (-54) 5 = Inr 5"
    by (subst find_fork.simps) (simp add: depth take_first_def)
  then obtain w' c where h: "handleReorg scan_sample_env 6 ?w = (w', Inr c)"
    by (simp add: handleReorg_def Let_def depth i64_id in_i64_def)
  from reorg_rolls_back [OF h] h show ?thesis by (auto simp: depth Let_def)
qed

end
