(* ===== verification/ApiProps.thy ===== *)
theory ApiProps
  imports Api WithdrawSafety ScannerProps
begin

text \<open>What the interface promises: amounts, addresses, orders, callers.\<close>

section \<open>Amounts\<close>

text \<open>The number a decimal text denotes; an empty whole part is zero.\<close>

definition decimal_value :: "string \<Rightarrow> rat option" where
  "decimal_value s =
     (let (whole, frac) = split_dot s
      in if list_all is_digit whole \<and> list_all is_digit frac then
           Some (of_nat (from_digits 10 (map digit_val whole)) +
                 of_nat (from_digits 10 (map digit_val frac)) / 10 ^ length frac)
         else None)"

lemma from_digits_append: "from_digits b (xs @ ys) = from_digits b xs * b ^ length ys + from_digits b ys"
  by (induction ys rule: rev_induct) (simp_all add: algebra_simps flip: append_assoc)

lemma from_digits_zeros [simp]: "from_digits b (replicate k 0) = 0"
  using from_digits_leading_zeros [of b k "[]"] by simp

lemma digit_val_zero [simp]: "digit_val (CHR ''0'') = 0"
  by (simp add: digit_val_def)

lemma is_digit_zero [simp]: "is_digit (CHR ''0'')"
  by (simp add: is_digit_def)

lemma SetString_digits:
  assumes "list_all is_digit s" and "s \<noteq> []"
  shows "SetString s = Some (int (from_digits 10 (map digit_val s)))"
proof -
  obtain c r where s: "s = c # r" using assms(2) by (cases s) auto
  then have "c \<noteq> CHR ''-''" "c \<noteq> CHR ''+''" using assms(1) not_digit_sign by auto
  then show ?thesis using assms by (simp add: SetString_def s digits_value_def)
qed

text \<open>A text is accepted exactly when it is a positive decimal number with no more places than the token.\<close>

lemma parseTokenAmount_iff:
  "parseTokenAmount s d = Inr v \<longleftrightarrow>
     0 \<le> d \<and> 0 < v \<and> int (length (snd (split_dot (TrimSpace s)))) \<le> d \<and>
     decimal_value (TrimSpace s) = Some (of_int v / 10 ^ nat d)"
proof -
  obtain a f where af: "split_dot (TrimSpace s) = (a, f)" by fastforce
  let ?w = "if a = [] then ''0'' else a"
  let ?z = "replicate (nat (d - int (length f))) (CHR ''0'')"
  have w: "?w \<noteq> []" "list_all is_digit ?w \<longleftrightarrow> list_all is_digit a"
    "from_digits 10 (map digit_val ?w) = from_digits 10 (map digit_val a)" by (auto simp: from_digits_def)
  have dig: "isDigits ?w \<and> (f \<noteq> [] \<longrightarrow> isDigits f) \<longleftrightarrow> list_all is_digit a \<and> list_all is_digit f"
    using w by (auto simp: isDigits_def)
  show ?thesis
  proof (cases "0 \<le> d \<and> list_all is_digit a \<and> list_all is_digit f \<and> int (length f) \<le> d")
    case True
    let ?n = "(from_digits 10 (map digit_val a) * 10 ^ length f + from_digits 10 (map digit_val f))
        * 10 ^ (nat d - length f)"
    have "SetString (?w @ f @ ?z) = Some (int (from_digits 10 (map digit_val (?w @ f @ ?z))))"
      by (rule SetString_digits) (use True w in \<open>auto simp: list_all_iff\<close>)
    also have "from_digits 10 (map digit_val (?w @ f @ ?z)) = ?n"
    proof -
      have "from_digits 10 (map digit_val (?w @ f @ ?z))
          = from_digits 10 ((map digit_val ?w @ map digit_val f) @ replicate (nat d - length f) 0)"
        using True by (simp add: map_replicate nat_diff_distrib)
      also have "\<dots> = ?n" by (simp only: from_digits_append w length_append length_map) simp
      finally show ?thesis .
    qed
    finally obtain n where n: "n = ?n" "SetString (?w @ f @ ?z) = Some (int n)" by blast
    have g: "\<not> (\<not> isDigits ?w \<or> f \<noteq> '''' \<and> \<not> isDigits f)" "\<not> d < 0" "\<not> int (length f) > d"
      using True dig by auto
    have "parseTokenAmount s d = (if int n \<le> 0 then Inl (errors_new ''amount must be positive'') else Inr (int n))"
      unfolding parseTokenAmount_def af Let_def prod.case using g(1) by (simp only: g n(2) if_False option.case simp_thms)
    then have v: "parseTokenAmount s d = Inr v \<longleftrightarrow> 0 < v \<and> v = int n" by (auto split: if_splits)
    have "(of_nat n :: rat) / 10 ^ nat d = of_nat (from_digits 10 (map digit_val a)) +
        of_nat (from_digits 10 (map digit_val f)) / 10 ^ length f"
    proof -
      have "(10::rat) ^ nat d = 10 ^ length f * 10 ^ (nat d - length f)"
        using True by (simp flip: power_add) (metis le_add_diff_inverse nat_int nat_mono)
      then show ?thesis by (simp add: n(1) field_simps)
    qed
    then have "decimal_value (TrimSpace s) = Some (of_nat n / 10 ^ nat d)"
      using True by (simp add: af decimal_value_def)
    moreover have "(of_nat n :: rat) / 10 ^ nat d = of_int v / 10 ^ nat d \<longleftrightarrow> v = int n"
      by (metis divide_cancel_right of_int_eq_iff of_int_of_nat_eq power_not_zero zero_neq_numeral)
    ultimately show ?thesis using True v by (auto simp: af)
  next
    case False
    have "parseTokenAmount s d \<noteq> Inr v"
      using False dig by (auto simp: parseTokenAmount_def af Let_def split: if_splits)
    with False show ?thesis by (auto simp: af decimal_value_def split: if_splits)
  qed
qed

section \<open>Amounts that were printed\<close>

lemma TrimSpace_plain: "\<forall>c \<in> set s. \<not> is_space c \<Longrightarrow> TrimSpace s = s"
proof -
  assume ns: "\<forall>c \<in> set s. \<not> is_space c"
  have d: "dropWhile is_space t = t" if "\<forall>c \<in> set t. \<not> is_space c" for t
    using that by (cases t) auto
  show ?thesis using ns by (simp add: TrimSpace_def d)
qed

lemma digits_plain:
  assumes "list_all is_digit s"
  shows "\<forall>c \<in> set s. \<not> is_space c" and "CHR ''.'' \<notin> set s"
  using assms not_digit_sign(3) by (auto simp: list_all_iff is_digit_def is_space_def)

lemma split_dot_append:
  assumes "list_all is_digit a"
  shows "split_dot (a @ CHR ''.'' # f) = (a, f)" and "split_dot a = (a, [])"
proof -
  have "\<forall>c \<in> set a. c \<noteq> CHR ''.''" using digits_plain(2) [OF assms] by auto
  moreover from this have "dropWhile (\<lambda>c. c \<noteq> CHR ''.'') a = []" by (simp add: dropWhile_eq_Nil_conv)
  then have "drop 1 (dropWhile (\<lambda>c. c \<noteq> CHR ''.'') a) = []" by (simp only: drop_Nil)
  ultimately show "split_dot (a @ CHR ''.'' # f) = (a, f)" "split_dot a = (a, [])"
    by (simp_all add: split_dot_def takeWhile_append2 dropWhile_append2)
qed

text \<open>Trailing zeros of a fraction carry nothing.\<close>

lemma TrimRight_zeros:
  obtains k where "s = TrimRight (\<lambda>c. c = CHR ''0'') s @ replicate k (CHR ''0'')"
proof -
  let ?p = "\<lambda>c. c = CHR ''0''"
  have "takeWhile ?p (rev s) = replicate (length (takeWhile ?p (rev s))) (CHR ''0'')"
    by (rule replicate_eqI) (auto dest: set_takeWhileD)
  moreover have "rev s = takeWhile ?p (rev s) @ dropWhile ?p (rev s)" by simp
  ultimately have "s = rev (dropWhile ?p (rev s)) @ replicate (length (takeWhile ?p (rev s))) (CHR ''0'')"
    by (metis rev_append rev_replicate rev_rev_ident)
  then show ?thesis using that by (simp add: TrimRight_def)
qed

lemma map_digit_val_show: "from_digits 10 (map digit_val (show_nat n)) = n"
  using digits_value_show [of n] by (simp add: digits_value_def split: if_splits)

lemma length_show_nat_le:
  assumes "n < 10 ^ k" and "0 < k"
  shows "length (show_nat n) \<le> k"
  using length_to_digits_le [of 10 n k] assms by (simp add: show_nat_def)

lemma big_String_nonneg: "0 \<le> i \<Longrightarrow> big_String i = show_nat (nat i)"
  by (simp add: big_String_def)

text \<open>An amount that was formatted for display reads back to the same units.\<close>

lemma FormatUnits_parse:
  assumes "0 < v" and "0 \<le> d"
  shows "parseTokenAmount (FormatUnits (big_String v) d) d = Inr v"
proof -
  let ?s = "10 ^ nat d :: int"
  have s: "0 < ?s" by simp
  obtain q r where q: "v div ?s = int q" and r: "v mod ?s = int r"
    by (metis assms(1) less_imp_le nonneg_int_cases pos_imp_zdiv_nonneg_iff pos_mod_sign s)
  have vq: "v = int q * ?s + int r" unfolding q [symmetric] r [symmetric] by (rule div_mult_mod_eq [symmetric])
  have rs: "r < 10 ^ nat d" using pos_mod_bound [OF s, of v] unfolding r
    by (metis of_nat_less_iff of_nat_numeral of_nat_power)
  have bq: "big_String (int q) = show_nat q" "big_String (int r) = show_nat r" by (simp_all add: big_String_nonneg)
  show ?thesis
  proof (cases "d = 0 \<or> r = 0")
    case True
    then have f: "FormatUnits (big_String v) d = show_nat q"
      using assms by (auto simp: FormatUnits_def Let_def bq q r)
    have v: "v = int q * ?s" using True vq rs by auto
    have "TrimSpace (show_nat q) = show_nat q" by (rule TrimSpace_plain [OF digits_plain(1) [OF show_nat_digits]])
    moreover have "(of_nat q :: rat) = of_int v / 10 ^ nat d" by (simp add: v)
    ultimately show ?thesis unfolding parseTokenAmount_iff f using assms
      by (simp add: split_dot_append(2) [OF show_nat_digits] decimal_value_def show_nat_digits map_digit_val_show)
  next
    case False
    let ?p = "padLeft (show_nat r) d"
    define t where "t = TrimRight (\<lambda>c. c = CHR ''0'') ?p"
    have d: "0 < nat d" "0 < d" using False assms by auto
    have f: "FormatUnits (big_String v) d = show_nat q @ CHR ''.'' # t"
      using False assms by (simp add: FormatUnits_def Let_def bq q r t_def)
    have len: "length (show_nat r) \<le> nat d" using length_show_nat_le rs d by blast
    then have p: "?p = replicate (nat d - length (show_nat r)) (CHR ''0'') @ show_nat r"
      using d by (auto simp: padLeft_def nat_diff_distrib)
    obtain k where k: "?p = t @ replicate k (CHR ''0'')" unfolding t_def by (rule TrimRight_zeros)
    have plen: "length ?p = nat d" using p len by simp
    have dp: "list_all is_digit ?p" using p show_nat_digits by (auto simp: list_all_iff)
    then have dt: "list_all is_digit t" using k by (metis list_all_append)
    have "from_digits 10 (map digit_val ?p) = r" unfolding p by (simp add: map_replicate map_digit_val_show)
    then have rt: "r = from_digits 10 (map digit_val t) * 10 ^ k"
      by (subst (asm) k) (simp add: from_digits_append map_replicate)
    have tk: "nat d = length t + k" using plen k by (metis length_append length_replicate)
    have sp: "split_dot (show_nat q @ CHR ''.'' # t) = (show_nat q, t)" by (rule split_dot_append(1) [OF show_nat_digits])
    have ts: "TrimSpace (show_nat q @ CHR ''.'' # t) = show_nat q @ CHR ''.'' # t"
      by (rule TrimSpace_plain) (use digits_plain(1) [OF show_nat_digits] digits_plain(1) [OF dt] in \<open>auto simp: is_space_def\<close>)
    have "(of_nat q + of_nat (from_digits 10 (map digit_val t)) / 10 ^ length t :: rat) = of_int v / 10 ^ nat d"
    proof -
      have "(of_int v :: rat) = of_nat q * 10 ^ nat d + of_nat r"
        by (simp add: vq)
      then show ?thesis unfolding rt tk by (simp add: power_add field_simps)
    qed
    then have "decimal_value (TrimSpace (show_nat q @ CHR ''.'' # t)) = Some (of_int v / 10 ^ nat d)"
      unfolding ts decimal_value_def sp using dt show_nat_digits by (simp add: map_digit_val_show)
    then show ?thesis unfolding parseTokenAmount_iff f using assms tk by (simp add: ts sp)
  qed
qed

text \<open>C29. Reading an amount is exact: a text is accepted exactly when it is a positive decimal number with no
  more places than the token has, and the units returned are that number times the token's scale,
  without rounding; and an amount printed for the merchant reads back to the same units.\<close>

theorem parseTokenAmount_exact:
  "(parseTokenAmount s d = Inr v \<longleftrightarrow>
      0 \<le> d \<and> 0 < v \<and> int (length (snd (split_dot (TrimSpace s)))) \<le> d \<and>
      decimal_value (TrimSpace s) = Some (of_int v / 10 ^ nat d)) \<and>
   (0 < v \<longrightarrow> 0 \<le> d \<longrightarrow> parseTokenAmount (FormatUnits (big_String v) d) d = Inr v)"
  using parseTokenAmount_iff FormatUnits_parse by blast

theorem parseTokenAmount_exact_witness:
  "parseTokenAmount (FormatUnits (big_String 11500000) 6) 6 = Inr 11500000"
  using parseTokenAmount_exact [where v = 11500000 and d = 6] by simp

section \<open>Addresses\<close>

text \<open>
  Requests run interleaved: between the reservation of an index and the insert of the row, others may
  allocate for the same account. \<open>as_rows\<close> are the rows about to be inserted, \<open>as_served\<close> the addresses
  handed out so far, with the account they were handed out for.
\<close>

record address_sys =
  as_world :: world
  as_rows :: "user_wallet set"
  as_served :: "(string \<times> string) set"

inductive address_step :: "address_sys \<Rightarrow> address_sys \<Rightarrow> bool" where
  known: "existing_wallet account (as_world s) = Some u \<Longrightarrow>
    address_step s (s\<lparr>as_served := insert (account, uw_address u) (as_served s)\<rparr>)"
| alloc: "address_alloc env merchantID uid (as_world s) = (w', Inr row) \<Longrightarrow>
    address_step s (s\<lparr>as_world := w', as_rows := insert row (as_rows s)\<rparr>)"
| insert: "row \<in> as_rows s \<Longrightarrow> address_insert env row (as_world s) = (w', Inr (fresh, u)) \<Longrightarrow>
    address_step s (s\<lparr>as_world := w', as_served := insert (uw_account row, uw_address u) (as_served s)\<rparr>)"
| other: "user_wallets w' = user_wallets (as_world s) \<Longrightarrow> address_step s (s\<lparr>as_world := w'\<rparr>)"

definition address_inv :: "address_sys \<Rightarrow> bool" where
  "address_inv s \<longleftrightarrow> wallet_table.no_clash (user_wallets (as_world s)) \<and>
     (\<forall>acc x. (acc, x) \<in> as_served s \<longrightarrow>
        (\<exists>u \<in> set (user_wallets (as_world s)). uw_account u = acc \<and> uw_address u = x))"

lemma NextAddressIndex_wallets: "NextAddressIndex f now c w = (w', r) \<Longrightarrow> user_wallets w' = user_wallets w"
  by (auto simp: NextAddressIndex_def Let_def split: if_splits option.splits)

lemma address_alloc_wallets:
  assumes "address_alloc env mid uid w = (w', r)"
  shows "user_wallets w' = user_wallets w" and "r = Inr row \<Longrightarrow> uw_account row = MakeAccount mid uid"
  using assms NextAddressIndex_wallets
  by (fastforce simp: address_alloc_def new_wallet_def Let_def split: prod.splits sum.splits)+

lemma address_insert_cases:
  assumes "address_insert env row w = (w', Inr (fresh, u))"
  obtains (new) t where "insert_wallet row (user_wallets w) = Some t" "w' = w\<lparr>user_wallets := t\<rparr>" "u = row" "fresh"
  | (old) "w' = w" "u \<in> set (user_wallets w)" "uw_account u = uw_account row" "\<not> fresh"
proof (cases "if ap_fail env ApWallet then None else insert_wallet row (user_wallets w)")
  case None
  then have "w' = w" "\<not> fresh" "take_first (\<lambda>u. uw_account u = uw_account row) (user_wallets w) = Some u"
    using assms by (auto simp: address_insert_def simp del: if_split split: if_split_asm option.split_asm)
  with old show thesis by (auto dest!: take_first_Some)
next
  case (Some t)
  then have "insert_wallet row (user_wallets w) = Some t" by (auto split: if_splits)
  moreover have "w' = w\<lparr>user_wallets := t\<rparr>" "u = row" "fresh" using assms Some by (simp_all add: address_insert_def)
  ultimately show thesis by (rule new)
qed

lemma address_step_inv: "address_step s s' \<Longrightarrow> address_inv s \<Longrightarrow> address_inv s'"
proof (induction rule: address_step.induct)
  case (known account s u)
  then have "u \<in> set (user_wallets (as_world s)) \<and> uw_account u = account"
    by (auto simp: existing_wallet_def dest!: take_first_Some)
  with known show ?case by (auto simp: address_inv_def)
next
  case (alloc env merchantID uid s w' row)
  then show ?case using address_alloc_wallets(1) [OF alloc(1)] by (simp add: address_inv_def)
next
  case (insert row s env w' fresh u)
  show ?case using insert(2)
  proof (cases rule: address_insert_cases)
    case (new t)
    obtain i where t: "t = user_wallets (as_world s) @ [row\<lparr>uw_id := i\<rparr>]" using wallet_table.ins_done [OF new(1)] ..
    have "wallet_table.no_clash (user_wallets (as_world s))" using insert.prems by (simp add: address_inv_def)
    from wallet_table.ins_no_clash [OF this new(1)] have "wallet_table.no_clash t" .
    with insert.prems show ?thesis unfolding address_inv_def by (auto simp: new t)
  next
    case old
    with insert.prems show ?thesis by (auto simp: address_inv_def)
  qed
next
  case (other w' s)
  then show ?case by (simp add: address_inv_def)
qed

text \<open>A whole request is a run, and what it answers with is served.\<close>

definition answer_field :: "api_answer \<Rightarrow> string \<Rightarrow> json option" where
  "answer_field ans key = (case snd ans of Fields kvs \<Rightarrow> map_of kvs key | _ \<Rightarrow> None)"

definition answered_with :: "api_answer \<Rightarrow> address_sys \<Rightarrow> bool" where
  "answered_with ans s \<longleftrightarrow> fst ans = 200 \<longrightarrow>
     (\<exists>mid uid x. answer_field ans ''merchant_id'' = Some (JStr mid) \<and> answer_field ans ''uid'' = Some (JStr uid) \<and>
        answer_field ans ''address'' = Some (JStr x) \<and> (MakeAccount mid uid, x) \<in> as_served s)"

lemma address_request_refused: "address_request env rq w = Inl ans \<Longrightarrow> fst ans \<noteq> 200"
  by (auto simp: address_request_def api_error_def Let_def split: option.splits sum.splits if_splits)

lemma address_alloc_refused: "address_alloc env mid uid w = (w', Inl ans) \<Longrightarrow> fst ans \<noteq> 200"
  by (auto simp: address_alloc_def api_error_def Let_def split: prod.splits sum.splits)

lemma address_known_fields:
  "answer_field (address_known mch mid uid u) ''merchant_id'' = Some (JStr mid)"
  "answer_field (address_known mch mid uid u) ''uid'' = Some (JStr uid)"
  "answer_field (address_known mch mid uid u) ''address'' = Some (JStr (uw_address u))"
  by (simp_all add: address_known_def answer_field_def)

lemma answered_withI:
  assumes "answer_field ans ''merchant_id'' = Some (JStr mid)" and "answer_field ans ''uid'' = Some (JStr uid)"
    and "answer_field ans ''address'' = Some (JStr x)" and "(MakeAccount mid uid, x) \<in> as_served s"
  shows "answered_with ans s"
  using assms by (auto simp: answered_with_def)

lemma createAddress_run:
  assumes "createAddress env rq (as_world s) = (w', ans)"
  shows "\<exists>s'. address_step\<^sup>*\<^sup>* s s' \<and> as_world s' = w' \<and> answered_with ans s'"
proof (cases "address_request env rq (as_world s)")
  case (Inl a)
  then have "w' = as_world s" "fst ans \<noteq> 200"
    using assms address_request_refused by (auto simp: createAddress_def)
  then show ?thesis by (auto simp: answered_with_def)
next
  case (Inr req)
  obtain mch mid uid where req: "req = (mch, mid, uid)" by (cases req)
  let ?acc = "MakeAccount mid uid"
  show ?thesis
  proof (cases "ap_fail env ApExisting")
    case True
    then have "w' = as_world s" "fst ans \<noteq> 200" using assms Inr req by (auto simp: createAddress_def api_error_def)
    then show ?thesis by (auto simp: answered_with_def)
  next
    case False
    show ?thesis
    proof (cases "existing_wallet ?acc (as_world s)")
      case (Some u)
      then have e: "w' = as_world s" "ans = address_known mch mid uid u"
        using assms Inr req False by (auto simp: createAddress_def)
      let ?s = "s\<lparr>as_served := insert (?acc, uw_address u) (as_served s)\<rparr>"
      have "address_step s ?s" by (rule address_step.known [OF Some])
      moreover have "answered_with ans ?s"
        by (rule answered_withI [of _ mid uid "uw_address u"]) (simp_all add: e address_known_fields)
      ultimately show ?thesis using e(1) by (intro exI [of _ ?s]) auto
    next
      case None
      obtain w1 r where al: "address_alloc env mid uid (as_world s) = (w1, r)" by fastforce
      show ?thesis
      proof (cases r)
        case (Inl a)
        then have e: "w' = w1" "ans = a" using assms Inr req False None al by (auto simp: createAddress_def)
        have "address_step s (s\<lparr>as_world := w1\<rparr>)" by (rule address_step.other) (rule address_alloc_wallets(1) [OF al])
        moreover have "fst ans \<noteq> 200" using address_alloc_refused al Inl e(2) by blast
        ultimately show ?thesis using e(1) by (intro exI [of _ "s\<lparr>as_world := w1\<rparr>"]) (auto simp: answered_with_def)
      next
        case row: (Inr row)
        let ?s1 = "s\<lparr>as_world := w1, as_rows := insert row (as_rows s)\<rparr>"
        have acc: "uw_account row = ?acc" using address_alloc_wallets(2) [OF al] row by blast
        have st1: "address_step s ?s1" using address_step.alloc [OF al [unfolded row]] .
        obtain w2 q where ins: "address_insert env row w1 = (w2, q)" by fastforce
        have e: "(case q of Inl er \<Rightarrow> (w2, api_error 500 (err_msg er))
            | Inr (False, u) \<Rightarrow> (w2, address_known mch mid uid u)
            | Inr (True, u) \<Rightarrow> (w2, 200, Fields [(''merchant_id'', JStr mid), (''uid'', JStr uid),
                (''address'', JStr (uw_address u)), (''chain'', JStr ChainTRON), (''symbol'', JStr (m_symbol mch))]))
            = (w', ans)"
          using assms by (simp add: createAddress_def Inr req False None al row ins)
        show ?thesis
        proof (cases q)
          case (Inl er)
          then have "w2 = w1" using ins by (auto simp: address_insert_def split: if_splits option.splits)
          then show ?thesis using e Inl st1 by (intro exI [of _ ?s1]) (auto simp: answered_with_def api_error_def)
        next
          case ok: (Inr fu)
          obtain fresh u where fu: "fu = (fresh, u)" by fastforce
          let ?s2 = "?s1\<lparr>as_world := w2, as_served := insert (uw_account row, uw_address u) (as_served ?s1)\<rparr>"
          have r: "row \<in> as_rows ?s1" by simp
          have i: "address_insert env row (as_world ?s1) = (w2, Inr (fresh, u))" using ins ok fu by simp
          have run: "address_step\<^sup>*\<^sup>* s ?s2"
            by (rule rtranclp.rtrancl_into_rtrancl [OF r_into_rtranclp [where r = address_step, OF st1]],
                rule address_step.insert [OF r i])
          have w': "w' = w2" and ans: "ans = (if fresh then (200, Fields [(''merchant_id'', JStr mid), (''uid'', JStr uid),
                (''address'', JStr (uw_address u)), (''chain'', JStr ChainTRON), (''symbol'', JStr (m_symbol mch))])
              else address_known mch mid uid u)"
            using e unfolding ok fu by (cases fresh; simp)+
          have "answered_with ans ?s2"
            by (rule answered_withI [of _ mid uid "uw_address u"])
              (simp_all add: ans address_known_fields acc, simp_all add: answer_field_def)
          with w' show ?thesis using run by (intro exI [of _ ?s2]) simp_all
        qed
      qed
    qed
  qed
qed

text \<open>C8. Whatever the interleaving of requests, an account is served one address for ever and no address is
  served to two accounts: of all addresses ever handed out, two are the same exactly when their
  accounts are, and the account has exactly one row in the table, with that address.\<close>

theorem addresses_stable:
  assumes "address_step\<^sup>*\<^sup>* s s'" and "wallet_table.no_clash (user_wallets (as_world s))" and "as_served s = {}"
    and "(a, x) \<in> as_served s'" and "(b, y) \<in> as_served s'"
  shows "(a = b \<longleftrightarrow> x = y) \<and>
    (\<exists>u. uw_address u = x \<and> filter (\<lambda>r. uw_account r = a) (user_wallets (as_world s')) = [u])"
proof -
  have "address_inv s" using assms(2,3) by (simp add: address_inv_def)
  with assms(1) have inv: "address_inv s'" by (induction rule: rtranclp_induct) (auto intro: address_step_inv)
  let ?t = "user_wallets (as_world s')"
  have nc: "wallet_table.no_clash ?t" using inv by (simp add: address_inv_def)
  note uniq = wallet_table.no_clash_unique [OF nc]
  obtain u v where u: "u \<in> set ?t" "uw_account u = a" "uw_address u = x"
    and v: "v \<in> set ?t" "uw_account v = b" "uw_address v = y"
    using inv assms(4,5) unfolding address_inv_def by blast
  have "a = b \<longleftrightarrow> x = y" using uniq [OF u(1) v(1)] u v by (auto simp: wallet_clash_def)
  moreover have "filter (\<lambda>r. uw_account r = a) ?t = [u]"
    using wallet_table.no_clash_filter [OF nc, where p = "\<lambda>r. uw_account r = a" and u = u] u by (auto simp: wallet_clash_def)
  ultimately show ?thesis using u(3) by blast
qed

definition sample_api :: api_config where
  "sample_api = \<lparr>ac_hmac_secret = ''key'', ac_allowed_ips = [], ac_signature_skew = 300000000000, ac_max_body_bytes = 0\<rparr>"

definition sample_api_env :: api_env where
  "sample_api_env = \<lparr>ap_cfg = sample_config ''T'', ap_api = sample_api, ap_json = (\<lambda>_. None), ap_url = (\<lambda>_. None),
     ap_derive = (\<lambda>_. Inr ''address''), ap_uuid = ''trade'', ap_now = 0, ap_fail = (\<lambda>_. False)\<rparr>"

theorem addresses_stable_witness:
  "\<exists>s' :: address_sys. (MakeAccount ''m'' ''1'', ''address'') \<in> as_served s' \<and>
     (\<exists>u :: user_wallet. uw_address u = ''address'' \<and>
        filter (\<lambda>r. uw_account r = MakeAccount ''m'' ''1'') (user_wallets (as_world s')) = [u])"
proof -
  let ?s = "\<lparr>as_world = empty_world, as_rows = {}, as_served = {}\<rparr>"
  obtain w1 i where al: "NextAddressIndex (\<lambda>s. ap_fail sample_api_env (ApAlloc s)) (ap_now sample_api_env) ''TRON'' empty_world = (w1, Inr i)"
    by (auto simp: NextAddressIndex_def sample_api_env_def empty_world_def take_first_def Let_def)
  let ?row = "new_wallet sample_api_env ''m'' ''1'' i
      (AddressPath (wc_account_path (cf_wallet (ap_cfg sample_api_env))) i) ''address''"
  have "ap_derive sample_api_env p = Inr ''address''" for p by (simp add: sample_api_env_def)
  then have a: "address_alloc sample_api_env ''m'' ''1'' (as_world ?s) = (w1, Inr ?row)"
    by (simp add: address_alloc_def al Let_def)
  have "user_wallets w1 = []" using NextAddressIndex_wallets [OF al] by (simp add: empty_world_def)
  then obtain w2 where i: "address_insert sample_api_env ?row w1 = (w2, Inr (True, ?row))"
    by (auto simp: address_insert_def insert_wallet_def sample_api_env_def)
  let ?s1 = "?s\<lparr>as_world := w1, as_rows := insert ?row (as_rows ?s)\<rparr>"
  have i': "address_insert sample_api_env ?row (as_world ?s1) = (w2, Inr (True, ?row))" using i by simp
  have st1: "address_step ?s ?s1" by (rule address_step.alloc [OF a])
  let ?s2 = "?s1\<lparr>as_world := w2, as_served := insert (uw_account ?row, uw_address ?row) (as_served ?s1)\<rparr>"
  have run: "address_step\<^sup>*\<^sup>* ?s ?s2"
    by (rule rtranclp.rtrancl_into_rtrancl [OF r_into_rtranclp [where r = address_step, OF st1]],
        rule address_step.insert [OF _ i']) simp
  have nc: "wallet_table.no_clash (user_wallets (as_world ?s))" by (simp add: wallet_table.no_clash_def empty_world_def)
  have srv: "(MakeAccount ''m'' ''1'', ''address'') \<in> as_served ?s2" by (simp add: new_wallet_def)
  have s0: "as_served ?s = {}" by simp
  show ?thesis
    by (rule exI [of _ ?s2], rule conjI [OF srv addresses_stable [OF run nc s0 srv srv, THEN conjunct2]])
qed

section \<open>Withdrawal orders\<close>

text \<open>What an accepted order is: payable as it stands, and for exactly the amount asked.\<close>

definition payable :: "api_env \<Rightarrow> withdraw_request \<Rightarrow> withdraw_record \<Rightarrow> bool" where
  "payable env r row \<longleftrightarrow>
     w_status row = WithdrawCreated \<and> w_txid row = '''' \<and> w_signed_raw row = '''' \<and>
     w_order_no row = wr_order_no r \<and> w_to_address row = wr_to_address r \<and> IsValidAddress (w_to_address row) \<and>
     w_notify_url row = wr_notify_url r \<and> isHTTPURL env (w_notify_url row) \<and>
     w_from_address row = sys_address (wc_hot_wallet (cf_wallet (ap_cfg env))) \<and>
     (\<exists>tok v. EnabledToken (cf_wallet (ap_cfg env)) (wr_symbol r) = Some tok \<and> w_contract row = tc_contract tok \<and>
        0 < v \<and> decimal_value (TrimSpace (wr_amount r)) = Some (of_int v / 10 ^ nat (tc_decimals tok)) \<and>
        w_amount_units row = big_String v)"

lemma withdraw_order_payable:
  assumes "withdraw_order env r = Inr row"
  shows "payable env r (row\<lparr>w_id := i\<rparr>)"
proof -
  obtain tok v where tok: "EnabledToken (cf_wallet (ap_cfg env)) (wr_symbol r) = Some tok"
      "parseTokenAmount (wr_amount r) (tc_decimals tok) = Inr v"
    using assms by (auto simp: withdraw_order_def split: if_splits option.splits sum.splits)
  then have "0 < v \<and> decimal_value (TrimSpace (wr_amount r)) = Some (of_int v / 10 ^ nat (tc_decimals tok))"
    using parseTokenAmount_iff by blast
  with assms tok show ?thesis by (auto simp: withdraw_order_def payable_def split: if_splits)
qed

lemma insert_order_fresh:
  assumes "insert_order row t = Some t'"
  obtains i where "t' = t @ [row\<lparr>w_id := i\<rparr>]" "i \<notin> w_id ` set t" "w_order_no row \<notin> w_order_no ` set t"
  using assms fresh_id_not_in [of "map w_id t"] that
  by (auto simp: insert_order_def order_clash_def image_iff split: if_splits)

lemma createWithdraw_accepted:
  assumes "createWithdraw env rq w = (w', ans)" and "\<not> (w' = w \<and> fst ans \<in> {400, 500})"
  obtains ps r row t where "body_object env rq = Inr ps" "bind_withdraw ps = Inr r" "withdraw_order env r = Inr row"
    "insert_order row (withdraws w) = Some t" "w' = w\<lparr>withdraws := t\<rparr>" "fst ans = 200"
proof (cases "case body_object env rq of Inl e \<Rightarrow> Inl e | Inr ps \<Rightarrow>
              case bind_withdraw ps of Inl e \<Rightarrow> Inl e | Inr r \<Rightarrow> withdraw_order env r")
  case (Inl e)
  then show thesis using assms by (auto simp: createWithdraw_def api_error_def)
next
  case (Inr row)
  then obtain ps r where r: "body_object env rq = Inr ps" "bind_withdraw ps = Inr r" "withdraw_order env r = Inr row"
    by (auto split: sum.splits)
  show thesis
  proof (cases "if ap_fail env ApOrder then None else insert_order row (withdraws w)")
    case None
    then show thesis using assms Inr by (auto simp: createWithdraw_def api_error_def split: if_splits)
  next
    case (Some t)
    then have "insert_order row (withdraws w) = Some t" by (auto split: if_splits)
    moreover have "w' = w\<lparr>withdraws := t\<rparr>" "fst ans = 200" using assms(1) Inr Some by (auto simp: createWithdraw_def)
    ultimately show thesis using that r by blast
  qed
qed

text \<open>C7. Accepting a withdrawal is one \<open>create\<close> step of the withdrawal system, whatever the workers are
  doing: either exactly one new order is added, payable as it stands, with an id and an order number no
  order has, and the answer is 200; or nothing changes at all and the answer is 400 or 500. A repeated
  order number is never accepted twice.\<close>

theorem createWithdraw_refines:
  "case createWithdraw env rq (ws_world s) of (w', ans) \<Rightarrow>
     withdraw_step s (s\<lparr>ws_world := w'\<rparr>) \<and>
     ((\<exists>ps r row. body_object env rq = Inr ps \<and> bind_withdraw ps = Inr r \<and> payable env r row \<and>
         fresh_order row (ws_world s) \<and> fst ans = 200 \<and>
         w' = (ws_world s)\<lparr>withdraws := withdraws (ws_world s) @ [row]\<rparr>)
      \<or> w' = ws_world s \<and> fst ans \<in> {400, 500})"
proof -
  obtain w' ans where ca: "createWithdraw env rq (ws_world s) = (w', ans)"
    by (cases "createWithdraw env rq (ws_world s)")
  have same: "withdraw_step s (s\<lparr>ws_world := ws_world s\<rparr>)" by (rule withdraw_step.other) simp_all
  let ?refused = "w' = ws_world s \<and> fst ans \<in> {400, 500}"
  show ?thesis
  proof (cases ?refused)
    case True
    then show ?thesis using ca same by simp
  next
    case False
    obtain ps r row0 t where ok: "body_object env rq = Inr ps" "bind_withdraw ps = Inr r" "withdraw_order env r = Inr row0"
        "insert_order row0 (withdraws (ws_world s)) = Some t" "w' = (ws_world s)\<lparr>withdraws := t\<rparr>" "fst ans = 200"
      using createWithdraw_accepted [OF ca False] .
    obtain i where t: "t = withdraws (ws_world s) @ [row0\<lparr>w_id := i\<rparr>]" "i \<notin> w_id ` set (withdraws (ws_world s))"
        "w_order_no row0 \<notin> w_order_no ` set (withdraws (ws_world s))"
      using insert_order_fresh [OF ok(4)] .
    let ?row = "row0\<lparr>w_id := i\<rparr>"
    have p: "payable env r ?row" by (rule withdraw_order_payable [OF ok(3)])
    then have f: "fresh_order ?row (ws_world s)" using t(2,3) by (auto simp: fresh_order_def payable_def)
    have w': "w' = (ws_world s)\<lparr>withdraws := withdraws (ws_world s) @ [?row]\<rparr>" using ok(5) t(1) by simp
    have "withdraw_step s (s\<lparr>ws_world := w'\<rparr>)"
      by (rule withdraw_step.create [OF f]) (simp_all add: w' withdraw_events_def event_ids_def)
    then show ?thesis unfolding ca prod.case using ok(1,2,6) p f w' by blast
  qed
qed

section \<open>Callers\<close>

text \<open>A request passes authentication only if a configured secret signed its timestamp and its body as the
  handler will read it, the timestamp is within the allowed skew, and a nonce it carries was not seen
  before (as long as redis answers) and is remembered from then on; a refused request changes nothing
  and is answered with 401.\<close>

theorem authenticate_guarded:
  assumes "ac_hmac_secret (ap_api env) \<noteq> ''''"
  shows "case authenticate env rq w of
     (w', Inl ans) \<Rightarrow> w' = w \<and> fst ans = 401
   | (w', Inr rq') \<Rightarrow>
       rq' = limit_body (ap_api env) rq \<and> length (aq_body rq') \<le> nat (maxBodyBytes (ap_api env)) \<and>
       (\<exists>unix. ParseInt (aq_header rq ''X-Timestamp'') = Some unix \<and>
          since_abs (ap_now env) (unix * 1000000000) \<le> ac_signature_skew (ap_api env)) \<and>
       aq_header rq ''X-Signature'' =
         event_Sign (ac_hmac_secret (ap_api env)) (aq_header rq ''X-Timestamp'') (aq_body rq') \<and>
       (w' = w \<and> (redis_keys w = None \<or> aq_header rq ''X-Nonce'' = '''' \<or> ap_fail env ApNonce) \<or>
        (\<exists>ks. redis_keys w = Some ks \<and> nonce_key (ap_cfg env) (aq_header rq ''X-Nonce'') \<notin> set ks \<and>
           w' = w\<lparr>redis_keys := Some (nonce_key (ap_cfg env) (aq_header rq ''X-Nonce'') # ks)\<rparr>))"
  using assms
  by (simp add: authenticate_def Let_def api_error_def limit_body_def not_less split: option.split)

text \<open>The nonce is not part of what is signed: a request that was accepted is accepted again under any
  other nonce while its timestamp is fresh.\<close>

lemma replay_with_new_nonce:
  assumes "authenticate env rq w = (w', Inr rq')" and "redis_keys w' = Some ks"
    and "nonce_key (ap_cfg env) n \<notin> set ks"
  shows "\<exists>w'' rq''. authenticate env (rq\<lparr>aq_header := (aq_header rq)(''X-Nonce'' := n)\<rparr>) w' = (w'', Inr rq'')
      \<and> aq_body rq'' = aq_body rq'"
  using assms
  by (auto simp: authenticate_def Let_def limit_body_def split: if_splits option.splits)

text \<open>A signed request without a nonce passes.\<close>

theorem authenticate_guarded_witness:
  "\<exists>rq. authenticate sample_api_env rq empty_world = (empty_world, Inr (limit_body sample_api rq)) \<and>
     aq_header rq ''X-Signature'' = event_Sign ''key'' ''60'' (aq_body (limit_body sample_api rq))"
proof -
  define sig where "sig = event_Sign ''key'' ''60'' ''''"
  let ?rq = "\<lparr>aq_client_ip = '''', aq_header = (\<lambda>h. if h = ''X-Timestamp'' then ''60''
      else if h = ''X-Signature'' then sig else ''''), aq_body = '''', aq_query = (\<lambda>_. '''')\<rparr>"
  have p: "ParseInt ''60'' = Some 60" by code_simp
  have a: "authenticate sample_api_env ?rq empty_world = (empty_world, Inr (limit_body sample_api ?rq))"
    by (simp add: authenticate_def Let_def sample_api_env_def sample_api_def limit_body_def p since_abs_def sig_def
        empty_world_def)
  have "ac_hmac_secret (ap_api sample_api_env) \<noteq> ''''" by (simp add: sample_api_env_def sample_api_def)
  from authenticate_guarded [OF this, where rq = ?rq and w = empty_world] a show ?thesis
    by (intro exI [of _ ?rq]) (simp add: sample_api_env_def sample_api_def)
qed

end
