(* ===== verification/Router.thy ===== *)
theory Router
  imports ApiProps
begin

text \<open>
  The routes of \<open>internal/api\<close>: which handler a method and path reach and what stands before it. A path is the
  decoded path of the request; one the table does not have is answered by gin before any group middleware runs.
\<close>

section \<open>Routes\<close>

datatype api_route =
    Healthz | PostMerchant | GetMerchants | PostAddress | PostWithdraw | GetWithdraw string | GetDeposits
  | GetDeposit string | GetEvents

definition path_param :: "string \<Rightarrow> string \<Rightarrow> string option" where
  "path_param pre path =
     (let p = drop (length pre) path
      in if HasPrefix path pre \<and> p \<noteq> '''' \<and> CHR ''/'' \<notin> set p then Some p else None)"

definition route_of :: "string \<Rightarrow> string \<Rightarrow> api_route option" where
  "route_of verb path =
     (if verb = ''GET'' then
        (if path = ''/healthz'' then Some Healthz
         else if path = ''/v1/merchants'' then Some GetMerchants
         else if path = ''/v1/deposits'' then Some GetDeposits
         else if path = ''/v1/events'' then Some GetEvents
         else case path_param ''/v1/withdraw/'' path of
           Some p \<Rightarrow> Some (GetWithdraw p)
         | None \<Rightarrow> map_option GetDeposit (path_param ''/v1/deposit/'' path))
      else if verb = ''POST'' then
        (if path = ''/v1/merchant'' then Some PostMerchant
         else if path = ''/v1/address'' then Some PostAddress
         else if path = ''/v1/withdraw'' then Some PostWithdraw
         else None)
      else None)"

fun serve_route :: "api_env \<Rightarrow> api_route \<Rightarrow> api_request \<Rightarrow> world \<Rightarrow> world \<times> api_answer" where
  "serve_route env Healthz rq w = (w, 200, Fields [(''ok'', JBool True)])"
| "serve_route env PostMerchant rq w = upsertMerchant env rq w"
| "serve_route env GetMerchants rq w = (w, listMerchants env rq w)"
| "serve_route env PostAddress rq w = createAddress env rq w"
| "serve_route env PostWithdraw rq w = createWithdraw env rq w"
| "serve_route env (GetWithdraw p) rq w = (w, getWithdraw env p w)"
| "serve_route env GetDeposits rq w = (w, listDeposits env rq w)"
| "serve_route env (GetDeposit p) rq w = (w, getDeposit env p w)"
| "serve_route env GetEvents rq w = (w, listEvents env rq w)"

definition Router :: "api_env \<Rightarrow> string \<Rightarrow> string \<Rightarrow> api_request \<Rightarrow> world \<Rightarrow> world \<times> api_answer" where
  "Router env verb path rq w =
     (case route_of verb path of
        None \<Rightarrow> (w, 404, Fields [])
      | Some r \<Rightarrow>
          if r = Healthz then serve_route env r rq w
          else case ipAllowlist (ap_api env) rq of
            Some ans \<Rightarrow> (w, ans)
          | None \<Rightarrow>
              (case authenticate env rq w of
                 (w1, Inl ans) \<Rightarrow> (w1, ans)
               | (w1, Inr rq1) \<Rightarrow> serve_route env r rq1 w1))"

section \<open>Who gets through\<close>

text \<open>What a request must carry, said without the order of the checks.\<close>

definition nonce_fresh :: "api_env \<Rightarrow> api_request \<Rightarrow> world \<Rightarrow> bool" where
  "nonce_fresh env rq w \<longleftrightarrow>
     aq_header rq ''X-Nonce'' = '''' \<or> ap_fail env ApNonce \<or>
     (case redis_keys w of None \<Rightarrow> True | Some ks \<Rightarrow> nonce_key (ap_cfg env) (aq_header rq ''X-Nonce'') \<notin> set ks)"

definition signed_in_time :: "api_env \<Rightarrow> api_request \<Rightarrow> bool" where
  "signed_in_time env rq \<longleftrightarrow>
     (\<exists>unix. ParseInt (aq_header rq ''X-Timestamp'') = Some unix
        \<and> since_abs (ap_now env) (unix * 1000000000) \<le> ac_signature_skew (ap_api env))
     \<and> aq_header rq ''X-Signature'' =
         event_Sign (ac_hmac_secret (ap_api env)) (aq_header rq ''X-Timestamp'') (aq_body (limit_body (ap_api env) rq))"

definition ip_allowed :: "api_env \<Rightarrow> api_request \<Rightarrow> bool" where
  "ip_allowed env rq \<longleftrightarrow> ac_allowed_ips (ap_api env) = [] \<or> aq_client_ip rq \<in> set (ac_allowed_ips (ap_api env))"

text \<open>The state once the nonce is remembered.\<close>

definition remember :: "api_env \<Rightarrow> api_request \<Rightarrow> world \<Rightarrow> world" where
  "remember env rq w =
     (if aq_header rq ''X-Nonce'' = '''' \<or> ap_fail env ApNonce then w
      else case redis_keys w of None \<Rightarrow> w
        | Some ks \<Rightarrow> w\<lparr>redis_keys := Some (nonce_key (ap_cfg env) (aq_header rq ''X-Nonce'') # ks)\<rparr>)"

lemma authenticate_cases:
  assumes "ac_hmac_secret (ap_api env) \<noteq> ''''"
  shows "signed_in_time env rq \<Longrightarrow> nonce_fresh env rq w \<Longrightarrow>
      authenticate env rq w = (remember env rq w, Inr (limit_body (ap_api env) rq))"
    and "\<not> (signed_in_time env rq \<and> nonce_fresh env rq w) \<Longrightarrow>
      \<exists>ans. authenticate env rq w = (w, Inl ans) \<and> fst ans = 401"
  using assms
  by (auto simp: authenticate_def signed_in_time_def nonce_fresh_def remember_def Let_def api_error_def not_less limit_body_def
      split: option.splits)

lemma ipAllowlist_cases:
  "ip_allowed env rq \<Longrightarrow> ipAllowlist (ap_api env) rq = None"
  "\<not> ip_allowed env rq \<Longrightarrow> \<exists>ans. ipAllowlist (ap_api env) rq = Some ans \<and> fst ans = 403"
  by (auto simp: ip_allowed_def ipAllowlist_def api_error_def)

lemma Router_cases:
  assumes "ac_hmac_secret (ap_api env) \<noteq> ''''" and "route_of verb path = Some r" and "r \<noteq> Healthz"
  shows "ip_allowed env rq \<Longrightarrow> signed_in_time env rq \<Longrightarrow> nonce_fresh env rq w \<Longrightarrow>
      Router env verb path rq w = serve_route env r (limit_body (ap_api env) rq) (remember env rq w)"
    and "\<not> ip_allowed env rq \<Longrightarrow> \<exists>ans. Router env verb path rq w = (w, ans) \<and> fst ans = 403"
    and "ip_allowed env rq \<Longrightarrow> \<not> (signed_in_time env rq \<and> nonce_fresh env rq w) \<Longrightarrow>
      \<exists>ans. Router env verb path rq w = (w, ans) \<and> fst ans = 401"
  using assms ipAllowlist_cases [of env rq] authenticate_cases [OF assms(1), of rq w]
  by (auto simp: Router_def)

text \<open>No handler touches redis, so a nonce stays remembered.\<close>

lemma address_insert_redis: "redis_keys (fst (address_insert env row w)) = redis_keys w"
  by (auto simp: address_insert_def simp del: if_split split: option.splits)

lemma address_alloc_redis: "redis_keys (fst (address_alloc env mid uid w)) = redis_keys w"
proof -
  have "redis_keys (fst (NextAddressIndex f now c w)) = redis_keys w" for f now c
    by (auto simp: NextAddressIndex_def Let_def split: option.splits)
  then show ?thesis by (auto simp: address_alloc_def Let_def split: prod.splits sum.splits) (metis fst_conv)+
qed

lemma createAddress_redis: "redis_keys (fst (createAddress env rq w)) = redis_keys w"
proof (cases "address_request env rq w")
  case (Inr x)
  obtain mch mid uid where x: "x = (mch, mid, uid)" by (cases x) auto
  obtain w1 a where al: "address_alloc env mid uid w = (w1, a)" by fastforce
  have r1: "redis_keys w1 = redis_keys w" using address_alloc_redis [of env mid uid w] al by simp
  show ?thesis
  proof (cases a)
    case (Inl e)
    then show ?thesis using Inr x al r1 by (auto simp: createAddress_def split: option.splits)
  next
    case row: (Inr row)
    obtain w2 b where ins: "address_insert env row w1 = (w2, b)" by fastforce
    have "redis_keys w2 = redis_keys w" using address_insert_redis [of env row w1] ins r1 by simp
    then show ?thesis using Inr x al row ins
      by (auto simp: createAddress_def split: option.splits sum.splits bool.splits)
  qed
qed (simp add: createAddress_def)

lemma serve_route_redis: "redis_keys (fst (serve_route env r rq w)) = redis_keys w"
proof (cases r)
  case PostMerchant
  then show ?thesis by (auto simp: upsertMerchant_def Let_def split: sum.splits)
next
  case PostWithdraw
  then show ?thesis by (auto simp: createWithdraw_def split: sum.splits option.splits)
qed (simp_all add: createAddress_redis)

definition writing :: "api_route \<Rightarrow> bool" where
  "writing r \<longleftrightarrow> r = PostMerchant \<or> r = PostAddress \<or> r = PostWithdraw"

lemma serve_route_reads: "\<not> writing r \<Longrightarrow> fst (serve_route env r rq w) = w"
  by (cases r) (simp_all add: writing_def)

text \<open>C28. The api is closed to everyone else. With a secret configured, a request changes anything only if its path is
  a route under \<open>/v1\<close>, its address is on the allow list (if there is one), its timestamp is fresh, the secret signed
  that timestamp with the body the handler will read, and its nonce was not seen before; then it is answered by its
  handler on that body, and reading routes change nothing but the memory of the nonce. Otherwise the state is as it
  was and the answer, on a route, is 403 or 401. And a request that got through with a nonce, redis answering, is refused ever after
  with 401 while that memory lasts, whatever happens to the tables in between.\<close>

theorem api_guarded:
  assumes "ac_hmac_secret (ap_api env) \<noteq> ''''" and "route_of verb path = Some r" and "r \<noteq> Healthz"
  shows "(if ip_allowed env rq \<and> signed_in_time env rq \<and> nonce_fresh env rq w
      then Router env verb path rq w = serve_route env r (limit_body (ap_api env) rq) (remember env rq w)
           \<and> (\<not> writing r \<longrightarrow> fst (Router env verb path rq w) = remember env rq w)
      else fst (Router env verb path rq w) = w \<and> fst (snd (Router env verb path rq w)) \<in> {401, 403})
    \<and> (aq_header rq ''X-Nonce'' \<noteq> '''' \<and> redis_keys w \<noteq> None \<and> \<not> ap_fail env ApNonce
        \<and> ip_allowed env rq \<and> signed_in_time env rq \<and> nonce_fresh env rq w
        \<and> redis_keys w' = redis_keys (fst (Router env verb path rq w)) \<longrightarrow>
        fst (Router env verb path rq w') = w' \<and> fst (snd (Router env verb path rq w')) = 401)"
proof -
  note R = Router_cases [OF assms]
  have first: "if ip_allowed env rq \<and> signed_in_time env rq \<and> nonce_fresh env rq w
      then Router env verb path rq w = serve_route env r (limit_body (ap_api env) rq) (remember env rq w)
           \<and> (\<not> writing r \<longrightarrow> fst (Router env verb path rq w) = remember env rq w)
      else fst (Router env verb path rq w) = w \<and> fst (snd (Router env verb path rq w)) \<in> {401, 403}"
  proof (cases "ip_allowed env rq \<and> signed_in_time env rq \<and> nonce_fresh env rq w")
    case True
    then show ?thesis using R(1) [of rq w] serve_route_reads by simp
  next
    case False
    then obtain ans where "Router env verb path rq w = (w, ans)" "fst ans \<in> {401, 403}"
      using R(2,3) [of rq w] by blast
    then show ?thesis unfolding if_not_P [OF False] by simp
  qed
  have "fst (Router env verb path rq w') = w' \<and> fst (snd (Router env verb path rq w')) = 401"
    if h: "aq_header rq ''X-Nonce'' \<noteq> ''''" "redis_keys w \<noteq> None" "\<not> ap_fail env ApNonce" "ip_allowed env rq"
      "signed_in_time env rq" "nonce_fresh env rq w" "redis_keys w' = redis_keys (fst (Router env verb path rq w))"
  proof -
    have "redis_keys w' = redis_keys (remember env rq w)"
      using h(7) R(1) [OF h(4-6)] serve_route_redis [of env r "limit_body (ap_api env) rq" "remember env rq w"] by simp
    then have "\<not> nonce_fresh env rq w'" using h(1-3) by (auto simp: nonce_fresh_def remember_def)
    then show ?thesis using R(3) [OF h(4), of w'] by fastforce
  qed
  then show ?thesis using first by blast
qed

text \<open>A query for events, signed in time: it is answered once.\<close>

definition event_query :: api_request where
  "event_query = \<lparr>aq_client_ip = '''', aq_header = (\<lambda>h. if h = ''X-Timestamp'' then ''60''
      else if h = ''X-Signature'' then event_Sign ''key'' ''60'' '''' else if h = ''X-Nonce'' then ''n'' else ''''),
     aq_body = '''', aq_query = (\<lambda>_. '''')\<rparr>"

theorem api_guarded_witness:
  "fst (snd (Router sample_api_env ''GET'' ''/v1/events'' event_query
      (fst (Router sample_api_env ''GET'' ''/v1/events'' event_query empty_world)))) = 401"
proof -
  let ?w = "empty_world"
  have a: "ac_hmac_secret (ap_api sample_api_env) \<noteq> ''''" by (simp add: sample_api_env_def sample_api_def)
  have r: "route_of ''GET'' ''/v1/events'' = Some GetEvents" by (simp add: route_of_def)
  have p: "ParseInt ''60'' = Some 60" by code_simp
  have "ip_allowed sample_api_env event_query" by (simp add: ip_allowed_def sample_api_env_def sample_api_def)
  moreover have "signed_in_time sample_api_env event_query"
    by (simp add: signed_in_time_def event_query_def p since_abs_def sample_api_env_def sample_api_def limit_body_def)
  moreover have "nonce_fresh sample_api_env event_query ?w"
    "redis_keys ?w \<noteq> None" by (simp_all add: nonce_fresh_def empty_world_def)
  moreover have "aq_header event_query ''X-Nonce'' \<noteq> ''''" by (simp add: event_query_def)
  moreover have "\<not> ap_fail sample_api_env ApNonce" by (simp add: sample_api_env_def)
  ultimately show ?thesis
    using api_guarded [OF a r, of event_query ?w "fst (Router sample_api_env ''GET'' ''/v1/events'' event_query ?w)"] by blast
qed

end
