(* ===== verification/Log.thy ===== *)
theory Log
  imports Environment
begin

text \<open>
  \<open>internal/logx\<close>: how a record becomes a line of the log and where the line goes. The clock is read as the
  fields of a local time; the file system is a map from paths to contents; which calls to the operating
  system fail, and after how many bytes a write stops, are inputs. logrus itself, \<open>fmt.Sprint\<close> and the
  resolution of a program counter are parameters.
\<close>

section \<open>UTF-8\<close>

definition code :: "char \<Rightarrow> nat" where
  "code c = of_char c"

definition RuneError :: nat where
  "RuneError = 0xFFFD"

text \<open>For a first byte: the length of the sequence and the range of its second byte.\<close>

definition rune_start :: "nat \<Rightarrow> (nat \<times> nat \<times> nat) option" where
  "rune_start x =
     (if 0xC2 \<le> x \<and> x \<le> 0xDF then Some (2, 0x80, 0xBF)
      else if x = 0xE0 then Some (3, 0xA0, 0xBF)
      else if x = 0xED then Some (3, 0x80, 0x9F)
      else if 0xE1 \<le> x \<and> x \<le> 0xEF then Some (3, 0x80, 0xBF)
      else if x = 0xF0 then Some (4, 0x90, 0xBF)
      else if 0xF1 \<le> x \<and> x \<le> 0xF3 then Some (4, 0x80, 0xBF)
      else if x = 0xF4 then Some (4, 0x80, 0x8F)
      else None)"

definition continues :: "char \<Rightarrow> bool" where
  "continues c \<longleftrightarrow> 0x80 \<le> code c \<and> code c \<le> 0xBF"

definition rune_value :: "nat \<Rightarrow> nat \<Rightarrow> string \<Rightarrow> nat" where
  "rune_value n x tail = foldl (\<lambda>r c. r * 64 + (code c - 0x80)) (x mod 2 ^ (7 - n)) tail"

text \<open>\<open>utf8.DecodeRuneInString\<close>: the rune and how many bytes it takes; a byte that starts no rune is one.\<close>

fun DecodeRune :: "string \<Rightarrow> nat \<times> nat" where
  "DecodeRune [] = (RuneError, 0)"
| "DecodeRune (c # s) =
     (if code c < 0x80 then (code c, 1)
      else case rune_start (code c) of
        None \<Rightarrow> (RuneError, 1)
      | Some (n, lo, hi) \<Rightarrow>
          let tail = take (n - 1) s
          in if length tail = n - 1 \<and> lo \<le> code (hd tail) \<and> code (hd tail) \<le> hi \<and> list_all continues (tl tail)
             then (rune_value n (code c) tail, n) else (RuneError, 1))"

definition bad_rune :: "string \<Rightarrow> bool" where
  "bad_rune s \<longleftrightarrow> DecodeRune s = (RuneError, 1)"

lemma rune_start_size: "rune_start x = Some (n, lo, hi) \<Longrightarrow> 2 \<le> n \<and> n \<le> 4 \<and> 0x80 \<le> lo \<and> hi \<le> 0xBF \<and> 0x80 \<le> x"
  by (auto simp: rune_start_def split: if_splits)

lemma DecodeRune_size: "s \<noteq> [] \<Longrightarrow> 1 \<le> snd (DecodeRune s) \<and> snd (DecodeRune s) \<le> length s"
proof (cases s)
  case (Cons c t)
  show ?thesis
  proof (cases "code c < 0x80")
    case False
    then show ?thesis
      using Cons rune_start_size [of "code c"] by (auto simp: Let_def split: option.splits)
  qed (simp add: Cons)
qed simp

function ValidString :: "string \<Rightarrow> bool" where
  "ValidString s = (if s = [] then True else \<not> bad_rune s \<and> ValidString (drop (snd (DecodeRune s)) s))"
  by pat_completeness auto
termination
  by (relation "measure length") (auto simp: diff_less DecodeRune_size Suc_le_eq dest: DecodeRune_size)

declare ValidString.simps [simp del]

lemma ValidString_code [code]:
  "ValidString [] = True"
  "ValidString (c # s) = (\<not> bad_rune (c # s) \<and> ValidString (drop (snd (DecodeRune (c # s))) (c # s)))"
  by (simp_all add: ValidString.simps [of "[]"] ValidString.simps [of "c # s"])

section \<open>One line per record\<close>

definition control :: "char \<Rightarrow> bool" where
  "control c \<longleftrightarrow> code c < 0x20 \<or> code c = 0x7F"

definition isPlainText :: "string \<Rightarrow> bool" where
  "isPlainText s \<longleftrightarrow> \<not> list_ex control s \<and> ValidString s"

text \<open>What \<open>sanitize\<close> writes for the rune \<open>s\<close> starts with.\<close>

definition clean_piece :: "string \<Rightarrow> string" where
  "clean_piece s =
     (let (r, size) = DecodeRune s
      in if r = RuneError \<and> size = 1 then [CHR 0xEF, CHR 0xBF, CHR 0xBD]
         else if r = 10 then [CHR 0x5C, CHR ''n'']
         else if r = 13 then [CHR 0x5C, CHR ''r'']
         else if r = 9 then [CHR 0x5C, CHR ''t'']
         else if r < 0x20 \<or> r = 0x7F then CHR 0x5C # CHR ''x'' # hex_EncodeToString [of_nat r]
         else take size s)"

function sanitize_runes :: "string \<Rightarrow> string" where
  "sanitize_runes s = (if s = [] then [] else clean_piece s @ sanitize_runes (drop (snd (DecodeRune s)) s))"
  by pat_completeness auto
termination
  by (relation "measure length") (auto simp: diff_less DecodeRune_size Suc_le_eq dest: DecodeRune_size)

declare sanitize_runes.simps [simp del]

lemma sanitize_runes_code [code]:
  "sanitize_runes [] = []"
  "sanitize_runes (c # s) = clean_piece (c # s) @ sanitize_runes (drop (snd (DecodeRune (c # s))) (c # s))"
  by (simp_all add: sanitize_runes.simps [of "[]"] sanitize_runes.simps [of "c # s"])

definition sanitize :: "string \<Rightarrow> string" where
  "sanitize s = (if isPlainText s then s else sanitize_runes s)"

record local_time =
  lt_year :: nat
  lt_month :: nat
  lt_day :: nat
  lt_hour :: nat
  lt_minute :: nat
  lt_second :: nat
  lt_milli :: nat

definition zero_pad :: "nat \<Rightarrow> nat \<Rightarrow> string" where
  "zero_pad k n = replicate (k - length (show_nat n)) (CHR ''0'') @ show_nat n"

definition format_day :: "local_time \<Rightarrow> string" where
  "format_day t = zero_pad 4 (lt_year t) @ ''-'' @ zero_pad 2 (lt_month t) @ ''-'' @ zero_pad 2 (lt_day t)"

definition format_stamp :: "local_time \<Rightarrow> string" where
  "format_stamp t =
     format_day t @ '' '' @ zero_pad 2 (lt_hour t) @ '':'' @ zero_pad 2 (lt_minute t) @ '':'' @
     zero_pad 2 (lt_second t) @ ''.'' @ zero_pad 3 (lt_milli t)"

datatype logrus_level = PanicLevel | FatalLevel | ErrorLevel | WarnLevel | InfoLevel | DebugLevel | TraceLevel

fun level_String :: "logrus_level \<Rightarrow> string" where
  "level_String PanicLevel = ''panic''"
| "level_String FatalLevel = ''fatal''"
| "level_String ErrorLevel = ''error''"
| "level_String WarnLevel = ''warning''"
| "level_String InfoLevel = ''info''"
| "level_String DebugLevel = ''debug''"
| "level_String TraceLevel = ''trace''"

text \<open>\<open>filepath.Base\<close>, \<open>filepath.Clean\<close>, \<open>filepath.Join\<close> of two elements and \<open>filepath.Ext\<close>.\<close>

definition path_Base :: "string \<Rightarrow> string" where
  "path_Base p =
     (if p = '''' then ''.''
      else let q = TrimRight (\<lambda>c. c = CHR ''/'') p; r = rev (takeWhile (\<lambda>c. c \<noteq> CHR ''/'') (rev q))
           in if r = '''' then ''/'' else r)"

fun clean_parts :: "bool \<Rightarrow> string list \<Rightarrow> string list \<Rightarrow> string list" where
  "clean_parts rooted [] acc = rev acc"
| "clean_parts rooted (p # ps) acc =
     (if p = '''' \<or> p = ''.'' then clean_parts rooted ps acc
      else if p = ''..'' then
        (if acc \<noteq> [] \<and> hd acc \<noteq> ''..'' then clean_parts rooted ps (tl acc)
         else if rooted then clean_parts rooted ps acc
         else clean_parts rooted ps (p # acc))
      else clean_parts rooted ps (p # acc))"

definition path_Clean :: "string \<Rightarrow> string" where
  "path_Clean p =
     (let rooted = HasPrefix p ''/'';
          body = join_with ''/'' (clean_parts rooted (split_on (CHR ''/'') p) [])
      in if rooted then CHR ''/'' # body else if body = '''' then ''.'' else body)"

definition path_Join :: "string \<Rightarrow> string \<Rightarrow> string" where
  "path_Join a b =
     (if a = '''' \<and> b = '''' then ''''
      else path_Clean (if a = '''' then b else a @ ''/'' @ b))"

definition path_Ext :: "string \<Rightarrow> string" where
  "path_Ext p =
     (let last = rev (takeWhile (\<lambda>c. c \<noteq> CHR ''/'') (rev p));
          ext = rev (takeWhile (\<lambda>c. c \<noteq> CHR ''.'') (rev last))
      in if CHR ''.'' \<in> set last then CHR ''.'' # ext else '''')"

text \<open>A record as logrus hands it to the formatter: level, message, fields and the call site it detected.\<close>

record 'v log_entry =
  le_level :: logrus_level
  le_message :: string
  le_data :: "(string \<times> 'v) list"
  le_caller :: "(string \<times> int) option"

definition pad_right :: "nat \<Rightarrow> string \<Rightarrow> string" where
  "pad_right k s = s @ replicate (k - length s) (CHR '' '')"

definition Format :: "local_time \<Rightarrow> 'v log_entry \<Rightarrow> string" where
  "Format now e =
     (let (file, line) = (case le_caller e of None \<Rightarrow> ('''', 0) | Some (f, l) \<Rightarrow> (path_Base f, l))
      in format_stamp now @ '' ['' @ pad_right 5 (ToUpper (level_String (le_level e))) @ ''] ['' @ file @ '':'' @
         big_String line @ ''] '' @ sanitize (le_message e) @ [CHR 0x0A])"

section \<open>What a line holds\<close>

lemma code_less [simp]: "code c < 256"
  by (simp add: code_def)

lemma DecodeRune_append:
  assumes "s \<noteq> []" and "\<not> bad_rune s"
  shows "DecodeRune (s @ t) = DecodeRune s"
proof (cases s)
  case (Cons c u)
  show ?thesis
  proof (cases "code c < 0x80")
    case False
    then obtain n lo hi where st: "rune_start (code c) = Some (n, lo, hi)"
      using assms(2) Cons by (cases "rune_start (code c)") (auto simp: bad_rune_def)
    have "n - 1 \<le> length u"
      using assms(2) Cons False st by (auto simp: bad_rune_def Let_def split: if_splits)
    then have tk: "take (n - 1) (u @ t) = take (n - 1) u" by simp
    show ?thesis by (simp only: Cons append_Cons DecodeRune.simps st option.case prod.case tk)
  qed (simp add: Cons)
qed (simp add: assms)

lemma ValidString_Nil [simp]: "ValidString []"
  by (simp add: ValidString.simps)

lemma ValidString_append:
  assumes "ValidString a" and "ValidString b"
  shows "ValidString (a @ b)"
  using assms(1)
proof (induction a rule: ValidString.induct)
  case (1 s)
  show ?case
  proof (cases "s = []")
    case False
    let ?n = "snd (DecodeRune s)"
    have v: "\<not> bad_rune s" "ValidString (drop ?n s)" using 1(2) False by (subst (asm) ValidString.simps, simp)+
    have d: "DecodeRune (s @ b) = DecodeRune s" by (rule DecodeRune_append [OF False v(1)])
    have "drop ?n (s @ b) = drop ?n s @ b" using DecodeRune_size [OF False] by simp
    then show ?thesis
      using 1(1) [OF False v(2)] v(1) False by (subst ValidString.simps) (simp add: d bad_rune_def)
  qed (simp add: assms(2))
qed

lemma DecodeRune_take:
  assumes "s \<noteq> []" and "\<not> bad_rune s"
  shows "DecodeRune (take (snd (DecodeRune s)) s) = DecodeRune s"
proof (cases s)
  case (Cons c u)
  show ?thesis
  proof (cases "code c < 0x80")
    case False
    then obtain n lo hi where st: "rune_start (code c) = Some (n, lo, hi)"
      using assms(2) Cons by (cases "rune_start (code c)") (auto simp: bad_rune_def)
    then have d: "DecodeRune s = (rune_value n (code c) (take (n - 1) u), n)" "2 \<le> n"
      using assms(2) Cons False rune_start_size by (auto simp: bad_rune_def Let_def split: if_splits)
    then obtain k where k: "n = Suc k" by (cases n) auto
    show ?thesis using Cons False st d k by (auto simp: Let_def split: if_splits)
  qed (simp add: Cons)
qed (simp add: assms)

lemma ValidString_piece:
  assumes "s \<noteq> []" and "\<not> bad_rune s"
  shows "ValidString (take (snd (DecodeRune s)) s)"
proof -
  note t = DecodeRune_take [OF assms]
  show ?thesis using assms(2) by (subst ValidString.simps) (simp add: t bad_rune_def)
qed

lemma ValidString_ascii: "list_all (\<lambda>c. code c < 0x80) s \<Longrightarrow> ValidString s"
proof (induction s)
  case (Cons c s)
  then show ?case by (subst ValidString.simps) (simp add: bad_rune_def RuneError_def)
qed simp

lemma isPlainText_append: "isPlainText a \<Longrightarrow> isPlainText b \<Longrightarrow> isPlainText (a @ b)"
  by (simp add: isPlainText_def ValidString_append)

definition printable :: "char \<Rightarrow> bool" where
  "printable c \<longleftrightarrow> 0x20 \<le> code c \<and> code c < 0x7F"

lemma isPlainText_printable: "list_all printable s \<Longrightarrow> isPlainText s"
  by (auto simp: isPlainText_def printable_def control_def list_all_iff list_ex_iff intro!: ValidString_ascii)
    (fastforce simp: list_all_iff)+

lemma printable_hex: "n < 16 \<Longrightarrow> printable (hex_char n)"
  by (simp add: printable_def hex_char_def code_def)

lemma printable_chars [simp]:
  "printable (CHR 0x5C)" "printable (CHR ''n'')" "printable (CHR ''r'')" "printable (CHR ''t'')" "printable (CHR ''x'')"
  "printable (CHR '' '')" "printable (CHR ''['')" "printable (CHR '']'')" "printable (CHR '':'')" "printable (CHR ''-'')"
  "printable (CHR ''.'')" "printable (CHR ''0'')"
  by (simp_all add: printable_def code_def)

lemma plain_replacement: "isPlainText [CHR 0xEF, CHR 0xBF, CHR 0xBD]"
proof -
  have c: "code (CHR 0xEF) = 0xEF" "code (CHR 0xBF) = 0xBF" "code (CHR 0xBD) = 0xBD" by (simp_all add: code_def)
  have d: "DecodeRune [CHR 0xEF, CHR 0xBF, CHR 0xBD] = (0xFFFD, 3)"
    by (simp add: c rune_start_def rune_value_def continues_def)
  have "ValidString [CHR 0xEF, CHR 0xBF, CHR 0xBD]"
    by (subst ValidString.simps) (simp add: d bad_rune_def del: DecodeRune.simps)
  then show ?thesis by (simp add: isPlainText_def control_def c)
qed

lemma mod_window: "q * m \<le> x \<Longrightarrow> x < q * m + m \<Longrightarrow> x mod m = x - q * m" for x :: nat
  by (metis add_diff_inverse_nat add_less_cancel_left mod_less mod_mult_self3 not_less)

lemma rune_value_big:
  assumes "rune_start x = Some (n, lo, hi)" and "length t = n - 1" and "lo \<le> code (hd t)"
  shows "0x80 \<le> rune_value n x t"
proof -
  consider "n = 2" "0xC2 \<le> x" "x \<le> 0xDF" | "n = 3" "x = 0xE0" "lo = 0xA0" | "n = 3" "0xE1 \<le> x" "x \<le> 0xEF"
    | "n = 4" "x = 0xF0" "lo = 0x90" | "n = 4" "0xF1 \<le> x" "x \<le> 0xF4"
    using assms(1) by (auto simp: rune_start_def split: if_splits)
  then show ?thesis
  proof cases
    case 1
    then obtain a where "t = [a]" using assms(2) by (cases t) auto
    moreover have "x = 192 + x mod 32" using mod_window [of 6 32 x] 1(2,3) by simp
    ultimately show ?thesis using 1 by (simp add: rune_value_def)
  next
    case 2
    then obtain a b where "t = [a, b]" using assms(2) by (cases t; cases "tl t") auto
    then show ?thesis using 2 assms(3) by (simp add: rune_value_def)
  next
    case 3
    then obtain a b where "t = [a, b]" using assms(2) by (cases t; cases "tl t") auto
    moreover have "x = 224 + x mod 16" using mod_window [of 14 16 x] 3(2,3) by simp
    ultimately show ?thesis using 3 by (simp add: rune_value_def)
  next
    case 4
    then obtain a b c where "t = [a, b, c]" using assms(2) by (cases t; cases "tl t"; cases "tl (tl t)") auto
    then show ?thesis using 4 assms(3) by (simp add: rune_value_def)
  next
    case 5
    then obtain a b c where "t = [a, b, c]" using assms(2) by (cases t; cases "tl t"; cases "tl (tl t)") auto
    moreover have "x = 240 + x mod 8" using mod_window [of 30 8 x] 5(2,3) by simp
    ultimately show ?thesis using 5 by (simp add: rune_value_def)
  qed
qed

lemma plain_clean_piece:
  assumes "s \<noteq> []"
  shows "isPlainText (clean_piece s)"
proof (cases "bad_rune s")
  case True
  then show ?thesis using plain_replacement by (simp add: clean_piece_def bad_rune_def)
next
  case False
  obtain c u where s: "s = c # u" using assms by (cases s) auto
  obtain r n where d: "DecodeRune s = (r, n)" by fastforce
  have piece: "ValidString (take n s)" using ValidString_piece [OF assms False] d by simp
  show ?thesis
  proof (cases "code c < 0x80")
    case True
    then have r: "r = code c" "n = 1" using d by (simp_all add: s)
    show ?thesis
    proof (cases "control c")
      case True
      have hex: "isPlainText (CHR 0x5C # CHR ''x'' # hex_EncodeToString [of_nat r])"
        by (rule isPlainText_printable) (simp add: printable_hex less_mult_imp_div_less)
      have esc: "isPlainText [CHR 0x5C, x]" if "printable x" for x using that by (intro isPlainText_printable) simp
      have "r < 0x20 \<or> r = 0x7F" using True r by (simp add: control_def)
      then show ?thesis using d hex esc by (auto simp: clean_piece_def RuneError_def)
    next
      case ok: False
      then have "clean_piece s = take n s" using d r True False
        by (auto simp: clean_piece_def control_def RuneError_def)
      moreover have "isPlainText [c]" using ok True by (intro isPlainText_printable) (simp add: printable_def control_def)
      ultimately show ?thesis using r s by simp
    qed
  next
    case big: False
    then obtain lo hi where st: "rune_start (code c) = Some (n, lo, hi)"
      and t: "r = rune_value n (code c) (take (n - 1) u)" "lo \<le> code (hd (take (n - 1) u))" "list_all continues (tl (take (n - 1) u))"
        "length (take (n - 1) u) = n - 1"
      using d False by (auto simp: s bad_rune_def Let_def split: option.splits if_splits)
    note sz = rune_start_size [OF st]
    obtain k where k: "n = Suc k" using sz by (cases n) auto
    have all: "list_all (\<lambda>x. 0x80 \<le> code x) (take n s)"
    proof -
      have "take n s = c # take k u" using s k by simp
      moreover obtain y ys where y: "take k u = y # ys" using t(4) k sz by (cases "take k u") auto
      moreover have "0x80 \<le> code y" using t(2) k y sz by simp
      moreover have "list_all (\<lambda>x. 0x80 \<le> code x) ys" using t(3) k y by (auto simp: list_all_iff continues_def)
      ultimately show ?thesis using big by simp
    qed
    then have plain: "isPlainText (take n s)"
      using piece by (auto simp: isPlainText_def control_def list_all_iff list_ex_iff)
    have "0x80 \<le> r" unfolding t(1) by (rule rune_value_big [OF st t(4,2)])
    then have "clean_piece s = take n s" using d sz by (auto simp: clean_piece_def)
    then show ?thesis using plain by simp
  qed
qed

lemma plain_sanitize_runes: "isPlainText (sanitize_runes s)"
proof (induction s rule: sanitize_runes.induct)
  case (1 s)
  then show ?case
    by (subst sanitize_runes.simps) (auto intro: isPlainText_append plain_clean_piece simp: isPlainText_printable)
qed

lemma plain_sanitize: "isPlainText (sanitize s)"
  by (simp add: sanitize_def plain_sanitize_runes)

lemma show_nat_printable: "list_all printable (show_nat n)"
  using show_nat_digits [of n] by (auto simp: list_all_iff is_digit_def printable_def code_def)

lemma zero_pad_printable: "list_all printable (zero_pad k n)"
  using show_nat_printable [of n] by (auto simp: zero_pad_def list_all_iff)

lemma big_String_printable: "list_all printable (big_String i)"
  using show_nat_printable by (simp add: big_String_def)

lemma format_stamp_printable: "list_all printable (format_stamp t)"
  using zero_pad_printable by (simp add: format_stamp_def format_day_def)

lemma level_printable: "list_all printable (pad_right 5 (ToUpper (level_String l)))"
  by (cases l) (simp_all add: pad_right_def ToUpper_def upper_char_def printable_def code_def)

lemma plain_no_newline: "isPlainText s \<Longrightarrow> CHR 0x0A \<notin> set s"
  by (auto simp: isPlainText_def list_ex_iff control_def code_def)

text \<open>C40. A record is one line of text, whatever its message holds: a node's raw bytes, line breaks, broken or
  overlong UTF-8. The formatter writes a single newline, at the end; before it stands valid UTF-8 without control
  characters; and a message that was plain text already is written as it is, between the same brackets.\<close>

theorem Format_one_line:
  assumes "case le_caller e of None \<Rightarrow> True | Some (f, l) \<Rightarrow> isPlainText (path_Base f)"
  shows "\<exists>pre. Format now e = pre @ sanitize (le_message e) @ [CHR 0x0A]
    \<and> isPlainText (pre @ sanitize (le_message e)) \<and> CHR 0x0A \<notin> set (pre @ sanitize (le_message e))
    \<and> (isPlainText (le_message e) \<longrightarrow> Format now e = pre @ le_message e @ [CHR 0x0A])"
proof -
  obtain f0 l0 where c: "(case le_caller e of None \<Rightarrow> ([], 0) | Some (f, l) \<Rightarrow> (path_Base f, l)) = (f0, l0)"
    by fastforce
  have plain: "isPlainText f0"
    using c assms by (cases "le_caller e") (auto simp: isPlainText_printable)
  let ?pre = "format_stamp now @ '' ['' @ pad_right 5 (ToUpper (level_String (le_level e))) @ ''] ['' @ f0 @ '':'' @
         big_String l0 @ ''] ''"
  have f: "Format now e = ?pre @ sanitize (le_message e) @ [CHR 0x0A]" using c by (simp add: Format_def)
  have "isPlainText ?pre"
    by (intro isPlainText_append plain isPlainText_printable format_stamp_printable level_printable big_String_printable) simp_all
  then have "isPlainText (?pre @ sanitize (le_message e))" by (rule isPlainText_append [OF _ plain_sanitize])
  moreover have "isPlainText (le_message e) \<longrightarrow> Format now e = ?pre @ le_message e @ [CHR 0x0A]"
    using f by (simp add: sanitize_def)
  ultimately show ?thesis using f plain_no_newline by blast
qed

section \<open>Fields and the slog bridge\<close>

text \<open>A value of slog, already resolved: nothing, a group, or any value.\<close>

datatype 'v slog_value = Nothing | Value 'v | Group "(string \<times> 'v slog_value) list"

text \<open>The fields of an entry; the call site the bridge injects is kept apart by its type.\<close>

datatype 'v field = Field "'v option" | CallerFile string | CallerLine int

type_synonym 'v fields = "(string \<times> 'v field) list"

definition callerFileKey :: string where
  "callerFileKey = ''logx_caller_file''"

definition callerLineKey :: string where
  "callerLineKey = ''logx_caller_line''"

record 'v slog_handler =
  sh_level :: int
  sh_fields :: "'v fields"
  sh_prefix :: string

definition newHandler :: "int \<Rightarrow> 'v slog_handler" where
  "newHandler l = \<lparr>sh_level = l, sh_fields = [], sh_prefix = ''''\<rparr>"

definition Enabled :: "'v slog_handler \<Rightarrow> int \<Rightarrow> bool" where
  "Enabled h l \<longleftrightarrow> sh_level h \<le> l"

fun putAttr :: "'v fields \<Rightarrow> string \<Rightarrow> string \<Rightarrow> 'v slog_value \<Rightarrow> 'v fields"
  and putAttrs :: "'v fields \<Rightarrow> string \<Rightarrow> (string \<times> 'v slog_value) list \<Rightarrow> 'v fields" where
  "putAttr fs prefix key Nothing = (if key = '''' then fs else AList.update (prefix @ key) (Field None) fs)"
| "putAttr fs prefix key (Value v) = AList.update (prefix @ key) (Field (Some v)) fs"
| "putAttr fs prefix key (Group sub) = putAttrs fs (if key = '''' then prefix else prefix @ key @ ''.'') sub"
| "putAttrs fs prefix [] = fs"
| "putAttrs fs prefix ((key, v) # rest) = putAttrs (putAttr fs prefix key v) prefix rest"

definition WithAttrs :: "'v slog_handler \<Rightarrow> (string \<times> 'v slog_value) list \<Rightarrow> 'v slog_handler" where
  "WithAttrs h attrs = h\<lparr>sh_fields := putAttrs (sh_fields h) (sh_prefix h) attrs\<rparr>"

definition WithGroup :: "'v slog_handler \<Rightarrow> string \<Rightarrow> 'v slog_handler" where
  "WithGroup h name = (if name = '''' then h else h\<lparr>sh_prefix := sh_prefix h @ name @ ''.''\<rparr>)"

text \<open>The levels of slog: debug -4, info 0, warn 4, error 8.\<close>

definition logrusLevel :: "int \<Rightarrow> logrus_level" where
  "logrusLevel l =
     (if l \<le> -4 then DebugLevel else if l < 4 then InfoLevel else if l < 8 then WarnLevel else ErrorLevel)"

text \<open>What \<open>Handle\<close> gives logrus; \<open>site\<close> is what the program counter of the record resolves to.\<close>

definition Handle :: "'v slog_handler \<Rightarrow> (string \<times> int) option \<Rightarrow> int \<Rightarrow> string \<Rightarrow> (string \<times> 'v slog_value) list \<Rightarrow> 'v field log_entry" where
  "Handle h site l msg attrs =
     (let fs = putAttrs (sh_fields h) (sh_prefix h) attrs;
          (f, line) = (case site of None \<Rightarrow> ('''', 0) | Some s \<Rightarrow> s);
          fs = (if f = '''' then fs
                    else AList.update callerLineKey (CallerLine line) (AList.update callerFileKey (CallerFile f) fs))
      in \<lparr>le_level = logrusLevel l, le_message = msg, le_data = fs, le_caller = None\<rparr>)"

definition caller :: "'v field log_entry \<Rightarrow> string \<times> int" where
  "caller e =
     (let f = (case map_of (le_data e) callerFileKey of Some (CallerFile f) \<Rightarrow> f | _ \<Rightarrow> '''');
          line = (case map_of (le_data e) callerLineKey of Some (CallerLine l) \<Rightarrow> l | _ \<Rightarrow> 0);
          (f, line) = (case le_caller e of Some s \<Rightarrow> if f = '''' then s else (f, line) | None \<Rightarrow> (f, line))
      in if f = '''' then (''???'', 0) else (path_Base f, line))"

text \<open>\<open>sprint\<close> is \<open>fmt.Sprint\<close> of a value.\<close>

definition formatValue :: "('v field \<Rightarrow> string) \<Rightarrow> 'v field \<Rightarrow> string" where
  "formatValue sprint v =
     (let s = map (\<lambda>c. if c = CHR 0x0A then CHR '' '' else c) (sprint v)
      in if list_ex (\<lambda>c. c = CHR '' '' \<or> c = CHR 0x09) s then go_quote s else s)"

definition writeFields :: "('v field \<Rightarrow> string) \<Rightarrow> 'v fields \<Rightarrow> string" where
  "writeFields sprint data =
     concat (map (\<lambda>k. '' '' @ k @ ''='' @ formatValue sprint (the (map_of data k)))
       (sort (filter (\<lambda>k. k \<noteq> callerFileKey \<and> k \<noteq> callerLineKey) (remdups (map fst data)))))"

fun levelName :: "logrus_level \<Rightarrow> string" where
  "levelName TraceLevel = ''TRACE''"
| "levelName DebugLevel = ''DEBUG''"
| "levelName WarnLevel = ''WARN''"
| "levelName ErrorLevel = ''ERROR''"
| "levelName FatalLevel = ''FATAL''"
| "levelName PanicLevel = ''PANIC''"
| "levelName InfoLevel = ''INFO''"

definition level :: "string \<Rightarrow> int" where
  "level name =
     (let n = ToLower (TrimSpace name)
      in if n = ''debug'' then -4 else if n = ''warn'' \<or> n = ''warning'' then 4 else if n = ''error'' then 8 else 0)"

definition TrimSuffix :: "string \<Rightarrow> string \<Rightarrow> string" where
  "TrimSuffix s t = (if drop (length s - length t) s = t then take (length s - length t) s else s)"

definition binaryName :: "string \<Rightarrow> string" where
  "binaryName arg0 = (let name = path_Base arg0 in TrimSuffix name (path_Ext name))"

section \<open>The daily files\<close>

text \<open>
  What the operating system answers while one record is written: whether the directory and the file can be
  made, and after how many bytes a write to the file or to stdout stops with an error, if it does. \<open>lw_stderr\<close>
  lists the directories the fallback complained about.
\<close>

record log_env =
  env_mkdir :: bool
  env_open :: bool
  env_file :: "nat option"
  env_stdout :: "nat option"

record log_world =
  lw_files :: "string \<rightharpoonup> string"
  lw_stdout :: string
  lw_stderr :: "string list"

record dailyWriter =
  dw_dir :: string
  dw_service :: string
  dw_day :: string
  dw_file :: "string option"

definition newDailyWriter :: "string \<Rightarrow> string \<Rightarrow> dailyWriter" where
  "newDailyWriter dir service = \<lparr>dw_dir = dir, dw_service = service, dw_day = '''', dw_file = None\<rparr>"

definition day_path :: "dailyWriter \<Rightarrow> string \<Rightarrow> string" where
  "day_path w day = path_Join (dw_dir w) (dw_service w @ ''-'' @ day @ ''.log'')"

definition rotate_file :: "log_env \<Rightarrow> string \<Rightarrow> dailyWriter \<Rightarrow> log_world \<Rightarrow> bool \<times> dailyWriter \<times> log_world" where
  "rotate_file env day w s =
     (let w = w\<lparr>dw_file := None\<rparr>
      in if \<not> env_mkdir env \<or> \<not> env_open env then (False, w, s)
         else let name = day_path w day
              in (True, w\<lparr>dw_file := Some name, dw_day := day\<rparr>,
                  s\<lparr>lw_files := (lw_files s)(name \<mapsto> (case lw_files s name of None \<Rightarrow> '''' | Some c \<Rightarrow> c))\<rparr>))"

text \<open>One write to an open file: how many bytes went out and whether that was all of them.\<close>

definition written :: "nat option \<Rightarrow> string \<Rightarrow> nat \<times> bool" where
  "written stop p = (case stop of None \<Rightarrow> (length p, True) | Some k \<Rightarrow> (min k (length p), False))"

definition daily_Write :: "log_env \<Rightarrow> local_time \<Rightarrow> string \<Rightarrow> dailyWriter \<Rightarrow> log_world \<Rightarrow> (nat \<times> bool) \<times> dailyWriter \<times> log_world" where
  "daily_Write env now p w s =
     (let day = format_day now;
          (ok, w, s) = (if dw_file w = None \<or> day \<noteq> dw_day w then rotate_file env day w s else (True, w, s))
      in if \<not> ok then ((0, False), w, s)
         else let (n, fine) = written (env_file env) p; name = the (dw_file w)
              in ((n, fine), w, s\<lparr>lw_files := (lw_files s)(name \<mapsto> the (lw_files s name) @ take n p)\<rparr>))"

definition stdout_Write :: "log_env \<Rightarrow> string \<Rightarrow> log_world \<Rightarrow> (nat \<times> bool) \<times> log_world" where
  "stdout_Write env p s =
     (let (n, fine) = written (env_stdout env) p in ((n, fine), s\<lparr>lw_stdout := lw_stdout s @ take n p\<rparr>))"

text \<open>A destination of the log: the daily file mirrored to stdout, or stdout alone.\<close>

datatype log_writer = Tee dailyWriter | Console

definition fileWriter :: "log_env \<Rightarrow> local_time \<Rightarrow> string \<Rightarrow> string \<Rightarrow> log_world \<Rightarrow> log_writer \<times> log_world" where
  "fileWriter env now dir service s =
     (let ((n, fine), w, s) = daily_Write env now '''' (newDailyWriter dir service) s
      in if fine then (Tee w, s)
         else (Console, s\<lparr>lw_stderr := lw_stderr s @ [dir]\<rparr>))"

definition tee_Write :: "log_env \<Rightarrow> local_time \<Rightarrow> string \<Rightarrow> dailyWriter \<Rightarrow> log_world \<Rightarrow> (nat \<times> bool) \<times> dailyWriter \<times> log_world" where
  "tee_Write env now p w s =
     (let (r, w, s) = daily_Write env now p w s; (_, s) = stdout_Write env p s in (r, w, s))"

fun writer_Write :: "log_env \<Rightarrow> local_time \<Rightarrow> string \<Rightarrow> log_writer \<Rightarrow> log_world \<Rightarrow> (nat \<times> bool) \<times> log_writer \<times> log_world" where
  "writer_Write env now p (Tee w) s = (let (r, w, s) = tee_Write env now p w s in (r, Tee w, s))"
| "writer_Write env now p Console s = (let (r, s) = stdout_Write env p s in (r, Console, s))"

text \<open>\<open>io.MultiWriter\<close>: in order, up to the first one that fails or writes less than it was given.\<close>

fun multi_Write :: "log_env \<Rightarrow> local_time \<Rightarrow> string \<Rightarrow> log_writer list \<Rightarrow> log_world \<Rightarrow> bool \<times> log_writer list \<times> log_world" where
  "multi_Write env now p [] s = (True, [], s)"
| "multi_Write env now p (w # ws) s =
     (let ((n, fine), w, s) = writer_Write env now p w s
      in if \<not> fine \<or> n \<noteq> length p then (False, w # ws, s)
         else let (ok, ws, s) = multi_Write env now p ws s in (ok, w # ws, s))"

record LogConfig =
  log_level :: string
  log_dir :: string
  log_output_file :: "bool option"
  log_output_console :: bool

definition InitLogrus :: "log_env \<Rightarrow> local_time \<Rightarrow> LogConfig \<Rightarrow> string \<Rightarrow> log_world \<Rightarrow> (logrus_level \<times> log_writer list) \<times> log_world" where
  "InitLogrus env now cfg name s =
     (let dir = TrimSpace (log_dir cfg);
          (file_out, s) = (if dir \<noteq> '''' \<and> log_output_file cfg \<noteq> Some False
                           then let (w, s) = fileWriter env now dir name s in ([w], s) else ([], s));
          out = file_out @ (if log_output_console cfg then [Console] else []);
          out = (if out = [] then [Console] else out)
      in ((logrusLevel (level (log_level cfg)), out), s))"

section \<open>One file per day\<close>

lemma split_on_suffix:
  assumes "c \<notin> set y"
  shows "split_on c (x @ y) = butlast (split_on c x) @ [last (split_on c x) @ y]"
proof (induction x)
  case Nil
  then show ?case using split_on_single [OF assms] by simp
next
  case (Cons a x)
  then show ?case by (cases "split_on c x") (auto split: list.splits)
qed

lemma clean_parts_last:
  assumes "l \<noteq> ''''" and "l \<noteq> ''.''" and "l \<noteq> ''..''"
  shows "clean_parts r (xs @ [l]) acc = clean_parts r xs acc @ [l]"
  using assms by (induction r xs acc rule: clean_parts.induct) auto

lemma join_with_last: "join_with sep (ps @ [l]) = (if ps = [] then l else join_with sep ps @ sep @ l)"
proof (induction ps)
  case (Cons p ps)
  then show ?case by (cases ps) auto
qed simp

lemma path_Clean_suffix:
  assumes "x \<noteq> ''''"
  shows "\<exists>pre. \<forall>y. CHR ''/'' \<notin> set y \<and> 3 \<le> length y \<longrightarrow> path_Clean (x @ y) = pre @ y"
proof -
  let ?r = "HasPrefix x ''/''" and ?w = "split_on (CHR ''/'') x"
  let ?ps = "clean_parts ?r (butlast ?w) []"
  let ?pre = "(if ?r then ''/'' else '''') @ (if ?ps = [] then '''' else join_with ''/'' ?ps @ ''/'') @ last ?w"
  have "path_Clean (x @ y) = ?pre @ y" if y: "CHR ''/'' \<notin> set y" "3 \<le> length y" for y
  proof -
    have r: "HasPrefix (x @ y) ''/'' = ?r" using assms by (cases x) (simp_all add: HasPrefix_def)
    have l: "last ?w @ y \<noteq> ''''" "last ?w @ y \<noteq> ''.''" "last ?w @ y \<noteq> ''..''"
      using y(2) by (auto simp: append_eq_Cons_conv)
    show ?thesis using y(2)
      by (auto simp: path_Clean_def r split_on_suffix [OF y(1)] clean_parts_last [OF l] join_with_last Let_def)
  qed
  then show ?thesis by blast
qed

lemma day_path_suffix: "\<exists>pre. \<forall>d. CHR ''/'' \<notin> set d \<longrightarrow> day_path w d = pre @ d @ ''.log''"
proof -
  let ?x = "(if dw_dir w = '''' then '''' else dw_dir w @ ''/'') @ dw_service w @ ''-''"
  obtain pre where "\<forall>y. CHR ''/'' \<notin> set y \<and> 3 \<le> length y \<longrightarrow> path_Clean (?x @ y) = pre @ y"
    using path_Clean_suffix [of ?x] by auto
  then have "path_Clean (?x @ d @ ''.log'') = pre @ d @ ''.log''" if "CHR ''/'' \<notin> set d" for d
    using that by simp
  then show ?thesis by (intro exI [of _ pre]) (auto simp: day_path_def path_Join_def)
qed

lemma format_day_no_slash: "CHR ''/'' \<notin> set (format_day t)"
proof -
  have "CHR ''/'' \<notin> set (show_nat n)" for n
    using show_nat_digits [of n] by (auto simp: list_all_iff is_digit_def)
  then show ?thesis by (auto simp: format_day_def zero_pad_def)
qed

lemma day_path_inj: "day_path w (format_day a) = day_path w (format_day b) \<longleftrightarrow> format_day a = format_day b"
proof -
  obtain pre where "\<forall>d. CHR ''/'' \<notin> set d \<longrightarrow> day_path w d = pre @ d @ ''.log''"
    using day_path_suffix by blast
  then show ?thesis by (simp add: format_day_no_slash)
qed

definition file_text :: "log_world \<Rightarrow> string \<Rightarrow> string" where
  "file_text s q = (case lw_files s q of None \<Rightarrow> '''' | Some c \<Rightarrow> c)"

text \<open>The writer of one directory and service; an open file is the one of its day, and it exists.\<close>

definition dw_ok :: "string \<Rightarrow> string \<Rightarrow> dailyWriter \<Rightarrow> log_world \<Rightarrow> bool" where
  "dw_ok dir service w s \<longleftrightarrow> dw_dir w = dir \<and> dw_service w = service \<and>
     (case dw_file w of None \<Rightarrow> True | Some f \<Rightarrow> f = day_path w (dw_day w) \<and> lw_files s f \<noteq> None)"

lemma day_path_upd [simp]: "day_path (w\<lparr>dw_file := f\<rparr>) d = day_path w d" "day_path (w\<lparr>dw_day := e\<rparr>) d = day_path w d"
  by (simp_all add: day_path_def)

lemma written_take: "written stop p = (n, fine) \<Longrightarrow> fine \<Longrightarrow> n = length p"
  by (auto simp: written_def split: option.splits)

lemma daily_Write_step:
  assumes "dw_ok dir service w s" and "daily_Write env now p w s = ((n, fine), w', s')"
  shows "dw_ok dir service w' s'"
    and "fine \<Longrightarrow> n = length p"
    and "env_mkdir env \<and> env_open env \<and> env_file env = None \<Longrightarrow> fine"
    and "file_text s' q = file_text s q @ (if q = day_path w (format_day now) then take n p else '''')"
    and "lw_stdout s' = lw_stdout s"
  using assms
  by (auto simp: daily_Write_def rotate_file_def dw_ok_def file_text_def Let_def day_path_def written_take written_def
      split: if_splits option.splits prod.splits)

lemma tee_Write_step:
  assumes "dw_ok dir service w s" and "tee_Write env now p w s = ((n, fine), w', s')"
  shows "dw_ok dir service w' s'"
    and "fine \<Longrightarrow> n = length p"
    and "env_mkdir env \<and> env_open env \<and> env_file env = None \<Longrightarrow> fine"
    and "file_text s' q = file_text s q @ (if q = day_path w (format_day now) then take n p else '''')"
proof -
  obtain r w1 s1 where d: "daily_Write env now p w s = (r, w1, s1)" by (metis prod_cases3)
  then have r: "daily_Write env now p w s = ((n, fine), w', s1)" and f: "lw_files s' = lw_files s1"
    using assms(2) by (auto simp: tee_Write_def stdout_Write_def split: prod.splits)
  note st = daily_Write_step [OF assms(1) r]
  show "dw_ok dir service w' s'" using st(1) f by (auto simp: dw_ok_def split: option.splits)
  show "fine \<Longrightarrow> n = length p" by (rule st(2))
  show "env_mkdir env \<and> env_open env \<and> env_file env = None \<Longrightarrow> fine" by (rule st(3))
  show "file_text s' q = file_text s q @ (if q = day_path w (format_day now) then take n p else '''')"
    using st(4) [of q] f by (simp add: file_text_def)
qed

text \<open>Records written one after the other; of each, what was answered.\<close>

fun tee_run :: "(log_env \<times> local_time \<times> string) list \<Rightarrow> dailyWriter \<Rightarrow> log_world \<Rightarrow> (nat \<times> bool) list \<times> log_world" where
  "tee_run [] w s = ([], s)"
| "tee_run ((env, now, p) # rest) w s =
     (let (r, w, s) = tee_Write env now p w s; (rs, s) = tee_run rest w s in (r # rs, s))"

definition day_part :: "local_time \<Rightarrow> ((log_env \<times> local_time \<times> string) \<times> nat \<times> bool) list \<Rightarrow> string" where
  "day_part d recs = concat (map (\<lambda>((env, now, p), n, fine). if format_day now = format_day d then take n p else '''') recs)"

text \<open>A record is either in the file whole or reported, and it is in the file when the file could be written.\<close>

definition accounted :: "log_env \<times> local_time \<times> string \<Rightarrow> nat \<times> bool \<Rightarrow> bool" where
  "accounted rec res =
     (case (rec, res) of ((env, now, p), n, fine) \<Rightarrow>
        (fine \<longrightarrow> n = length p) \<and> (env_mkdir env \<and> env_open env \<and> env_file env = None \<longrightarrow> fine))"

lemma tee_run_exact:
  assumes "dw_ok dir service w s" and "tee_run ws w s = (rs, s')"
  shows "length rs = length ws"
    and "list_all2 accounted ws rs"
    and "file_text s' (day_path w (format_day d)) = file_text s (day_path w (format_day d)) @ day_part d (zip ws rs)"
proof -
  have "length rs = length ws \<and>
    list_all2 accounted ws rs \<and>
    file_text s' (day_path w (format_day d)) = file_text s (day_path w (format_day d)) @ day_part d (zip ws rs)"
    using assms
  proof (induction ws arbitrary: w s rs)
    case Nil
    then show ?case by (simp add: day_part_def)
  next
    case (Cons x ws)
    obtain env now p where x: "x = (env, now, p)" by (cases x) auto
    obtain n fine w1 s1 where t: "tee_Write env now p w s = ((n, fine), w1, s1)" by (metis prod.collapse)
    obtain rs1 where r: "tee_run ws w1 s1 = (rs1, s')" "rs = (n, fine) # rs1"
      using Cons.prems(2) by (auto simp: x t Let_def split: prod.splits)
    note st = tee_Write_step [OF Cons.prems(1) t]
    have "day_path w1 = day_path w" using st(1) Cons.prems(1) by (auto simp: dw_ok_def day_path_def)
    then show ?case
      using Cons.IH [OF st(1) r(1)] st(2,3) st(4) [of "day_path w (format_day d)"]
      by (auto simp: x r(2) day_part_def day_path_inj accounted_def)
  qed
  then show "length rs = length ws"
    and "list_all2 accounted ws rs"
    and "file_text s' (day_path w (format_day d)) = file_text s (day_path w (format_day d)) @ day_part d (zip ws rs)"
    by simp_all
qed

text \<open>C39. One file per calendar day, and it is exactly that day's log. Whatever the days of the records, whichever
  directories, opens and writes fail and whatever stdout does: the file named after a day holds what it held
  before, then the records of that day in the order they were written, each as far as its write got; a record is
  whole unless its write reported an error, and none does while the file can be written, even with stdout closed;
  two days share a file only if they are the same day.\<close>

theorem daily_files_exact:
  assumes "tee_run ws (newDailyWriter dir service) s = (rs, s')"
  shows "length rs = length ws \<and> list_all2 accounted ws rs
    \<and> file_text s' (day_path (newDailyWriter dir service) (format_day d))
        = file_text s (day_path (newDailyWriter dir service) (format_day d)) @ day_part d (zip ws rs)
    \<and> (day_path (newDailyWriter dir service) (format_day a) = day_path (newDailyWriter dir service) (format_day b)
        \<longleftrightarrow> format_day a = format_day b)"
proof -
  have "dw_ok dir service (newDailyWriter dir service) s" by (simp add: dw_ok_def newDailyWriter_def)
  from tee_run_exact [OF this assms] show ?thesis using day_path_inj by blast
qed

definition some_day :: local_time where
  "some_day = \<lparr>lt_year = 2026, lt_month = 8, lt_day = 10, lt_hour = 23, lt_minute = 59, lt_second = 59, lt_milli = 7\<rparr>"

definition log_sample :: "(log_env \<times> local_time \<times> string) list" where
  "log_sample =
     [(\<lparr>env_mkdir = True, env_open = True, env_file = None, env_stdout = Some 0\<rparr>, some_day, ''one''),
      (\<lparr>env_mkdir = True, env_open = False, env_file = None, env_stdout = None\<rparr>, some_day\<lparr>lt_day := 11\<rparr>, ''lost''),
      (\<lparr>env_mkdir = True, env_open = True, env_file = Some 2, env_stdout = None\<rparr>, some_day\<lparr>lt_day := 11\<rparr>, ''short''),
      (\<lparr>env_mkdir = True, env_open = True, env_file = None, env_stdout = None\<rparr>, some_day, ''late'')]"

lemma log_sample_run:
  "fst (tee_run log_sample (newDailyWriter ''./log'' ''api'') \<lparr>lw_files = Map.empty, lw_stdout = '''', lw_stderr = []\<rparr>)
     = [(3, True), (0, False), (2, False), (4, True)]"
  by code_simp

lemma daily_files_exact_witness:
  "\<exists>s'. file_text s' (day_path (newDailyWriter ''./log'' ''api'') (format_day some_day)) = ''onelate''"
proof -
  let ?s = "\<lparr>lw_files = Map.empty, lw_stdout = '''', lw_stderr = []\<rparr>"
  obtain s' where r: "tee_run log_sample (newDailyWriter ''./log'' ''api'') ?s = ([(3, True), (0, False), (2, False), (4, True)], s')"
    using log_sample_run by (metis prod.collapse)
  have "day_part some_day (zip log_sample [(3, True), (0, False), (2, False), (4, True)]) = ''onelate''" by code_simp
  then show ?thesis using daily_files_exact [OF r, of some_day] by (auto simp: file_text_def)
qed

section \<open>Where the log goes\<close>

definition sound_env :: log_env where
  "sound_env = \<lparr>env_mkdir = True, env_open = True, env_file = None, env_stdout = None\<rparr>"

lemma sound_writes [simp]:
  "stdout_Write sound_env p s = ((length p, True), s\<lparr>lw_stdout := lw_stdout s @ p\<rparr>)"
  by (simp add: stdout_Write_def written_def sound_env_def)

lemma sound_daily: "\<exists>w' s'. daily_Write sound_env now p w s = ((length p, True), w', s') \<and> lw_stdout s' = lw_stdout s"
  by (auto simp: daily_Write_def rotate_file_def written_def sound_env_def Let_def)

lemma sound_Tee:
  "\<exists>w' s'. writer_Write sound_env now p (Tee w) s = ((length p, True), Tee w', s') \<and> lw_stdout s' = lw_stdout s @ p"
  using sound_daily [of now p w s] by (auto simp: tee_Write_def)

fun multi_run :: "(local_time \<times> string) list \<Rightarrow> log_writer list \<Rightarrow> log_world \<Rightarrow> log_world" where
  "multi_run [] ws s = s"
| "multi_run ((now, p) # rest) ws s = (let (_, ws, s) = multi_Write sound_env now p ws s in multi_run rest ws s)"

lemma console_run:
  assumes "\<forall>now p w s. \<exists>w' s'. multi_Write sound_env now p (Tee w # out) s = (True, Tee w' # out, s') \<and> lw_stdout s' = lw_stdout s @ g p"
  shows "lw_stdout (multi_run recs (Tee w # out) s) = lw_stdout s @ concat (map (g \<circ> snd) recs)"
proof (induction recs arbitrary: w s)
  case (Cons r recs)
  obtain now p where r: "r = (now, p)" by fastforce
  obtain w' s' where "multi_Write sound_env now p (Tee w # out) s = (True, Tee w' # out, s')" "lw_stdout s' = lw_stdout s @ g p"
    using assms by blast
  then show ?case using Cons.IH [of w' s'] by (simp add: r)
qed simp

lemma one_tee: "\<exists>w' s'. multi_Write sound_env now p [Tee w] s = (True, [Tee w'], s') \<and> lw_stdout s' = lw_stdout s @ p"
  using sound_Tee [of now p w s] by auto

lemma tee_and_console:
  "\<exists>w' s'. multi_Write sound_env now p [Tee w, Console] s = (True, [Tee w', Console], s') \<and> lw_stdout s' = lw_stdout s @ p @ p"
  using sound_Tee [of now p w s] by auto

text \<open>
  The setting \<open>output_console\<close> decides nothing while a file is written: without it every record still reaches
  stdout, through the tee, and with it, as in the configurations the repository ships, every record does twice.
\<close>

lemma console_setting:
  assumes "TrimSpace (log_dir cfg) \<noteq> ''''" and "log_output_file cfg \<noteq> Some False"
    and "InitLogrus sound_env now cfg name s = ((lvl, out), s1)"
  shows "lw_stdout (multi_run recs out s1)
    = lw_stdout s @ concat (map (\<lambda>(now, p). if log_output_console cfg then p @ p else p) recs)"
proof -
  obtain w s2 where d: "daily_Write sound_env now '''' (newDailyWriter (TrimSpace (log_dir cfg)) name) s = ((0, True), w, s2)"
    and o: "lw_stdout s2 = lw_stdout s"
    using sound_daily [of now "''''"] by (metis list.size(3))
  have out: "out = Tee w # (if log_output_console cfg then [Console] else [])" "s1 = s2"
    using assms d by (auto simp: InitLogrus_def fileWriter_def Let_def)
  show ?thesis
  proof (cases "log_output_console cfg")
    case True
    have "lw_stdout (multi_run recs [Tee w, Console] s2) = lw_stdout s2 @ concat (map ((\<lambda>p. p @ p) \<circ> snd) recs)"
      by (rule console_run) (use tee_and_console in blast)
    then show ?thesis using True out o by (simp add: case_prod_unfold comp_def)
  next
    case False
    have "lw_stdout (multi_run recs [Tee w] s2) = lw_stdout s2 @ concat (map ((\<lambda>p. p) \<circ> snd) recs)"
      by (rule console_run) (use one_tee in blast)
    then show ?thesis using False out o by (simp add: case_prod_unfold comp_def)
  qed
qed

section \<open>What the formatter drops\<close>

text \<open>The call site the bridge hands over comes back from \<open>caller\<close>; the formatter uses neither it nor the fields.\<close>

lemma callerKeys [simp]: "callerFileKey \<noteq> callerLineKey" "callerLineKey \<noteq> callerFileKey"
  by (simp_all add: callerFileKey_def callerLineKey_def)

lemma caller_Handle: "f \<noteq> '''' \<Longrightarrow> caller (Handle h (Some (f, line)) l msg attrs) = (path_Base f, line)"
  by (simp add: caller_def Handle_def Let_def update_conv')

lemma Format_drops_fields: "Format now (e\<lparr>le_data := d\<rparr>) = Format now e"
  by (simp add: Format_def)

text \<open>A setting of \<open>log.level\<close> that is no level is info; of the others the formatter writes the names logrus uses.\<close>

lemma level_names:
  "logrusLevel (level ''debug'') = DebugLevel" "logrusLevel (level '' WARN '') = WarnLevel"
  "logrusLevel (level ''Error'') = ErrorLevel" "logrusLevel (level ''trace'') = InfoLevel"
  by code_simp+

lemma warning_name: "ToUpper (level_String WarnLevel) = ''WARNING'' \<and> levelName WarnLevel = ''WARN''"
  by code_simp

lemma Format_one_line_witness:
  "\<exists>pre. Format some_day (\<lparr>le_level = ErrorLevel, le_message = ''http 502: '' @ [CHR 0x00, CHR 0xFF, CHR 0x0A],
        le_data = [], le_caller = Some (''internal/chain/gateway.go'', 7)\<rparr> :: unit log_entry)
      = pre @ ''http 502: '' @ [CHR 0x5C, CHR ''x'', CHR ''0'', CHR ''0'', CHR 0xEF, CHR 0xBF, CHR 0xBD, CHR 0x5C, CHR ''n'', CHR 0x0A]"
proof -
  let ?e = "\<lparr>le_level = ErrorLevel, le_message = ''http 502: '' @ [CHR 0x00, CHR 0xFF, CHR 0x0A],
        le_data = [], le_caller = Some (''internal/chain/gateway.go'', 7)\<rparr> :: unit log_entry"
  have zero: "char_of (48 :: nat) = CHR ''0''" by code_simp
  have s: "sanitize (''http 502: '' @ [CHR 0x00, CHR 0xFF, CHR 0x0A])
      = ''http 502: '' @ [CHR 0x5C, CHR ''x'', CHR ''0'', CHR ''0'', CHR 0xEF, CHR 0xBF, CHR 0xBD, CHR 0x5C, CHR ''n'']"
    by (simp add: sanitize_def isPlainText_def control_def sanitize_runes_code clean_piece_def code_def rune_start_def
        RuneError_def hex_char_def zero)
  have "path_Base ''internal/chain/gateway.go'' = ''gateway.go''" by code_simp
  moreover have "list_all printable ''gateway.go''" by code_simp
  ultimately have "case le_caller ?e of None \<Rightarrow> True | Some (f, l) \<Rightarrow> isPlainText (path_Base f)"
    by (simp add: isPlainText_printable)
  from Format_one_line [OF this, of some_day] s show ?thesis by auto
qed

end
