(* ===== verification/Durations.thy ===== *)
theory Durations
  imports Float64 Text
begin

text \<open>
  How a duration of the configuration is read: \<open>time.ParseDuration\<close> as the code uses it and
  \<open>config.Duration\<close> with its fallback. Nanoseconds are natural numbers below \<open>2 ^ 64\<close> while a text is read; the sum wraps
  there as the \<open>uint64\<close> does.
\<close>

section \<open>Reading a duration\<close>

text \<open>Digits before the point; \<open>None\<close> is a number above \<open>2 ^ 63\<close>.\<close>

fun leadingInt :: "nat \<Rightarrow> string \<Rightarrow> (nat \<times> string) option" where
  "leadingInt x [] = Some (x, [])"
| "leadingInt x (c # s) =
     (if \<not> is_digit c then Some (x, c # s)
      else if 2 ^ 63 div 10 < x then None
      else let x' = x * 10 + digit_val c in if 2 ^ 63 < x' then None else leadingInt x' s)"

text \<open>Digits after the point, with how many of them count: once the number would not fit, the rest is skipped.\<close>

fun leadingFraction :: "bool \<Rightarrow> nat \<Rightarrow> nat \<Rightarrow> string \<Rightarrow> nat \<times> nat \<times> string" where
  "leadingFraction overflow x k [] = (x, k, [])"
| "leadingFraction overflow x k (c # s) =
     (if \<not> is_digit c then (x, k, c # s)
      else if overflow then leadingFraction True x k s
      else if (2 ^ 63 - 1) div 10 < x then leadingFraction True x k s
      else let y = x * 10 + digit_val c
           in if 2 ^ 63 < y then leadingFraction True x k s else leadingFraction False y (k + 1) s)"

definition unitMap :: "(string \<times> nat) list" where
  "unitMap =
     [(''ns'', 1), (''us'', 1000), ([CHR 0xC2, CHR 0xB5, CHR ''s''], 1000), ([CHR 0xCE, CHR 0xBC, CHR ''s''], 1000),
      (''ms'', 1000000), (''s'', 1000000000), (''m'', 60000000000), (''h'', 3600000000000)]"

definition unit_char :: "char \<Rightarrow> bool" where
  "unit_char c \<longleftrightarrow> c \<noteq> CHR ''.'' \<and> \<not> is_digit c"

text \<open>The digits of one number: before the point, after it with their count, whether there were any, the rest.\<close>

definition read_number :: "string \<Rightarrow> (nat \<times> nat \<times> nat \<times> bool \<times> string) option" where
  "read_number s =
     (case leadingInt 0 s of
        None \<Rightarrow> None
      | Some (v, s1) \<Rightarrow>
          let pre = length s1 \<noteq> length s
          in if s1 = '''' \<or> hd s1 \<noteq> CHR ''.'' then Some (v, 0, 0, pre, s1)
             else let t = tl s1; (f, k, s2) = leadingFraction False 0 0 t
                  in Some (v, f, k, pre \<or> length s2 \<noteq> length t, s2))"

text \<open>One number with its unit.\<close>

definition parse_part :: "string \<Rightarrow> (nat \<times> string) option" where
  "parse_part s =
     (if s = [] \<or> (hd s \<noteq> CHR ''.'' \<and> \<not> is_digit (hd s)) then None
      else case read_number s of
        None \<Rightarrow> None
      | Some (v, f, k, some, s2) \<Rightarrow>
          if \<not> some then None
          else let u = takeWhile unit_char s2
               in if u = '''' then None
                  else case map_of unitMap u of
                    None \<Rightarrow> None
                  | Some n \<Rightarrow>
                      if 2 ^ 63 div n < v then None
                      else let v' = v * n + (if 0 < f then nat \<lfloor>fl64 (fl64 (of_nat f) * fl64 (of_nat n / 10 ^ k))\<rfloor> else 0)
                           in if 2 ^ 63 < v' then None else Some (v', dropWhile unit_char s2))"

lemma leadingInt_rest: "leadingInt x s = Some (v, r) \<Longrightarrow> length r \<le> length s"
  by (induction x s rule: leadingInt.induct) (auto simp: Let_def split: if_splits)

lemma leadingFraction_rest: "leadingFraction b x k s = (f, j, r) \<Longrightarrow> length r \<le> length s"
proof (induction s arbitrary: b x k)
  case (Cons c s)
  show ?case
  proof (cases "is_digit c")
    case True
    then obtain b' x' k' where "leadingFraction b' x' k' s = (f, j, r)"
      using Cons.prems by (auto simp: Let_def split: if_split_asm)
    from Cons.IH [OF this] show ?thesis by simp
  next
    case False
    then show ?thesis using Cons.prems by auto
  qed
qed simp

lemma parse_part_shorter:
  assumes "parse_part s = Some (v, r)"
  shows "length r < length s"
proof -
  obtain f k b s2 v0 where n: "read_number s = Some (v0, f, k, b, s2)"
    using assms by (auto simp: parse_part_def split: if_splits option.splits)
  then have le: "length s2 \<le> length s"
    by (auto simp: read_number_def Let_def split: if_splits option.splits prod.splits
        dest!: leadingInt_rest leadingFraction_rest)
  have r: "r = dropWhile unit_char s2" "takeWhile unit_char s2 \<noteq> ''''"
    using assms n by (auto simp: parse_part_def Let_def split: if_splits option.splits)
  have "length s2 = length (takeWhile unit_char s2) + length r"
    by (metis length_append r(1) takeWhile_dropWhile_id)
  then show ?thesis using le r(2) by (cases "takeWhile unit_char s2") auto
qed

function parse_parts :: "nat \<Rightarrow> string \<Rightarrow> nat option" where
  "parse_parts d s =
     (if s = [] then Some d
      else case parse_part s of
        None \<Rightarrow> None
      | Some (v, r) \<Rightarrow> let d' = (d + v) mod 2 ^ 64 in if 2 ^ 63 < d' then None else parse_parts d' r)"
  by pat_completeness auto
termination
  by (relation "measure (length \<circ> snd)") (auto dest: parse_part_shorter)

declare parse_parts.simps [simp del]

definition ParseDuration :: "string \<Rightarrow> int option" where
  "ParseDuration s0 =
     (let (neg, s) = (case s0 of [] \<Rightarrow> (False, s0)
                      | c # r \<Rightarrow> if c = CHR ''-'' then (True, r) else if c = CHR ''+'' then (False, r) else (False, s0))
      in if s = ''0'' then Some 0
         else if s = '''' then None
         else case parse_parts 0 s of
           None \<Rightarrow> None
         | Some d \<Rightarrow> if neg then Some (- int d) else if 2 ^ 63 - 1 < d then None else Some (int d))"

definition Duration :: "string \<Rightarrow> int \<Rightarrow> int" where
  "Duration s fallback =
     (if s = '''' then fallback
      else case ParseDuration s of None \<Rightarrow> fallback | Some d \<Rightarrow> if d \<le> 0 then fallback else d)"

section \<open>Written durations\<close>

definition written_duration :: "(nat \<times> string) list \<Rightarrow> string" where
  "written_duration ps = concat (map (\<lambda>(n, u). show_nat n @ u) ps)"

definition nanoseconds :: "(nat \<times> string) list \<Rightarrow> nat" where
  "nanoseconds ps = sum_list (map (\<lambda>(n, u). n * the (map_of unitMap u)) ps)"

lemma leadingInt_digits:
  assumes "list_all is_digit ds" and "r = [] \<or> \<not> is_digit (hd r)"
    and "foldl (\<lambda>a c. a * 10 + digit_val c) x ds \<le> 2 ^ 63"
  shows "leadingInt x (ds @ r) = Some (foldl (\<lambda>a c. a * 10 + digit_val c) x ds, r)"
  using assms(1,3)
proof (induction ds arbitrary: x)
  case Nil
  then show ?case using assms(2) by (cases r) auto
next
  case (Cons c ds)
  have mono: "y \<le> foldl (\<lambda>a c. a * 10 + digit_val c) y ds" for y
  proof (induction ds arbitrary: y)
    case (Cons e ds)
    from Cons.IH [of "y * 10 + digit_val e"] show ?case by simp
  qed simp
  from mono [of "x * 10 + digit_val c"] have "x * 10 + digit_val c \<le> 2 ^ 63" using Cons.prems(2) by simp
  then show ?case using Cons.IH [of "x * 10 + digit_val c"] Cons.prems by (simp add: Let_def)
qed

lemma unit_chars: "map_of unitMap u = Some k \<Longrightarrow> u \<noteq> '''' \<and> list_all unit_char u \<and> 0 < k"
  by (auto simp: unitMap_def unit_char_def is_digit_def split: if_splits)

lemma show_nat_value: "foldl (\<lambda>a c. a * 10 + digit_val c) 0 (show_nat n) = n"
proof -
  have "from_digits 10 (map digit_val (show_nat n)) = n"
    using digits_value_show [of n] show_nat_digits [of n] by (simp add: digits_value_def)
  then show ?thesis by (simp add: from_digits_def foldl_map)
qed

lemma parse_part_written:
  assumes "map_of unitMap u = Some k" and "n * k < 2 ^ 63" and "r = [] \<or> is_digit (hd r)"
  shows "parse_part (show_nat n @ u @ r) = Some (n * k, r)"
proof -
  have u: "u \<noteq> ''''" "list_all unit_char u" "0 < k" using unit_chars [OF assms(1)] by simp_all
  obtain c t where c: "u = c # t" using u(1) by (cases u) auto
  have uc: "\<not> is_digit c" "c \<noteq> CHR ''.''" using u(2) c by (simp_all add: unit_char_def)
  obtain e z where e: "show_nat n = e # z" "is_digit e" using show_nat_digits [of n] by (cases "show_nat n") auto
  have le: "n \<le> 2 ^ 63 div k" using assms(2) u(3) by (simp add: less_eq_div_iff_mult_less_eq)
  also have "\<dots> \<le> 2 ^ 63" by (rule div_le_dividend)
  finally have int: "leadingInt 0 (show_nat n @ u @ r) = Some (n, u @ r)"
    using leadingInt_digits [OF show_nat_digits, of "u @ r" 0 n] uc c by (simp add: show_nat_value)
  have r: "takeWhile unit_char r = []" "dropWhile unit_char r = r"
    using assms(3) by (cases r; simp add: unit_char_def)+
  have take: "takeWhile unit_char (u @ r) = u" "dropWhile unit_char (u @ r) = r"
    using u(2) r by (simp_all add: list_all_iff)
  have num: "read_number (show_nat n @ u @ r) = Some (n, 0, 0, True, u @ r)"
    unfolding read_number_def int option.case prod.case using e(1) uc(2) c by simp
  have "parse_part (show_nat n @ u @ r) =
      (if 2 ^ 63 div k < n then None else let v' = n * k + 0 in if 2 ^ 63 < v' then None else Some (v', r))"
    unfolding parse_part_def num option.case prod.case
    using e take u(1) assms(1) by (simp add: Let_def)
  then show ?thesis using le assms(2) by simp
qed

lemma written_duration_head: "written_duration ps = [] \<or> is_digit (hd (written_duration ps))"
proof (cases ps)
  case (Cons p ps)
  obtain n u where p: "p = (n, u)" by fastforce
  obtain e z where "show_nat n = e # z" "is_digit e" using show_nat_digits [of n] by (cases "show_nat n") auto
  then show ?thesis by (simp add: written_duration_def Cons p)
qed (simp add: written_duration_def)

lemma parse_parts_written:
  assumes "\<forall>(n, u) \<in> set ps. map_of unitMap u \<noteq> None" and "d + nanoseconds ps < 2 ^ 63"
  shows "parse_parts d (written_duration ps) = Some (d + nanoseconds ps)"
  using assms
proof (induction ps arbitrary: d)
  case Nil
  then show ?case by (simp add: parse_parts.simps written_duration_def nanoseconds_def)
next
  case (Cons p ps)
  obtain n u where p: "p = (n, u)" by fastforce
  obtain k where k: "map_of unitMap u = Some k" using Cons.prems(1) p by auto
  have ns: "nanoseconds (p # ps) = n * k + nanoseconds ps" by (simp add: nanoseconds_def p k)
  have w: "written_duration (p # ps) = show_nat n @ u @ written_duration ps" by (simp add: written_duration_def p)
  have part: "parse_part (written_duration (p # ps)) = Some (n * k, written_duration ps)"
    unfolding w by (rule parse_part_written [OF k _ written_duration_head]) (use Cons.prems(2) ns in simp)
  have "(d + n * k) mod 2 ^ 64 = d + n * k" using Cons.prems(2) ns by simp
  moreover have "parse_parts (d + n * k) (written_duration ps) = Some (d + n * k + nanoseconds ps)"
    by (rule Cons.IH) (use Cons.prems ns in auto)
  moreover have "written_duration (p # ps) \<noteq> []" by (simp add: w)
  ultimately show ?case
    using part Cons.prems(2) ns by (subst parse_parts.simps) (simp add: Let_def)
qed

text \<open>A duration written the usual way, as numbers with units, is read as their sum.\<close>

lemma Duration_written:
  assumes "\<forall>(n, u) \<in> set ps. map_of unitMap u \<noteq> None" and "0 < nanoseconds ps" and "nanoseconds ps < 2 ^ 63"
  shows "Duration (written_duration ps) fallback = int (nanoseconds ps)"
proof -
  have "ps \<noteq> []" using assms(2) by (auto simp: nanoseconds_def)
  then obtain n u qs where ps: "ps = (n, u) # qs" by (cases ps) auto
  obtain k where k: "map_of unitMap u = Some k" using assms(1) ps by auto
  have w: "written_duration ps = show_nat n @ u @ written_duration qs" by (simp add: written_duration_def ps)
  obtain e z where e: "show_nat n = e # z" "is_digit e" using show_nat_digits [of n] by (cases "show_nat n") auto
  have "e \<noteq> CHR ''-''" "e \<noteq> CHR ''+''" using e(2) by auto
  moreover have "u \<noteq> []" using unit_chars [OF k] by simp
  ultimately have "ParseDuration (written_duration ps) = Some (int (nanoseconds ps))"
    using parse_parts_written [OF assms(1), of 0] assms(3) by (simp add: ParseDuration_def w e(1) Let_def)
  then show ?thesis using assms(2) by (simp add: Duration_def w e(1))
qed

text \<open>Whatever the text, the result is positive and fits, as its fallback is.\<close>

lemma Duration_positive:
  assumes "0 < fallback" and "fallback < 2 ^ 63"
  shows "0 < Duration s fallback" and "Duration s fallback < 2 ^ 63"
proof -
  have "d < 2 ^ 63" if "ParseDuration s = Some d" for d
    using that by (auto simp: ParseDuration_def Let_def split: if_splits option.splits prod.splits)
  then show "0 < Duration s fallback" "Duration s fallback < 2 ^ 63"
    using assms by (auto simp: Duration_def split: option.splits)
qed

end
