(* ===== verification/WithdrawProps.thy ===== *)
theory WithdrawProps
  imports WithdrawSafety
begin

text \<open>
  What the withdrawal worker promises: over every run of the transition system of
  \<open>WithdrawSafety\<close> (at most one transaction per order, states only move forward, one announcement per
  outcome), and for a single handler (what is checked before anything is signed, what a confirmation
  is evidence of, how often an order may be halted).
\<close>

interpretation orders: forward_table "\<lambda>s. withdraws (ws_world s)" w_id w_status
  "\<lambda>s s'. withdraw_inv s \<and> withdraw_step s s'"
proof
  fix s s' r
  assume st: "withdraw_inv s \<and> withdraw_step s s'" and r: "r \<in> set (withdraws (ws_world s))"
  have ev: "\<exists>r'\<in>set (withdraws w'). w_id r' = w_id r \<and> w_status r \<le> w_status r'"
    if e: "evolve t raw row r0 (ws_world s) w'" and o: "own_row row r0 (ws_world s)" for t raw row r0 w'
  proof -
    obtain r' where r': "withdraws w' = put_row r' (withdraws (ws_world s))" "move t raw r0 r' \<or> settles r0 r'"
      using e unfolding evolve_def by blast
    have "w_id r' = w_id r0 \<and> w_status r0 \<le> w_status r'"
      using r'(2)
    proof
      assume "move t raw r0 r'"
      then show ?thesis by (cases rule: move.cases) (auto simp: same_order_def less_eq_withdraw_state_def)
    next
      assume "settles r0 r'"
      then show ?thesis using settles_tracks by (auto simp: tracks_def same_order_def)
    qed
    then show ?thesis
      using put_row_set(1) [OF o, of r'] r by (cases "r = r0") (auto simp: r'(1))
  qed
  from st have "withdraw_step s s'" ..
  then show "\<exists>r'\<in>set (withdraws (ws_world s')). w_id r' = w_id r \<and> w_status r \<le> w_status r'"
  proof (cases rule: withdraw_step.cases)
    case (prepare_stop row env w' e)
    with st inv_read [of s row] obtain r0 where own: "own_row row r0 (ws_world s)" by blast
    show ?thesis using ev [OF _ own] prepare_evolve [OF own prepare_stop(5)] prepare_stop(1) by simp
  next
    case (prepare_done row env w' p)
    with st inv_read [of s row] obtain r0 where own: "own_row row r0 (ws_world s)" by blast
    then show ?thesis using ev [OF _ own] prepare_evolve [OF own prepare_done(5)] prepare_done(1)
      by (simp add: split_beta) blast
  next
    case (broadcast row tx env w' e)
    obtain r0 where r0: "r0 \<in> set (withdraws (ws_world s))" "same_order row r0"
      using st broadcast(2) unfolding withdraw_inv_def by fastforce
    have own: "own_row row r0 (ws_world s)"
      using inv_own_row [of s r0 row] r0 st by (simp add: same_order_def)
    show ?thesis using ev [OF broadcast_evolve [OF own broadcast(3)] own] broadcast(1) by simp
  next
    case (reconcile row env head w' e)
    with st inv_read [of s row] obtain r0 where own: "own_row row r0 (ws_world s)" by blast
    show ?thesis using ev [OF _ own] reconcileOne_evolve [OF own reconcile(5)] reconcile(1) by auto
  qed (use r in auto)
qed

lemma run_with_inv:
  assumes "withdraw_step\<^sup>*\<^sup>* s s'" and "withdraw_inv s"
  shows "(\<lambda>s s'. withdraw_inv s \<and> withdraw_step s s')\<^sup>*\<^sup>* s s'"
  using assms
proof (induction rule: rtranclp_induct)
  case (step y z)
  then show ?case using withdraw_run_inv [of s y] by (auto intro: rtranclp.rtrancl_into_rtrancl)
qed simp

lemma withdraw_reach_inv: "withdraw_start s \<Longrightarrow> withdraw_step\<^sup>*\<^sup>* s s' \<Longrightarrow> withdraw_inv s'"
  using withdraw_run_inv withdraw_start_inv by blast

lemma inv_sent:
  assumes "withdraw_inv s" and "(i, a) \<in> ws_sent s"
  shows "\<exists>r. r \<in> set (withdraws (ws_world s)) \<and> w_id r = i \<and> carries r a"
proof -
  have "\<forall>p\<in>ws_sent s. \<exists>r\<in>set (withdraws (ws_world s)). w_id r = fst p \<and> carries r (snd p)"
    using assms(1) by (simp add: withdraw_inv_def)
  then show ?thesis using assms(2) by force
qed

section \<open>Runs\<close>

text \<open>C1. However many workers run, whatever is lost, stale, refused or restarted, all transactions ever
  handed to the nodes for one order are the same transaction: one id, one byte string, the ones the
  order's row carries. A withdrawal is never paid twice on chain.\<close>

theorem withdraw_one_transaction:
  assumes "withdraw_start s" and "withdraw_step\<^sup>*\<^sup>* s s'" and "(i, a) \<in> ws_sent s'" and "(i, b) \<in> ws_sent s'"
  shows "tx_id a = tx_id b \<and> tx_raw_data_hex a = tx_raw_data_hex b
    \<and> (\<exists>r. r \<in> set (withdraws (ws_world s')) \<and> w_id r = i \<and> w_txid r = tx_id a
          \<and> w_signed_raw r = tx_raw_data_hex a \<and> w_status r \<noteq> WithdrawCreated)"
proof -
  have inv: "withdraw_inv s'" using withdraw_reach_inv assms(1,2) .
  then obtain x y where x: "x \<in> set (withdraws (ws_world s'))" "w_id x = i" "carries x a"
    and y: "y \<in> set (withdraws (ws_world s'))" "w_id y = i" "carries y b"
    using assms(3,4) inv_sent by blast
  have "y = x" using own_row_unique [OF inv_own_row [OF inv x(1) refl] y(1)] x y by simp
  then show ?thesis using x y by (auto simp: carries_def)
qed

text \<open>C14. An order is never lost, its state only moves forward along created, signed, broadcast, settled,
  and a settled outcome (confirmed, failed or rejected) is final.\<close>

theorem withdraw_forward:
  assumes "withdraw_start s" and "withdraw_step\<^sup>*\<^sup>* s s1" and "withdraw_step\<^sup>*\<^sup>* s1 s2"
    and "r \<in> set (withdraws (ws_world s1))"
  shows "\<exists>r'. r' \<in> set (withdraws (ws_world s2)) \<and> w_id r' = w_id r \<and> w_status r \<le> w_status r'
    \<and> (settled r \<longrightarrow> w_status r' = w_status r)"
proof -
  have run: "(\<lambda>s s'. withdraw_inv s \<and> withdraw_step s s')\<^sup>*\<^sup>* s1 s2"
    using run_with_inv withdraw_reach_inv assms(1-3) by blast
  show ?thesis using orders.run_forward [OF run assms(4)] withdraw_final by (auto simp: settled_def)
qed

text \<open>C9. The outbox and the orders agree at every moment: an order is settled if and only if its outcome
  event is in the outbox, exactly once, and no outcome event exists for anything else.\<close>

theorem withdraw_announced_once:
  assumes "withdraw_start s" and "withdraw_step\<^sup>*\<^sup>* s s'"
  shows "distinct (withdraw_events (ws_world s'))
    \<and> set (withdraw_events (ws_world s')) =
        withdraw_event_id ` {r \<in> set (withdraws (ws_world s')). settled r}
    \<and> list_all (\<lambda>r. settled r = (withdraw_event_id r \<in> set (withdraw_events (ws_world s'))))
        (withdraws (ws_world s'))"
proof -
  have inv: "withdraw_inv s'" using withdraw_reach_inv assms .
  have "settled r" if "r \<in> set (withdraws (ws_world s'))" "q \<in> set (withdraws (ws_world s'))" "settled q"
    "w_order_no r = w_order_no q" for r q
  proof -
    have "inj_on w_order_no (set (withdraws (ws_world s')))" using inv by (simp add: withdraw_inv_def distinct_map)
    then have "r = q" using that by (auto dest: inj_onD)
    then show ?thesis using that by simp
  qed
  then show ?thesis using inv
    by (auto simp: withdraw_inv_def list_all_iff withdraw_event_id_inj image_iff)
qed

section \<open>One handler\<close>

lemma put_confirmed:
  assumes "own_row row r0 w" and "evolve t raw row r0 w w'" and "r' \<in> set (withdraws w')"
    and "w_id r' = w_id row"
  shows "move t raw r0 r' \<or> settles r0 r'"
proof -
  obtain x where x: "withdraws w' = put_row x (withdraws w)" "move t raw r0 x \<or> settles r0 x"
    using assms(2) unfolding evolve_def by blast
  have "w_id x = w_id r0" using x(2) by (auto simp: settles_def same_order_def elim!: move.cases)
  with put_row_set(1) [OF assms(1) this] assms x own_row_unique [OF assms(1)] show ?thesis
    by (auto simp: x(1))
qed

lemma riskCheck_pass:
  assumes "riskCheck env row w = Inr ''''" and "SetString (w_amount_units row) = Some amount"
  shows "IsValidAddress (w_to_address row)" "\<forall>b \<in> set (blacklist w). bl_address b \<noteq> w_to_address row"
    "case SetString (wd_max_amount_units (cf_withdraw (we_cfg env))) of None \<Rightarrow> True | Some m \<Rightarrow> m \<le> 0 \<or> amount \<le> m"
    "we_fail env WdDaily \<or> (case SetString (wd_daily_max_units (cf_withdraw (we_cfg env))) of None \<Rightarrow> True
       | Some m \<Rightarrow> m \<le> 0 \<or> today_units (we_now env) w + amount \<le> m)"
    "we_fail env WdInternal1 \<and> we_fail env WdInternal2 \<or> (\<forall>u \<in> set (user_wallets w). uw_address u \<noteq> w_to_address row)"
  using assms
  by (simp_all add: riskCheck_def Let_def IsAddressBlacklisted_def IsInternalWallet_def affected_pos not_less
      split: if_split_asm sum.split_asm bool.split_asm option.splits) blast+

lemma pay_energy_rows:
  assumes "pay_energy env row addr need w = (w', None)"
  shows "withdraws w' = withdraws w"
  using assms by (auto simp: pay_energy_def AcquireRented_def checkBurnBudget_def Let_def halt_stops
      dest!: energy_only_frame(1) [OF acquire_only] split: if_split_asm sum.split_asm prod.split_asm)


text \<open>What the final answer is: of the solid state, or at least the configured number of blocks deep.\<close>

lemma finalInfo_final:
  assumes "finalInfo env txid head = Inr (Some final)"
  shows "if na_solidity_confirm (we_node2 env) then na_tx_info (we_node2 env) True txid = Inr final
    else na_tx_info (we_node2 env) False txid = Inr final
      \<and> (if 0 < wd_confirm_blocks (cf_withdraw (we_cfg env)) then wd_confirm_blocks (cf_withdraw (we_cfg env))
         else dc_confirmations (cf_deposit (we_cfg env))) \<le> i64 (head - ti_block_number final)"
  using assms unfolding finalInfo_def GetTxInfoByIDConfirmed_def GetTxInfoByID_def txInfoByID_def confirmBlocks_def
  by (simp split: if_split_asm sum.split_asm option.split_asm)

lemma transferred_log:
  assumes "transferred kec info row"
  shows "\<exists>lg \<in> set (ti_log info). \<exists>amount event sender receiver src. SetString (w_amount_units row) = Some amount
    \<and> lg_topics lg = [event, sender, receiver] \<and> ToLower event = ToLower (TransferEventTopic kec)
    \<and> HexToAddress (lg_address lg) = Inr (w_contract row)
    \<and> HexToAddress sender = Inr src \<and> (w_from_address row \<noteq> '''' \<longrightarrow> src = w_from_address row)
    \<and> HexToAddress receiver = Inr (w_to_address row) \<and> ParseUint256 (lg_data lg) = Some amount"
proof -
  have three: "length l = 3 \<Longrightarrow> l = [l ! 0, l ! 1, l ! 2]" for l :: "string list"
    by (auto simp: length_Suc_conv eval_nat_numeral)
  obtain amount lg where lg: "SetString (w_amount_units row) = Some amount" "lg \<in> set (ti_log info)"
    "length (lg_topics lg) = 3" "EqualFold (lg_topics lg ! 0) (TransferEventTopic kec)"
    "HexToAddress (lg_address lg) = Inr (w_contract row)"
    "case HexToAddress (lg_topics lg ! 1) of Inl _ \<Rightarrow> False | Inr src \<Rightarrow> w_from_address row = '''' \<or> src = w_from_address row"
    "HexToAddress (lg_topics lg ! 2) = Inr (w_to_address row)" "ParseUint256 (lg_data lg) = Some amount"
    using assms unfolding transferred_def list_ex_iff by (auto split: option.split_asm)
  from lg(6) obtain src where src: "HexToAddress (lg_topics lg ! 1) = Inr src"
    "w_from_address row \<noteq> '''' \<longrightarrow> src = w_from_address row" by (auto split: sum.split_asm)
  show ?thesis using lg(1,5,7,8) lg(4) [unfolded EqualFold_def] three [OF lg(3)] src
    by (intro bexI [OF _ lg(2)]) blast
qed

text \<open>C13. A withdrawal is reported successful only on evidence. The second look at its transaction was
  answered from the node's solid state where one is configured, and otherwise by a node that has it at
  least \<open>confirm_blocks\<close> (the deposit confirmations when that is not set) below the head; that receipt
  succeeded, and it holds a three-topic \<open>Transfer\<close> log of the order's contract from the order's sender
  (any sender when the order records none) to the order's destination for exactly the order's amount.\<close>

theorem reconcileOne_confirmed:
  assumes "reconcileOne env row head w = (w', e)" and "distinct (map w_id (withdraws w))"
    and "r \<in> set (withdraws w)" and "w_id r = w_id row" and "w_status r \<noteq> WithdrawConfirmed"
    and "r' \<in> set (withdraws w')" and "w_id r' = w_id row" and "w_status r' = WithdrawConfirmed"
  shows "\<exists>final. (if na_solidity_confirm (we_node2 env) then na_tx_info (we_node2 env) True (w_txid row) = Inr final
      else na_tx_info (we_node2 env) False (w_txid row) = Inr final
        \<and> (if 0 < wd_confirm_blocks (cf_withdraw (we_cfg env)) then wd_confirm_blocks (cf_withdraw (we_cfg env))
           else dc_confirmations (cf_deposit (we_cfg env))) \<le> i64 (head - ti_block_number final))
    \<and> Succeeded final
    \<and> (\<exists>lg \<in> set (ti_log final). \<exists>amount event sender receiver src. SetString (w_amount_units row) = Some amount
      \<and> lg_topics lg = [event, sender, receiver] \<and> ToLower event = ToLower (TransferEventTopic (we_kec env))
      \<and> HexToAddress (lg_address lg) = Inr (w_contract row)
      \<and> HexToAddress sender = Inr src \<and> (w_from_address row \<noteq> '''' \<longrightarrow> src = w_from_address row)
      \<and> HexToAddress receiver = Inr (w_to_address row) \<and> ParseUint256 (lg_data lg) = Some amount)"
proof -
  have own: "own_row row r w" using assms(2-4) by (simp add: own_row_def)
  have unsettled: "w_status r' = w_status r" if "w' = w"
    using own_row_unique [OF own] assms(6,7) that by simp
  have failing: "w_status r' \<in> {w_status r, WithdrawFailed}"
    if "finish env q WithdrawFailed reason fc used fee v = (w', e1)" "w_id q = w_id row" "withdraws v = withdraws w"
    for q reason fc used fee v e1
    using that own_row_unique [OF own] assms(6,7)
    by (auto simp: finish_def settle_def Let_def set_update_where split: if_split_asm)
  from assms(1) show ?thesis
  proof (cases rule: reconcileOne_cases)
    case nothing
    then show ?thesis using unsettled assms(5,8) by simp
  next
    case resend
    then have "w' = w \<or> (\<exists>tx. w' = send tx w) \<or>
      (\<exists>tx reason fc e'. finish env row WithdrawFailed reason fc 0 0 (send tx w) = (w', e'))"
      by (simp add: rebroadcast_def Let_def
          split: prod.split_asm option.split_asm if_split_asm sum.split_asm) blast+
    then show ?thesis
    proof (elim disjE exE)
      fix tx assume "w' = send tx w"
      then show ?thesis using own_row_unique [OF own] assms(5-8) by simp
    next
      fix tx reason fc e' assume "finish env row WithdrawFailed reason fc 0 0 (send tx w) = (w', e')"
      from failing [OF this] show ?thesis using assms(5,8) by simp
    qed (use unsettled assms(5,8) in simp)
  next
    case fail
    then show ?thesis using failing [OF fail(2)] assms(5,8) by (simp add: same_order_def)
  next
    case (confirm final)
    then show ?thesis using finalInfo_final [of env "w_txid row" head final] transferred_log [of "we_kec env" final]
      by (fastforce dest: transferred_log)
  qed
qed


text \<open>C16. Energy is paid for one way only: with rental on, a transfer goes ahead only when the pool wallet
  already has the energy on chain, or exactly one order for at least that energy was placed at a real
  provider under the order's own key, was taken, and arrived on the chain (\<open>energy_rented\<close>); with rental
  off nothing is rented, and the transfer goes ahead only when the burned fee is within the fee limit
  and the wallet's TRX covers it. It is assumed that rental is on for the manager when it is on for
  withdrawals, as the defaults of the configuration see to (\<open>applyDefaults_rental\<close>), that its providers
  keep the contract \<open>energy_provider\<close>, and that the cached quotes are theirs.\<close>

theorem pay_energy_exclusive:
  assumes "pay_energy env row addr need w = (w', None)"
    and "WithdrawRentalOn (we_cfg env) \<Longrightarrow> RentalOn (me_cfg (we_energy env))"
    and "provs_ok (me_provs (we_energy env))" and "cache_ok w" and "cache_covers w"
  shows "if WithdrawRentalOn (we_cfg env)
    then (\<exists>p res. pool w = Some p \<and> GetAccountResource (we_node env) (ep_addr p) = Inr res
          \<and> need \<le> AvailableEnergy res \<and> w' = w)
      \<or> (\<exists>out. energy_rented (we_energy env) addr need (''withdraw-'' @ big_String (w_id row)) w w' out)
    else w' = w \<and> (\<exists>params res balance. GetChainParameters (we_node env) = Inr params
      \<and> GetAccountResource (we_node env) addr = Inr res \<and> GetTRXBalance (we_node env) addr = Inr balance
      \<and> BurnCostSun (Some res) params need \<le> balance
      \<and> wd_fee_limit_sun (cf_withdraw (we_cfg env)) \<notin> {0<..<BurnCostSun (Some res) params need})"
proof (cases "WithdrawRentalOn (we_cfg env)")
  case False
  then show ?thesis using assms(1)
    by (auto simp: pay_energy_def checkBurnBudget_def Let_def halt_stops split: if_split_asm sum.split_asm)
next
  case True
  note rents = AcquireRented_rents [OF _ assms(2) [OF True] assms(4,5,3)]
  from True assms(1) have "(\<exists>p res. pool w = Some p \<and> GetAccountResource (we_node env) (ep_addr p) = Inr res
      \<and> need \<le> AvailableEnergy res \<and> w' = w)
    \<or> (\<exists>out. AcquireRented (we_energy env) ''withdraw'' addr need (''withdraw-'' @ big_String (w_id row)) w = (w', Inr out))"
    by (auto simp: pay_energy_def HasEnergyFor_def halt_stops split: if_split_asm sum.split_asm prod.split_asm option.split_asm)
  then show ?thesis unfolding if_P [OF True] using rents by blast
qed

text \<open>
  The defects recorded with the findings. The daily sum already contains the order that is checked, so
  an order alone on its day is refused once twice its amount exceeds the limit; and an order whose
  bytes were already handed over is failed, and so refunded, when a later node rejects the same bytes.
\<close>

theorem riskCheck_counts_twice:
  assumes "riskCheck env row w = Inr ''''" and "withdraws w = [row]" and "w_status row = WithdrawCreated"
    and "days_start (we_now env) \<le> w_created_at row" and "SetString (w_amount_units row) = Some amount"
    and "SetString (wd_daily_max_units (cf_withdraw (we_cfg env))) = Some limit" and "0 < limit"
    and "\<not> we_fail env WdDaily"
  shows "2 * amount \<le> limit"
  using riskCheck_pass(4) [OF assms(1,5)] assms(2-8) by (simp add: today_units_def units_of_def)

theorem rebroadcast_refunds_sent:
  assumes "row \<in> set (withdraws w)" and "w_status row = WithdrawBroadcast" and "\<not> we_fail env WdTx"
    and "rebroadcast env row w = (w', Some e)" and "broadcasts w' \<noteq> broadcasts w"
    and "Broadcast (we_node env) (List.last (broadcasts w')) = (Some r, Some e1)"
    and "snd (ClassifyBroadcast (br_code r) (br_message r))"
  shows "withdraw_event_id row \<in> set (event_ids w')
    \<and> (\<exists>r'. r' \<in> set (withdraws w') \<and> w_id r' = w_id row \<and> w_status r' = WithdrawFailed)"
proof -
  let ?hit = "\<lambda>r. w_id r = w_id row \<and> w_status r \<in> {WithdrawSigned, WithdrawBroadcast}"
  have hit: "affected ?hit (withdraws w) \<noteq> 0" using assms(1,2) by (auto simp: affected_zero)
  obtain tx reason fc where f: "fst (finish env row WithdrawFailed reason fc 0 0 (send tx w)) = w'"
    using assms(4-7) by (auto simp: rebroadcast_def Let_def finish_broadcasts
        split: sum.split_asm if_split_asm prod.split_asm option.split_asm) (metis fst_conv)+
  define g where "g = (\<lambda>r :: withdraw_record. r\<lparr>w_status := WithdrawFailed, w_fail_reason := truncate_str
      (if reason = '''' then ''settled as failed without a reported reason'' else reason) 240,
      w_fail_code := (if fc = '''' then FailUnknown else fc), w_energy_used := 0, w_fee_sun := 0,
      w_updated_at := we_now env,
      w_block_number := (if 0 < w_block_number row then w_block_number row else w_block_number r)\<rparr>)"
  have "withdraws w' = update_where ?hit g (withdraws w) \<and> withdraw_event_id row \<in> set (event_ids w')"
    using f hit assms(3)
    by (auto simp: finish_def settle_def Let_def event_ids_announce add_event_def withdraw_event_id_def g_def)
  moreover have "g row \<in> set (update_where ?hit g (withdraws w))"
    using assms(1,2) by (auto simp: set_update_where)
  moreover have "w_id (g row) = w_id row" "w_status (g row) = WithdrawFailed" by (simp_all add: g_def)
  ultimately show ?thesis by metis
qed

section \<open>An instance\<close>

definition withdraw_node :: node_api where
  "withdraw_node = down_node\<lparr>na_trigger_constant := (\<lambda>_ _ _. Inr \<lparr>tg_result = True, tg_code = '''', tg_message = '''',
       tg_constant_result = [hex_EncodeToString (word256 500)], tg_transaction = None, tg_energy_used = 0\<rparr>),
     na_trigger_smart := (\<lambda>_ _ _ _. Inr \<lparr>tg_result = True, tg_code = '''', tg_message = '''',
       tg_constant_result = [], tg_transaction = Some (bare_tx (hex_EncodeToString [7])), tg_energy_used = 0\<rparr>),
     na_account_resource := (\<lambda>_. Inr (zero_resource\<lparr>ar_energy_limit := 100000\<rparr>))\<rparr>"

text \<open>A signer that keeps the contract of \<open>signing\<close> without any policy.\<close>

definition plain_sign :: "sign_request \<Rightarrow> sign_response result" where
  "plain_sign req = (case sr_tx req of
     None \<Rightarrow> Inl db_err
   | Some tx \<Rightarrow> case TxIDFromRawHex (tx_raw_data_hex tx) of
       Inl e \<Rightarrow> Inl e
     | Inr i \<Rightarrow> Inr \<lparr>sp_txid = i, sp_tx = tx\<lparr>tx_id := i, tx_signature := [''00'']\<rparr>\<rparr>)"

interpretation plain: signing plain_sign
  by unfold_locales (auto simp: plain_sign_def split: option.splits sum.splits)

definition withdraw_sample_env :: withdraw_env where
  "withdraw_sample_env = \<lparr>we_cfg = (sample_config (sample_address 9))\<lparr>cf_wallet :=
       (cf_wallet (sample_config (sample_address 9)))\<lparr>wc_hot_wallet := \<lparr>sys_address = sample_address 1, sys_path = ''m/0''\<rparr>\<rparr>\<rparr>,
     we_node = withdraw_node, we_node2 = withdraw_node, we_energy = renting_env, we_sign = plain_sign,
     we_kec = (\<lambda>_. replicate 32 0), we_now = 0, we_lock_fail = False, we_fail = (\<lambda>_. False)\<rparr>"

definition sample_order :: withdraw_record where
  "sample_order = \<lparr>w_id = 1, w_order_no = ''W1'', w_trade_no = ''T1'', w_ext_param = '''', w_merchant_id = ''M'',
     w_chain = ''TRON'', w_symbol = ''USDT'', w_contract = sample_address 9, w_from_address = '''',
     w_to_address = sample_address 5, w_notify_url = '''', w_amount_units = big_String 40, w_amount = '''',
     w_decimals = 6, w_status = WithdrawCreated, w_fail_reason = '''', w_fail_code = '''', w_halt_count = 0,
     w_txid = '''', w_block_number = 0, w_signed_raw = '''', w_expired_at = None, w_energy_used = 0,
     w_fee_sun = 0, w_broadcast_at = None, w_confirmed_at = None, w_created_at = 0, w_updated_at = 0\<rparr>"

definition sample_pool :: energy_pool where
  "sample_pool = \<lparr>ep_addr = sample_address 1, ep_last_hour_used = 0, ep_hour_start = 0\<rparr>"

lemma withdraw_sample_simps [simp]:
  "sys_address (wc_hot_wallet (cf_wallet (we_cfg withdraw_sample_env))) = sample_address 1"
  "WithdrawRentalOn (we_cfg withdraw_sample_env)"
  "token (we_cfg withdraw_sample_env) ''USDT'' =
     Some \<lparr>tc_symbol = ''USDT'', tc_contract = sample_address 9, tc_decimals = 6, tc_enabled = True\<rparr>"
  "wd_max_amount_units (cf_withdraw (we_cfg withdraw_sample_env)) = ''''"
  "wd_daily_max_units (cf_withdraw (we_cfg withdraw_sample_env)) = ''''"
  "we_fail withdraw_sample_env st = False" "we_node withdraw_sample_env = withdraw_node"
  "we_sign withdraw_sample_env = plain_sign" "we_kec withdraw_sample_env = (\<lambda>_. replicate 32 0)"
  "ec_energy_per_tx_new (cf_energy (we_cfg withdraw_sample_env)) = 65000"
  "w_to_address sample_order = sample_address 5" "w_amount_units sample_order = big_String 40"
  "w_symbol sample_order = ''USDT''" "w_id sample_order = 1" "w_status sample_order = WithdrawCreated"
  by (simp_all add: withdraw_sample_env_def sample_config_def WithdrawRentalOn_def RentalOn_def token_def
      tokensCf_def EnabledTokens_def ToUpper_def sample_order_def)

lemma SetString_Nil [simp]: "SetString '''' = None"
  by (simp add: SetString_def)

abbreviation sample_world :: world where
  "sample_world \<equiv> empty_world\<lparr>withdraws := [sample_order], pool := Some sample_pool\<rparr>"

lemma sample_riskCheck: "riskCheck withdraw_sample_env sample_order sample_world = Inr ''''"
  by (simp add: riskCheck_def Let_def IsAddressBlacklisted_def IsInternalWallet_def affected_def empty_world_def)

lemma sample_balance:
  "checkBalance withdraw_sample_env sample_order
     \<lparr>tc_symbol = ''USDT'', tc_contract = sample_address 9, tc_decimals = 6, tc_enabled = True\<rparr>
     (sample_address 1) 40 sample_world = (sample_world, None)"
  by (simp add: checkBalance_def tokenBalance_def EncodeTRC20BalanceOf_def TriggerConstantContract_def
      inflightUnits_def withdraw_node_def ParseUint256_word256 sample_order_def empty_world_def)

lemma default_factor: "DefaultSafetyFactor = 2589569785738035 / 2251799813685248"
proof -
  have "\<lfloor>25895697857380352 / 5 :: rat\<rfloor> = 5179139571476070" by (simp add: floor_eq_iff)
  then show ?thesis
    unfolding DefaultSafetyFactor_def by (subst fl64_eq [where k = 0]) (simp_all add: fl64_simps)
qed

lemma sample_need:
  "EstimateEnergy (cf_energy (we_cfg withdraw_sample_env)) withdraw_node (sample_address 1) (sample_address 9) data = Inr 74750"
proof -
  have "\<lfloor>21040254509121534375 / 4096 :: rat\<rfloor> = 5136780886015999" by (simp add: floor_eq_iff)
  then have "fl64 (65000 * (2589569785738035 / 2251799813685248)) = 74750"
    by (subst fl64_eq [where k = 16]) (simp_all add: fl64_simps)
  moreover have "fl64 65000 = 65000" by (subst fl64_eq [where k = 15]) (simp_all add: fl64_simps)
  ultimately show ?thesis
    by (simp add: EstimateEnergy_def EstimateEnergyFactor_def TriggerConstantContract_def withdraw_node_def
        default_factor float_of_int_def int_of_float_def)
qed

lemma sample_pay:
  "pay_energy withdraw_sample_env sample_order (sample_address 1) 74750 sample_world = (sample_world, None)"
  by (simp add: pay_energy_def HasEnergyFor_def GetAccountResource_def withdraw_node_def sample_pool_def
      AvailableEnergy_def zero_resource_def i64_id in_i64_def)

lemma sample_calldata: "\<exists>data. EncodeTRC20Transfer (\<lambda>_. replicate 32 0) (sample_address 5) 40 = Inr data"
  by (simp add: EncodeTRC20Transfer_def Let_def Bytes_def to_digits.simps)

lemma sample_order_signed: "\<exists>w' p. sign_and_take withdraw_sample_env sample_order
     \<lparr>tc_symbol = ''USDT'', tc_contract = sample_address 9, tc_decimals = 6, tc_enabled = True\<rparr> data sample_world
   = (w', Inr p)"
  by (simp add: sign_and_take_def Let_def BuildTRC20Transfer_def withdraw_node_def plain_sign_def bare_tx_def
      TxIDFromRawHex_def TrimPrefix_def affected_def)

lemma sample_prepare:
  "\<exists>w' p. prepare withdraw_sample_env sample_order sample_world = (w', Inr p)"
proof -
  obtain data where d: "EncodeTRC20Transfer (\<lambda>_. replicate 32 0) (sample_address 5) 40 = Inr data"
    using sample_calldata by blast
  obtain w' p where "sign_and_take withdraw_sample_env sample_order
     \<lparr>tc_symbol = ''USDT'', tc_contract = sample_address 9, tc_decimals = 6, tc_enabled = True\<rparr> data sample_world
     = (w', Inr p)"
    using sample_order_signed by blast
  then show ?thesis
    by (simp add: prepare_def sample_riskCheck d sample_balance sample_need sample_pay Let_def)
qed

text \<open>A run from nothing to a transaction on its way.\<close>

definition sample_start :: withdraw_sys where
  "sample_start = \<lparr>ws_world = empty_world\<lparr>pool := Some sample_pool\<rparr>, ws_read = {}, ws_ready = {}, ws_sent = {}\<rparr>"

lemma sample_start: "withdraw_start sample_start"
  by (simp add: withdraw_start_def sample_start_def empty_world_def withdraw_events_def event_ids_def)

lemma sample_created: "withdraw_step\<^sup>*\<^sup>* sample_start (sample_start\<lparr>ws_world := sample_world\<rparr>)"
proof -
  have "withdraw_step sample_start (sample_start\<lparr>ws_world := sample_world\<rparr>)"
    by (rule withdraw_step.create [where row = sample_order])
      (simp_all add: sample_start_def fresh_order_def empty_world_def withdraw_events_def event_ids_def)
  then show ?thesis by blast
qed

lemma sample_run:
  "\<exists>s tx. withdraw_step\<^sup>*\<^sup>* (sample_start\<lparr>ws_world := sample_world\<rparr>) s \<and> (1, tx) \<in> ws_sent s"
proof -
  let ?s1 = "sample_start\<lparr>ws_world := sample_world\<rparr>"
  let ?s2 = "?s1\<lparr>ws_read := insert sample_order (ws_read ?s1)\<rparr>"
  have "withdraw_step ?s1 ?s2" by (rule withdraw_step.read) simp
  then have a: "withdraw_step\<^sup>*\<^sup>* ?s1 ?s2" by blast
  obtain w' row' tx where p: "prepare withdraw_sample_env sample_order sample_world = (w', Inr (row', tx))"
    using sample_prepare by (metis prod.collapse)
  let ?s3 = "?s2\<lparr>ws_world := w', ws_ready := insert (row', tx) (ws_ready ?s2)\<rparr>"
  have b: "withdraw_step ?s2 ?s3"
    by (rule withdraw_step.prepare_done [where env = withdraw_sample_env and row = sample_order])
      (simp_all add: p plain.signing_axioms)
  obtain w2 e where br: "broadcast withdraw_sample_env row' (w_txid row') tx w' = (w2, e)" by fastforce
  let ?s4 = "?s3\<lparr>ws_world := w2, ws_ready := ws_ready ?s3 - {(row', tx)},
      ws_sent := insert (w_id row', tx) (ws_sent ?s3)\<rparr>"
  have c: "withdraw_step ?s3 ?s4"
    by (rule withdraw_step.broadcast [where env = withdraw_sample_env and e = e]) (simp_all add: br)
  have own: "own_row sample_order sample_order sample_world" by (simp add: own_row_def)
  have "w_id row' = 1" using prepare_evolve [OF own p] by (simp add: same_order_def sample_order_def)
  then have "(1, tx) \<in> ws_sent ?s4" by simp
  moreover have "withdraw_step\<^sup>*\<^sup>* ?s1 ?s4" using a b c by (meson rtranclp.rtrancl_into_rtrancl)
  ultimately show ?thesis by blast
qed



theorem withdraw_one_transaction_witness:
  "\<exists>s tx. withdraw_step\<^sup>*\<^sup>* sample_start s \<and> (1, tx) \<in> ws_sent s
     \<and> (\<exists>r. r \<in> set (withdraws (ws_world s)) \<and> w_id r = 1 \<and> w_txid r = tx_id tx)"
proof -
  obtain s tx where run: "withdraw_step\<^sup>*\<^sup>* sample_start s" "(1, tx) \<in> ws_sent s"
    using sample_run sample_created by (meson rtranclp_trans)
  from withdraw_one_transaction [OF sample_start run(1,2,2)] run show ?thesis by blast
qed

theorem withdraw_forward_witness:
  "\<exists>s. withdraw_step\<^sup>*\<^sup>* (sample_start\<lparr>ws_world := sample_world\<rparr>) s \<and> ws_sent s \<noteq> {}
     \<and> (\<exists>r'. r' \<in> set (withdraws (ws_world s)) \<and> w_id r' = 1 \<and> WithdrawCreated \<le> w_status r')"
proof -
  obtain s tx where run: "withdraw_step\<^sup>*\<^sup>* (sample_start\<lparr>ws_world := sample_world\<rparr>) s" "(1, tx) \<in> ws_sent s"
    using sample_run by blast
  have "withdraw_step\<^sup>*\<^sup>* sample_start (sample_start\<lparr>ws_world := sample_world\<rparr>)"
    using sample_created by blast
  from withdraw_forward [OF sample_start this run(1), of sample_order] obtain r' where
    "r' \<in> set (withdraws (ws_world s))" "w_id r' = 1" "WithdrawCreated \<le> w_status r'"
    by (auto simp: sample_start_def)
  with run show ?thesis by blast
qed

theorem withdraw_announced_once_witness:
  "\<exists>s. withdraw_step\<^sup>*\<^sup>* sample_start s \<and> ws_sent s \<noteq> {} \<and> distinct (withdraw_events (ws_world s))"
proof -
  obtain s tx where run: "withdraw_step\<^sup>*\<^sup>* sample_start s" "(1, tx) \<in> ws_sent s"
    using sample_run sample_created by (meson rtranclp_trans)
  from withdraw_announced_once [OF sample_start run(1)] run show ?thesis by blast
qed


text \<open>Without a pool wallet the energy of the order is rented.\<close>

theorem pay_energy_exclusive_witness:
  "\<exists>w' out. pay_energy withdraw_sample_env sample_order (sample_address 1) 65000 empty_world = (w', None)
     \<and> energy_rented renting_env (sample_address 1) 65000 (''withdraw-'' @ big_String 1) empty_world w' out"
proof -
  have w: "quotes empty_world = []" "energy_orders empty_world = []" "pool empty_world = None"
    by (simp_all add: empty_world_def)
  have e: "we_energy withdraw_sample_env = renting_env" by (simp add: withdraw_sample_env_def)
  obtain w' out where "AcquireRented renting_env ''withdraw'' (sample_address 1) 65000 (''withdraw-'' @ big_String 1) empty_world = (w', Inr out)"
    using renting_rents [OF w(1,2)] by blast
  then have p: "pay_energy withdraw_sample_env sample_order (sample_address 1) 65000 empty_world = (w', None)"
    by (simp add: pay_energy_def w(3) e)
  from pay_energy_exclusive [OF p] p show ?thesis
    unfolding if_P [OF withdraw_sample_simps(2)] e withdraw_sample_simps(14)
    using renting_env_ok(1,2) empty_quotes [OF w(1)] w(3) by auto
qed

text \<open>A receipt that confirms the order, and a halt that gives up on it.\<close>

definition paid_order :: withdraw_record where
  "paid_order = sample_order\<lparr>w_status := WithdrawBroadcast, w_txid := ''ab''\<rparr>"

definition paid_info :: tx_info where
  "paid_info = \<lparr>ti_id = ''ab'', ti_block_number = 5, ti_block_timestamp = 0, ti_contract_address = '''',
     ti_fee = 0, ti_energy_usage_total = 0, ti_net_usage = 0, ti_receipt_result = ''SUCCESS'',
     ti_log = [\<lparr>lg_address = hex_EncodeToString (replicate 20 9), lg_topics =
        [TransferEventTopic (\<lambda>_. replicate 32 0), hex_EncodeToString (replicate 12 0 @ replicate 20 1),
         hex_EncodeToString (replicate 12 0 @ replicate 20 5)],
        lg_data = hex_EncodeToString (word256 40)\<rparr>],
     ti_result = '''', ti_res_message = ''''\<rparr>"

definition paid_node :: node_api where
  "paid_node = withdraw_node\<lparr>na_tx_info := (\<lambda>_ _. Inr paid_info)\<rparr>"

lemma sample_reconcile:
  "\<exists>w' r'. reconcileOne (withdraw_sample_env\<lparr>we_node := paid_node, we_node2 := paid_node\<rparr>) paid_order 0
       (sample_world\<lparr>withdraws := [paid_order]\<rparr>) = (w', None)
     \<and> withdraws w' = [r'] \<and> w_id r' = w_id paid_order \<and> w_status r' = WithdrawConfirmed"
proof -
  have h: "HexToAddress (hex_EncodeToString (replicate 20 9)) = Inr (sample_address 9)"
    "HexToAddress (hex_EncodeToString (replicate 12 0 @ replicate 20 n)) = Inr (sample_address n)" for n
    by (simp_all add: HexToAddress_hex sample_address_def)
  have "transferred (\<lambda>_. replicate 32 0) paid_info paid_order"
    using h by (simp add: transferred_def paid_info_def ParseUint256_word256 paid_order_def sample_order_def EqualFold_def)
  moreover have "Succeeded paid_info"
    by (simp add: Succeeded_def paid_info_def Let_def normResult_def TrimSpace_def is_space_def ToUpper_def upper_char_def)
  moreover have "na_solidity_confirm paid_node" by (simp add: paid_node_def withdraw_node_def down_node_def Let_def)
  moreover have "GetTxInfoByID paid_node ''ab'' = Inr (Some paid_info)"
    "GetTxInfoByIDConfirmed paid_node ''ab'' = Inr (Some paid_info)"
    by (simp_all add: GetTxInfoByID_def GetTxInfoByIDConfirmed_def txInfoByID_def paid_node_def paid_info_def)
  ultimately show ?thesis
    by (simp add: reconcileOne_def finalInfo_def Let_def paid_order_def finish_def settle_def affected_def
        update_where_def announce_def)
qed

theorem reconcileOne_confirmed_witness:
  "\<exists>final lg amount. na_tx_info paid_node True ''ab'' = Inr final
     \<and> lg \<in> set (ti_log final) \<and> SetString (big_String 40) = Some amount \<and> ParseUint256 (lg_data lg) = Some amount"
proof -
  obtain w' r' where r: "reconcileOne (withdraw_sample_env\<lparr>we_node := paid_node, we_node2 := paid_node\<rparr>) paid_order 0
       (sample_world\<lparr>withdraws := [paid_order]\<rparr>) = (w', None)"
     "withdraws w' = [r']" "w_id r' = w_id paid_order" "w_status r' = WithdrawConfirmed"
    using sample_reconcile by blast
  have p: "na_solidity_confirm paid_node" "w_txid paid_order = ''ab''" "w_status paid_order = WithdrawBroadcast"
    "we_node2 (withdraw_sample_env\<lparr>we_node := paid_node, we_node2 := paid_node\<rparr>) = paid_node"
    "SetString (w_amount_units paid_order) = SetString (big_String 40)"
    by (simp_all add: paid_node_def withdraw_node_def down_node_def paid_order_def sample_order_def Let_def)
  from reconcileOne_confirmed [OF r(1), of paid_order r'] r(2-4)
  obtain final where "if na_solidity_confirm paid_node then na_tx_info paid_node True ''ab'' = Inr final else False"
    "\<exists>lg \<in> set (ti_log final). \<exists>amount. SetString (big_String 40) = Some amount \<and> ParseUint256 (lg_data lg) = Some amount"
    by (auto simp: p simp del: SetString_big_String)
  then show ?thesis using p(1) by auto
qed


end
