(* ===== verification/DepositSafety.thy ===== *)
theory DepositSafety
  imports ScannerProps
begin

text \<open>
  The life of the deposit records over any run of the scanner: blocks scanned, confirmations handled
  from rows that were read earlier and may be stale, reorganisations rolled back, in any order, with the
  other workers' writes between them. A credit is an outbox row that announces a deposit.
\<close>

section \<open>The transition system\<close>

record deposit_sys =
  ds_world :: world
  ds_read :: "deposit_record set"

definition credits :: "world \<Rightarrow> (string \<times> string \<times> string \<times> json) list" where
  "credits w = map (\<lambda>o'. (ob_event_id o', ob_account o', ob_merchant_id o', ob_payload o'))
     (filter (\<lambda>o'. take 9 (ob_event_id o') \<noteq> ''withdraw:'') (outbox w))"

definition unswept :: "deposit_record \<Rightarrow> deposit_record" where
  "unswept r = r\<lparr>d_swept := False, d_updated_at := 0\<rparr>"

text \<open>Transaction ids are hexadecimal, so they never start with \<open>withdraw\<close>.\<close>

definition proper_txid :: "string \<Rightarrow> bool" where
  "proper_txid x \<longleftrightarrow> take 8 x \<noteq> ''withdraw''"

inductive deposit_step :: "deposit_sys \<Rightarrow> deposit_sys \<Rightarrow> bool" where
  read: "row \<in> set (deposits (ds_world s)) \<Longrightarrow> d_status row = DepositPending \<Longrightarrow>
    deposit_step s (s\<lparr>ds_read := insert row (ds_read s)\<rparr>)"
| scan: "scanBlock env sc b infos (ds_world s) = (w', e) \<Longrightarrow> \<forall>info \<in> set infos. proper_txid (ti_id info) \<Longrightarrow>
    deposit_step s (s\<lparr>ds_world := w'\<rparr>)"
| confirm: "row \<in> ds_read s \<Longrightarrow> confirmOne env head row (ds_world s) = (w', e) \<Longrightarrow>
    deposit_step s (s\<lparr>ds_world := w'\<rparr>)"
| reorg: "handleReorg env num (ds_world s) = (w', r) \<Longrightarrow> deposit_step s (s\<lparr>ds_world := w'\<rparr>)"
| other: "map unswept (deposits w') = map unswept (deposits (ds_world s)) \<Longrightarrow> credits w' = credits (ds_world s) \<Longrightarrow>
    deposit_step s (s\<lparr>ds_world := w'\<rparr>)"

definition deposit_start :: "deposit_sys \<Rightarrow> bool" where
  "deposit_start s \<longleftrightarrow> deposits (ds_world s) = [] \<and> credits (ds_world s) = [] \<and> ds_read s = {}"

section \<open>The invariant\<close>

definition credited :: "deposit_record \<Rightarrow> bool" where
  "credited r \<longleftrightarrow> d_status r = DepositConfirmed \<and> \<not> d_internal r"

definition credit_of :: "deposit_record \<Rightarrow> string \<times> string \<times> string \<times> json" where
  "credit_of r = (depositEventID r, d_account r, d_merchant_id r, deposit_event r (the (d_confirmed_at r)))"

text \<open>What a record keeps for ever.\<close>

definition origin :: "deposit_record \<Rightarrow> deposit_record" where
  "origin r = r\<lparr>d_status := DepositPending, d_block_number := 0, d_confirmations := 0, d_confirmed_at := None,
     d_updated_at := 0, d_swept := False\<rparr>"

definition table_ok :: "deposit_record list \<Rightarrow> bool" where
  "table_ok t \<longleftrightarrow> distinct (map d_id t) \<and> distinct (map deposit_key t) \<and> (\<forall>r \<in> set t. proper_txid (d_txid r))"

definition deposit_inv :: "deposit_sys \<Rightarrow> bool" where
  "deposit_inv s \<longleftrightarrow> table_ok (deposits (ds_world s))
     \<and> (\<forall>q \<in> ds_read s. \<exists>r \<in> set (deposits (ds_world s)). origin r = origin q)
     \<and> distinct (map fst (credits (ds_world s)))
     \<and> set (credits (ds_world s)) = credit_of ` set (filter credited (deposits (ds_world s)))"

lemma depositEventID_inj: "depositEventID r = depositEventID q \<longleftrightarrow> deposit_key r = deposit_key q"
proof
  assume "depositEventID r = depositEventID q"
  then show "deposit_key r = deposit_key q"
    using split_colon [of "d_txid r" "big_String (d_event_index r)" "d_txid q" "big_String (d_event_index q)"]
    by (auto simp: depositEventID_def deposit_key_def colon_not_digit big_String_inject)
qed (simp add: depositEventID_def deposit_key_def)

lemma depositEventID_credit:
  assumes "proper_txid (d_txid r)"
  shows "take 9 (depositEventID r) \<noteq> ''withdraw:''"
proof
  assume eq: "take 9 (depositEventID r) = ''withdraw:''"
  show False
  proof (cases "8 \<le> length (d_txid r)")
    case True
    have "take 8 (take 9 (depositEventID r)) = take 8 (d_txid r)" using True by (simp add: depositEventID_def)
    then show False using assms eq by (simp add: proper_txid_def)
  next
    case False
    then have n: "length (d_txid r) < 8" by simp
    then have "take 9 (depositEventID r) ! length (d_txid r) = CHR '':''"
      by (simp add: depositEventID_def nth_append)
    moreover have "''withdraw:'' ! k \<noteq> CHR '':''" if "k < 8" for k :: nat
    proof -
      have "k \<in> {0, 1, 2, 3, 4, 5, 6, 7}" using that by auto
      then show ?thesis by auto
    qed
    ultimately show False using n unfolding eq by blast
  qed
qed

lemma credits_Enqueue:
  "credits (EnqueueOutbox now ev ty ac m u p w) =
     (if ev \<in> set (event_ids w) \<or> take 9 ev = ''withdraw:'' then credits w else credits w @ [(ev, ac, m, p)])"
  by (auto simp: EnqueueOutbox_def credits_def event_ids_def image_iff)

lemma credits_ids:
  "take 9 ev \<noteq> ''withdraw:'' \<Longrightarrow> ev \<in> set (event_ids w) \<longleftrightarrow> ev \<in> set (map fst (credits w))"
  by (force simp: credits_def event_ids_def)

lemma set_filter_update:
  "set (filter q (update_where p f t)) =
     {r \<in> set t. q r \<and> \<not> p r} \<union> {f r |r. r \<in> set t \<and> p r \<and> q (f r)}"
  by (auto simp: set_update_where)

lemma origin_map:
  assumes "map origin t' = map origin t"
  shows "table_ok t' = table_ok t" and "(\<exists>r \<in> set t'. origin r = x) \<longleftrightarrow> (\<exists>r \<in> set t. origin r = x)"
proof -
  have cols: "map d_id t = map d_id (map origin t)" "map deposit_key t = map deposit_key (map origin t)"
    "(\<forall>r \<in> set t. proper_txid (d_txid r)) \<longleftrightarrow> (\<forall>r \<in> set (map origin t). proper_txid (d_txid r))" for t
    by (simp_all add: comp_def origin_def deposit_key_def)
  show "table_ok t' = table_ok t"
    unfolding table_ok_def cols(1,2) [of t] cols(1,2) [of t'] cols(3) [of t] cols(3) [of t'] assms by (rule refl)
  have ex: "(\<exists>r \<in> set t. origin r = x) \<longleftrightarrow> x \<in> set (map origin t)" for t by auto
  show "(\<exists>r \<in> set t'. origin r = x) \<longleftrightarrow> (\<exists>r \<in> set t. origin r = x)" unfolding ex assms by (rule refl)
qed

text \<open>A step that keeps the records' origins and the credits keeps the invariant.\<close>

lemma inv_same_origin:
  assumes "deposit_inv s" and "map origin (deposits w') = map origin (deposits (ds_world s))"
    and "distinct (map fst (credits w'))"
    and "set (credits w') = credit_of ` set (filter credited (deposits w'))"
  shows "deposit_inv (s\<lparr>ds_world := w'\<rparr>)"
  using assms by (simp add: deposit_inv_def origin_map [OF assms(2)])

section \<open>Every step keeps it\<close>

lemma insert_deposit_ok:
  assumes "table_ok t" and "proper_txid (d_txid d)" and "d_status d = DepositPending"
  shows "table_ok (insert_deposit d t)" and "filter credited (insert_deposit d t) = filter credited t"
    and "set t \<subseteq> set (insert_deposit d t)"
  using assms fresh_id_not_in [of "map d_id t"]
  by (auto simp: insert_deposit_def table_ok_def credited_def deposit_key_def image_iff)

lemma insert_all_ok:
  assumes "table_ok t" and "\<And>d. d \<in> set ds \<Longrightarrow> proper_txid (d_txid d) \<and> d_status d = DepositPending"
  shows "table_ok (foldl (\<lambda>t d. insert_deposit d t) t ds)
    \<and> filter credited (foldl (\<lambda>t d. insert_deposit d t) t ds) = filter credited t
    \<and> set t \<subseteq> set (foldl (\<lambda>t d. insert_deposit d t) t ds)"
  using assms
proof (induction ds arbitrary: t)
  case (Cons d ds)
  have d: "proper_txid (d_txid d)" "d_status d = DepositPending" using Cons.prems(2) by auto
  note one = insert_deposit_ok [OF Cons.prems(1) d]
  show ?case using Cons.IH [OF one(1)] Cons.prems(2) one(2,3) by auto
qed simp

lemma parsed_pending:
  assumes "parse_infos env s w b infos = Inr rs" and "\<forall>info \<in> set infos. proper_txid (ti_id info)" and "d \<in> set rs"
  shows "proper_txid (d_txid d) \<and> d_status d = DepositPending"
proof -
  have "proper_txid (d_txid d) \<and> d_status d = DepositPending"
    if "info \<in> set infos" "parseLog env s w b info i lg = Inr (Some d)" for info i lg
    using that assms(2) by (auto simp: parseLog_def deposit_of_def split: option.splits if_splits sum.splits)
  then show ?thesis using assms(3) unfolding parse_infos_set [OF assms(1)] by blast
qed

lemma scanBlock_inv:
  assumes "deposit_inv s" and "scanBlock env sc b infos (ds_world s) = (w', e)"
    and "\<forall>info \<in> set infos. proper_txid (ti_id info)"
  shows "deposit_inv (s\<lparr>ds_world := w'\<rparr>)"
proof (cases "w' = ds_world s")
  case False
  then obtain rs where rs: "parse_infos env sc (ds_world s) b infos = Inr rs"
    and w': "deposits w' = foldl (\<lambda>t d. insert_deposit d t) (deposits (ds_world s)) rs" "credits w' = credits (ds_world s)"
    using assms(2) by (auto simp: scanBlock_def credits_def split: sum.splits if_splits)
  have "table_ok (deposits (ds_world s))" using assms(1) by (simp add: deposit_inv_def)
  from insert_all_ok [OF this parsed_pending [OF rs assms(3)]] show ?thesis
    using assms(1) by (auto simp: deposit_inv_def w') blast
qed (use assms(1) in simp)

lemma orphan_inv:
  assumes "deposit_inv s" and "credits w' = credits (ds_world s)" and "\<And>r. p r \<Longrightarrow> d_status r = DepositPending"
    and "deposits w' = update_where p (\<lambda>r. r\<lparr>d_status := DepositOrphaned, d_updated_at := now\<rparr>) (deposits (ds_world s))"
  shows "deposit_inv (s\<lparr>ds_world := w'\<rparr>)"
proof (rule inv_same_origin [OF assms(1)])
  show "map origin (deposits w') = map origin (deposits (ds_world s))"
    unfolding assms(4) by (rule map_update_where) (simp add: origin_def)
  show "distinct (map fst (credits w'))" using assms(1,2) by (simp add: deposit_inv_def)
  have "set (filter credited (deposits w')) = set (filter credited (deposits (ds_world s)))"
    unfolding assms(4) set_filter_update using assms(3) by (auto simp: credited_def)
  then show "set (credits w') = credit_of ` set (filter credited (deposits w'))"
    using assms(1,2) by (simp add: deposit_inv_def)
qed

lemma origin_fields:
  assumes "origin a = origin b"
  shows "d_id a = d_id b" "deposit_key a = deposit_key b" "d_internal a = d_internal b" "d_account a = d_account b"
    "d_merchant_id a = d_merchant_id b" "depositEventID a = depositEventID b" "d_txid a = d_txid b"
    "d_block_number a = n \<Longrightarrow> d_block_number b = n \<Longrightarrow> deposit_event a = deposit_event b"
proof -
  have eq: "f (origin a) = f (origin b)" for f :: "deposit_record \<Rightarrow> 'x" using assms by simp
  show "d_id a = d_id b" "d_internal a = d_internal b" "d_account a = d_account b"
    "d_merchant_id a = d_merchant_id b" "d_txid a = d_txid b"
    using eq [of d_id] eq [of d_internal] eq [of d_account] eq [of d_merchant_id] eq [of d_txid]
    by (simp_all add: origin_def)
  show "deposit_key a = deposit_key b" using eq [of deposit_key] by (simp add: origin_def deposit_key_def)
  show "depositEventID a = depositEventID b" using eq [of depositEventID] by (simp add: origin_def depositEventID_def)
  show "d_block_number a = n \<Longrightarrow> d_block_number b = n \<Longrightarrow> deposit_event a = deposit_event b"
    using eq [of deposit_event] by (simp add: origin_def deposit_event_def depositEventID_def fun_eq_iff)
qed

text \<open>A confirmation that hits its row announces it unless the payer is one of our own wallets.\<close>

lemma confirmOne_cases:
  assumes "confirmOne env head row w = (w', e)"
  shows "w' = w
    \<or> (credits w' = credits w \<and> deposits w' = update_where (is_pending (d_id row))
         (\<lambda>r. r\<lparr>d_status := DepositOrphaned, d_updated_at := sn_now env\<rparr>) (deposits w))
    \<or> (\<exists>info now cf. GetTxInfoByID (sn_node2 env) (d_txid row) = Inr (Some info) \<and> Succeeded info
        \<and> (\<exists>r \<in> set (deposits w). is_pending (d_id row) r)
        \<and> deposits w' = update_where (is_pending (d_id row))
            (\<lambda>r. r\<lparr>d_status := DepositConfirmed, d_block_number := ti_block_number info, d_confirmations := cf,
                   d_confirmed_at := Some now, d_updated_at := now\<rparr>) (deposits w)
        \<and> credits w' = (if d_internal row \<or> depositEventID row \<in> set (event_ids w)
              \<or> take 9 (depositEventID row) = ''withdraw:'' then credits w
            else credits w @ [(depositEventID row, d_account row, d_merchant_id row,
                   deposit_event (row\<lparr>d_block_number := ti_block_number info\<rparr>) now)]))"
proof -
  consider (none) "w' = w"
    | (orphan) "w' = w\<lparr>deposits := update_where (is_pending (d_id row))
         (\<lambda>r. r\<lparr>d_status := DepositOrphaned, d_updated_at := sn_now env\<rparr>) (deposits w)\<rparr>"
    | (conf) info where "GetTxInfoByID (sn_node2 env) (d_txid row) = Inr (Some info)" "Succeeded info"
        "affected (is_pending (d_id row)) (deposits w) \<noteq> 0"
    using assms by (auto simp: confirmOne_def Let_def split: sum.splits option.splits if_splits)
  then show ?thesis
  proof cases
    case orphan
    then show ?thesis by (simp add: credits_def)
  next
    case conf
    have ex: "\<exists>r \<in> set (deposits w). is_pending (d_id row) r" using conf(3) by (simp add: affected_zero)
    have id: "depositEventID (row\<lparr>d_block_number := n\<rparr>) = depositEventID row" for n by (simp add: depositEventID_def)
    have dep: "credits (w\<lparr>deposits := t\<rparr>) = credits w" "event_ids (w\<lparr>deposits := t\<rparr>) = event_ids w" for t
      by (simp_all add: credits_def event_ids_def)
    have "w' = w \<or> (deposits w' = update_where (is_pending (d_id row))
            (\<lambda>r. r\<lparr>d_status := DepositConfirmed, d_block_number := ti_block_number info,
                   d_confirmations := i64 (head - ti_block_number info),
                   d_confirmed_at := Some (sn_now env), d_updated_at := sn_now env\<rparr>) (deposits w)
        \<and> credits w' = (if d_internal row \<or> depositEventID row \<in> set (event_ids w)
              \<or> take 9 (depositEventID row) = ''withdraw:'' then credits w
            else credits w @ [(depositEventID row, d_account row, d_merchant_id row,
                   deposit_event (row\<lparr>d_block_number := ti_block_number info\<rparr>) (sn_now env))]))"
      using assms conf by (auto simp: confirmOne_def Let_def credits_Enqueue id dep split: if_splits)
    then show ?thesis using conf(1,2) ex by blast
  qed simp
qed

lemma confirmOne_inv:
  assumes inv: "deposit_inv s" and row: "row \<in> ds_read s" and cf: "confirmOne env head row (ds_world s) = (w', e)"
  shows "deposit_inv (s\<lparr>ds_world := w'\<rparr>)"
proof -
  let ?w = "ds_world s"
  obtain r0 where r0: "r0 \<in> set (deposits ?w)" "origin r0 = origin row" using inv row unfolding deposit_inv_def by blast
  note fld = origin_fields [OF r0(2)]
  have tab: "table_ok (deposits ?w)" using inv by (simp add: deposit_inv_def)
  have only: "r = r0" if "r \<in> set (deposits ?w)" "d_id r = d_id row" for r
  proof -
    have "inj_on d_id (set (deposits ?w))" using tab by (simp add: table_ok_def distinct_map)
    moreover have "d_id r = d_id r0" using that(2) fld(1) by simp
    ultimately show ?thesis using that(1) r0(1) by (simp only: inj_on_eq_iff)
  qed
  from confirmOne_cases [OF cf] show ?thesis
  proof (elim disjE conjE)
    assume cr: "credits w' = credits ?w" and dep: "deposits w' = update_where (is_pending (d_id row))
         (\<lambda>r. r\<lparr>d_status := DepositOrphaned, d_updated_at := sn_now env\<rparr>) (deposits ?w)"
    show ?thesis by (rule orphan_inv [OF inv cr _ dep]) (simp add: is_pending_def)
  next
    assume "\<exists>info now n. GetTxInfoByID (sn_node2 env) (d_txid row) = Inr (Some info) \<and> Succeeded info
        \<and> (\<exists>r \<in> set (deposits ?w). is_pending (d_id row) r)
        \<and> deposits w' = update_where (is_pending (d_id row))
            (\<lambda>r. r\<lparr>d_status := DepositConfirmed, d_block_number := ti_block_number info, d_confirmations := n,
                   d_confirmed_at := Some now, d_updated_at := now\<rparr>) (deposits ?w)
        \<and> credits w' = (if d_internal row \<or> depositEventID row \<in> set (event_ids ?w)
              \<or> take 9 (depositEventID row) = ''withdraw:'' then credits ?w
            else credits ?w @ [(depositEventID row, d_account row, d_merchant_id row,
                   deposit_event (row\<lparr>d_block_number := ti_block_number info\<rparr>) now)])"
    then obtain info :: tx_info and now n where conf: "\<exists>r \<in> set (deposits ?w). is_pending (d_id row) r"
        "deposits w' = update_where (is_pending (d_id row))
            (\<lambda>r. r\<lparr>d_status := DepositConfirmed, d_block_number := ti_block_number info, d_confirmations := n,
                   d_confirmed_at := Some now, d_updated_at := now\<rparr>) (deposits ?w)"
        "credits w' = (if d_internal row \<or> depositEventID row \<in> set (event_ids ?w)
              \<or> take 9 (depositEventID row) = ''withdraw:'' then credits ?w
            else credits ?w @ [(depositEventID row, d_account row, d_merchant_id row,
                   deposit_event (row\<lparr>d_block_number := ti_block_number info\<rparr>) now)])"
      by blast
    let ?f = "\<lambda>r. r\<lparr>d_status := DepositConfirmed, d_block_number := ti_block_number info, d_confirmations := n,
                   d_confirmed_at := Some now, d_updated_at := now\<rparr>"
    have p0: "is_pending (d_id row) r \<longleftrightarrow> r = r0" if "r \<in> set (deposits ?w)" for r
      using that conf(1) only by (metis is_pending_def)
    have pend: "d_status r0 = DepositPending" using p0 [OF r0(1)] by (simp add: is_pending_def)
    have proper: "take 9 (depositEventID row) \<noteq> ''withdraw:''"
      using tab r0(1) fld(7) depositEventID_credit [of row] by (auto simp: table_ok_def)
    have ids: "fst ` set (credits ?w) = depositEventID ` {r \<in> set (deposits ?w). credited r}"
      using inv by (simp add: deposit_inv_def image_image credit_of_def)
    have fresh: "depositEventID row \<notin> set (map fst (credits ?w))"
    proof
      assume "depositEventID row \<in> set (map fst (credits ?w))"
      then obtain r where r: "r \<in> set (deposits ?w)" "credited r" "depositEventID r = depositEventID r0"
        using ids fld(6) by auto
      moreover have "inj_on deposit_key (set (deposits ?w))" using tab by (simp add: table_ok_def distinct_map)
      moreover have "deposit_key r = deposit_key r0" using calculation(3) by (simp only: depositEventID_inj)
      ultimately have "r = r0" using r0(1) inj_on_eq_iff [of deposit_key "set (deposits ?w)" r r0] by blast
      then show False using r(2) pend by (simp add: credited_def)
    qed
    then have "depositEventID row \<notin> set (event_ids ?w)" using credits_ids [OF proper] by blast
    moreover have "credit_of (?f r0) = (depositEventID row, d_account row, d_merchant_id row,
        deposit_event (row\<lparr>d_block_number := ti_block_number info\<rparr>) now)"
    proof -
      have "origin (row\<lparr>d_block_number := ti_block_number info\<rparr>) = origin row" "origin (?f r0) = origin r0"
        by (simp_all add: origin_def)
      then have "origin (?f r0) = origin (row\<lparr>d_block_number := ti_block_number info\<rparr>)" using r0(2) by simp
      from origin_fields(8) [OF this] have
        "deposit_event (?f r0) = deposit_event (row\<lparr>d_block_number := ti_block_number info\<rparr>)" by simp
      moreover have "depositEventID (?f r0) = depositEventID r0" by (simp add: depositEventID_def)
      ultimately show ?thesis using fld(4-6) by (simp add: credit_of_def)
    qed
    ultimately have cr: "credits w' = (if d_internal row then credits ?w else credits ?w @ [credit_of (?f r0)])"
      using conf(3) proper by (simp only: simp_thms)
    have set1: "{r \<in> set (deposits ?w). credited r \<and> \<not> is_pending (d_id row) r} = set (filter credited (deposits ?w))"
      by (auto simp: credited_def is_pending_def)
    have set2: "{?f r |r. r \<in> set (deposits ?w) \<and> is_pending (d_id row) r \<and> credited (?f r)} =
        (if d_internal row then {} else {?f r0})"
    proof -
      have "credited (?f r0) \<longleftrightarrow> \<not> d_internal row" using fld(3) by (simp add: credited_def)
      moreover have "r \<in> set (deposits ?w) \<and> is_pending (d_id row) r \<and> credited (?f r) \<longleftrightarrow> r = r0 \<and> credited (?f r0)" for r
        using p0 r0(1) by blast
      ultimately show ?thesis by simp
    qed
    have done': "set (filter credited (deposits w')) =
        set (filter credited (deposits ?w)) \<union> (if d_internal row then {} else {?f r0})"
      unfolding conf(2) set_filter_update set1 set2 by (rule refl)
    show ?thesis
    proof (rule inv_same_origin [OF inv])
      show "map origin (deposits w') = map origin (deposits ?w)"
        unfolding conf(2) by (rule map_update_where) (simp add: origin_def)
      show "distinct (map fst (credits w'))"
        using inv fresh fld(6) unfolding cr by (simp add: deposit_inv_def credit_of_def depositEventID_def)
      have "set (credits ?w) = credit_of ` set (filter credited (deposits ?w))"
        using inv by (simp only: deposit_inv_def)
      then show "set (credits w') = credit_of ` set (filter credited (deposits w'))"
        unfolding cr done' by (simp add: image_Un del: set_filter)
    qed
  qed (use inv in simp)
qed

lemma unswept_map:
  assumes "map unswept t' = map unswept t"
  shows "map origin t' = map origin t" and "credit_of ` set (filter credited t') = credit_of ` set (filter credited t)"
proof -
  have "map origin t = map origin (map unswept t)" for t by (simp add: comp_def origin_def unswept_def)
  then show "map origin t' = map origin t" by (metis assms)
  have "credit_of (unswept r) = credit_of r" "credited (unswept r) = credited r" for r
    by (simp_all add: credit_of_def credited_def unswept_def depositEventID_def deposit_event_def)
  then have "credit_of ` set (filter credited t) = credit_of ` set (filter credited (map unswept t))" for t
    by (force simp: image_iff)
  then show "credit_of ` set (filter credited t') = credit_of ` set (filter credited t)" by (metis assms)
qed

lemma handleReorg_rows:
  assumes "handleReorg env num w = (w', r)"
  shows "w' = w \<or> (\<exists>fork. deposits w' = update_where (\<lambda>r. fork < d_block_number r \<and> d_status r = DepositPending)
         (\<lambda>r. r\<lparr>d_status := DepositOrphaned, d_updated_at := sn_now env\<rparr>) (deposits w) \<and> credits w' = credits w)"
proof (cases r)
  case (Inl e)
  then show ?thesis using assms by (auto simp: handleReorg_def Let_def split: sum.splits if_splits)
next
  case (Inr c)
  then obtain fork where "deposits w' = update_where (\<lambda>r. fork < d_block_number r \<and> d_status r = DepositPending)
         (\<lambda>r. r\<lparr>d_status := DepositOrphaned, d_updated_at := sn_now env\<rparr>) (deposits w)" "outbox w' = outbox w"
    using assms by (auto simp: handleReorg_def Let_def split: sum.splits if_splits)
  then show ?thesis unfolding credits_def by metis
qed

lemma deposit_step_inv: "deposit_step s s' \<Longrightarrow> deposit_inv s \<Longrightarrow> deposit_inv s'"
proof (induction rule: deposit_step.induct)
  case (read row s)
  then show ?case by (auto simp: deposit_inv_def)
next
  case (scan env sc b infos s w' e)
  then show ?case using scanBlock_inv by blast
next
  case (confirm row s env head w' e)
  then show ?case using confirmOne_inv by blast
next
  case (reorg env num s w' r)
  then show ?case
  proof (cases "w' = ds_world s")
    case False
    with handleReorg_rows [OF reorg(1)] obtain fork where
      dep: "deposits w' = update_where (\<lambda>r. fork < d_block_number r \<and> d_status r = DepositPending)
         (\<lambda>r. r\<lparr>d_status := DepositOrphaned, d_updated_at := sn_now env\<rparr>) (deposits (ds_world s))"
      and cr: "credits w' = credits (ds_world s)" by blast
    show ?thesis by (rule orphan_inv [OF reorg(2) cr _ dep]) simp
  qed simp
next
  case (other w' s)
  have "distinct (map fst (credits (ds_world s)))" "set (credits (ds_world s)) = credit_of ` set (filter credited (deposits (ds_world s)))"
    using other(3) by (simp_all only: deposit_inv_def)
  then show ?case
    using inv_same_origin [OF other(3) unswept_map(1) [OF other(1)]] unswept_map(2) [OF other(1)] other(2) by simp
qed

lemma deposit_start_inv: "deposit_start s \<Longrightarrow> deposit_inv s"
  by (simp add: deposit_start_def deposit_inv_def table_ok_def)

lemma deposit_run_inv: "deposit_step\<^sup>*\<^sup>* s s' \<Longrightarrow> deposit_inv s \<Longrightarrow> deposit_inv s'"
  by (induction rule: rtranclp_induct) (auto intro: deposit_step_inv)

lemma table_forward:
  assumes "r \<in> set t" and "\<And>x. p x \<Longrightarrow> d_status x = DepositPending \<and> deposit_key (f x) = deposit_key x"
  shows "\<exists>r' \<in> set (update_where p f t). deposit_key r' = deposit_key r \<and> d_status r \<le> d_status r'"
proof (rule update_where_forward [OF assms(1)])
  fix x assume "p x"
  moreover have "DepositPending \<le> s" for s by (cases s) (simp_all add: less_eq_deposit_state_def)
  ultimately show "deposit_key (f x) = deposit_key x \<and> d_status x \<le> d_status (f x)" using assms(2) by simp
qed

interpretation deposit_rows: forward_table "\<lambda>s. deposits (ds_world s)" deposit_key d_status
  "\<lambda>s s'. deposit_inv s \<and> deposit_step s s'"
proof
  fix s s' r
  assume st: "deposit_inv s \<and> deposit_step s s'" and r: "r \<in> set (deposits (ds_world s))"
  let ?P = "\<lambda>w. \<exists>r' \<in> set (deposits w). deposit_key r' = deposit_key r \<and> d_status r \<le> d_status r'"
  have same: "?P w" if "set (deposits (ds_world s)) \<subseteq> set (deposits w)" for w using that r by blast
  from st have "deposit_step s s'" ..
  then show "?P (ds_world s')"
  proof (cases rule: deposit_step.cases)
    case (scan env sc b infos w' e)
    have "set (deposits (ds_world s)) \<subseteq> set (deposits w')"
    proof (cases "w' = ds_world s")
      case False
      then obtain rs where rs: "parse_infos env sc (ds_world s) b infos = Inr rs"
        and w': "deposits w' = foldl (\<lambda>t d. insert_deposit d t) (deposits (ds_world s)) rs"
        using scan(2) by (auto simp: scanBlock_def split: sum.splits if_splits)
      have "table_ok (deposits (ds_world s))" using st by (simp add: deposit_inv_def)
      from insert_all_ok [OF this parsed_pending [OF rs scan(3)]] show ?thesis by (simp add: w')
    qed simp
    then show ?thesis using same scan(1) by simp
  next
    case (confirm row env head w' e)
    note tf = table_forward [OF r, of "is_pending (d_id row)"]
    from confirmOne_cases [OF confirm(3)] show ?thesis
    proof (elim disjE exE conjE)
      assume "deposits w' = update_where (is_pending (d_id row))
         (\<lambda>r. r\<lparr>d_status := DepositOrphaned, d_updated_at := sn_now env\<rparr>) (deposits (ds_world s))"
      then show ?thesis
        using tf [of "\<lambda>r. r\<lparr>d_status := DepositOrphaned, d_updated_at := sn_now env\<rparr>"] confirm(1)
        by (simp add: is_pending_def deposit_key_def)
    next
      fix info :: tx_info and now n
      assume "deposits w' = update_where (is_pending (d_id row))
         (\<lambda>r. r\<lparr>d_status := DepositConfirmed, d_block_number := ti_block_number info, d_confirmations := n,
                   d_confirmed_at := Some now, d_updated_at := now\<rparr>) (deposits (ds_world s))"
      then show ?thesis
        using tf [of "\<lambda>r. r\<lparr>d_status := DepositConfirmed, d_block_number := ti_block_number info, d_confirmations := n,
                   d_confirmed_at := Some now, d_updated_at := now\<rparr>"] confirm(1)
        by (simp add: is_pending_def deposit_key_def)
    qed (use same [OF subset_refl] confirm(1) in simp)
  next
    case (reorg env num w' e)
    show ?thesis
    proof (cases "w' = ds_world s")
      case False
      with handleReorg_rows [OF reorg(2)] obtain fork where
        "deposits w' = update_where (\<lambda>r. fork < d_block_number r \<and> d_status r = DepositPending)
           (\<lambda>r. r\<lparr>d_status := DepositOrphaned, d_updated_at := sn_now env\<rparr>) (deposits (ds_world s))" by blast
      then show ?thesis using table_forward [OF r, of "\<lambda>r. fork < d_block_number r \<and> d_status r = DepositPending"
          "\<lambda>r. r\<lparr>d_status := DepositOrphaned, d_updated_at := sn_now env\<rparr>"] reorg(1)
        by (simp add: deposit_key_def)
    qed (use same [OF subset_refl] reorg(1) in simp)
  next
    case (other w')
    have "unswept r \<in> set (map unswept (deposits w'))" using r by (simp only: other(2)) simp
    then obtain r' where r': "r' \<in> set (deposits w')" "unswept r' = unswept r" by auto
    have "deposit_key (unswept r') = deposit_key (unswept r)" "d_status (unswept r') = d_status (unswept r)"
      using r'(2) by simp_all
    then show ?thesis using r'(1) other(1) by (auto simp: unswept_def deposit_key_def)
  qed (use same [OF subset_refl] in simp)
qed

lemma deposit_run_with_inv:
  assumes "deposit_step\<^sup>*\<^sup>* s s'" and "deposit_inv s"
  shows "(\<lambda>s s'. deposit_inv s \<and> deposit_step s s')\<^sup>*\<^sup>* s s'"
  using assms
proof (induction rule: rtranclp_induct)
  case (step y z)
  then show ?case using deposit_run_inv [of s y] by (auto intro: rtranclp.rtrancl_into_rtrancl)
qed simp

section \<open>Credits\<close>

text \<open>C2. A deposit is credited exactly once. Over any run of the scanner, with stale reads, replayed blocks
  and reorganisations, the credits announced are, with no repetition, one for each record that is
  confirmed and not an internal transfer, addressed to the record's account and merchant with the
  record's own transaction, amount and token; a record that is confirmed or orphaned stays so for ever.\<close>

theorem deposits_credited_once:
  assumes "deposit_start s" and "deposit_step\<^sup>*\<^sup>* s s1" and "deposit_step\<^sup>*\<^sup>* s1 s2"
  shows "distinct (map fst (credits (ds_world s2)))
    \<and> set (credits (ds_world s2)) = credit_of ` {r. r \<in> set (deposits (ds_world s2)) \<and> d_status r = DepositConfirmed \<and> \<not> d_internal r}
    \<and> distinct (map depositEventID (deposits (ds_world s2)))
    \<and> (\<forall>r. r \<in> set (deposits (ds_world s1)) \<and> d_status r \<noteq> DepositPending \<longrightarrow>
          (\<exists>r'. r' \<in> set (deposits (ds_world s2)) \<and> deposit_key r' = deposit_key r \<and> d_status r' = d_status r))"
proof -
  have inv1: "deposit_inv s1" using assms(1,2) deposit_run_inv deposit_start_inv by blast
  then have inv: "deposit_inv s2" using assms(3) deposit_run_inv by blast
  have keys: "distinct (map deposit_key (deposits (ds_world s2)))" using inv by (simp add: deposit_inv_def table_ok_def)
  then have "distinct (map depositEventID (deposits (ds_world s2)))"
    by (simp add: distinct_map inj_on_def depositEventID_inj)
  moreover have "\<exists>r'. r' \<in> set (deposits (ds_world s2)) \<and> deposit_key r' = deposit_key r \<and> d_status r' = d_status r"
    if "r \<in> set (deposits (ds_world s1))" "d_status r \<noteq> DepositPending" for r
    using deposit_rows.final_kept [OF deposit_run_with_inv [OF assms(3) inv1] that(1)] deposit_final [OF that(2)] by blast
  moreover have "{r. r \<in> set (deposits (ds_world s2)) \<and> d_status r = DepositConfirmed \<and> \<not> d_internal r} =
      set (filter credited (deposits (ds_world s2)))" by (auto simp: credited_def)
  ultimately show ?thesis using inv by (simp add: deposit_inv_def)
qed

section \<open>A tick is a run\<close>

definition runs_to :: "deposit_sys \<Rightarrow> world \<Rightarrow> bool" where
  "runs_to y w' \<longleftrightarrow> (\<exists>y'. ds_world y' = w' \<and> deposit_step\<^sup>*\<^sup>* y y')"

lemma runs_to_refl: "runs_to y (ds_world y)"
  unfolding runs_to_def by blast

lemma runs_to_trans:
  assumes "deposit_step\<^sup>*\<^sup>* y y'" and "runs_to y' w'"
  shows "runs_to y w'"
proof -
  obtain z where z: "ds_world z = w'" "deposit_step\<^sup>*\<^sup>* y' z" using assms(2) by (auto simp: runs_to_def)
  have "deposit_step\<^sup>*\<^sup>* y z" using assms(1) z(2) by (rule rtranclp_trans)
  then show ?thesis using z(1) by (auto simp: runs_to_def)
qed

lemma runs_to_step: "deposit_step y y' \<Longrightarrow> runs_to y' w' \<Longrightarrow> runs_to y w'"
  by (rule runs_to_trans [OF r_into_rtranclp])

lemma runs_to_quiet:
  assumes "deposits w' = deposits (ds_world y)" and "outbox w' = outbox (ds_world y)" and "runs_to (y\<lparr>ds_world := w'\<rparr>) w2"
  shows "runs_to y w2"
  by (rule runs_to_step [OF deposit_step.other assms(3)]) (simp_all add: assms(1,2) credits_def)

lemma read_rows:
  assumes "\<And>r. r \<in> set rs \<Longrightarrow> r \<in> set (deposits (ds_world y)) \<and> d_status r = DepositPending"
  shows "\<exists>y'. ds_world y' = ds_world y \<and> set rs \<subseteq> ds_read y' \<and> deposit_step\<^sup>*\<^sup>* y y'"
  using assms
proof (induction rs)
  case (Cons r rs)
  then obtain y' where y': "ds_world y' = ds_world y" "set rs \<subseteq> ds_read y'" "deposit_step\<^sup>*\<^sup>* y y'" by auto
  have "deposit_step y' (y'\<lparr>ds_read := insert r (ds_read y')\<rparr>)"
    using Cons.prems [of r] y'(1) by (intro deposit_step.read) simp_all
  with y' show ?case
    by (intro exI [of _ "y'\<lparr>ds_read := insert r (ds_read y')\<rparr>"]) (auto intro: rtranclp.rtrancl_into_rtrancl)
qed auto

lemma confirm_rows:
  "set rs \<subseteq> ds_read y \<Longrightarrow> \<exists>y'. ds_world y' = foldl (\<lambda>w r. fst (confirmOne env head r w)) (ds_world y) rs
     \<and> deposit_step\<^sup>*\<^sup>* y y'"
proof (induction rs arbitrary: y)
  case (Cons r rs)
  obtain w1 e where c: "confirmOne env head r (ds_world y) = (w1, e)" by fastforce
  have st: "deposit_step y (y\<lparr>ds_world := w1\<rparr>)" using Cons.prems c by (intro deposit_step.confirm) auto
  have "set rs \<subseteq> ds_read (y\<lparr>ds_world := w1\<rparr>)" using Cons.prems by simp
  from Cons.IH [OF this] obtain y' where
    y': "ds_world y' = foldl (\<lambda>w r. fst (confirmOne env head r w)) w1 rs" "deposit_step\<^sup>*\<^sup>* (y\<lparr>ds_world := w1\<rparr>) y'" by auto
  have "deposit_step\<^sup>*\<^sup>* y y'" using st y'(2) by (rule converse_rtranclp_into_rtranclp)
  then show ?case using y'(1) c by auto
qed auto

lemma confirmUpTo_run: "runs_to y (fst (confirmUpTo env head (ds_world y)))"
proof (cases "i64 (head - dc_confirmations (cf_deposit (sn_cfg env))) \<le> 0 \<or> sn_fail env ScPending")
  case True
  then have "fst (confirmUpTo env head (ds_world y)) = ds_world y" by (auto simp: confirmUpTo_def Let_def)
  then show ?thesis by (simp add: runs_to_refl)
next
  case False
  let ?rs = "select_limit (\<lambda>r. d_status r = DepositPending \<and>
      d_block_number r \<le> i64 (head - dc_confirmations (cf_deposit (sn_cfg env)))) 500 (deposits (ds_world y))"
  have eq: "fst (confirmUpTo env head (ds_world y)) = foldl (\<lambda>w r. fst (confirmOne env head r w)) (ds_world y) ?rs"
  proof -
    have c: "\<not> i64 (head - dc_confirmations (cf_deposit (sn_cfg env))) \<le> 0" "\<not> sn_fail env ScPending"
      using False by auto
    show ?thesis unfolding confirmUpTo_def Let_def if_not_P [OF c(1)] if_not_P [OF c(2)] fst_conv by (rule refl)
  qed
  have "\<And>r. r \<in> set ?rs \<Longrightarrow> r \<in> set (deposits (ds_world y)) \<and> d_status r = DepositPending"
    by (drule subsetD [OF select_limit_subset]) simp
  from read_rows [OF this] obtain y1 where
    y1: "ds_world y1 = ds_world y" "set ?rs \<subseteq> ds_read y1" "deposit_step\<^sup>*\<^sup>* y y1" by blast
  have "runs_to y1 (fst (confirmUpTo env head (ds_world y)))"
    using confirm_rows [OF y1(2), of env head] unfolding runs_to_def eq y1(1) .
  then show ?thesis by (rule runs_to_trans [OF y1(3)])
qed

definition proper_node :: "node_api \<Rightarrow> bool" where
  "proper_node g \<longleftrightarrow> (\<forall>n infos. GetTxInfoByBlockNum g n = Inr infos \<longrightarrow> (\<forall>info \<in> set infos. proper_txid (ti_id info)))"

text \<open>What a tick asks of the system it runs in: to scan a block, to confirm a batch, to roll back, and to move its
  own cursor and snapshots.\<close>

definition bookkeeping :: "world \<Rightarrow> world \<Rightarrow> bool" where
  "bookkeeping w w' \<longleftrightarrow> (\<exists>c n. w' = w\<lparr>cursors := c, snapshots := n\<rparr>)"

lemma bookkeeping_refl: "bookkeeping w w"
  unfolding bookkeeping_def by (intro exI [of _ "cursors w"] exI [of _ "snapshots w"]) simp

lemma saveCursor_books: "saveCursor env c w = (w', e) \<Longrightarrow> bookkeeping w w'"
  unfolding bookkeeping_def
  by (intro exI [of _ "cursors w'"] exI [of _ "snapshots w'"]) (auto simp: saveCursor_def split: if_splits)

lemma loadCursor_books: "loadCursor env head s w = (s', w', r) \<Longrightarrow> bookkeeping w w'"
proof -
  assume ld: "loadCursor env head s w = (s', w', r)"
  have "w' = w \<or> (\<exists>c. w' = w\<lparr>cursors := c\<rparr>) \<or> (\<exists>c e. saveCursor env c w = (w', e))"
    using ld by (auto simp: loadCursor_def Let_def split: if_splits option.splits sum.splits prod.splits)
  then show "bookkeeping w w'"
  proof (elim disjE exE)
    fix c assume "w' = w\<lparr>cursors := c\<rparr>"
    then show ?thesis unfolding bookkeeping_def by (intro exI [of _ c] exI [of _ "snapshots w"]) simp
  qed (auto intro: bookkeeping_refl saveCursor_books)
qed

lemma pruneSnapshots_books: "pruneSnapshots env head w = (w', e) \<Longrightarrow> bookkeeping w w'"
  unfolding bookkeeping_def
  by (intro exI [of _ "cursors w'"] exI [of _ "snapshots w'"]) (auto simp: pruneSnapshots_def Let_def split: if_splits)

locale scanning =
  fixes runs :: "'s \<Rightarrow> world \<Rightarrow> bool"
    and wof :: "'s \<Rightarrow> world"
  assumes run_refl: "runs s (wof s)"
    and run_trans: "runs s w \<Longrightarrow> (\<And>t. wof t = w \<Longrightarrow> runs t w') \<Longrightarrow> runs s w'"
    and run_scan: "scanBlock env sc b infos (wof s) = (w', e) \<Longrightarrow> \<forall>info \<in> set infos. proper_txid (ti_id info) \<Longrightarrow> runs s w'"
    and run_reorg: "handleReorg env num (wof s) = (w', r) \<Longrightarrow> runs s w'"
    and run_confirm: "runs s (fst (confirmUpTo env head (wof s)))"
    and run_books: "bookkeeping (wof s) w' \<Longrightarrow> runs s w'"
begin

lemma apply_blocks_run:
  assumes "apply_blocks env sc L c (wof y) = (w', r)" and "proper_node (sn_node env)"
    and "\<forall>(n, f) \<in> set L. \<forall>b infos. f = Inr (b, infos) \<longrightarrow> GetTxInfoByBlockNum (sn_node env) n = Inr infos"
  shows "runs y w'"
  using assms(1,3)
proof (induction L arbitrary: c y)
  case Nil
  then have "w' = wof y" by simp
  then show ?case using run_refl [of y] by simp
next
  case (Cons hd rest)
  obtain num fetched where hd: "hd = (num, fetched)" by fastforce
  show ?case
  proof (cases fetched)
    case (Inl e)
    then have "w' = wof y" using Cons.prems(1) by (simp add: hd)
    then show ?thesis using run_refl [of y] by simp
  next
    case (Inr p)
    obtain b infos where p: "p = (b, infos)" by fastforce
    have txs: "\<forall>info \<in> set infos. proper_txid (ti_id info)"
    proof -
      have "GetTxInfoByBlockNum (sn_node env) num = Inr infos" using Cons.prems(2) by (simp add: hd Inr p)
      then show ?thesis using assms(2) unfolding proper_node_def by blast
    qed
    show ?thesis
    proof (cases "reorg_at b c")
      case True
      obtain w1 r1 where h: "handleReorg env num (wof y) = (w1, r1)" by fastforce
      have "w' = w1" using Cons.prems(1) Inr p True h by (auto simp: hd split: sum.splits)
      then show ?thesis using run_reorg [OF h] by simp
    next
      case False
      obtain w1 e where sc: "scanBlock env sc b infos (wof y) = (w1, e)" by fastforce
      note go = run_scan [OF sc txs]
      show ?thesis
      proof (cases e)
        case (Some e0)
        then show ?thesis using Cons.prems(1) Inr p False sc go by (simp add: hd)
      next
        case None
        let ?c = "c\<lparr>cc_block_number := b_number b, cc_block_hash := b_block_id b\<rparr>"
        obtain w2 e2 where sv: "saveCursor env ?c w1 = (w2, e2)" by fastforce
        show ?thesis
        proof (rule run_trans [OF go])
          fix t assume t: "wof t = w1"
          have bk: "runs t w2" using run_books [of t] saveCursor_books [OF sv] t by simp
          show "runs t w'"
          proof (cases e2)
            case (Some e0)
            then show ?thesis using Cons.prems(1) Inr p False sc None sv bk by (simp add: hd)
          next
            case e2: None
            show ?thesis
            proof (rule run_trans [OF bk])
              fix u assume "wof u = w2"
              then show "runs u w'"
                using Cons.prems Inr p False sc None sv e2 by (intro Cons.IH [of ?c]) (simp_all add: hd)
            qed
          qed
        qed
      qed
    qed
  qed
qed

lemma tick_run:
  assumes "tick env sc (wof y) = (sc', w', r)" and "proper_node (sn_node env)"
  shows "runs y w'"
proof (cases "GetNowBlock (sn_node env)")
  case (Inl e)
  then show ?thesis using assms(1) run_refl by (auto simp: tick_def)
next
  case (Inr hb)
  obtain s1 w1 r1 where ld: "loadCursor env (b_number hb) sc (wof y) = (s1, w1, r1)" by (metis prod.exhaust)
  show ?thesis
  proof (rule run_trans [OF run_books [OF loadCursor_books [OF ld]]])
    fix t assume t: "wof t = w1"
    show "runs t w'"
    proof (cases r1)
      case (Inl e)
      then have "w' = wof t" using assms(1) Inr ld t by (simp add: tick_def)
      then show ?thesis using run_refl [of t] by simp
    next
      case r1: (Inr c)
      let ?w2 = "fst (confirmUpTo env (b_number hb) w1)"
      let ?from = "i64 (cc_block_number c + 1)"
      let ?to = "min64 (i64 (i64 (?from + dc_batch_blocks (cf_deposit (sn_cfg env))) - 1)) (b_number hb)"
      have cf: "runs t ?w2" using run_confirm [of t] t by simp
      show ?thesis
      proof (cases "?to < ?from")
        case True
        then show ?thesis using assms(1) Inr ld r1 cf by (simp add: tick_def Let_def)
      next
        case False
        obtain w3 r3 where ap: "apply_blocks env s1 (fetchRange env ?from ?to) c ?w2 = (w3, r3)" by fastforce
        have fetched: "\<forall>(n, f) \<in> set (fetchRange env ?from ?to). \<forall>b infos.
            f = Inr (b, infos) \<longrightarrow> GetTxInfoByBlockNum (sn_node env) n = Inr infos"
          by (auto simp: fetchRange_def split: sum.splits)
        have "bookkeeping w3 w'"
        proof (cases "r3 = Inr True")
          case True
          then show ?thesis using assms(1) Inr ld r1 False ap pruneSnapshots_books bookkeeping_refl
            by (auto simp: tick_def Let_def split: prod.splits option.splits)
        next
          case n: False
          then show ?thesis using assms(1) Inr ld r1 False ap bookkeeping_refl
            by (auto simp: tick_def Let_def split: sum.splits bool.splits)
        qed
        note last = this
        show ?thesis
        proof (rule run_trans [OF cf])
          fix u assume u: "wof u = ?w2"
          have "runs u w3" using apply_blocks_run [OF _ assms(2) fetched] ap u by simp
          then show "runs u w'" by (rule run_trans) (rule run_books, simp add: last)
        qed
      qed
    qed
  qed
qed

end

interpretation deposit_tick: scanning runs_to ds_world
proof
  show "runs_to s (ds_world s)" for s by (rule runs_to_refl)
  show "runs_to s w'" if "runs_to s w" "\<And>t. ds_world t = w \<Longrightarrow> runs_to t w'" for s w w'
  proof -
    obtain t where t: "ds_world t = w" "deposit_step\<^sup>*\<^sup>* s t" using \<open>runs_to s w\<close> by (auto simp: runs_to_def)
    show ?thesis by (rule runs_to_trans [OF t(2) that(2) [OF t(1)]])
  qed
  show "runs_to s w'" if "scanBlock env sc b infos (ds_world s) = (w', e)" "\<forall>info \<in> set infos. proper_txid (ti_id info)"
    for env sc b infos s w' e
    using runs_to_step [OF deposit_step.scan [OF that]] runs_to_refl [of "s\<lparr>ds_world := w'\<rparr>"] by simp
  show "runs_to s w'" if "handleReorg env num (ds_world s) = (w', r)" for env num s w' r
    using runs_to_step [OF deposit_step.reorg [OF that]] runs_to_refl [of "s\<lparr>ds_world := w'\<rparr>"] by simp
  show "runs_to s (fst (confirmUpTo env head (ds_world s)))" for s env head by (rule confirmUpTo_run)
  show "runs_to s w'" if bk: "bookkeeping (ds_world s) w'" for s w'
  proof -
    obtain c n where "w' = (ds_world s)\<lparr>cursors := c, snapshots := n\<rparr>" using bk by (auto simp: bookkeeping_def)
    then have "deposits w' = deposits (ds_world s)" "outbox w' = outbox (ds_world s)" by simp_all
    from runs_to_quiet [OF this] show ?thesis using runs_to_refl [of "s\<lparr>ds_world := w'\<rparr>"] by simp
  qed
qed

section \<open>An instance\<close>

lemma sample_scanned:
  "\<exists>w' r. scanBlock scan_sample_env sample_scanner (sample_block 6) [sample_info] scan_world = (w', None)
     \<and> deposits w' = [r] \<and> d_status r = DepositPending \<and> \<not> d_internal r \<and> d_txid r = ''ab'' \<and> outbox w' = []"
proof -
  have lg: "\<exists>l. ti_log sample_info = [l]" by (simp add: sample_info_def)
  have id: "ti_id sample_info = ''ab''" by (simp add: sample_info_def)
  show ?thesis
    using sample_transfer lg
    by (auto simp: sample_succeeded parseLog_def scan_sample_env_def scan_world_def sample_wallet_def take_first_def
        isInternal_def affected_def deposit_of_def scanBlock_def insert_deposit_def empty_world_def id)
qed

theorem deposits_credited_once_witness:
  "\<exists>s1 s2. deposit_step\<^sup>*\<^sup>* s1 s2 \<and> deposits (ds_world s1) \<noteq> [] \<and> credits (ds_world s1) = []
     \<and> credits (ds_world s2) \<noteq> [] \<and> distinct (map fst (credits (ds_world s2)))
     \<and> distinct (map depositEventID (deposits (ds_world s2)))"
proof -
  obtain w1 r where w1: "scanBlock scan_sample_env sample_scanner (sample_block 6) [sample_info] scan_world = (w1, None)"
    "deposits w1 = [r]" "d_status r = DepositPending" "\<not> d_internal r" "d_txid r = ''ab''" "outbox w1 = []"
    using sample_scanned by blast
  let ?s0 = "\<lparr>ds_world = scan_world, ds_read = {}\<rparr>"
  have st: "deposit_start ?s0" by (simp add: deposit_start_def scan_world_def empty_world_def credits_def)
  have "proper_txid (ti_id sample_info)" by (simp add: proper_txid_def sample_info_def)
  then have a: "deposit_step ?s0 \<lparr>ds_world = w1, ds_read = {}\<rparr>"
    using deposit_step.scan [of scan_sample_env sample_scanner "sample_block 6" "[sample_info]" ?s0] w1(1) by simp
  have b: "deposit_step \<lparr>ds_world = w1, ds_read = {}\<rparr> \<lparr>ds_world = w1, ds_read = {r}\<rparr>"
    using deposit_step.read [of r "\<lparr>ds_world = w1, ds_read = {}\<rparr>"] w1(2,3) by simp
  obtain w2 e where c: "confirmOne scan_sample_env 30 r w1 = (w2, e)" by fastforce
  have d: "deposit_step \<lparr>ds_world = w1, ds_read = {r}\<rparr> \<lparr>ds_world = w2, ds_read = {r}\<rparr>"
    using deposit_step.confirm [of r "\<lparr>ds_world = w1, ds_read = {r}\<rparr>" scan_sample_env 30 w2 e] c by simp
  have tx: "GetTxInfoByID (sn_node2 scan_sample_env) ''ab'' = Inr (Some sample_info)"
    by (simp add: GetTxInfoByID_def txInfoByID_def scan_sample_env_def scan_node_def sample_info_def)
  have nofail: "sn_fail scan_sample_env = (\<lambda>_. False)" by (simp add: scan_sample_env_def)
  have "take 9 (depositEventID (r\<lparr>d_block_number := n\<rparr>)) \<noteq> ''withdraw:''" for n
    using depositEventID_credit [of "r\<lparr>d_block_number := n\<rparr>"] w1(5) by (simp add: proper_txid_def)
  then have "credits w2 \<noteq> []"
    using c w1(2-6) by (auto simp: confirmOne_def tx nofail sample_succeeded affected_def is_pending_def Let_def
        credits_Enqueue event_ids_def)
  moreover have run: "deposit_step\<^sup>*\<^sup>* ?s0 \<lparr>ds_world = w1, ds_read = {}\<rparr>"
    "deposit_step\<^sup>*\<^sup>* \<lparr>ds_world = w1, ds_read = {}\<rparr> \<lparr>ds_world = w2, ds_read = {r}\<rparr>"
    using a b d by (auto intro: rtranclp.rtrancl_into_rtrancl)
  ultimately show ?thesis
    using deposits_credited_once [OF st run] w1(2,6) run(2)
    by (intro exI [of _ "\<lparr>ds_world = w1, ds_read = {}\<rparr>"] exI [of _ "\<lparr>ds_world = w2, ds_read = {r}\<rparr>"])
      (simp add: credits_def)
qed

section \<open>What the code leaves open\<close>

text \<open>
  A transaction that a reorganisation moved to another block keeps its id and log position, so scanning
  the new block finds the orphaned record in place and inserts nothing: the deposit is never credited.
\<close>

theorem orphan_never_credited:
  assumes "deposit_inv s1" and "deposit_step\<^sup>*\<^sup>* s1 s2" and "r \<in> set (deposits (ds_world s1))"
    and "d_status r = DepositOrphaned"
  shows "depositEventID r \<notin> fst ` set (credits (ds_world s2))"
proof
  assume a: "depositEventID r \<in> fst ` set (credits (ds_world s2))"
  have inv: "deposit_inv s2" using assms(1,2) deposit_run_inv by blast
  obtain r' where r': "r' \<in> set (deposits (ds_world s2))" "deposit_key r' = deposit_key r" "d_status r' = DepositOrphaned"
    using deposit_rows.final_kept [OF deposit_run_with_inv [OF assms(2,1)] assms(3)] deposit_final [of "d_status r"] assms(4)
    by auto
  have "fst ` set (credits (ds_world s2)) = depositEventID ` set (filter credited (deposits (ds_world s2)))"
    using inv by (simp add: deposit_inv_def image_image credit_of_def)
  then obtain q where q: "q \<in> set (deposits (ds_world s2))" "credited q" "deposit_key q = deposit_key r"
    using a by (auto simp: depositEventID_inj)
  have "inj_on deposit_key (set (deposits (ds_world s2)))" using inv by (simp add: deposit_inv_def table_ok_def distinct_map)
  moreover have "deposit_key q = deposit_key r'" using q(3) r'(2) by simp
  ultimately have "q = r'" using q(1) r'(1) by (simp only: inj_on_eq_iff)
  then show False using q(2) r'(3) by (simp add: credited_def)
qed

theorem rescan_keeps_orphan:
  assumes "r \<in> set t" and "deposit_key d = deposit_key r"
  shows "insert_deposit d t = t"
  using assms by (auto simp: insert_deposit_def)

text \<open>\<open>confirmUpTo\<close> tests the depth with the block the record was scanned in; the receipt may name a later
  one, and the deposit is then credited below the configured number of confirmations.\<close>

theorem moved_deposit_shallow:
  assumes "GetTxInfoByID (sn_node2 env) (d_txid row) = Inr (Some info)" and "Succeeded info"
    and "\<not> sn_fail env (ScConfirm (d_id row))" and "row \<in> set (deposits w)" and "d_status row = DepositPending"
    and "confirmOne env head row w = (w', e)"
  shows "\<exists>r. r \<in> set (deposits w') \<and> d_id r = d_id row \<and> d_status r = DepositConfirmed \<and>
    d_confirmations r = i64 (head - ti_block_number info)"
proof -
  have "0 < affected (is_pending (d_id row)) (deposits w)" using assms(4,5) by (auto simp: affected_pos is_pending_def)
  then have "deposits w' = update_where (is_pending (d_id row))
         (\<lambda>r. r\<lparr>d_status := DepositConfirmed, d_block_number := ti_block_number info,
                 d_confirmations := i64 (head - ti_block_number info),
                 d_confirmed_at := Some (sn_now env), d_updated_at := sn_now env\<rparr>) (deposits w)"
    using assms(1,2,3,6) by (auto simp: confirmOne_def Let_def split: if_splits)
  then show ?thesis using assms(4,5) by (auto simp: set_update_where is_pending_def)
qed

end
