(* ===== verification/Pricing.thy ===== *)
theory Pricing
  imports Energy
begin

text \<open>
  \<open>internal/energy/pricing.go\<close>: the sweep threshold. \<open>pe_http\<close> is the answer of the market data service,
  already decoded; \<open>pe_number\<close> reads a JSON number, \<open>pe_scan\<close> a decimal text (\<open>fmt.Sscanf\<close> with
  \<open>%g\<close>). \<open>pr_burn_fee\<close> is the energy price the burn provider quotes at.
\<close>

record price_env =
  pe_cfg :: sweep_threshold_config
  pe_energy :: energy_env
  pe_http :: "json result"
  pe_number :: "string \<Rightarrow> float64"
  pe_scan :: "string \<Rightarrow> float64 option"

record pricer =
  pr_threshold :: float64
  pr_cost_usd :: float64
  pr_trx_usd :: float64
  pr_refreshed :: time
  pr_burn_fee :: int

definition NewPricer :: "sweep_threshold_config \<Rightarrow> int \<Rightarrow> pricer" where
  "NewPricer cfg fee = \<lparr>pr_threshold = 0, pr_cost_usd = 0, pr_trx_usd = st_trx_price_usd cfg, pr_refreshed = 0,
     pr_burn_fee = fee\<rparr>"

definition MinSweepUSDT :: "sweep_threshold_config \<Rightarrow> pricer \<Rightarrow> float64" where
  "MinSweepUSDT cfg p =
     (if 0 < st_fixed_usdt cfg then st_fixed_usdt cfg
      else if 0 < pr_threshold p then pr_threshold p else st_min_usdt cfg)"

section \<open>The TRX price\<close>

fun extractPrice :: "nat \<Rightarrow> price_env \<Rightarrow> json \<Rightarrow> float64 option" where
  "extractPrice 0 env v = None"
| "extractPrice (Suc fuel) env v =
     (case v of
        JNum s \<Rightarrow> (let t = pe_number env s in if 0 < t then Some t else None)
      | JStr s \<Rightarrow> (case pe_scan env s of Some f \<Rightarrow> if 0 < f then Some f else None | None \<Rightarrow> None)
      | JObj kvs \<Rightarrow>
          foldr (\<lambda>key rest.
             case (case map_of kvs key of None \<Rightarrow> None | Some inner \<Rightarrow> extractPrice fuel env inner) of
               Some f \<Rightarrow> Some f
             | None \<Rightarrow> rest) [''price'', ''usd'', ''tron'', ''data''] None
      | _ \<Rightarrow> None)"

text \<open>The recursion is structural in the value; its depth is enough fuel.\<close>

fun json_depth :: "json \<Rightarrow> nat" where
  "json_depth (JObj kvs) = Suc (foldr max (map (\<lambda>kv. json_depth (snd kv)) kvs) 0)"
| "json_depth _ = 1"

lemma json_depth_inner:
  assumes "map_of kvs key = Some inner"
  shows "json_depth inner < json_depth (JObj kvs)"
proof -
  have ge: "x \<in> set xs \<Longrightarrow> x \<le> foldr max xs (0::nat)" for x xs by (induction xs) auto
  have "json_depth inner \<in> set (map (\<lambda>kv. json_depth (snd kv)) kvs)"
    using map_of_SomeD [OF assms] by force
  from ge [OF this] show ?thesis by simp
qed

lemma extractPrice_fuel:
  "json_depth v \<le> n \<Longrightarrow> json_depth v \<le> m \<Longrightarrow> extractPrice n env v = extractPrice m env v"
proof (induction n arbitrary: m v)
  case 0
  then show ?case by (cases v) simp_all
next
  case (Suc n)
  obtain k where m: "m = Suc k" using Suc.prems by (cases m; cases v) simp_all
  have "extractPrice n env inner = extractPrice k env inner" if "v = JObj kvs" "map_of kvs key = Some inner" for kvs key inner
    using Suc.IH [of inner k] json_depth_inner [OF that(2)] Suc.prems unfolding that(1) m by linarith
  then show ?case unfolding m by (cases v) (auto split: option.splits)
qed

definition trxPrice :: "price_env \<Rightarrow> pricer \<Rightarrow> float64 \<times> go_error option" where
  "trxPrice env p =
     (if 0 < st_trx_price_usd (pe_cfg env) then (st_trx_price_usd (pe_cfg env), None)
      else if st_trx_price_url (pe_cfg env) = '''' then
        (pr_trx_usd p, Some (errors_new ''no trx price source configured''))
      else case pe_http env of
        Inl e \<Rightarrow> (pr_trx_usd p, Some e)
      | Inr v \<Rightarrow>
          case extractPrice (json_depth v) env v of
            Some f \<Rightarrow> (f, None)
          | None \<Rightarrow> (pr_trx_usd p, Some (errors_new ''no price field found in response'')))"

section \<open>The threshold\<close>

text \<open>\<open>applyDefaults\<close> makes the cost ratio positive, so the division is one.\<close>

definition threshold_of :: "sweep_threshold_config \<Rightarrow> float64 \<Rightarrow> float64" where
  "threshold_of c costUSD =
     (if 0 < st_fixed_usdt c then st_fixed_usdt c
      else
        let t0 = fl64 (costUSD / st_target_cost_ratio c);
            low = fl64 (costUSD * st_safety_multiple c);
            t1 = (if t0 < low then low else t0);
            t2 = (if 0 < st_min_usdt c \<and> t1 < st_min_usdt c then st_min_usdt c else t1)
        in if 0 < st_max_usdt c \<and> st_max_usdt c < t2 then st_max_usdt c else t2)"

definition live_provs :: "int \<Rightarrow> (string \<times> provider) list \<Rightarrow> (string \<times> provider) list" where
  "live_provs fee = map (\<lambda>(n, p). if n = ProviderTRXBurn then (n, trxburn fee) else (n, p))"

definition Refresh_price :: "price_env \<Rightarrow> pricer \<Rightarrow> world \<Rightarrow> world \<times> pricer \<times> go_error option" where
  "Refresh_price env p0 w =
     (let en = pe_energy env
      in case GetChainParameters (me_node en) of
        Inl e \<Rightarrow> (w, p0, Some (wrap_err ''chain parameters: '' e))
      | Inr params \<Rightarrow>
          let p = p0\<lparr>pr_burn_fee := SetEnergyFee (cp_energy_fee_sun params) (pr_burn_fee p0)\<rparr>;
              live = en\<lparr>me_provs := live_provs (pr_burn_fee p) (me_provs en)\<rparr>
          in case BestQuote live \<lparr>qr_resource = ResourceEnergy, qr_amount = ec_energy_per_tx (me_cfg en),
                qr_period = defaultPeriod (me_cfg en), qr_receiver = '''', qr_exclude_burn = False\<rparr> w of
               (w', Inl e) \<Rightarrow> (w', p, Some (wrap_err ''quote: '' e))
             | (w', Inr q) \<Rightarrow>
                 let bandwidthTRX = fl64 (fl64 (345 * float_of_int (cp_transaction_fee_sun params)) / 1000000);
                     costTRX = fl64 (q_cost_trx q + bandwidthTRX);
                     trxUSD = fst (trxPrice env p)
                 in if trxUSD \<le> 0 then (w', p, Some (errors_new ''no TRX price available''))
                    else
                      let costUSD = fl64 (costTRX * trxUSD)
                      in (w', p\<lparr>pr_threshold := threshold_of (pe_cfg env) costUSD, pr_cost_usd := costUSD,
                               pr_trx_usd := trxUSD, pr_refreshed := me_now en\<rparr>, None))"

text \<open>The threshold the sweeper uses stays in the configured bounds, whatever the market says.\<close>

lemma threshold_of_bounds:
  assumes "0 < st_min_usdt c" and "st_min_usdt c \<le> st_max_usdt c" and "st_fixed_usdt c \<le> 0"
  shows "st_min_usdt c \<le> threshold_of c cost" and "threshold_of c cost \<le> st_max_usdt c"
  using assms by (auto simp: threshold_of_def Let_def)

lemma threshold_of_covers:
  assumes "st_fixed_usdt c \<le> 0" and "threshold_of c cost < st_max_usdt c \<or> st_max_usdt c \<le> 0"
  shows "fl64 (cost * st_safety_multiple c) \<le> threshold_of c cost"
    and "fl64 (cost / st_target_cost_ratio c) \<le> threshold_of c cost"
  using assms by (auto simp: threshold_of_def Let_def split: if_splits)

definition threshold_ok :: "sweep_threshold_config \<Rightarrow> pricer \<Rightarrow> bool" where
  "threshold_ok c p \<longleftrightarrow> pr_threshold p = 0 \<or> (st_min_usdt c \<le> pr_threshold p \<and> pr_threshold p \<le> st_max_usdt c)"

text \<open>Whatever the providers, the chain parameters and the price feed answer, refreshing keeps the
  threshold between the configured minimum and maximum, a failed refresh keeps the last threshold, and
  a successful one below the maximum covers the safety multiple of one sweep's cost.\<close>

theorem Refresh_price_bounded:
  assumes "Refresh_price env p w = (w', p', e)" and "threshold_ok (pe_cfg env) p"
    and "0 < st_min_usdt (pe_cfg env)" and "st_min_usdt (pe_cfg env) \<le> st_max_usdt (pe_cfg env)"
    and "st_fixed_usdt (pe_cfg env) \<le> 0"
  shows "threshold_ok (pe_cfg env) p'
    \<and> st_min_usdt (pe_cfg env) \<le> MinSweepUSDT (pe_cfg env) p' \<and> MinSweepUSDT (pe_cfg env) p' \<le> st_max_usdt (pe_cfg env)
    \<and> (e \<noteq> None \<longrightarrow> pr_threshold p' = pr_threshold p)
    \<and> (e = None \<and> pr_threshold p' < st_max_usdt (pe_cfg env) \<longrightarrow>
         fl64 (pr_cost_usd p' * st_safety_multiple (pe_cfg env)) \<le> pr_threshold p')"
proof -
  have cases: "(e \<noteq> None \<and> pr_threshold p' = pr_threshold p) \<or>
      (e = None \<and> pr_threshold p' = threshold_of (pe_cfg env) (pr_cost_usd p'))"
    using assms(1) by (auto simp: Refresh_price_def Let_def split: sum.splits prod.splits if_splits)
  then have "threshold_ok (pe_cfg env) p'"
    using assms(2) threshold_of_bounds [OF assms(3-5)] by (auto simp: threshold_ok_def)
  moreover from this have "st_min_usdt (pe_cfg env) \<le> MinSweepUSDT (pe_cfg env) p'"
    "MinSweepUSDT (pe_cfg env) p' \<le> st_max_usdt (pe_cfg env)"
    using assms(3-5) by (auto simp: threshold_ok_def MinSweepUSDT_def)
  moreover have "fl64 (pr_cost_usd p' * st_safety_multiple (pe_cfg env)) \<le> pr_threshold p'"
    if "e = None" "pr_threshold p' < st_max_usdt (pe_cfg env)"
    using that cases threshold_of_covers(1) [OF assms(5), of "pr_cost_usd p'"] by auto
  ultimately show ?thesis using cases by blast
qed

definition sample_price_env :: price_env where
  "sample_price_env = \<lparr>pe_cfg = sc_threshold (cf_sweep (sample_config '''')), pe_energy = renting_env,
     pe_http = Inr (JObj [(''price'', JStr ''1'')]), pe_number = (\<lambda>_. 0), pe_scan = (\<lambda>_. Some 1)\<rparr>"

theorem Refresh_price_bounded_witness:
  "\<exists>w' p' e. Refresh_price sample_price_env (NewPricer (pe_cfg sample_price_env) 100) empty_world = (w', p', e)
     \<and> 5 \<le> MinSweepUSDT (pe_cfg sample_price_env) p' \<and> MinSweepUSDT (pe_cfg sample_price_env) p' \<le> 100"
proof -
  obtain w' p' e where r: "Refresh_price sample_price_env (NewPricer (pe_cfg sample_price_env) 100) empty_world = (w', p', e)"
    by (metis prod.exhaust)
  have c: "st_min_usdt (pe_cfg sample_price_env) = 5" "st_max_usdt (pe_cfg sample_price_env) = 100"
    "st_fixed_usdt (pe_cfg sample_price_env) = 0"
    by (simp_all add: sample_price_env_def sample_config_def)
  have "threshold_ok (pe_cfg sample_price_env) (NewPricer (pe_cfg sample_price_env) 100)"
    by (simp add: threshold_ok_def NewPricer_def)
  from Refresh_price_bounded [OF r this] r show ?thesis by (simp add: c)
qed

end
