(* ===== verification/Sweep.thy ===== *)
theory Sweep
  imports Withdraw Pricing
begin

text \<open>
  \<open>internal/sweep/sweep.go\<close>: from the deposit addresses into the finance wallet. Writes that name their
  row only by id (\<open>Model(record).UpdateColumns\<close>) are unguarded and their errors are dropped, as in the
  code. \<open>se_threshold\<close> is the pricer's \<open>MinSweepUSDT\<close>.
\<close>

datatype sweep_stmt =
    SwCandidates | SwWallets | SwSkip string | SwSkipRead string | SwStale string | SwInflight | SwConfirmed | SwFailures
  | SwMaxDeposit | SwCreate | SwEnergyOK | SwSigned | SwSent | SwFail | SwMarkCount string | SwMark string
  | SwRows | SwSettle | SwExpire | SwOwner

record sweep_env =
  se_cfg :: config
  se_threshold :: float64
  se_node :: node_api
  se_energy :: energy_env
  se_sign :: "sign_request \<Rightarrow> sign_response result"
  se_kec :: "bytes \<Rightarrow> bytes"
  se_now :: time
  se_lock_fail :: bool
  se_fail :: "sweep_stmt \<Rightarrow> bool"

definition FailCodeEnergyRental :: string where
  "FailCodeEnergyRental = ''energy_rental''"

definition New_sweep :: "config \<Rightarrow> token_config list result" where
  "New_sweep c =
     (let tokens = EnabledTokens (cf_wallet c)
      in if tokens = [] then Inl (errors_new ''sweep: no enabled token configured'')
         else if sys_address (wc_sweep_wallet (cf_wallet c)) = '''' then
           Inl (errors_new ''sweep: wallet.sweep_wallet.address is required'')
         else Inr tokens)"

definition maxEnergyRetries :: "config \<Rightarrow> int" where
  "maxEnergyRetries c = (if 0 < sc_max_energy_retries (cf_sweep c) then sc_max_energy_retries (cf_sweep c) else 3)"

definition expirationSeconds_sweep :: "config \<Rightarrow> int" where
  "expirationSeconds_sweep c = (if 0 < sc_tx_expiration_sec (cf_sweep c) then sc_tx_expiration_sec (cf_sweep c) else 60)"

section \<open>Candidates\<close>

definition unswept_of :: "string \<Rightarrow> string \<Rightarrow> deposit_record \<Rightarrow> bool" where
  "unswept_of contract address r \<longleftrightarrow>
     d_to_address r = address \<and> d_contract r = contract \<and> d_status r = DepositConfirmed \<and> \<not> d_swept r"

definition candidates :: "sweep_env \<Rightarrow> token_config \<Rightarrow> world \<Rightarrow> user_wallet list result" where
  "candidates env tok w =
     (let limit = sc_max_per_round (cf_sweep (se_cfg env));
          all = remdups (map d_to_address (filter (\<lambda>r. d_status r = DepositConfirmed \<and> \<not> d_swept r \<and>
                  \<not> d_internal r \<and> d_contract r = tc_contract tok) (deposits w)));
          addresses = (if limit < 0 then all else take (nat limit) all)
      in if se_fail env SwCandidates then Inl db_err
         else if addresses = [] then Inr []
         else if se_fail env SwWallets then Inl db_err
         else Inr (UserWalletsByAddresses addresses w))"

text \<open>\<open>big.Float\<close> of 53 bits, multiplied by ten once per decimal place and truncated.\<close>

fun times10 :: "nat \<Rightarrow> float64 \<Rightarrow> float64" where
  "times10 0 x = x"
| "times10 (Suc n) x = times10 n (fl64 (x * 10))"

definition minSweepUnits :: "sweep_env \<Rightarrow> token_config \<Rightarrow> int" where
  "minSweepUnits env tok = int_of_float (times10 (nat (tc_decimals tok)) (se_threshold env))"

definition recordSkip :: "sweep_env \<Rightarrow> string \<Rightarrow> string \<Rightarrow> world \<Rightarrow> world \<times> int result" where
  "recordSkip env contract address w =
     (let mine = (\<lambda>s. sk_address s = address \<and> sk_contract s = contract); now = se_now env;
          t = (if \<exists>s \<in> set (sweep_skips w). mine s then
                 update_where mine (\<lambda>s. s\<lparr>sk_skip_count := i64 (sk_skip_count s + 1), sk_last_skip_at := now,
                   sk_updated_at := now\<rparr>) (sweep_skips w)
               else sweep_skips w @ [\<lparr>sk_address = address, sk_contract = contract, sk_skip_count = 1,
                   sk_last_skip_at = now, sk_created_at = now, sk_updated_at = now\<rparr>])
      in if se_fail env (SwSkip address) then (w, Inl db_err)
         else if se_fail env (SwSkipRead address) then (w\<lparr>sweep_skips := t\<rparr>, Inl db_err)
         else (w\<lparr>sweep_skips := t\<rparr>,
               (case take_first mine t of None \<Rightarrow> Inl not_found | Some s \<Rightarrow> Inr (sk_skip_count s))))"

definition isStale :: "sweep_env \<Rightarrow> token_config \<Rightarrow> string \<Rightarrow> world \<Rightarrow> bool" where
  "isStale env tok address w =
     (let d = st_stale_days (sc_threshold (cf_sweep (se_cfg env)))
      in if d \<le> 0 then False
         else if se_fail env (SwStale address) then False
         else case take_first (unswept_of (tc_contract tok) address) (deposits w) of
           None \<Rightarrow> False
         | Some oldest \<Rightarrow> i64 (d * (24 * hour)) < se_now env - d_created_at oldest)"

definition tokenBalance_sweep :: "sweep_env \<Rightarrow> string \<Rightarrow> string \<Rightarrow> int result" where
  "tokenBalance_sweep env contract address =
     (case EncodeTRC20BalanceOf (se_kec env) address of
        Inl e \<Rightarrow> Inl e
      | Inr data \<Rightarrow>
          case TriggerConstantContract (se_node env) address contract data of
            Inl e \<Rightarrow> Inl e
          | Inr (out, _) \<Rightarrow>
              case ParseUint256 out of
                None \<Rightarrow> Inl (errors_new (''sweep: cannot parse balance '' @ out))
              | Some v \<Rightarrow> Inr v)"

definition markSweptEmpty :: "sweep_env \<Rightarrow> token_config \<Rightarrow> string \<Rightarrow> world \<Rightarrow> world \<times> go_error option" where
  "markSweptEmpty env tok address w =
     (if se_fail env (SwMarkCount address) then (w, Some db_err)
      else if affected (\<lambda>s. s_from_address s = address \<and> s_contract s = tc_contract tok \<and> s_status s = SweepConfirmed)
                (sweeps w) = 0 then (w, None)
      else if se_fail env (SwMark address) then (w, Some db_err)
      else (w\<lparr>deposits := update_where (unswept_of (tc_contract tok) address)
                (\<lambda>r. r\<lparr>d_swept := True, d_updated_at := se_now env\<rparr>) (deposits w)\<rparr>, None))"

section \<open>Retry budget and cover\<close>

definition in_flight :: "sweep_record \<Rightarrow> bool" where
  "in_flight s \<longleftrightarrow> s_status s \<in> {SweepCreated, SweepEnergyOK, SweepBroadcast}"

definition energyFailures :: "sweep_env \<Rightarrow> string \<Rightarrow> string \<Rightarrow> world \<Rightarrow> int result" where
  "energyFailures env contract address w =
     (if se_fail env SwConfirmed \<or> se_fail env SwFailures then Inl db_err
      else
        let lastID = (case take_last (\<lambda>s. s_from_address s = address \<and> s_contract s = contract \<and>
                         s_status s = SweepConfirmed) (sweeps w) of None \<Rightarrow> 0 | Some s \<Rightarrow> s_id s)
        in Inr (affected (\<lambda>s. s_from_address s = address \<and> s_contract s = contract \<and> s_status s = SweepFailed \<and>
                  s_fail_code s = FailOutOfEnergy \<and> lastID < s_id s) (sweeps w)))"

definition maxUnsweptDepositID :: "sweep_env \<Rightarrow> string \<Rightarrow> string \<Rightarrow> world \<Rightarrow> int result" where
  "maxUnsweptDepositID env contract address w =
     (if se_fail env SwMaxDeposit then Inl db_err
      else Inr (case map d_id (filter (unswept_of contract address) (deposits w)) of
                  [] \<Rightarrow> 0
                | i # is \<Rightarrow> foldl max i is))"

definition checkBurnBudget_sweep :: "sweep_env \<Rightarrow> string \<Rightarrow> int \<Rightarrow> go_error option" where
  "checkBurnBudget_sweep env address need =
     (case GetChainParameters (se_node env) of
        Inl e \<Rightarrow> Some (wrap_err ''chain parameters query failed: '' e)
      | Inr params \<Rightarrow>
          case GetAccountResource (se_node env) address of
            Inl e \<Rightarrow> Some (wrap_err ''account resource query failed: '' e)
          | Inr res \<Rightarrow>
              let costSun = BurnCostSun (Some res) params need;
                  limit = sc_fee_limit_sun (cf_sweep (se_cfg env))
              in if 0 < limit \<and> limit < costSun then
                   Some (errors_new (''burning TRX costs '' @ big_String costSun @
                     '' sun, above sweep_server.fee_limit_sun='' @ big_String limit))
                 else case GetTRXBalance (se_node env) address of
                   Inl e \<Rightarrow> Some (wrap_err ''TRX balance query failed: '' e)
                 | Inr balance \<Rightarrow>
                     if balance < costSun then
                       Some (errors_new (''TRX insufficient to burn the fee: balance='' @ big_String balance @
                         '' sun required='' @ big_String costSun @ '' sun (energy='' @ big_String need @ '')''))
                     else None)"

section \<open>One sweep\<close>

text \<open>\<open>Model(record).UpdateColumns\<close>: by id only, the error dropped.\<close>

definition set_columns ::
  "sweep_env \<Rightarrow> sweep_stmt \<Rightarrow> int \<Rightarrow> (sweep_record \<Rightarrow> sweep_record) \<Rightarrow> world \<Rightarrow> world" where
  "set_columns env st i f w =
     (if se_fail env st then w
      else w\<lparr>sweeps := update_where (\<lambda>s. s_id s = i) (\<lambda>s. f (s\<lparr>s_updated_at := se_now env\<rparr>)) (sweeps w)\<rparr>)"

definition failSweep :: "sweep_env \<Rightarrow> int \<Rightarrow> string \<Rightarrow> go_error \<Rightarrow> world \<Rightarrow> world \<times> go_error option" where
  "failSweep env i failCode cause w =
     (set_columns env SwFail i
        (\<lambda>s. s\<lparr>s_status := SweepFailed, s_fail_reason := truncate_str (err_msg cause) 240, s_fail_code := failCode\<rparr>) w,
      Some cause)"

text \<open>What is decided before a row exists; \<open>Inr None\<close> means there is nothing to do now.\<close>

definition sweep_admit ::
  "sweep_env \<Rightarrow> token_config \<Rightarrow> user_wallet \<Rightarrow> int \<Rightarrow> world \<Rightarrow> (int \<times> int \<times> string \<times> int) option result" where
  "sweep_admit env tok wallet amount w =
     (let addr = uw_address wallet; contract = tc_contract tok; cfg = se_cfg env
      in if se_fail env SwInflight then Inl db_err
         else if 0 < affected (\<lambda>s. s_from_address s = addr \<and> s_contract s = contract \<and> in_flight s) (sweeps w) then
           Inr None
         else case energyFailures env contract addr w of
           Inl e \<Rightarrow> Inl e
         | Inr attempts \<Rightarrow>
             if attempts \<ge> maxEnergyRetries cfg then Inr None
             else case EncodeTRC20Transfer (se_kec env) (sys_address (wc_sweep_wallet (cf_wallet cfg))) amount of
               Inl e \<Rightarrow> Inl e
             | Inr data \<Rightarrow>
                 let factor = RetrySafetyFactor attempts;
                     need = (case EstimateEnergyFactor (cf_energy cfg) (se_node env) addr contract data factor of
                               Inl _ \<Rightarrow> int_of_float (fl64 (float_of_int (ec_energy_per_tx_new (cf_energy cfg)) * factor))
                             | Inr n \<Rightarrow> n)
                 in if \<not> SweepRentalOn cfg \<and> checkBurnBudget_sweep env addr need \<noteq> None then Inr None
                    else case maxUnsweptDepositID env contract addr w of
                      Inl e \<Rightarrow> Inl e
                    | Inr maxID \<Rightarrow> Inr (Some (attempts, need, data, maxID)))"

definition new_sweep :: "sweep_env \<Rightarrow> token_config \<Rightarrow> string \<Rightarrow> int \<Rightarrow> int \<Rightarrow> int \<Rightarrow> int \<Rightarrow> sweep_record" where
  "new_sweep env tok addr amount attempts maxID i =
     \<lparr>s_id = i, s_from_address = addr, s_to_address = sys_address (wc_sweep_wallet (cf_wallet (se_cfg env))),
      s_symbol = tc_symbol tok, s_contract = tc_contract tok, s_amount_units = big_String amount,
      s_amount = FormatUnits (big_String amount) (tc_decimals tok), s_decimals = tc_decimals tok,
      s_status = SweepCreated, s_txid = '''', s_block_number = 0, s_signed_raw = '''', s_expired_at = None,
      s_fee_mode = '''', s_energy_order = '''', s_cost_trx = 0, s_energy_used = 0, s_fail_reason = '''',
      s_fail_code = '''', s_retry_count = attempts, s_deposit_max_id = maxID, s_broadcast_at = None,
      s_confirmed_at = None, s_created_at = se_now env, s_updated_at = se_now env\<rparr>"

text \<open>
  From the decision to the signed transaction that is about to be broadcast. The outcome is the error
  \<open>sweepOne\<close> returns, or the row's id with the transaction: the reconciler can see the row from then on.
\<close>

definition sweep_sign ::
  "sweep_env \<Rightarrow> token_config \<Rightarrow> user_wallet \<Rightarrow> int \<Rightarrow> string \<Rightarrow> int \<Rightarrow> world \<Rightarrow>
     world \<times> (go_error option + int \<times> transaction)" where
  "sweep_sign env tok wallet amount data i w =
     (let addr = uw_address wallet; cfg = se_cfg env; stop = (\<lambda>(w, e). (w, Inl e))
      in case BuildTRC20Transfer (se_node env) addr (tc_contract tok) data (sc_fee_limit_sun (cf_sweep cfg)) of
        Inl e \<Rightarrow> stop (failSweep env i FailValidate e w)
      | Inr tx \<Rightarrow>
          case se_sign env \<lparr>sr_purpose = PurposeSweep, sr_path = uw_derive_path wallet, sr_address = addr,
              sr_tx = Some tx, sr_meta = \<lparr>sm_to_address = sys_address (wc_sweep_wallet (cf_wallet cfg)),
                sm_contract = tc_contract tok, sm_amount_units = big_String amount, sm_amount_sun = 0\<rparr>\<rparr> of
            Inl e \<Rightarrow> stop (failSweep env i FailSignature e w)
          | Inr resp \<Rightarrow>
              (set_columns env SwSigned i
                 (\<lambda>s. s\<lparr>s_txid := sp_txid resp, s_signed_raw := tx_raw_data_hex (sp_tx resp),
                        s_expired_at := Some (se_now env + i64 (expirationSeconds_sweep cfg * second))\<rparr>) w,
               Inr (i, sp_tx resp)))"

definition sweep_begin ::
  "sweep_env \<Rightarrow> token_config \<Rightarrow> user_wallet \<Rightarrow> int \<Rightarrow> world \<Rightarrow> world \<times> (go_error option + int \<times> transaction)" where
  "sweep_begin env tok wallet amount w =
     (let addr = uw_address wallet
      in case sweep_admit env tok wallet amount w of
        Inl e \<Rightarrow> (w, Inl (Some e))
      | Inr None \<Rightarrow> (w, Inl None)
      | Inr (Some (attempts, need, data, maxID)) \<Rightarrow>
          if se_fail env SwCreate then (w, Inl (Some db_err))
          else
            let i = fresh_id (map s_id (sweeps w));
                w1 = w\<lparr>sweeps := sweeps w @ [new_sweep env tok addr amount attempts maxID i]\<rparr>;
                acq = (if SweepRentalOn (se_cfg env) then AcquireRented else AcquireBurn)
            in case acq (se_energy env) ''sweep'' addr need (''sweep-'' @ big_String i) w1 of
                 (w2, Inl e) \<Rightarrow>
                   (let (w3, e3) = failSweep env i FailCodeEnergyRental (wrap_err ''energy: '' e) w2 in (w3, Inl e3))
               | (w2, Inr order) \<Rightarrow>
                   sweep_sign env tok wallet amount data i
                     (set_columns env SwEnergyOK i
                        (\<lambda>s. s\<lparr>s_status := SweepEnergyOK, s_fee_mode := FeeMode (eo_provider order),
                               s_energy_order := eo_request_id order, s_cost_trx := eo_cost_trx order\<rparr>) w2))"

definition sweep_send :: "sweep_env \<Rightarrow> int \<Rightarrow> transaction \<Rightarrow> world \<Rightarrow> world \<times> go_error option" where
  "sweep_send env i tx w0 =
     (let w = send tx w0
      in case Broadcast (se_node env) tx of
        (result, Some e) \<Rightarrow>
          let (failCode, permanent) =
                (case result of None \<Rightarrow> (FailNode, False) | Some r \<Rightarrow> ClassifyBroadcast (br_code r) (br_message r))
          in if permanent then failSweep env i failCode e w
             else (set_columns env SwSent i
                     (\<lambda>s. s\<lparr>s_status := SweepBroadcast, s_fail_reason := truncate_str (err_msg e) 240,
                            s_fail_code := failCode\<rparr>) w, Some e)
      | (result, None) \<Rightarrow>
          let id' = (case result of None \<Rightarrow> '''' | Some r \<Rightarrow> br_txid r)
          in (set_columns env SwSent i
                (\<lambda>s. s\<lparr>s_status := SweepBroadcast, s_txid := id', s_broadcast_at := Some (se_now env)\<rparr>) w, None))"

definition sweep_lock :: "token_config \<Rightarrow> string \<Rightarrow> string" where
  "sweep_lock tok addr = ''sweep:'' @ tc_contract tok @ '':'' @ addr"

definition sweepOne :: "sweep_env \<Rightarrow> token_config \<Rightarrow> user_wallet \<Rightarrow> int \<Rightarrow> world \<Rightarrow> world \<times> go_error option" where
  "sweepOne env tok wallet amount w =
     (let prefix = cf_redis_prefix (se_cfg env); key = sweep_lock tok (uw_address wallet)
      in case Lock prefix key (se_lock_fail env) w of
           None \<Rightarrow> (w, None)
         | Some w1 \<Rightarrow>
             case sweep_begin env tok wallet amount w1 of
               (w2, Inl e) \<Rightarrow> (Unlock prefix key w2, e)
             | (w2, Inr (i, tx)) \<Rightarrow> let (w3, e) = sweep_send env i tx w2 in (Unlock prefix key w3, e))"

section \<open>A round\<close>

definition visit :: "sweep_env \<Rightarrow> token_config \<Rightarrow> user_wallet \<Rightarrow> world \<Rightarrow> world" where
  "visit env tok wallet w =
     (case tokenBalance_sweep env (tc_contract tok) (uw_address wallet) of
        Inl _ \<Rightarrow> w
      | Inr balance \<Rightarrow>
          if balance \<le> 0 then fst (markSweptEmpty env tok (uw_address wallet) w)
          else if balance < minSweepUnits env tok then
            (case recordSkip env (tc_contract tok) (uw_address wallet) w of
               (w1, Inl _) \<Rightarrow> w1
             | (w1, Inr skips) \<Rightarrow>
                 let maxSkips = st_max_skip_rounds (sc_threshold (cf_sweep (se_cfg env)));
                     forced = (0 < maxSkips \<and> maxSkips \<le> skips)
                 in if \<not> forced \<and> \<not> isStale env tok (uw_address wallet) w1 then w1
                    else fst (sweepOne env tok wallet balance w1))
          else fst (sweepOne env tok wallet balance w))"

definition roundToken ::
  "(user_wallet \<Rightarrow> sweep_env) \<Rightarrow> sweep_env \<Rightarrow> token_config \<Rightarrow> world \<Rightarrow> world \<times> go_error option" where
  "roundToken envs env tok w =
     (case candidates env tok w of
        Inl e \<Rightarrow> (w, Some e)
      | Inr ws \<Rightarrow> (foldl (\<lambda>w a. visit (envs a) tok a w) w ws, None))"

definition round_sweeps ::
  "(token_config \<Rightarrow> user_wallet \<Rightarrow> sweep_env) \<Rightarrow> (token_config \<Rightarrow> sweep_env) \<Rightarrow> token_config list \<Rightarrow> world \<Rightarrow>
     world \<times> go_error option" where
  "round_sweeps envs env toks w =
     foldl (\<lambda>(w, first) tok.
       let (w', e) = roundToken (envs tok) (env tok) tok w
       in (w', if first = None then e else first)) (w, None) toks"

section \<open>Reconciliation\<close>

definition rebroadcast_sweep :: "sweep_env \<Rightarrow> sweep_record \<Rightarrow> world \<Rightarrow> world \<times> go_error option" where
  "rebroadcast_sweep env row w =
     (if se_fail env SwOwner then (w, Some db_err)
      else case take_first (\<lambda>u. uw_address u = s_from_address row) (user_wallets w) of
        None \<Rightarrow> (w, Some not_found)
      | Some wallet \<Rightarrow>
          case se_sign env \<lparr>sr_purpose = PurposeSweep, sr_path = uw_derive_path wallet,
              sr_address = s_from_address row,
              sr_tx = Some \<lparr>tx_visible = False, tx_id = s_txid row, tx_raw_data = None,
                tx_raw_data_hex = s_signed_raw row, tx_signature = []\<rparr>,
              sr_meta = \<lparr>sm_to_address = s_to_address row, sm_contract = s_contract row,
                sm_amount_units = s_amount_units row, sm_amount_sun = 0\<rparr>\<rparr> of
            Inl e \<Rightarrow> (w, Some e)
          | Inr resp \<Rightarrow>
              if sp_txid resp \<noteq> s_txid row then
                (w, Some (errors_new (''sweep: refusing to rebroadcast, txid changed from '' @ s_txid row @
                  '' to '' @ sp_txid resp)))
              else
                let w1 = send (sp_tx resp) w
                in case Broadcast (se_node env) (sp_tx resp) of
                     (_, None) \<Rightarrow> (w1, None)
                   | (None, Some e) \<Rightarrow> (w1, Some e)
                   | (Some r, Some e) \<Rightarrow>
                       let (failCode, permanent) = ClassifyBroadcast (br_code r) (br_message r)
                       in if permanent then failSweep env (s_id row) failCode e w1 else (w1, Some e))"

definition settling :: "int \<Rightarrow> sweep_record \<Rightarrow> bool" where
  "settling i s \<longleftrightarrow> s_id s = i \<and> s_status s \<in> {SweepEnergyOK, SweepBroadcast}"

definition settleAbsent :: "sweep_env \<Rightarrow> sweep_record \<Rightarrow> world \<Rightarrow> world \<times> go_error option" where
  "settleAbsent env row w =
     (if (case s_expired_at row of None \<Rightarrow> True | Some t \<Rightarrow> se_now env < t) then
        (if s_signed_raw row = '''' then (w, None) else rebroadcast_sweep env row w)
      else if se_fail env SwExpire then (w, Some db_err)
      else (w\<lparr>sweeps := update_where (settling (s_id row))
                (\<lambda>s. s\<lparr>s_status := SweepFailed, s_fail_reason := ''transaction expired without inclusion'',
                       s_fail_code := FailExpired, s_updated_at := se_now env\<rparr>) (sweeps w)\<rparr>, None))"

definition covered :: "sweep_record \<Rightarrow> deposit_record \<Rightarrow> bool" where
  "covered row r \<longleftrightarrow> unswept_of (s_contract row) (s_from_address row) r \<and>
     (0 < s_deposit_max_id row \<longrightarrow> d_id r \<le> s_deposit_max_id row)"

definition confirm_sweep :: "sweep_env \<Rightarrow> sweep_record \<Rightarrow> tx_info \<Rightarrow> world \<Rightarrow> world \<times> go_error option" where
  "confirm_sweep env row info w =
     (if se_fail env SwSettle then (w, Some db_err)
      else (w\<lparr>sweeps := update_where (settling (s_id row))
                (\<lambda>s. s\<lparr>s_status := SweepConfirmed, s_confirmed_at := Some (se_now env),
                       s_energy_used := ti_energy_usage_total info, s_block_number := ti_block_number info,
                       s_updated_at := se_now env\<rparr>) (sweeps w),
              deposits := update_where (covered row)
                (\<lambda>r. r\<lparr>d_swept := True, d_updated_at := se_now env\<rparr>) (deposits w),
              sweep_skips := delete_where (\<lambda>s. sk_address s = s_from_address row \<and> sk_contract s = s_contract row)
                (sweep_skips w)\<rparr>, None))"

definition reconcileOne_sweep :: "sweep_env \<Rightarrow> sweep_record \<Rightarrow> world \<Rightarrow> world" where
  "reconcileOne_sweep env row w =
     (case GetTxInfoByID (se_node env) (s_txid row) of
        Inl _ \<Rightarrow> w
      | Inr None \<Rightarrow> fst (settleAbsent env row w)
      | Inr (Some info) \<Rightarrow>
          if \<not> Succeeded info then
            set_columns env SwFail (s_id row)
              (\<lambda>s. s\<lparr>s_status := SweepFailed, s_fail_reason := truncate_str (FailureReason info) 240,
                     s_fail_code := ClassifyReceipt (Some info), s_block_number := ti_block_number info\<rparr>) w
          else fst (confirm_sweep env row info w))"

definition Reconcile_sweeps :: "(sweep_record \<Rightarrow> sweep_env) \<Rightarrow> bool \<Rightarrow> world \<Rightarrow> world \<times> go_error option" where
  "Reconcile_sweeps envs fail w =
     (if fail then (w, Some db_err)
      else (foldl (\<lambda>w row. reconcileOne_sweep (envs row) row w) w
              (select_limit (\<lambda>s. s_status s \<in> {SweepEnergyOK, SweepBroadcast} \<and> s_txid s \<noteq> '''') 100 (sweeps w)), None))"

end
