(* ===== verification/SweepSafety.thy ===== *)
theory SweepSafety
  imports Sweep
begin

text \<open>
  The sweeps over any run of the sweeper and the reconciler. A sweep has two phases: up to the signed
  row, which the reconciler can see from then on, and the broadcast; the address and token stay locked
  between them. The reconciler works on rows it read earlier.
\<close>

section \<open>What one phase leaves of the table\<close>

definition same_sweep :: "sweep_record \<Rightarrow> sweep_record \<Rightarrow> bool" where
  "same_sweep a b \<longleftrightarrow> s_id a = s_id b \<and> s_from_address a = s_from_address b \<and> s_contract a = s_contract b"

definition grown :: "world \<Rightarrow> sweep_record \<Rightarrow> world \<Rightarrow> bool" where
  "grown w n w' \<longleftrightarrow> sweeps w' = sweeps w @ [n] \<and> redis_keys w' = redis_keys w \<and> broadcasts w' = broadcasts w"

lemma grown_set_columns:
  assumes "grown w n w1" and "s_id n = i" and "i \<notin> s_id ` set (sweeps w)"
  shows "grown w (if se_fail env st then n else f (n\<lparr>s_updated_at := se_now env\<rparr>)) (set_columns env st i f w1)"
proof -
  have "map (\<lambda>s. if s_id s = i then f (s\<lparr>s_updated_at := se_now env\<rparr>) else s) (sweeps w) = sweeps w"
    using assms(3) by (intro map_idI) auto
  then show ?thesis using assms(1,2) by (auto simp: grown_def set_columns_def update_where_def)
qed

lemma grown_energy: "grown w n w1 \<Longrightarrow> energy_only w1 w2 \<Longrightarrow> grown w n w2"
  using energy_only_frame [of w1 w2] by (auto simp: grown_def)

lemma AcquireRented_only: "AcquireRented env purpose receiver need requestID w = (w', res) \<Longrightarrow> energy_only w w'"
  unfolding AcquireRented_def by (rule acquire_only)

lemma sweep_admit_free:
  assumes "sweep_admit env tok wallet amount w = Inr (Some p)"
    and "s \<in> set (sweeps w)" and "s_from_address s = uw_address wallet" and "s_contract s = tc_contract tok"
  shows "\<not> in_flight s"
proof -
  have "\<not> 0 < affected (\<lambda>s. s_from_address s = uw_address wallet \<and> s_contract s = tc_contract tok \<and> in_flight s) (sweeps w)"
    using assms(1) by (auto simp: sweep_admit_def Let_def split: if_splits)
  then show ?thesis using assms(2-4) by (auto simp: affected_pos)
qed

definition begins ::
  "token_config \<Rightarrow> user_wallet \<Rightarrow> world \<Rightarrow> world \<Rightarrow> go_error option + int \<times> transaction \<Rightarrow> sweep_record \<Rightarrow> bool" where
  "begins tok wallet w w' r s \<longleftrightarrow> grown w s w' \<and> s_id s = fresh_id (map s_id (sweeps w))
     \<and> s_from_address s = uw_address wallet \<and> s_contract s = tc_contract tok
     \<and> (case r of Inl _ \<Rightarrow> s_txid s = ''''
        | Inr (i, tx) \<Rightarrow> i = s_id s \<and> (s_txid s = '''' \<or> s_txid s = tx_id tx))"

lemma sweep_sign_begins:
  assumes "sweep_sign env tok wallet amount data (s_id n) w1 = (w', r)" and "signing (se_sign env)"
    and "grown w n w1" and "s_id n = fresh_id (map s_id (sweeps w))" and "s_txid n = ''''"
    and "s_from_address n = uw_address wallet" and "s_contract n = tc_contract tok"
  shows "\<exists>s. begins tok wallet w w' r s"
proof -
  have fresh: "s_id n \<notin> s_id ` set (sweeps w)" using fresh_id_not_in [of "map s_id (sweeps w)"] assms(4) by simp
  note up = grown_set_columns [OF assms(3) refl fresh]
  consider (stop) code e where "w' = set_columns env SwFail (s_id n)
        (\<lambda>s. s\<lparr>s_status := SweepFailed, s_fail_reason := truncate_str (err_msg e) 240, s_fail_code := code\<rparr>) w1" "r = Inl (Some e)"
    | (signed) req resp where "se_sign env req = Inr resp" "r = Inr (s_id n, sp_tx resp)"
        "w' = set_columns env SwSigned (s_id n)
           (\<lambda>s. s\<lparr>s_txid := sp_txid resp, s_signed_raw := tx_raw_data_hex (sp_tx resp),
              s_expired_at := Some (se_now env + i64 (expirationSeconds_sweep (se_cfg env) * second))\<rparr>) w1"
    using assms(1) by (auto simp: sweep_sign_def failSweep_def Let_def split: sum.splits)
  then show ?thesis
  proof cases
    case stop
    then show ?thesis
      using up [of env SwFail "\<lambda>s. s\<lparr>s_status := SweepFailed, s_fail_reason := truncate_str (err_msg e) 240, s_fail_code := code\<rparr>"]
        assms(4-7)
      by (intro exI) (auto simp: begins_def)
  next
    case signed
    have "sp_txid resp = tx_id (sp_tx resp)" using signing.sign_id [OF assms(2) signed(1)] by simp
    then show ?thesis
      using up [of env SwSigned "\<lambda>s. s\<lparr>s_txid := sp_txid resp, s_signed_raw := tx_raw_data_hex (sp_tx resp),
              s_expired_at := Some (se_now env + i64 (expirationSeconds_sweep (se_cfg env) * second))\<rparr>"] signed assms(4-7)
      by (intro exI) (auto simp: begins_def)
  qed
qed

lemma sweep_begin_cases:
  assumes "sweep_begin env tok wallet amount w = (w', r)" and "signing (se_sign env)"
  shows "(w' = w \<and> (\<exists>e. r = Inl e)) \<or>
    ((\<exists>s. begins tok wallet w w' r s) \<and>
     (\<forall>s \<in> set (sweeps w). s_from_address s = uw_address wallet \<longrightarrow> s_contract s = tc_contract tok \<longrightarrow> \<not> in_flight s))"
proof (cases "w' = w \<and> (\<exists>e. r = Inl e)")
  case False
  then obtain attempts need data maxID where ad: "sweep_admit env tok wallet amount w = Inr (Some (attempts, need, data, maxID))"
    and cr: "\<not> se_fail env SwCreate"
    using assms(1) by (auto simp: sweep_begin_def Let_def split: sum.splits option.splits if_splits)
  let ?i = "fresh_id (map s_id (sweeps w))"
  let ?n = "new_sweep env tok (uw_address wallet) amount attempts maxID ?i"
  let ?w1 = "w\<lparr>sweeps := sweeps w @ [?n]\<rparr>"
  let ?acq = "if SweepRentalOn (se_cfg env) then AcquireRented else AcquireBurn"
  have n: "s_id ?n = ?i" "s_txid ?n = ''''" "s_from_address ?n = uw_address wallet" "s_contract ?n = tc_contract tok"
    by (simp_all add: new_sweep_def)
  have fresh: "?i \<notin> s_id ` set (sweeps w)" using fresh_id_not_in [of "map s_id (sweeps w)"] by simp
  have g1: "grown w ?n ?w1" by (simp add: grown_def)
  obtain w2 ro where aq: "?acq (se_energy env) ''sweep'' (uw_address wallet) need (''sweep-'' @ big_String ?i) ?w1 = (w2, ro)"
    by fastforce
  have g2: "grown w ?n w2"
    using aq grown_energy [OF g1] AcquireRented_only AcquireBurn_only by (auto split: if_splits)
  have free: "\<forall>s \<in> set (sweeps w). s_from_address s = uw_address wallet \<longrightarrow> s_contract s = tc_contract tok \<longrightarrow> \<not> in_flight s"
    using sweep_admit_free [OF ad] by blast
  have "\<exists>s. begins tok wallet w w' r s"
  proof (cases ro)
    case (Inl e)
    let ?f = "\<lambda>s. s\<lparr>s_status := SweepFailed, s_fail_reason := truncate_str (err_msg (wrap_err ''energy: '' e)) 240,
        s_fail_code := FailCodeEnergyRental\<rparr>"
    have w': "w' = set_columns env SwFail ?i ?f w2" "r = Inl (Some (wrap_err ''energy: '' e))"
      using assms(1) ad cr aq Inl by (simp_all add: sweep_begin_def Let_def failSweep_def)
    show ?thesis
      using grown_set_columns [OF g2 n(1) fresh, of env SwFail ?f] n
      unfolding w' by (intro exI) (auto simp: begins_def)
  next
    case (Inr order)
    let ?f = "\<lambda>s. s\<lparr>s_status := SweepEnergyOK, s_fee_mode := FeeMode (eo_provider order),
        s_energy_order := eo_request_id order, s_cost_trx := eo_cost_trx order\<rparr>"
    let ?n2 = "if se_fail env SwEnergyOK then ?n else ?f (?n\<lparr>s_updated_at := se_now env\<rparr>)"
    have g3: "grown w ?n2 (set_columns env SwEnergyOK ?i ?f w2)" by (rule grown_set_columns [OF g2 n(1) fresh])
    have n2: "s_id ?n2 = ?i" "s_txid ?n2 = ''''" "s_from_address ?n2 = uw_address wallet" "s_contract ?n2 = tc_contract tok"
      using n by simp_all
    have "sweep_sign env tok wallet amount data ?i (set_columns env SwEnergyOK ?i ?f w2) = (w', r)"
      using assms(1) ad cr aq Inr by (simp add: sweep_begin_def Let_def)
    then show ?thesis using sweep_sign_begins [OF _ assms(2) g3 n2] by (simp only: n2)
  qed
  then show ?thesis using free by blast
qed simp

definition shrinks :: "world \<Rightarrow> world \<Rightarrow> bool" where
  "shrinks w w' \<longleftrightarrow> (\<exists>g. sweeps w' = map g (sweeps w) \<and>
     (\<forall>s. same_sweep s (g s) \<and> s_txid (g s) = s_txid s \<and> (in_flight (g s) \<longrightarrow> in_flight s))) \<and>
     redis_keys w' = redis_keys w"

lemma shrinks_refl: "sweeps w' = sweeps w \<Longrightarrow> redis_keys w' = redis_keys w \<Longrightarrow> shrinks w w'"
  unfolding shrinks_def by (intro conjI exI [of _ id]) (auto simp: same_sweep_def)

lemma shrinks_update:
  assumes "sweeps w' = update_where p f (sweeps w)" and "redis_keys w' = redis_keys w"
    and "\<And>s. same_sweep s (f s)" and "\<And>s. s_txid (f s) = s_txid s" and "\<And>s. \<not> in_flight (f s)"
  shows "shrinks w w'"
  unfolding shrinks_def assms(1) update_where_def
  by (intro conjI exI [of _ "\<lambda>r. if p r then f r else r"]) (use assms(2-5) in \<open>auto simp: same_sweep_def\<close>)

lemma failSweep_shrinks: "shrinks w (fst (failSweep env i code e w))"
proof (cases "se_fail env SwFail")
  case True
  then show ?thesis by (intro shrinks_refl) (simp_all add: failSweep_def set_columns_def)
next
  case False
  let ?f = "\<lambda>s. s\<lparr>s_updated_at := se_now env, s_status := SweepFailed,
      s_fail_reason := truncate_str (err_msg e) 240, s_fail_code := code\<rparr>"
  show ?thesis
    by (rule shrinks_update [of _ "\<lambda>s. s_id s = i" ?f])
      (use False in \<open>simp_all add: failSweep_def set_columns_def same_sweep_def in_flight_def\<close>)
qed

lemma failSweep_broadcasts: "broadcasts (fst (failSweep env i code e w)) = broadcasts w"
  by (simp add: failSweep_def set_columns_def)

lemma shrinks_send: "shrinks (send tx w) w' \<Longrightarrow> shrinks w w'"
  by (simp add: shrinks_def send_def)

lemma rebroadcast_sweep_shrinks:
  assumes "rebroadcast_sweep env row w = (w', e)" and "signing (se_sign env)"
  shows "shrinks w w' \<and> (broadcasts w' = broadcasts w \<or>
    (\<exists>tx. broadcasts w' = broadcasts w @ [tx] \<and> tx_id tx = s_txid row \<and> tx_raw_data_hex tx = s_signed_raw row))"
proof (cases "w' = w")
  case True
  then show ?thesis by (simp add: shrinks_refl)
next
  case False
  let ?req = "\<lambda>wallet. \<lparr>sr_purpose = PurposeSweep, sr_path = uw_derive_path wallet,
              sr_address = s_from_address row,
              sr_tx = Some \<lparr>tx_visible = False, tx_id = s_txid row, tx_raw_data = None,
                tx_raw_data_hex = s_signed_raw row, tx_signature = []\<rparr>,
              sr_meta = \<lparr>sm_to_address = s_to_address row, sm_contract = s_contract row,
                sm_amount_units = s_amount_units row, sm_amount_sun = 0\<rparr>\<rparr>"
  have ow: "\<not> se_fail env SwOwner" using assms(1) False by (auto simp: rebroadcast_sweep_def)
  obtain wallet where tf: "take_first (\<lambda>u. uw_address u = s_from_address row) (user_wallets w) = Some wallet"
    using assms(1) False ow
    by (cases "take_first (\<lambda>u. uw_address u = s_from_address row) (user_wallets w)") (auto simp: rebroadcast_sweep_def)
  obtain resp where sg: "se_sign env (?req wallet) = Inr resp"
    using assms(1) False ow tf by (cases "se_sign env (?req wallet)") (auto simp: rebroadcast_sweep_def)
  have eq: "sp_txid resp = s_txid row"
    using assms(1) False ow tf sg by (rule_tac ccontr) (simp add: rebroadcast_sweep_def)
  have w': "w' = send (sp_tx resp) w \<or> (\<exists>code e. w' = fst (failSweep env (s_id row) code e (send (sp_tx resp) w)))"
  proof -
    obtain res oe where br: "Broadcast (se_node env) (sp_tx resp) = (res, oe)" by fastforce
    consider "oe = None" | e where "oe = Some e" "res = None" | r e where "oe = Some e" "res = Some r"
      by (cases oe; cases res) auto
    then show ?thesis
    proof cases
      case 3
      obtain code perm where cl: "ClassifyBroadcast (br_code r) (br_message r) = (code, perm)" by fastforce
      then have "w' = (if perm then fst (failSweep env (s_id row) code e (send (sp_tx resp) w)) else send (sp_tx resp) w)"
        using assms(1) ow tf sg eq br 3 by (auto simp: rebroadcast_sweep_def Let_def)
      then show ?thesis by auto
    qed (use assms(1) ow tf sg eq br in \<open>cases res; simp add: rebroadcast_sweep_def Let_def\<close>)+
  qed
  have id: "tx_id (sp_tx resp) = s_txid row" "tx_raw_data_hex (sp_tx resp) = s_signed_raw row"
    using signing.sign_id [OF assms(2) sg] signing.sign_same [OF assms(2) sg] eq by auto
  have "shrinks (send (sp_tx resp) w) w' \<and> broadcasts w' = broadcasts w @ [sp_tx resp]"
    using w' failSweep_shrinks failSweep_broadcasts by (auto simp: shrinks_refl) (simp_all add: send_def)
  then show ?thesis using id shrinks_send by blast
qed

text \<open>The only transaction the reconciler sends is the one the row it read carries.\<close>

definition resends :: "sweep_record \<Rightarrow> world \<Rightarrow> world \<Rightarrow> bool" where
  "resends row w w' \<longleftrightarrow> shrinks w w' \<and> (broadcasts w' = broadcasts w \<or>
    (\<exists>tx. broadcasts w' = broadcasts w @ [tx] \<and> tx_id tx = s_txid row \<and> tx_raw_data_hex tx = s_signed_raw row))"

lemma resends_refl: "resends row w w"
  by (simp add: resends_def shrinks_refl)

lemma settleAbsent_resends:
  assumes "signing (se_sign env)"
  shows "resends row w (fst (settleAbsent env row w))"
proof -
  let ?f = "\<lambda>s. s\<lparr>s_status := SweepFailed, s_fail_reason := ''transaction expired without inclusion'',
                     s_fail_code := FailExpired, s_updated_at := se_now env\<rparr>"
  have re: "resends row w (fst (rebroadcast_sweep env row w))"
    using rebroadcast_sweep_shrinks [OF _ assms] by (metis prod.collapse resends_def)
  have up: "resends row w (w\<lparr>sweeps := update_where (settling (s_id row)) ?f (sweeps w)\<rparr>)"
    unfolding resends_def
    by (intro conjI disjI1 shrinks_update [of _ "settling (s_id row)" ?f]) (simp_all add: same_sweep_def in_flight_def)
  show ?thesis using re up resends_refl by (simp add: settleAbsent_def)
qed

lemma confirm_sweep_resends: "resends row w (fst (confirm_sweep env row info w))"
proof (cases "se_fail env SwSettle")
  case True
  then show ?thesis by (simp add: confirm_sweep_def resends_refl)
next
  case False
  let ?f = "\<lambda>s. s\<lparr>s_status := SweepConfirmed, s_confirmed_at := Some (se_now env),
                     s_energy_used := ti_energy_usage_total info, s_block_number := ti_block_number info,
                     s_updated_at := se_now env\<rparr>"
  show ?thesis
    unfolding resends_def using False
    by (intro conjI disjI1 shrinks_update [of _ "settling (s_id row)" ?f])
      (simp_all add: confirm_sweep_def same_sweep_def in_flight_def)
qed

lemma reconcile_resends:
  assumes "signing (se_sign env)"
  shows "resends row w (reconcileOne_sweep env row w)"
proof (cases "GetTxInfoByID (se_node env) (s_txid row)")
  case (Inl e)
  then show ?thesis by (simp add: reconcileOne_sweep_def resends_refl)
next
  case (Inr io)
  show ?thesis
  proof (cases io)
    case None
    then show ?thesis using Inr settleAbsent_resends [OF assms] by (simp add: reconcileOne_sweep_def)
  next
    case (Some info)
    let ?f = "\<lambda>s. s\<lparr>s_status := SweepFailed, s_fail_reason := truncate_str (FailureReason info) 240,
                     s_fail_code := ClassifyReceipt (Some info), s_block_number := ti_block_number info\<rparr>"
    have up: "resends row w (set_columns env SwFail (s_id row) ?f w)"
    proof (cases "se_fail env SwFail")
      case False
      then show ?thesis
        unfolding resends_def
        by (intro conjI disjI1 shrinks_update [of _ "\<lambda>s. s_id s = s_id row" "\<lambda>s. ?f (s\<lparr>s_updated_at := se_now env\<rparr>)"])
          (simp_all add: set_columns_def same_sweep_def in_flight_def)
    qed (simp add: set_columns_def resends_refl)
    show ?thesis using Inr Some up confirm_sweep_resends by (simp add: reconcileOne_sweep_def)
  qed
qed

text \<open>The broadcast touches the one row it names.\<close>

definition touches :: "int \<Rightarrow> string \<Rightarrow> world \<Rightarrow> world \<Rightarrow> bool" where
  "touches i txid w w' \<longleftrightarrow> (\<exists>g. sweeps w' = map g (sweeps w) \<and>
     (\<forall>s. same_sweep s (g s) \<and> (s_id s \<noteq> i \<longrightarrow> g s = s) \<and> s_txid (g s) \<in> {s_txid s, txid})) \<and>
     redis_keys w' = redis_keys w"

lemma set_columns_touches:
  assumes "\<And>s. same_sweep s (f s)" and "\<And>s. s_txid (f s) \<in> {s_txid s, txid}"
  shows "touches i txid w (set_columns env st i f w)"
  unfolding touches_def
proof (intro conjI exI allI)
  let ?g = "\<lambda>s. if \<not> se_fail env st \<and> s_id s = i then f (s\<lparr>s_updated_at := se_now env\<rparr>) else s"
  show "sweeps (set_columns env st i f w) = map ?g (sweeps w)" by (simp add: set_columns_def update_where_def)
  show "same_sweep s (?g s)" for s using assms(1) [of "s\<lparr>s_updated_at := se_now env\<rparr>"] by (simp add: same_sweep_def)
  show "s_id s \<noteq> i \<longrightarrow> ?g s = s" for s by simp
  show "s_txid (?g s) \<in> {s_txid s, txid}" for s using assms(2) [of "s\<lparr>s_updated_at := se_now env\<rparr>"] by simp
  show "redis_keys (set_columns env st i f w) = redis_keys w" by (simp add: set_columns_def)
qed

lemma sweep_send_touches:
  assumes "sweep_send env i tx w = (w', e)"
  shows "touches i (tx_id tx) w w' \<and> broadcasts w' = broadcasts w @ [tx]"
proof -
  define res where "res = fst (Broadcast (se_node env) tx)"
  define cp where "cp = (case res of None \<Rightarrow> (FailNode, False) | Some r \<Rightarrow> ClassifyBroadcast (br_code r) (br_message r))"
  have tid: "(case res of None \<Rightarrow> '''' | Some r \<Rightarrow> br_txid r) = tx_id tx" if "snd (Broadcast (se_node env) tx) = None"
    using Broadcast_ok [of "se_node env" tx res] that by (auto simp: res_def prod_eq_iff)
  have "\<exists>st f. w' = set_columns env st i f (send tx w) \<and> (\<forall>s. same_sweep s (f s)) \<and> (\<forall>s. s_txid (f s) \<in> {s_txid s, tx_id tx})"
  proof (cases "snd (Broadcast (se_node env) tx)")
    case None
    let ?f = "\<lambda>s. s\<lparr>s_status := SweepBroadcast, s_txid := tx_id tx, s_broadcast_at := Some (se_now env)\<rparr>"
    have "w' = set_columns env SwSent i ?f (send tx w)"
      using assms None tid by (cases "Broadcast (se_node env) tx") (simp add: sweep_send_def res_def Let_def)
    then show ?thesis by (intro exI [of _ SwSent] exI [of _ ?f]) (simp add: same_sweep_def)
  next
    case (Some err)
    let ?f = "\<lambda>s. s\<lparr>s_status := SweepBroadcast, s_fail_reason := truncate_str (err_msg err) 240, s_fail_code := fst cp\<rparr>"
    let ?g = "\<lambda>s. s\<lparr>s_status := SweepFailed, s_fail_reason := truncate_str (err_msg err) 240, s_fail_code := fst cp\<rparr>"
    have w: "w' = (if snd cp then set_columns env SwFail i ?g (send tx w) else set_columns env SwSent i ?f (send tx w))"
      using assms Some
      by (cases "Broadcast (se_node env) tx"; cases cp) (auto simp: sweep_send_def cp_def res_def failSweep_def Let_def)
    show ?thesis
    proof (cases "snd cp")
      case True
      then show ?thesis using w by (intro exI [of _ SwFail] exI [of _ ?g]) (simp add: same_sweep_def)
    next
      case False
      then show ?thesis using w by (intro exI [of _ SwSent] exI [of _ ?f]) (simp add: same_sweep_def)
    qed
  qed
  then obtain st f where w': "w' = set_columns env st i f (send tx w)" "\<And>s. same_sweep s (f s)"
    "\<And>s. s_txid (f s) \<in> {s_txid s, tx_id tx}" by blast
  have "touches i (tx_id tx) (send tx w) w'" unfolding w'(1) by (rule set_columns_touches) (use w' in auto)
  then show ?thesis by (simp add: touches_def send_def w'(1) set_columns_def)
qed

section \<open>The transition system\<close>

text \<open>\<open>ss_held\<close>: the sweeps between their phases, with the lock they hold; \<open>ss_sent\<close>: what was handed to a
  node, by row.\<close>

record sweep_sys =
  ss_world :: world
  ss_read :: "sweep_record set"
  ss_held :: "(string \<times> int \<times> transaction) set"
  ss_sent :: "(int \<times> transaction) set"

inductive sweep_step :: "string \<Rightarrow> sweep_sys \<Rightarrow> sweep_sys \<Rightarrow> bool" for prefix where
  read: "row \<in> set (sweeps (ss_world s)) \<Longrightarrow> s_txid row \<noteq> '''' \<Longrightarrow>
    sweep_step prefix s (s\<lparr>ss_read := insert row (ss_read s)\<rparr>)"
| begin_stop: "Lock prefix (sweep_lock tok (uw_address wallet)) lf (ss_world s) = Some w1 \<Longrightarrow>
    sweep_begin env tok wallet amount w1 = (w2, Inl e) \<Longrightarrow> signing (se_sign env) \<Longrightarrow>
    sweep_step prefix s (s\<lparr>ss_world := Unlock prefix (sweep_lock tok (uw_address wallet)) w2\<rparr>)"
| begin_done: "Lock prefix (sweep_lock tok (uw_address wallet)) lf (ss_world s) = Some w1 \<Longrightarrow>
    sweep_begin env tok wallet amount w1 = (w2, Inr (i, tx)) \<Longrightarrow> signing (se_sign env) \<Longrightarrow>
    sweep_step prefix s (s\<lparr>ss_world := w2, ss_held := insert (sweep_lock tok (uw_address wallet), i, tx) (ss_held s)\<rparr>)"
| send: "(key, i, tx) \<in> ss_held s \<Longrightarrow> sweep_send env i tx (ss_world s) = (w', e) \<Longrightarrow>
    sweep_step prefix s (s\<lparr>ss_world := Unlock prefix key w', ss_held := ss_held s - {(key, i, tx)},
      ss_sent := insert (i, tx) (ss_sent s)\<rparr>)"
| reconcile: "row \<in> ss_read s \<Longrightarrow> w' = reconcileOne_sweep env row (ss_world s) \<Longrightarrow> signing (se_sign env) \<Longrightarrow>
    sweep_step prefix s (s\<lparr>ss_world := w', ss_sent := ss_sent s \<union>
      (\<lambda>tx. (s_id row, tx)) ` set (drop (length (broadcasts (ss_world s))) (broadcasts w'))\<rparr>)"
| other: "sweeps w' = sweeps (ss_world s) \<Longrightarrow> redis_keys w' = Some ks \<Longrightarrow>
    \<forall>(key, i, tx) \<in> ss_held s. Key prefix [''lock'', key] \<in> set ks \<Longrightarrow>
    sweep_step prefix s (s\<lparr>ss_world := w'\<rparr>)"

definition sweep_start :: "sweep_sys \<Rightarrow> bool" where
  "sweep_start s \<longleftrightarrow> sweeps (ss_world s) = [] \<and> redis_keys (ss_world s) \<noteq> None \<and> ss_read s = {} \<and> ss_held s = {} \<and>
     ss_sent s = {}"

text \<open>A sweep is one phase after the other under the lock.\<close>

lemma sweepOne_phases:
  "sweepOne env tok wallet amount w =
     (case Lock (cf_redis_prefix (se_cfg env)) (sweep_lock tok (uw_address wallet)) (se_lock_fail env) w of
        None \<Rightarrow> (w, None)
      | Some w1 \<Rightarrow>
          let (w2, r) = sweep_begin env tok wallet amount w1;
              (w3, e) = (case r of Inl e \<Rightarrow> (w2, e) | Inr (i, tx) \<Rightarrow> sweep_send env i tx w2)
          in (Unlock (cf_redis_prefix (se_cfg env)) (sweep_lock tok (uw_address wallet)) w3, e))"
  by (simp add: sweepOne_def Let_def split: option.splits prod.splits sum.splits)

section \<open>The invariant\<close>

definition sweep_key :: "sweep_record \<Rightarrow> string \<times> string" where
  "sweep_key s = (s_from_address s, s_contract s)"

definition lock_of :: "sweep_record \<Rightarrow> string" where
  "lock_of s = ''sweep:'' @ s_contract s @ '':'' @ s_from_address s"

text \<open>No two rows of one address and token are in flight, and a row about to be sent is the only one
  that may be.\<close>

definition flights_ok :: "sweep_record list \<Rightarrow> (string \<times> int \<times> transaction) set \<Rightarrow> bool" where
  "flights_ok t held \<longleftrightarrow> distinct (map s_id t)
     \<and> (\<forall>a \<in> set t. \<forall>b \<in> set t. in_flight a \<longrightarrow> in_flight b \<longrightarrow> sweep_key a = sweep_key b \<longrightarrow> a = b)
     \<and> (\<forall>k i tx. (k, i, tx) \<in> held \<longrightarrow> (\<exists>s \<in> set t. s_id s = i \<and> lock_of s = k
          \<and> (\<forall>b \<in> set t. in_flight b \<longrightarrow> sweep_key b = sweep_key s \<longrightarrow> b = s)))"

definition locks_ok :: "string \<Rightarrow> string list option \<Rightarrow> (string \<times> int \<times> transaction) set \<Rightarrow> bool" where
  "locks_ok prefix ks held \<longleftrightarrow> (\<exists>l. ks = Some l \<and> (\<forall>k i tx. (k, i, tx) \<in> held \<longrightarrow> Key prefix [''lock'', k] \<in> set l))
     \<and> (\<forall>k i tx i' tx'. (k, i, tx) \<in> held \<longrightarrow> (k, i', tx') \<in> held \<longrightarrow> i = i' \<and> tx = tx')"

text \<open>Everything known of a row's transaction names the same one.\<close>

definition ids_ok :: "sweep_record list \<Rightarrow> sweep_record set \<Rightarrow> (int \<times> transaction) set \<Rightarrow> bool" where
  "ids_ok t rd txs \<longleftrightarrow> (\<forall>(i, tx) \<in> txs. \<exists>s \<in> set t. s_id s = i)
     \<and> (\<forall>(i, tx) \<in> txs. \<forall>s \<in> set t. s_id s = i \<longrightarrow> s_txid s = '''' \<or> s_txid s = tx_id tx)
     \<and> (\<forall>(i, a) \<in> txs. \<forall>(j, b) \<in> txs. i = j \<longrightarrow> tx_id a = tx_id b)
     \<and> (\<forall>q \<in> rd. s_txid q \<noteq> '''' \<and> (\<exists>s \<in> set t. s_id s = s_id q \<and> s_txid s = s_txid q))"

definition sweep_inv :: "string \<Rightarrow> sweep_sys \<Rightarrow> bool" where
  "sweep_inv prefix s \<longleftrightarrow> flights_ok (sweeps (ss_world s)) (ss_held s)
     \<and> locks_ok prefix (redis_keys (ss_world s)) (ss_held s)
     \<and> ids_ok (sweeps (ss_world s)) (ss_read s) (snd ` ss_held s \<union> ss_sent s)"

lemma Key_lock_inject: "Key prefix [''lock'', a] = Key prefix [''lock'', b] \<longleftrightarrow> a = b"
  by (simp add: Key_def)

lemma same_sweep_simps: "same_sweep a b \<Longrightarrow> s_id b = s_id a \<and> sweep_key b = sweep_key a \<and> lock_of b = lock_of a"
  by (simp add: same_sweep_def sweep_key_def lock_of_def)

lemma flights_okI:
  assumes "distinct (map s_id t)"
    and "\<And>a b. a \<in> set t \<Longrightarrow> b \<in> set t \<Longrightarrow> in_flight a \<Longrightarrow> in_flight b \<Longrightarrow> sweep_key a = sweep_key b \<Longrightarrow> a = b"
    and "\<And>k i tx. (k, i, tx) \<in> held \<Longrightarrow> \<exists>s \<in> set t. s_id s = i \<and> lock_of s = k
          \<and> (\<forall>b \<in> set t. in_flight b \<longrightarrow> sweep_key b = sweep_key s \<longrightarrow> b = s)"
  shows "flights_ok t held"
  unfolding flights_ok_def using assms by blast

lemma flights_okD:
  assumes "flights_ok t held"
  shows "distinct (map s_id t)"
    and "a \<in> set t \<Longrightarrow> b \<in> set t \<Longrightarrow> in_flight a \<Longrightarrow> in_flight b \<Longrightarrow> sweep_key a = sweep_key b \<Longrightarrow> a = b"
    and "(k, i, tx) \<in> held \<Longrightarrow> \<exists>s \<in> set t. s_id s = i \<and> lock_of s = k
          \<and> (\<forall>b \<in> set t. in_flight b \<longrightarrow> sweep_key b = sweep_key s \<longrightarrow> b = s)"
  using assms unfolding flights_ok_def by blast+

lemma ids_okI:
  assumes "\<And>i tx. (i, tx) \<in> txs \<Longrightarrow> \<exists>s \<in> set t. s_id s = i"
    and "\<And>s tx. s \<in> set t \<Longrightarrow> (s_id s, tx) \<in> txs \<Longrightarrow> s_txid s = '''' \<or> s_txid s = tx_id tx"
    and "\<And>i a b. (i, a) \<in> txs \<Longrightarrow> (i, b) \<in> txs \<Longrightarrow> tx_id a = tx_id b"
    and "\<And>q. q \<in> rd \<Longrightarrow> s_txid q \<noteq> '''' \<and> (\<exists>s \<in> set t. s_id s = s_id q \<and> s_txid s = s_txid q)"
  shows "ids_ok t rd txs"
  unfolding ids_ok_def using assms by blast

lemma ids_okD:
  assumes "ids_ok t rd txs"
  shows "(i, tx) \<in> txs \<Longrightarrow> \<exists>s \<in> set t. s_id s = i"
    and "s \<in> set t \<Longrightarrow> (s_id s, tx) \<in> txs \<Longrightarrow> s_txid s = '''' \<or> s_txid s = tx_id tx"
    and "(i, a) \<in> txs \<Longrightarrow> (i, b) \<in> txs \<Longrightarrow> tx_id a = tx_id b"
    and "q \<in> rd \<Longrightarrow> s_txid q \<noteq> '''' \<and> (\<exists>s \<in> set t. s_id s = s_id q \<and> s_txid s = s_txid q)"
  using assms unfolding ids_ok_def by blast+

text \<open>Rows that keep their identity and are in flight no more than before.\<close>

lemma flights_map:
  assumes "flights_ok t held" and "\<And>s. same_sweep s (g s)" and "\<And>s. s \<in> set t \<Longrightarrow> in_flight (g s) \<Longrightarrow> in_flight s"
  shows "flights_ok (map g t) held"
proof -
  have id: "s_id (g s) = s_id s" "sweep_key (g s) = sweep_key s" "lock_of (g s) = lock_of s" for s
    using same_sweep_simps [OF assms(2)] by auto
  have "distinct (map s_id (map g t))" using assms(1) by (simp add: flights_ok_def comp_def id)
  moreover have "g a = g b" if "a \<in> set t" "b \<in> set t" "in_flight (g a)" "in_flight (g b)" "sweep_key (g a) = sweep_key (g b)" for a b
    using that assms(1,3) by (auto simp: flights_ok_def id)
  moreover have "\<exists>s \<in> set (map g t). s_id s = i \<and> lock_of s = k \<and>
      (\<forall>b \<in> set (map g t). in_flight b \<longrightarrow> sweep_key b = sweep_key s \<longrightarrow> b = s)" if "(k, i, tx) \<in> held" for k i tx
  proof -
    obtain s where s: "s \<in> set t" "s_id s = i" "lock_of s = k"
      "\<forall>b \<in> set t. in_flight b \<longrightarrow> sweep_key b = sweep_key s \<longrightarrow> b = s"
      using flights_okD(3) [OF assms(1) \<open>(k, i, tx) \<in> held\<close>] by blast
    then show ?thesis using assms(3) by (intro bexI [of _ "g s"]) (auto simp: id)
  qed
  ultimately show ?thesis unfolding flights_ok_def by (auto simp del: map_map) 
qed

lemma flights_add:
  assumes "flights_ok t held" and "s_id n \<notin> s_id ` set t" and "\<forall>s \<in> set t. sweep_key s = sweep_key n \<longrightarrow> \<not> in_flight s"
    and "\<forall>k i tx. (k, i, tx) \<in> held \<longrightarrow> k \<noteq> lock_of n"
  shows "flights_ok (t @ [n]) held" and "flights_ok (t @ [n]) (insert (lock_of n, s_id n, tx) held)"
proof -
  have lk: "lock_of a = lock_of b" if "sweep_key a = sweep_key b" for a b
    using that by (simp add: sweep_key_def lock_of_def)
  have old: "\<exists>s \<in> set (t @ [n]). s_id s = i \<and> lock_of s = k \<and>
      (\<forall>b \<in> set (t @ [n]). in_flight b \<longrightarrow> sweep_key b = sweep_key s \<longrightarrow> b = s)" if h: "(k, i, tx) \<in> held" for k i tx
  proof -
    obtain s where s: "s \<in> set t" "s_id s = i" "lock_of s = k"
      "\<forall>b \<in> set t. in_flight b \<longrightarrow> sweep_key b = sweep_key s \<longrightarrow> b = s"
      using flights_okD(3) [OF assms(1)] h by blast
    have "k \<noteq> lock_of n" using assms(4) h by blast
    then have "sweep_key n \<noteq> sweep_key s" using lk s(3) by metis
    then show ?thesis using s by (intro bexI [of _ s]) auto
  qed
  have d: "distinct (map s_id (t @ [n]))" using assms(1,2) by (simp add: flights_ok_def)
  have u: "\<forall>a \<in> set (t @ [n]). \<forall>b \<in> set (t @ [n]). in_flight a \<longrightarrow> in_flight b \<longrightarrow> sweep_key a = sweep_key b \<longrightarrow> a = b"
    using assms(1,3) unfolding flights_ok_def by auto
  show "flights_ok (t @ [n]) held" using d u old by (intro flights_okI) blast+
  have "\<exists>s \<in> set (t @ [n]). s_id s = s_id n \<and> lock_of s = lock_of n \<and>
      (\<forall>b \<in> set (t @ [n]). in_flight b \<longrightarrow> sweep_key b = sweep_key s \<longrightarrow> b = s)"
    using assms(3) by (intro bexI [of _ n]) auto
  then have "\<exists>s \<in> set (t @ [n]). s_id s = i \<and> lock_of s = k \<and>
      (\<forall>b \<in> set (t @ [n]). in_flight b \<longrightarrow> sweep_key b = sweep_key s \<longrightarrow> b = s)"
    if "(k, i, x) \<in> insert (lock_of n, s_id n, tx) held" for k i x
    using that old by blast
  then show "flights_ok (t @ [n]) (insert (lock_of n, s_id n, tx) held)" using d u by (intro flights_okI) blast+
qed

lemma lock_unique:
  "locks_ok prefix ks held \<Longrightarrow> \<forall>k i tx i' tx'. (k, i, tx) \<in> held \<longrightarrow> (k, i', tx') \<in> held \<longrightarrow> i = i' \<and> tx = tx'"
  unfolding locks_ok_def by (rule conjunct2)

lemma lock_keys:
  "locks_ok prefix ks held \<Longrightarrow> \<exists>l. ks = Some l \<and> (\<forall>k i tx. (k, i, tx) \<in> held \<longrightarrow> Key prefix [''lock'', k] \<in> set l)"
  unfolding locks_ok_def by (rule conjunct1)

lemma flights_touch:
  assumes "flights_ok t held" and "(k, i, tx) \<in> held" and "locks_ok prefix ks held"
    and "\<And>s. same_sweep s (g s)" and "\<And>s. s_id s \<noteq> i \<Longrightarrow> g s = s"
  shows "flights_ok (map g t) (held - {(k, i, tx)})"
proof -
  have id: "s_id (g s) = s_id s" "sweep_key (g s) = sweep_key s" "lock_of (g s) = lock_of s" for s
    using same_sweep_simps [OF assms(4)] by auto
  have lk: "lock_of a = lock_of b" if "sweep_key a = sweep_key b" for a b
    using that by (simp add: sweep_key_def lock_of_def)
  have one: "a = b" if "a \<in> set t" "b \<in> set t" "s_id a = s_id b" for a b
    using that assms(1) unfolding flights_ok_def distinct_map inj_on_def by blast
  obtain r where r: "r \<in> set t" "s_id r = i" "lock_of r = k"
    "\<forall>b \<in> set t. in_flight b \<longrightarrow> sweep_key b = sweep_key r \<longrightarrow> b = r"
    using flights_okD(3) [OF assms(1,2)] by blast
  have "distinct (map s_id (map g t))" using assms(1) by (simp add: flights_ok_def comp_def id)
  moreover have "g a = g b" if ab: "a \<in> set t" "b \<in> set t" "in_flight (g a)" "in_flight (g b)" "sweep_key (g a) = sweep_key (g b)" for a b
  proof (cases "a = r \<or> b = r")
    case True
    have "x = r" if "x \<in> set t" "in_flight (g x)" "sweep_key x = sweep_key r" for x
      using that r one assms(5) [of x] by (cases "s_id x = i") auto
    then show ?thesis using True ab by (auto simp: id)
  next
    case False
    then have "s_id a \<noteq> i" "s_id b \<noteq> i" using ab(1,2) r(1,2) one by auto
    then have "g a = a" "g b = b" using assms(5) by auto
    then show ?thesis using ab assms(1) unfolding flights_ok_def by auto
  qed
  moreover have "\<exists>s \<in> set (map g t). s_id s = i' \<and> lock_of s = k' \<and>
      (\<forall>b \<in> set (map g t). in_flight b \<longrightarrow> sweep_key b = sweep_key s \<longrightarrow> b = s)"
    if h: "(k', i', tx') \<in> held - {(k, i, tx)}" for k' i' tx'
  proof -
    obtain s where s: "s \<in> set t" "s_id s = i'" "lock_of s = k'"
      "\<forall>b \<in> set t. in_flight b \<longrightarrow> sweep_key b = sweep_key s \<longrightarrow> b = s"
      using flights_okD(3) [OF assms(1)] h by blast
    have "k' \<noteq> k" using h assms(2) lock_unique [OF assms(3)] by blast
    then have ne: "sweep_key r \<noteq> sweep_key s" using lk r(3) s(3) by metis
    have "g x = g s" if "x \<in> set t" "in_flight (g x)" "sweep_key x = sweep_key s" for x
    proof -
      have "s_id x \<noteq> i" using that ne one [OF that(1) r(1)] r(2) by auto
      then show ?thesis using that s(4) assms(5) [of x] by auto
    qed
    then show ?thesis using s by (intro bexI [of _ "g s"]) (auto simp: id)
  qed
  ultimately show ?thesis by (intro flights_okI) (auto simp del: map_map)
qed

lemma ids_map:
  assumes "ids_ok t rd txs" and "\<And>s. same_sweep s (g s)" and "\<And>s. s_txid (g s) = s_txid s"
  shows "ids_ok (map g t) rd txs"
proof -
  have id: "s_id (g s) = s_id s" for s using same_sweep_simps [OF assms(2)] by auto
  show ?thesis using assms(1) unfolding ids_ok_def by (simp add: id assms(3))
qed

lemma ids_touch:
  assumes "ids_ok t rd txs" and "(i, tx) \<in> txs" and "\<And>s. same_sweep s (g s)" and "\<And>s. s_id s \<noteq> i \<Longrightarrow> g s = s"
    and "\<And>s. s_txid (g s) \<in> {s_txid s, tx_id tx}"
  shows "ids_ok (map g t) rd txs"
proof -
  have id: "s_id (g s) = s_id s" for s using same_sweep_simps [OF assms(3)] by auto
  have one: "tx_id a = tx_id tx" if "(i, a) \<in> txs" for a using that assms(1,2) unfolding ids_ok_def by fastforce
  have new: "s_txid (g s) = '''' \<or> s_txid (g s) = tx_id a" if "s \<in> set t" "(s_id s, a) \<in> txs" for s a
  proof (cases "s_id s = i")
    case True
    then have "s_txid s = '''' \<or> s_txid s = tx_id a" "tx_id a = tx_id tx"
      using that assms(1) one unfolding ids_ok_def by fastforce+
    then show ?thesis using assms(5) [of s] by auto
  next
    case False
    then show ?thesis using that assms(1) assms(4) [of s] unfolding ids_ok_def by fastforce
  qed
  have read: "s_txid (g s) = s_txid s" if "s \<in> set t" "s_txid s \<noteq> ''''" for s
  proof (cases "s_id s = i")
    case True
    then have "s_txid s = tx_id tx" using that assms(1,2) unfolding ids_ok_def by fastforce
    then show ?thesis using assms(5) [of s] by auto
  next
    case False
    then show ?thesis using assms(4) [of s] by simp
  qed
  have "\<forall>q \<in> rd. s_txid q \<noteq> '''' \<and> (\<exists>s \<in> set (map g t). s_id s = s_id q \<and> s_txid s = s_txid q)"
  proof
    fix q assume "q \<in> rd"
    then obtain s where "s_txid q \<noteq> ''''" "s \<in> set t" "s_id s = s_id q" "s_txid s = s_txid q"
      using assms(1) unfolding ids_ok_def by blast
    then show "s_txid q \<noteq> '''' \<and> (\<exists>s \<in> set (map g t). s_id s = s_id q \<and> s_txid s = s_txid q)"
      using read [of s] id [of s] by auto
  qed
  moreover have "\<forall>(j, a) \<in> txs. \<forall>s \<in> set (map g t). s_id s = j \<longrightarrow> s_txid s = '''' \<or> s_txid s = tx_id a"
    using new by (auto simp: id)
  moreover have "\<forall>(j, a) \<in> txs. \<exists>s \<in> set (map g t). s_id s = j"
    using assms(1) unfolding ids_ok_def by (auto simp: id)
  ultimately show ?thesis using ids_okD(3) [OF assms(1)] by (intro ids_okI) blast+
qed

lemma ids_add:
  assumes "ids_ok t rd txs" and "s_id n \<notin> s_id ` set t"
  shows "ids_ok (t @ [n]) rd txs"
    and "s_txid n = '''' \<or> s_txid n = tx_id tx \<Longrightarrow> ids_ok (t @ [n]) rd (insert (s_id n, tx) txs)"
proof -
  note d = ids_okD [OF assms(1)]
  have no: "(s_id n, a) \<notin> txs" for a
  proof
    assume "(s_id n, a) \<in> txs"
    then obtain s where "s \<in> set t" "s_id s = s_id n" using d(1) by blast
    then show False using assms(2) by (metis imageI)
  qed
  have out: "s_id s \<noteq> s_id n" if "s \<in> set t" for s using that assms(2) by (metis imageI)
  show one: "ids_ok (t @ [n]) rd txs"
  proof (rule ids_okI)
    fix i x assume "(i, x) \<in> txs"
    then show "\<exists>s \<in> set (t @ [n]). s_id s = i" using d(1) by fastforce
  next
    fix s x assume "s \<in> set (t @ [n])" "(s_id s, x) \<in> txs"
    then show "s_txid s = '''' \<or> s_txid s = tx_id x" using d(2) no by auto
  next
    fix q assume "q \<in> rd"
    then show "s_txid q \<noteq> '''' \<and> (\<exists>s \<in> set (t @ [n]). s_id s = s_id q \<and> s_txid s = s_txid q)" using d(4) by fastforce
  qed (rule d(3))
  show "ids_ok (t @ [n]) rd (insert (s_id n, tx) txs)" if p: "s_txid n = '''' \<or> s_txid n = tx_id tx"
  proof (rule ids_okI)
    fix i x assume "(i, x) \<in> insert (s_id n, tx) txs"
    then show "\<exists>s \<in> set (t @ [n]). s_id s = i" using d(1) by fastforce
  next
    fix s x assume "s \<in> set (t @ [n])" "(s_id s, x) \<in> insert (s_id n, tx) txs"
    then show "s_txid s = '''' \<or> s_txid s = tx_id x" using d(2) no out p by auto
  next
    fix i a b assume "(i, a) \<in> insert (s_id n, tx) txs" "(i, b) \<in> insert (s_id n, tx) txs"
    then show "tx_id a = tx_id b" using d(3) no by auto
  next
    fix q assume "q \<in> rd"
    then show "s_txid q \<noteq> '''' \<and> (\<exists>s \<in> set (t @ [n]). s_id s = s_id q \<and> s_txid s = s_txid q)" using d(4) by fastforce
  qed
qed

lemma ids_resend:
  assumes "ids_ok t rd txs" and "row \<in> rd" and "tx_id tx = s_txid row" and "distinct (map s_id t)"
  shows "ids_ok t rd (insert (s_id row, tx) txs)"
proof -
  obtain s where s: "s_txid row \<noteq> ''''" "s \<in> set t" "s_id s = s_id row" "s_txid s = s_txid row"
    using assms(1,2) unfolding ids_ok_def by blast
  have one: "x = s" if "x \<in> set t" "s_id x = s_id row" for x
    using that s(2,3) assms(4) unfolding distinct_map inj_on_def by metis
  note d = ids_okD [OF assms(1)]
  have same: "tx_id a = s_txid row" if "(s_id row, a) \<in> txs" for a using d(2) [OF s(2)] s(1,3,4) that by metis
  show ?thesis
  proof (rule ids_okI)
    fix i x assume "(i, x) \<in> insert (s_id row, tx) txs"
    then show "\<exists>s \<in> set t. s_id s = i" using d(1) s(2,3) by blast
  next
    fix z x assume z: "z \<in> set t" "(s_id z, x) \<in> insert (s_id row, tx) txs"
    show "s_txid z = '''' \<or> s_txid z = tx_id x"
    proof (cases "(s_id z, x) \<in> txs")
      case False
      then have "s_id z = s_id row" "x = tx" using z(2) by auto
      then show ?thesis using one [OF z(1)] s(4) assms(3) by simp
    qed (rule d(2) [OF z(1)])
  next
    fix i a b assume "(i, a) \<in> insert (s_id row, tx) txs" "(i, b) \<in> insert (s_id row, tx) txs"
    then consider "(i, a) \<in> txs" "(i, b) \<in> txs" | "i = s_id row" "a = tx \<or> (s_id row, a) \<in> txs" "b = tx \<or> (s_id row, b) \<in> txs"
      by blast
    then show "tx_id a = tx_id b"
    proof cases
      case 1
      then show ?thesis by (rule d(3))
    next
      case 2
      then show ?thesis using same assms(3) by metis
    qed
  qed (rule d(4))
qed

lemma lock_add:
  assumes "locks_ok prefix ks held" and held: "\<forall>k i tx. (k, i, tx) \<in> held \<longrightarrow> k \<noteq> key \<and> Key prefix [''lock'', k] \<in> set l"
  shows "locks_ok prefix (Some (Key prefix [''lock'', key] # l)) (insert (key, i, tx) held)"
  unfolding locks_ok_def
proof (intro conjI exI allI impI)
  show "Some (Key prefix [''lock'', key] # l) = Some (Key prefix [''lock'', key] # l)" by (rule refl)
  fix k i' t' assume a: "(k, i', t') \<in> insert (key, i, tx) held"
  then consider "k = key" | "(k, i', t') \<in> held" by blast
  then show "Key prefix [''lock'', k] \<in> set (Key prefix [''lock'', key] # l)"
    by cases (use held in \<open>simp, force\<close>)
  fix i'' t'' assume b: "(k, i'', t'') \<in> insert (key, i, tx) held"
  have "k = key \<Longrightarrow> (k, x, y) \<notin> held" for x y using held by blast
  with a b consider "i' = i" "t' = tx" "i'' = i" "t'' = tx" | "(k, i', t') \<in> held" "(k, i'', t'') \<in> held" by blast
  then show "i' = i''" "t' = t''" using lock_unique [OF assms(1)] by (cases; blast)+
qed

lemma lock_taken:
  assumes "Lock prefix key lf w = Some w1" and "locks_ok prefix (redis_keys w) held"
  obtains l where "redis_keys w = Some l" and "w1 = w\<lparr>redis_keys := Some (Key prefix [''lock'', key] # l)\<rparr>"
    and "\<forall>k i tx. (k, i, tx) \<in> held \<longrightarrow> k \<noteq> key \<and> Key prefix [''lock'', k] \<in> set l"
proof -
  obtain l where l: "redis_keys w = Some l" "\<forall>k i tx. (k, i, tx) \<in> held \<longrightarrow> Key prefix [''lock'', k] \<in> set l"
    using assms(2) by (auto simp: locks_ok_def)
  have f: "Key prefix [''lock'', key] \<notin> set l" "w1 = w\<lparr>redis_keys := Some (Key prefix [''lock'', key] # l)\<rparr>"
    using assms(1) by (simp_all add: Lock_def l(1) Let_def split: if_splits)
  have "k \<noteq> key \<and> Key prefix [''lock'', k] \<in> set l" if "(k, i, tx) \<in> held" for k i tx
    using f(1) l(2) that by (cases "k = key") auto
  then show thesis by (intro that [OF l(1) f(2)]) blast
qed

lemma locks_unlock:
  assumes "redis_keys w = Some l" and "\<forall>k i tx. (k, i, tx) \<in> held \<longrightarrow> k \<noteq> key \<and> Key prefix [''lock'', k] \<in> set l"
    and "\<forall>k i tx i' tx'. (k, i, tx) \<in> held \<longrightarrow> (k, i', tx') \<in> held \<longrightarrow> i = i' \<and> tx = tx'"
  shows "locks_ok prefix (redis_keys (Unlock prefix key w)) held"
proof -
  have "Key prefix [''lock'', k] \<in> set (removeAll (Key prefix [''lock'', key]) l)" if "(k, i, tx) \<in> held" for k i tx
    using that assms(2) Key_lock_inject [of prefix k key] by auto
  then show ?thesis using assms(1,3) by (auto simp: locks_ok_def Unlock_def)
qed

lemma Unlock_sweeps [simp]: "sweeps (Unlock prefix key w) = sweeps w"
  by (simp add: Unlock_def split: option.splits)

lemma begins_lock: "begins tok wallet w w' r n \<Longrightarrow> lock_of n = sweep_lock tok (uw_address wallet)"
  by (simp add: begins_def lock_of_def sweep_lock_def)

lemma sweep_step_inv:
  assumes "sweep_step prefix s s'" and "sweep_inv prefix s"
  shows "sweep_inv prefix s'"
  using assms(1)
proof (cases rule: sweep_step.cases)
  case (read row)
  have "ids_ok (sweeps (ss_world s)) (insert row (ss_read s)) (snd ` ss_held s \<union> ss_sent s)"
  proof -
    have ids: "ids_ok (sweeps (ss_world s)) (ss_read s) (snd ` ss_held s \<union> ss_sent s)"
      using assms(2) by (simp add: sweep_inv_def)
    show ?thesis
    proof (rule ids_okI)
      fix q assume "q \<in> insert row (ss_read s)"
      then show "s_txid q \<noteq> '''' \<and> (\<exists>x \<in> set (sweeps (ss_world s)). s_id x = s_id q \<and> s_txid x = s_txid q)"
        using ids_okD(4) [OF ids] read(2,3) by blast
    qed (rule ids_okD(1-3) [OF ids]; assumption)+
  qed
  then show ?thesis using assms(2) read(1) by (simp add: sweep_inv_def)
next
  case (begin_stop tok wallet lf w1 env amount w2 e)
  let ?k = "sweep_lock tok (uw_address wallet)"
  from assms(2) have lo: "locks_ok prefix (redis_keys (ss_world s)) (ss_held s)"
    and fl: "flights_ok (sweeps (ss_world s)) (ss_held s)"
    and ids: "ids_ok (sweeps (ss_world s)) (ss_read s) (snd ` ss_held s \<union> ss_sent s)" by (auto simp: sweep_inv_def)
  obtain l where l: "redis_keys (ss_world s) = Some l" "w1 = (ss_world s)\<lparr>redis_keys := Some (Key prefix [''lock'', ?k] # l)\<rparr>"
    "\<forall>k i tx. (k, i, tx) \<in> ss_held s \<longrightarrow> k \<noteq> ?k \<and> Key prefix [''lock'', k] \<in> set l"
    using lock_taken [OF begin_stop(2) lo] by blast
  note un = lock_unique [OF lo]
  have rk: "redis_keys w2 = redis_keys w1" "flights_ok (sweeps w2) (ss_held s)"
    "ids_ok (sweeps w2) (ss_read s) (snd ` ss_held s \<union> ss_sent s)"
  proof -
    have sw1: "sweeps w1 = sweeps (ss_world s)" using l(2) by simp
    have "(redis_keys w2 = redis_keys w1 \<and> flights_ok (sweeps w2) (ss_held s)) \<and>
        ids_ok (sweeps w2) (ss_read s) (snd ` ss_held s \<union> ss_sent s)"
      using sweep_begin_cases [OF begin_stop(3,4)]
    proof (elim disjE conjE exE)
      assume "w2 = w1"
      then show ?thesis using fl ids sw1 by simp
    next
      fix n assume b: "begins tok wallet w1 w2 (Inl e) n"
        and free: "\<forall>s \<in> set (sweeps w1). s_from_address s = uw_address wallet \<longrightarrow> s_contract s = tc_contract tok \<longrightarrow> \<not> in_flight s"
      have fresh: "s_id n \<notin> s_id ` set (sweeps (ss_world s))"
        using b fresh_id_not_in [of "map s_id (sweeps (ss_world s))"] sw1 by (simp add: begins_def)
      have "\<forall>x \<in> set (sweeps (ss_world s)). sweep_key x = sweep_key n \<longrightarrow> \<not> in_flight x"
        using b free sw1 by (auto simp: begins_def sweep_key_def)
      moreover have "\<forall>k i tx. (k, i, tx) \<in> ss_held s \<longrightarrow> k \<noteq> lock_of n" using l(3) begins_lock [OF b] by auto
      moreover have "sweeps w2 = sweeps (ss_world s) @ [n]" "redis_keys w2 = redis_keys w1"
        using b sw1 by (auto simp: begins_def grown_def)
      ultimately show ?thesis using flights_add(1) [OF fl fresh] ids_add(1) [OF ids fresh] by simp
    qed
    then show "redis_keys w2 = redis_keys w1" "flights_ok (sweeps w2) (ss_held s)"
      "ids_ok (sweeps w2) (ss_read s) (snd ` ss_held s \<union> ss_sent s)" by auto
  qed
  have "locks_ok prefix (redis_keys (Unlock prefix ?k w2)) (ss_held s)"
    by (rule locks_unlock [of _ "Key prefix [''lock'', ?k] # l"]) (use rk(1) l un in auto)
  then show ?thesis using rk(2,3) begin_stop(1) by (simp add: sweep_inv_def)
next
  case (begin_done tok wallet lf w1 env amount w2 i tx)
  let ?k = "sweep_lock tok (uw_address wallet)"
  from assms(2) have lo: "locks_ok prefix (redis_keys (ss_world s)) (ss_held s)"
    and fl: "flights_ok (sweeps (ss_world s)) (ss_held s)"
    and ids: "ids_ok (sweeps (ss_world s)) (ss_read s) (snd ` ss_held s \<union> ss_sent s)" by (auto simp: sweep_inv_def)
  obtain l where l: "redis_keys (ss_world s) = Some l" "w1 = (ss_world s)\<lparr>redis_keys := Some (Key prefix [''lock'', ?k] # l)\<rparr>"
    "\<forall>k i tx. (k, i, tx) \<in> ss_held s \<longrightarrow> k \<noteq> ?k \<and> Key prefix [''lock'', k] \<in> set l"
    using lock_taken [OF begin_done(2) lo] by blast
  have sw1: "sweeps w1 = sweeps (ss_world s)" using l(2) by simp
  obtain n where b: "begins tok wallet w1 w2 (Inr (i, tx)) n"
    and free: "\<forall>s \<in> set (sweeps w1). s_from_address s = uw_address wallet \<longrightarrow> s_contract s = tc_contract tok \<longrightarrow> \<not> in_flight s"
    using sweep_begin_cases [OF begin_done(3,4)] by blast
  have n: "sweeps w2 = sweeps (ss_world s) @ [n]" "redis_keys w2 = redis_keys w1" "i = s_id n"
    "s_txid n = '''' \<or> s_txid n = tx_id tx" "lock_of n = ?k"
    using b sw1 begins_lock [OF b] by (auto simp: begins_def grown_def)
  have fresh: "s_id n \<notin> s_id ` set (sweeps (ss_world s))"
    using b fresh_id_not_in [of "map s_id (sweeps (ss_world s))"] sw1 by (simp add: begins_def)
  have "\<forall>x \<in> set (sweeps (ss_world s)). sweep_key x = sweep_key n \<longrightarrow> \<not> in_flight x"
    using b free sw1 by (auto simp: begins_def sweep_key_def)
  moreover have "\<forall>k i tx. (k, i, tx) \<in> ss_held s \<longrightarrow> k \<noteq> lock_of n" using l(3) n(5) by auto
  ultimately have f2: "flights_ok (sweeps w2) (insert (?k, i, tx) (ss_held s))"
    using flights_add(2) [OF fl fresh] n by simp
  have i2: "ids_ok (sweeps w2) (ss_read s) (snd ` insert (?k, i, tx) (ss_held s) \<union> ss_sent s)"
    using ids_add(2) [OF ids fresh n(4)] n(1,3) by simp
  have "locks_ok prefix (redis_keys w2) (insert (?k, i, tx) (ss_held s))"
    using lock_add [OF lo l(3)] l(2) n(2) by simp
  then show ?thesis using f2 i2 begin_done(1) by (simp add: sweep_inv_def)
next
  case (send key i tx env w' e)
  from assms(2) have lo: "locks_ok prefix (redis_keys (ss_world s)) (ss_held s)"
    and fl: "flights_ok (sweeps (ss_world s)) (ss_held s)"
    and ids: "ids_ok (sweeps (ss_world s)) (ss_read s) (snd ` ss_held s \<union> ss_sent s)" by (auto simp: sweep_inv_def)
  obtain g where g: "sweeps w' = map g (sweeps (ss_world s))" "\<And>s. same_sweep s (g s)" "\<And>s. s_id s \<noteq> i \<Longrightarrow> g s = s"
    "\<And>s. s_txid (g s) \<in> {s_txid s, tx_id tx}" "redis_keys w' = redis_keys (ss_world s)"
    using sweep_send_touches [OF send(3)] by (auto simp: touches_def)
  obtain l where l: "redis_keys (ss_world s) = Some l" "\<forall>k i tx. (k, i, tx) \<in> ss_held s \<longrightarrow> Key prefix [''lock'', k] \<in> set l"
    "\<forall>k i tx i' tx'. (k, i, tx) \<in> ss_held s \<longrightarrow> (k, i', tx') \<in> ss_held s \<longrightarrow> i = i' \<and> tx = tx'"
    using lock_keys [OF lo] lock_unique [OF lo] by blast
  let ?h = "ss_held s - {(key, i, tx)}"
  have "locks_ok prefix (redis_keys (Unlock prefix key w')) ?h"
  proof (rule locks_unlock)
    show "redis_keys w' = Some l" using g(5) l(1) by simp
    have "k \<noteq> key \<and> Key prefix [''lock'', k] \<in> set l" if "(k, j, t) \<in> ?h" for k j t
      using that l(2,3) send(2) by blast
    then show "\<forall>k i tx. (k, i, tx) \<in> ?h \<longrightarrow> k \<noteq> key \<and> Key prefix [''lock'', k] \<in> set l" by blast
    show "\<forall>k i tx i' tx'. (k, i, tx) \<in> ?h \<longrightarrow> (k, i', tx') \<in> ?h \<longrightarrow> i = i' \<and> tx = tx'" using l(3) by blast
  qed
  moreover have "flights_ok (sweeps w') ?h" unfolding g(1) by (rule flights_touch [OF fl send(2) lo g(2,3)])
  moreover have "ids_ok (sweeps w') (ss_read s) (snd ` ?h \<union> insert (i, tx) (ss_sent s))"
  proof -
    have mem: "(i, tx) \<in> snd ` ss_held s \<union> ss_sent s" using send(2) by force
    then have "snd ` ?h \<union> insert (i, tx) (ss_sent s) = snd ` ss_held s \<union> ss_sent s" using send(2) by (force simp: image_iff)
    then show ?thesis unfolding g(1) using ids_touch [OF ids mem g(2-4)] by simp
  qed
  ultimately show ?thesis using send(1) by (simp add: sweep_inv_def)
next
  case (reconcile row w' env)
  from assms(2) have lo: "locks_ok prefix (redis_keys (ss_world s)) (ss_held s)"
    and fl: "flights_ok (sweeps (ss_world s)) (ss_held s)"
    and ids: "ids_ok (sweeps (ss_world s)) (ss_read s) (snd ` ss_held s \<union> ss_sent s)" by (auto simp: sweep_inv_def)
  have rs: "resends row (ss_world s) w'" using reconcile_resends [OF reconcile(4)] reconcile(3) by simp
  then obtain g where g: "sweeps w' = map g (sweeps (ss_world s))" "redis_keys w' = redis_keys (ss_world s)"
    "\<And>s. same_sweep s (g s)" "\<And>s. s_txid (g s) = s_txid s" "\<And>s. in_flight (g s) \<Longrightarrow> in_flight s"
    by (auto simp: resends_def shrinks_def)
  have f2: "flights_ok (sweeps w') (ss_held s)" unfolding g(1) by (rule flights_map [OF fl g(3,5)])
  have i2: "ids_ok (sweeps w') (ss_read s) (snd ` ss_held s \<union> ss_sent s)" unfolding g(1) by (rule ids_map [OF ids g(3,4)])
  from rs have "broadcasts w' = broadcasts (ss_world s) \<or>
      (\<exists>tx. broadcasts w' = broadcasts (ss_world s) @ [tx] \<and> tx_id tx = s_txid row)" by (auto simp: resends_def)
  then have "ids_ok (sweeps w') (ss_read s) (snd ` ss_held s \<union> (ss_sent s \<union>
      (\<lambda>tx. (s_id row, tx)) ` set (drop (length (broadcasts (ss_world s))) (broadcasts w'))))"
  proof (elim disjE exE conjE)
    fix tx assume tx: "broadcasts w' = broadcasts (ss_world s) @ [tx]" "tx_id tx = s_txid row"
    have "distinct (map s_id (sweeps w'))" using f2 by (simp add: flights_ok_def)
    then show ?thesis using ids_resend [OF i2 reconcile(2) tx(2)] tx(1) by simp
  qed (use i2 in simp)
  then show ?thesis using f2 lo g(2) reconcile(1) by (simp add: sweep_inv_def)
next
  case (other w' ks)
  then show ?thesis using assms(2) unfolding sweep_inv_def locks_ok_def by auto
qed

lemma sweep_run_inv: "(sweep_step prefix)\<^sup>*\<^sup>* s s' \<Longrightarrow> sweep_inv prefix s \<Longrightarrow> sweep_inv prefix s'"
  by (induction rule: rtranclp_induct) (auto intro: sweep_step_inv)

lemma sweep_start_inv: "sweep_start s \<Longrightarrow> sweep_inv prefix s"
  by (auto simp: sweep_start_def sweep_inv_def flights_ok_def locks_ok_def ids_ok_def)

text \<open>C3. However the sweeper and the reconciler interleave, no balance is swept twice at a time: at most one
  sweep of a token from an address is in flight, and all transactions ever handed to a node for a sweep
  are one transaction, the one its row carries.\<close>

theorem sweep_exclusive:
  assumes "sweep_start s" and "(sweep_step prefix)\<^sup>*\<^sup>* s s'"
  shows "(\<forall>a b. a \<in> set (sweeps (ss_world s')) \<and> b \<in> set (sweeps (ss_world s')) \<and> in_flight a \<and> in_flight b
      \<and> s_from_address a = s_from_address b \<and> s_contract a = s_contract b \<longrightarrow> a = b)
    \<and> (\<forall>i a b. (i, a) \<in> ss_sent s' \<and> (i, b) \<in> ss_sent s' \<longrightarrow> tx_id a = tx_id b)
    \<and> (\<forall>i a. (i, a) \<in> ss_sent s' \<longrightarrow> (\<exists>r. r \<in> set (sweeps (ss_world s')) \<and> s_id r = i
      \<and> (s_txid r = '''' \<or> s_txid r = tx_id a)))"
proof -
  have inv: "sweep_inv prefix s'" using sweep_run_inv [OF assms(2)] sweep_start_inv [OF assms(1)] by blast
  then have ids: "ids_ok (sweeps (ss_world s')) (ss_read s') (snd ` ss_held s' \<union> ss_sent s')" by (simp add: sweep_inv_def)
  have "\<forall>a b. a \<in> set (sweeps (ss_world s')) \<and> b \<in> set (sweeps (ss_world s')) \<and> in_flight a \<and> in_flight b
      \<and> s_from_address a = s_from_address b \<and> s_contract a = s_contract b \<longrightarrow> a = b"
    using inv unfolding sweep_inv_def flights_ok_def sweep_key_def by blast
  moreover have "\<forall>i a b. (i, a) \<in> ss_sent s' \<and> (i, b) \<in> ss_sent s' \<longrightarrow> tx_id a = tx_id b"
    using ids_okD(3) [OF ids] by blast
  moreover have "\<forall>i a. (i, a) \<in> ss_sent s' \<longrightarrow> (\<exists>r. r \<in> set (sweeps (ss_world s')) \<and> s_id r = i
      \<and> (s_txid r = '''' \<or> s_txid r = tx_id a))"
    using ids_okD(1,2) [OF ids] by blast
  ultimately show ?thesis by blast
qed

end
