(* ===== verification/SweepProps.thy ===== *)
theory SweepProps
  imports SweepSafety WithdrawProps
begin

text \<open>
  What a sweep is guarded by before anything is signed, what it writes off afterwards, and an instance.
\<close>

section \<open>Before signing\<close>

lemma foldl_max: "foldl max a xs = Max (insert a (set xs))"
proof (induction xs arbitrary: a)
  case (Cons x xs)
  have "foldl max a (x # xs) = Max (insert (max a x) (set xs))" using Cons.IH by simp
  also have "\<dots> = Max (insert a (insert x (set xs)))" by (cases "set xs = {}") (simp_all add: max.assoc)
  finally show ?case by simp
qed (simp add: max_def)

lemma maxUnswept_covers:
  assumes "maxUnsweptDepositID env contract addr w = Inr m" and "r \<in> set (deposits w)" and "unswept_of contract addr r"
  shows "d_id r \<le> m"
proof -
  let ?ids = "map d_id (filter (unswept_of contract addr) (deposits w))"
  have mem: "d_id r \<in> set ?ids" using assms(2,3) by simp
  then obtain i js where ids: "?ids = i # js" by (cases ?ids) auto
  have "m = Max (insert i (set js))"
    using assms(1) by (simp add: maxUnsweptDepositID_def ids foldl_max split: if_splits)
  moreover have "d_id r \<in> insert i (set js)" using mem unfolding ids by simp
  ultimately show ?thesis by simp
qed

lemma set_columns_last:
  assumes "sweeps w = t @ [n]" and "s_id n \<notin> s_id ` set t"
  shows "sweeps (set_columns env st (s_id n) f w) =
     t @ [if se_fail env st then n else f (n\<lparr>s_updated_at := se_now env\<rparr>)]"
proof -
  have "map (\<lambda>s. if s_id s = s_id n then f (s\<lparr>s_updated_at := se_now env\<rparr>) else s) t = t"
    using assms(2) by (intro map_idI) (metis imageI)
  then show ?thesis using assms(1) by (simp add: set_columns_def update_where_def)
qed

text \<open>The request a sweep is signed under.\<close>

abbreviation sweep_request :: "sweep_env \<Rightarrow> token_config \<Rightarrow> user_wallet \<Rightarrow> int \<Rightarrow> transaction \<Rightarrow> sign_request" where
  "sweep_request env tok wallet amount btx \<equiv>
     \<lparr>sr_purpose = PurposeSweep, sr_path = uw_derive_path wallet, sr_address = uw_address wallet, sr_tx = Some btx,
      sr_meta = \<lparr>sm_to_address = sys_address (wc_sweep_wallet (cf_wallet (se_cfg env))),
        sm_contract = tc_contract tok, sm_amount_units = big_String amount, sm_amount_sun = 0\<rparr>\<rparr>"

lemma sweep_sign_ok:
  assumes "sweep_sign env tok wallet amount data i w = (w', Inr (j, tx))"
  obtains btx resp where "j = i" "tx = sp_tx resp"
    "BuildTRC20Transfer (se_node env) (uw_address wallet) (tc_contract tok) data (sc_fee_limit_sun (cf_sweep (se_cfg env))) = Inr btx"
    "se_sign env (sweep_request env tok wallet amount btx) = Inr resp"
    "w' = set_columns env SwSigned i
      (\<lambda>s. s\<lparr>s_txid := sp_txid resp, s_signed_raw := tx_raw_data_hex (sp_tx resp),
         s_expired_at := Some (se_now env + i64 (expirationSeconds_sweep (se_cfg env) * second))\<rparr>) w"
  using assms by (auto simp: sweep_sign_def failSweep_def Let_def split: sum.splits)

text \<open>The energy a sweep asks for, and what it needs to burn it.\<close>

definition sweep_need :: "sweep_env \<Rightarrow> token_config \<Rightarrow> user_wallet \<Rightarrow> string \<Rightarrow> int \<Rightarrow> int" where
  "sweep_need env tok wallet data attempts =
     (case EstimateEnergyFactor (cf_energy (se_cfg env)) (se_node env) (uw_address wallet) (tc_contract tok) data
             (RetrySafetyFactor attempts) of
        Inl _ \<Rightarrow> int_of_float (fl64 (float_of_int (ec_energy_per_tx_new (cf_energy (se_cfg env))) * RetrySafetyFactor attempts))
      | Inr n \<Rightarrow> n)"

definition burn_affordable :: "sweep_env \<Rightarrow> string \<Rightarrow> int \<Rightarrow> bool" where
  "burn_affordable env addr need \<longleftrightarrow>
     (\<exists>params res balance. GetChainParameters (se_node env) = Inr params \<and> GetAccountResource (se_node env) addr = Inr res
        \<and> GetTRXBalance (se_node env) addr = Inr balance \<and> BurnCostSun (Some res) params need \<le> balance
        \<and> sc_fee_limit_sun (cf_sweep (se_cfg env)) \<notin> {0<..<BurnCostSun (Some res) params need})"

lemma checkBurnBudget_sweep_affords: "checkBurnBudget_sweep env addr need = None \<Longrightarrow> burn_affordable env addr need"
  by (auto simp: checkBurnBudget_sweep_def burn_affordable_def Let_def split: sum.splits if_splits)

lemma sweep_admit_facts:
  assumes "sweep_admit env tok wallet amount w = Inr (Some (attempts, need, data, m))"
  shows "energyFailures env (tc_contract tok) (uw_address wallet) w = Inr attempts" and "attempts < maxEnergyRetries (se_cfg env)"
    and "SweepRentalOn (se_cfg env) \<or> burn_affordable env (uw_address wallet) need"
    and "maxUnsweptDepositID env (tc_contract tok) (uw_address wallet) w = Inr m"
    and "EncodeTRC20Transfer (se_kec env) (sys_address (wc_sweep_wallet (cf_wallet (se_cfg env)))) amount = Inr data"
    and "need = sweep_need env tok wallet data attempts"
  using assms checkBurnBudget_sweep_affords
  by (auto simp: sweep_admit_def sweep_need_def Let_def split: if_splits sum.splits)

text \<open>What \<open>sweepOne\<close> leaves when it got as far as a signed transaction: the energy, one new row, and
  the transaction the signer gave for the one that was built.\<close>

lemma sweep_begin_row:
  assumes "sweep_begin env tok wallet amount w = (w', Inr (i, tx))"
  obtains attempts need data m r w2 order btx resp where
    "sweep_admit env tok wallet amount w = Inr (Some (attempts, need, data, m))"
    "(if SweepRentalOn (se_cfg env) then AcquireRented else AcquireBurn) (se_energy env) ''sweep'' (uw_address wallet) need
       (''sweep-'' @ big_String i) (w\<lparr>sweeps := sweeps w @ [new_sweep env tok (uw_address wallet) amount attempts m i]\<rparr>)
       = (w2, Inr order)"
    "placed w' = placed w2" "sweeps w' = sweeps w @ [r]" "s_id r = i" "s_from_address r = uw_address wallet"
    "s_contract r = tc_contract tok" "s_to_address r = sys_address (wc_sweep_wallet (cf_wallet (se_cfg env)))"
    "s_amount_units r = big_String amount" "s_deposit_max_id r = m"
    "BuildTRC20Transfer (se_node env) (uw_address wallet) (tc_contract tok) data (sc_fee_limit_sun (cf_sweep (se_cfg env))) = Inr btx"
    "se_sign env (sweep_request env tok wallet amount btx) = Inr resp" "tx = sp_tx resp"
    "se_fail env SwSigned \<or> s_txid r = sp_txid resp \<and> s_signed_raw r = tx_raw_data_hex tx"
proof -
  let ?i = "fresh_id (map s_id (sweeps w))"
  obtain attempts need data m where ad: "sweep_admit env tok wallet amount w = Inr (Some (attempts, need, data, m))"
    and cr: "\<not> se_fail env SwCreate"
    using assms by (auto simp: sweep_begin_def Let_def split: sum.splits option.splits if_splits)
  let ?n = "new_sweep env tok (uw_address wallet) amount attempts m ?i"
  let ?w1 = "w\<lparr>sweeps := sweeps w @ [?n]\<rparr>"
  let ?acq = "if SweepRentalOn (se_cfg env) then AcquireRented else AcquireBurn"
  let ?f = "\<lambda>order s. s\<lparr>s_status := SweepEnergyOK, s_fee_mode := FeeMode (eo_provider order),
        s_energy_order := eo_request_id order, s_cost_trx := eo_cost_trx order\<rparr>"
  obtain w2 ro where aq: "?acq (se_energy env) ''sweep'' (uw_address wallet) need (''sweep-'' @ big_String ?i) ?w1 = (w2, ro)"
    by fastforce
  obtain order where order: "ro = Inr order"
    using assms ad cr aq by (cases ro) (auto simp: sweep_begin_def Let_def failSweep_def)
  have "energy_only ?w1 w2" using aq AcquireRented_only AcquireBurn_only by (auto split: if_splits)
  then have s2: "sweeps w2 = sweeps w @ [?n]" using energy_only_frame(5) by fastforce
  have nid: "s_id ?n = ?i" by (simp add: new_sweep_def)
  have fresh: "?i \<notin> s_id ` set (sweeps w)" using fresh_id_not_in [of "map s_id (sweeps w)"] by simp
  let ?n2 = "if se_fail env SwEnergyOK then ?n else ?f order (?n\<lparr>s_updated_at := se_now env\<rparr>)"
  have s3: "sweeps (set_columns env SwEnergyOK ?i (?f order) w2) = sweeps w @ [?n2]"
    using set_columns_last [OF s2, of env SwEnergyOK "?f order"] nid fresh by simp
  have sg: "sweep_sign env tok wallet amount data ?i (set_columns env SwEnergyOK ?i (?f order) w2) = (w', Inr (i, tx))"
    using assms ad cr aq order by (simp add: sweep_begin_def Let_def)
  obtain btx resp where i: "i = ?i" and tx: "tx = sp_tx resp"
    and b: "BuildTRC20Transfer (se_node env) (uw_address wallet) (tc_contract tok) data (sc_fee_limit_sun (cf_sweep (se_cfg env))) = Inr btx"
    and sn: "se_sign env (sweep_request env tok wallet amount btx) = Inr resp"
    and w': "w' = set_columns env SwSigned ?i
      (\<lambda>s. s\<lparr>s_txid := sp_txid resp, s_signed_raw := tx_raw_data_hex (sp_tx resp),
         s_expired_at := Some (se_now env + i64 (expirationSeconds_sweep (se_cfg env) * second))\<rparr>)
      (set_columns env SwEnergyOK ?i (?f order) w2)"
    using sweep_sign_ok [OF sg] by metis
  let ?g = "\<lambda>s. s\<lparr>s_txid := sp_txid resp, s_signed_raw := tx_raw_data_hex (sp_tx resp),
         s_expired_at := Some (se_now env + i64 (expirationSeconds_sweep (se_cfg env) * second))\<rparr>"
  have n2: "s_id ?n2 = ?i" "s_from_address ?n2 = uw_address wallet" "s_contract ?n2 = tc_contract tok"
    "s_to_address ?n2 = sys_address (wc_sweep_wallet (cf_wallet (se_cfg env)))"
    "s_amount_units ?n2 = big_String amount" "s_deposit_max_id ?n2 = m"
    by (simp_all add: new_sweep_def)
  let ?r = "if se_fail env SwSigned then ?n2 else ?g (?n2\<lparr>s_updated_at := se_now env\<rparr>)"
  have "s_id ?n2 \<notin> s_id ` set (sweeps w)" using fresh n2(1) by simp
  then have sw: "sweeps w' = sweeps w @ [?r]"
    using set_columns_last [OF s3, of env SwSigned ?g] unfolding w' n2(1) by blast
  have r: "s_id ?r = i" "s_from_address ?r = uw_address wallet" "s_contract ?r = tc_contract tok"
    "s_to_address ?r = sys_address (wc_sweep_wallet (cf_wallet (se_cfg env)))" "s_amount_units ?r = big_String amount"
    "s_deposit_max_id ?r = m" "se_fail env SwSigned \<or> s_txid ?r = sp_txid resp \<and> s_signed_raw ?r = tx_raw_data_hex tx"
    using n2 tx by (simp_all add: i)
  have "placed w' = placed w2" by (simp add: w' set_columns_def)
  from that [OF ad _ this sw r(1-6) b sn tx r(7)] aq order show thesis by (simp only: i)
qed

text \<open>C20. A sweep only reaches its signed transaction when no other sweep of that token from that address
  is in flight, the out-of-energy failures since the last confirmed sweep are below the budget, and the
  energy of exactly this call is paid for: with rental on, by an order at a real provider that arrived
  on the chain (\<open>energy_rented\<close>), otherwise by a burn within the fee limit that the address has the TRX
  for. What is signed is the transaction the node built for a transfer of the amount to the configured
  finance wallet, under a request that declares both; and the one row that is added records them and
  covers every deposit that is unswept now. It is assumed that rental is on for the manager when it is on
  for sweeps (\<open>applyDefaults_rental\<close>), that its providers keep the contract \<open>energy_provider\<close>, and that the
  cached quotes are theirs.\<close>

theorem sweep_begin_guarded:
  assumes "sweep_begin env tok wallet amount w = (w', Inr (i, tx))"
    and "SweepRentalOn (se_cfg env) \<Longrightarrow> RentalOn (me_cfg (se_energy env))"
    and "provs_ok (me_provs (se_energy env))" and "cache_ok w" and "cache_covers w"
  shows "\<exists>attempts data r btx resp.
      (\<forall>s. s \<in> set (sweeps w) \<and> s_from_address s = uw_address wallet \<and> s_contract s = tc_contract tok \<longrightarrow> \<not> in_flight s)
    \<and> energyFailures env (tc_contract tok) (uw_address wallet) w = Inr attempts \<and> attempts < maxEnergyRetries (se_cfg env)
    \<and> EncodeTRC20Transfer (se_kec env) (sys_address (wc_sweep_wallet (cf_wallet (se_cfg env)))) amount = Inr data
    \<and> (if SweepRentalOn (se_cfg env)
       then \<exists>out. energy_rented (se_energy env) (uw_address wallet) (sweep_need env tok wallet data attempts)
              (''sweep-'' @ big_String i) w w' out
       else burn_affordable env (uw_address wallet) (sweep_need env tok wallet data attempts))
    \<and> BuildTRC20Transfer (se_node env) (uw_address wallet) (tc_contract tok) data
         (sc_fee_limit_sun (cf_sweep (se_cfg env))) = Inr btx
    \<and> se_sign env (sweep_request env tok wallet amount btx) = Inr resp \<and> tx = sp_tx resp
    \<and> sweeps w' = sweeps w @ [r] \<and> s_id r = i \<and> s_from_address r = uw_address wallet \<and> s_contract r = tc_contract tok
    \<and> s_to_address r = sys_address (wc_sweep_wallet (cf_wallet (se_cfg env))) \<and> s_amount_units r = big_String amount
    \<and> (se_fail env SwSigned \<or> s_txid r = sp_txid resp \<and> s_signed_raw r = tx_raw_data_hex tx)
    \<and> (\<forall>d. d \<in> set (deposits w) \<and> unswept_of (tc_contract tok) (uw_address wallet) d \<longrightarrow> d_id d \<le> s_deposit_max_id r)"
  using assms(1)
proof (cases rule: sweep_begin_row)
  case (1 attempts need data m r w2 order btx resp)
  note facts = sweep_admit_facts [OF 1(1)]
  have free: "\<forall>s. s \<in> set (sweeps w) \<and> s_from_address s = uw_address wallet \<and> s_contract s = tc_contract tok \<longrightarrow> \<not> in_flight s"
    using sweep_admit_free [OF 1(1)] by blast
  have cover: "\<forall>d. d \<in> set (deposits w) \<and> unswept_of (tc_contract tok) (uw_address wallet) d \<longrightarrow> d_id d \<le> s_deposit_max_id r"
    using maxUnswept_covers [OF facts(4)] 1(10) by blast
  have paid: "if SweepRentalOn (se_cfg env)
     then \<exists>out. energy_rented (se_energy env) (uw_address wallet) (sweep_need env tok wallet data attempts)
            (''sweep-'' @ big_String i) w w' out
     else burn_affordable env (uw_address wallet) (sweep_need env tok wallet data attempts)"
  proof (cases "SweepRentalOn (se_cfg env)")
    case True
    let ?w1 = "w\<lparr>sweeps := sweeps w @ [new_sweep env tok (uw_address wallet) amount attempts m i]\<rparr>"
    have "cache_ok ?w1" "cache_covers ?w1" using assms(4,5) by (simp_all add: cache_ok_def cache_covers_def)
    then have "energy_rented (se_energy env) (uw_address wallet) need (''sweep-'' @ big_String i) ?w1 w2 order"
      using AcquireRented_rents [OF 1(2) [unfolded if_P [OF True]] assms(2) [OF True] _ _ assms(3)] by blast
    then have "energy_rented (se_energy env) (uw_address wallet) need (''sweep-'' @ big_String i) w w' order"
      using energy_rented_cong [of ?w1 w w2 w'] 1(3) by simp
    then show ?thesis using True facts(6) by auto
  next
    case False
    then show ?thesis using facts(3,6) by simp
  qed
  show ?thesis
    by (intro exI [of _ attempts] exI [of _ data] exI [of _ r] exI [of _ btx] exI [of _ resp] conjI)
      (rule free cover paid facts 1(4-9) 1(11-))+
qed

section \<open>Writing off\<close>

text \<open>C21. Reconciling a sweep writes off exactly the deposits it stands for. When the receipt of the sweep's
  transaction says it succeeded and the settlement is stored, every confirmed deposit of that address and
  token that is not written off yet, and is no younger than the youngest the sweep recorded (all of them
  for a sweep that recorded none), is marked swept; no other deposit changes, and on every other outcome
  none does.\<close>

theorem reconcile_marks_covered:
  "deposits (reconcileOne_sweep env row w) = map (\<lambda>d.
     if (\<exists>info. GetTxInfoByID (se_node env) (s_txid row) = Inr (Some info) \<and> Succeeded info)
       \<and> \<not> se_fail env SwSettle
       \<and> d_to_address d = s_from_address row \<and> d_contract d = s_contract row
       \<and> d_status d = DepositConfirmed \<and> \<not> d_swept d
       \<and> (s_deposit_max_id row \<le> 0 \<or> d_id d \<le> s_deposit_max_id row)
     then d\<lparr>d_swept := True, d_updated_at := se_now env\<rparr> else d) (deposits w)"
proof -
  let ?ok = "(\<exists>info. GetTxInfoByID (se_node env) (s_txid row) = Inr (Some info) \<and> Succeeded info) \<and> \<not> se_fail env SwSettle"
  have cols: "deposits (set_columns env st i f w') = deposits w'" for st i f w' by (simp add: set_columns_def)
  have fails: "deposits (fst (failSweep env i c e w')) = deposits w'" for i c e w' by (simp add: failSweep_def cols)
  have re: "deposits (fst (rebroadcast_sweep env row w)) = deposits w"
    by (auto simp: rebroadcast_sweep_def Let_def fails send_def split: option.splits sum.splits prod.splits)
  then have absent: "deposits (fst (settleAbsent env row w)) = deposits w" by (simp add: settleAbsent_def)
  have cov: "covered row d \<longleftrightarrow> d_to_address d = s_from_address row \<and> d_contract d = s_contract row
      \<and> d_status d = DepositConfirmed \<and> \<not> d_swept d \<and> (s_deposit_max_id row \<le> 0 \<or> d_id d \<le> s_deposit_max_id row)" for d
    by (auto simp: covered_def unswept_of_def)
  show ?thesis
  proof (cases ?ok)
    case True
    then obtain info where info: "GetTxInfoByID (se_node env) (s_txid row) = Inr (Some info)" "Succeeded info" by blast
    have "deposits (reconcileOne_sweep env row w) = update_where (covered row)
        (\<lambda>r. r\<lparr>d_swept := True, d_updated_at := se_now env\<rparr>) (deposits w)"
      using info True by (simp add: reconcileOne_sweep_def confirm_sweep_def)
    then show ?thesis using True by (simp add: update_where_def cov)
  next
    case False
    then have "deposits (reconcileOne_sweep env row w) = deposits w"
      by (auto simp: reconcileOne_sweep_def confirm_sweep_def cols absent split: sum.splits option.splits)
    then show ?thesis using False by (auto intro!: map_idI [symmetric])
  qed
qed

section \<open>Instances\<close>

text \<open>A deposit address that pays its own fee, and a node that takes everything.\<close>

definition sweep_node :: node_api where
  "sweep_node = withdraw_node\<lparr>na_chain_parameters := Inr [], na_account_balance := (\<lambda>_. Inr 1000000)\<rparr>"

definition sweep_token :: token_config where
  "sweep_token = \<lparr>tc_symbol = ''USDT'', tc_contract = sample_address 9, tc_decimals = 6, tc_enabled = True\<rparr>"

definition sweep_wallet :: user_wallet where
  "sweep_wallet = \<lparr>uw_id = 1, uw_merchant_id = ''M'', uw_uid = ''U'', uw_account = ''A'', uw_chain = ''TRON'',
     uw_address = sample_address 5, uw_addr_index = 0, uw_chain_idx = '''', uw_derive_path = ''m/0'',
     uw_purpose = ''deposit'', uw_status = 1, uw_created_at = 0, uw_updated_at = 0\<rparr>"

definition sweep_sample_env :: sweep_env where
  "sweep_sample_env = \<lparr>se_cfg = (sample_config (sample_address 9))\<lparr>cf_wallet :=
       (cf_wallet (sample_config (sample_address 9)))\<lparr>wc_sweep_wallet := \<lparr>sys_address = sample_address 2, sys_path = ''m/1''\<rparr>\<rparr>,
       cf_sweep := (cf_sweep (sample_config (sample_address 9)))\<lparr>sc_energy_rental := Some False\<rparr>\<rparr>,
     se_threshold = 5, se_node = sweep_node, se_energy = renting_env, se_sign = plain_sign,
     se_kec = (\<lambda>_. replicate 32 0), se_now = 0, se_lock_fail = False, se_fail = (\<lambda>_. False)\<rparr>"

lemma sweep_sample_simps [simp]:
  "se_fail sweep_sample_env st = False" "se_node sweep_sample_env = sweep_node" "se_sign sweep_sample_env = plain_sign"
  "se_kec sweep_sample_env = (\<lambda>_. replicate 32 0)" "se_energy sweep_sample_env = renting_env"
  "SweepRentalOn (se_cfg sweep_sample_env) = False" "maxEnergyRetries (se_cfg sweep_sample_env) = 3"
  "sys_address (wc_sweep_wallet (cf_wallet (se_cfg sweep_sample_env))) = sample_address 2"
  "ec_energy_per_tx_new (cf_energy (se_cfg sweep_sample_env)) = 65000"
  "sc_fee_limit_sun (cf_sweep (se_cfg sweep_sample_env)) = 30000000"
  "tc_contract sweep_token = sample_address 9" "uw_address sweep_wallet = sample_address 5"
  by (simp_all add: sweep_sample_env_def sample_config_def SweepRentalOn_def maxEnergyRetries_def sweep_token_def
      sweep_wallet_def)

lemma sweep_sample_need:
  "EstimateEnergyFactor (cf_energy (se_cfg sweep_sample_env)) sweep_node (sample_address 5) (sample_address 9) data
     DefaultSafetyFactor = Inr 74750"
proof -
  have "\<lfloor>21040254509121534375 / 4096 :: rat\<rfloor> = 5136780886015999" by (simp add: floor_eq_iff)
  then have "fl64 (65000 * (2589569785738035 / 2251799813685248)) = 74750"
    by (subst fl64_eq [where k = 16]) (simp_all add: fl64_simps)
  moreover have "fl64 65000 = 65000" by (subst fl64_eq [where k = 15]) (simp_all add: fl64_simps)
  ultimately show ?thesis
    by (simp add: EstimateEnergyFactor_def TriggerConstantContract_def sweep_node_def withdraw_node_def
        default_factor float_of_int_def int_of_float_def)
qed

lemma sweep_burn: "checkBurnBudget_sweep sweep_sample_env (sample_address 5) 74750 = None"
  by (simp add: checkBurnBudget_sweep_def GetChainParameters_def GetAccountResource_def GetTRXBalance_def sweep_node_def
      withdraw_node_def BurnCostSun_def AvailableEnergy_def AvailableBandwidth_def zero_resource_def TransferBytes_def
      i64_id in_i64_def Let_def)

lemma sweep_admitted:
  "\<exists>data. sweep_admit sweep_sample_env sweep_token sweep_wallet 40 (empty_world\<lparr>redis_keys := ks\<rparr>) = Inr (Some (0, 74750, data, 0))"
proof -
  obtain data where d: "EncodeTRC20Transfer (\<lambda>_. replicate 32 0) (sample_address 2) 40 = Inr data"
    by (simp add: EncodeTRC20Transfer_def Let_def Bytes_def to_digits.simps)
  then show ?thesis
    by (simp add: sweep_admit_def Let_def affected_def energyFailures_def RetrySafetyFactor_def sweep_sample_need sweep_burn
        maxUnsweptDepositID_def empty_world_def)
qed

lemma sweep_begun:
  "\<exists>w' i tx. sweep_begin sweep_sample_env sweep_token sweep_wallet 40 (empty_world\<lparr>redis_keys := ks\<rparr>) = (w', Inr (i, tx))"
proof -
  obtain data where ad: "sweep_admit sweep_sample_env sweep_token sweep_wallet 40 (empty_world\<lparr>redis_keys := ks\<rparr>)
      = Inr (Some (0, 74750, data, 0))" using sweep_admitted by blast
  have "\<exists>w' out. AcquireBurn renting_env p r n q w = (w', Inr out)" if "energy_orders w = []" for p r n q w
    using that by (simp add: AcquireBurn_def create_or_take_def renting_env_def Let_def markDelegated_def split: prod.splits)
  then obtain w2 out where aq: "AcquireBurn renting_env ''sweep'' (sample_address 5) 74750 (''sweep-'' @ big_String 1)
      (empty_world\<lparr>redis_keys := ks, sweeps := [new_sweep sweep_sample_env sweep_token (sample_address 5) 40 0 0 1]\<rparr>)
      = (w2, Inr out)" by (fastforce simp: empty_world_def)
  have sg: "\<exists>w' tx. sweep_sign sweep_sample_env sweep_token sweep_wallet 40 data i w = (w', Inr (i, tx))" for i w
    by (simp add: sweep_sign_def Let_def BuildTRC20Transfer_def sweep_node_def withdraw_node_def plain_sign_def bare_tx_def
        TxIDFromRawHex_def TrimPrefix_def)
  have e: "sweeps (empty_world\<lparr>redis_keys := ks\<rparr>) = []" "fresh_id [] = 1" by (simp_all add: empty_world_def fresh_id_def)
  show ?thesis using aq by (simp add: sweep_begin_def ad Let_def e) (use sg in blast)
qed

theorem sweep_begin_guarded_witness:
  "\<exists>w' i tx r. sweep_begin sweep_sample_env sweep_token sweep_wallet 40 empty_world = (w', Inr (i, tx))
     \<and> sweeps w' = [r] \<and> s_to_address r = sample_address 2 \<and> s_amount_units r = big_String 40
     \<and> (\<exists>need. burn_affordable sweep_sample_env (sample_address 5) need)"
proof -
  have "empty_world\<lparr>redis_keys := Some []\<rparr> = empty_world" by (simp add: empty_world_def)
  then obtain w' i tx where b: "sweep_begin sweep_sample_env sweep_token sweep_wallet 40 empty_world = (w', Inr (i, tx))"
    using sweep_begun [of "Some []"] by auto
  have w: "quotes empty_world = []" "sweeps empty_world = []" by (simp_all add: empty_world_def)
  from sweep_begin_guarded [OF b _ _ empty_quotes [OF w(1)]] b renting_env_ok(2) show ?thesis by (auto simp: w(2))
qed

theorem sweep_exclusive_witness:
  "\<exists>s s' i tx. sweep_start s \<and> (sweep_step '''')\<^sup>*\<^sup>* s s' \<and> (i, tx) \<in> ss_sent s'
     \<and> (\<exists>r. r \<in> set (sweeps (ss_world s')) \<and> s_id r = i \<and> (s_txid r = '''' \<or> s_txid r = tx_id tx))"
proof -
  let ?k = "sweep_lock sweep_token (sample_address 5)"
  let ?s0 = "\<lparr>ss_world = empty_world, ss_read = {}, ss_held = {}, ss_sent = {}\<rparr>"
  have st: "sweep_start ?s0" by (simp add: sweep_start_def empty_world_def)
  obtain w1 where lk: "Lock '''' ?k False empty_world = Some w1" "w1 = empty_world\<lparr>redis_keys := redis_keys w1\<rparr>"
    by (simp add: Lock_def empty_world_def Let_def)
  obtain w2 i tx where b: "sweep_begin sweep_sample_env sweep_token sweep_wallet 40 w1 = (w2, Inr (i, tx))"
    using sweep_begun [of "redis_keys w1"] lk(2) by auto
  let ?s1 = "?s0\<lparr>ss_world := w2, ss_held := insert (?k, i, tx) (ss_held ?s0)\<rparr>"
  have "signing (se_sign sweep_sample_env)" using plain.signing_axioms by simp
  then have a: "sweep_step '''' ?s0 ?s1"
    using sweep_step.begin_done [where prefix = "''''" and tok = sweep_token and wallet = sweep_wallet and s = ?s0, OF _ b] lk(1)
    by simp
  obtain w3 e where sd: "sweep_send sweep_sample_env i tx w2 = (w3, e)" by fastforce
  let ?s2 = "?s1\<lparr>ss_world := Unlock '''' ?k w3, ss_held := ss_held ?s1 - {(?k, i, tx)}, ss_sent := insert (i, tx) (ss_sent ?s1)\<rparr>"
  have c: "sweep_step '''' ?s1 ?s2"
    using sweep_step.send [where prefix = "''''" and key = ?k and i = i and tx = tx and s = ?s1 and env = sweep_sample_env] sd
    by simp
  have run: "(sweep_step '''')\<^sup>*\<^sup>* ?s0 ?s2" using a c by (meson r_into_rtranclp rtranclp.rtrancl_into_rtrancl)
  have "(i, tx) \<in> ss_sent ?s2" by simp
  with sweep_exclusive [OF st run] st run show ?thesis by blast
qed

definition swept_row :: sweep_record where
  "swept_row = (new_sweep sweep_sample_env sweep_token (sample_address 5) 40 0 3 1)\<lparr>s_status := SweepBroadcast, s_txid := ''ab''\<rparr>"

definition swept_deposit :: "int \<Rightarrow> deposit_record" where
  "swept_deposit i = \<lparr>d_id = i, d_merchant_id = ''M'', d_account = ''A'', d_uid = ''U'', d_trade_no = big_String i,
     d_chain = ''TRON'', d_symbol = ''USDT'', d_contract = sample_address 9, d_txid = big_String i, d_event_index = 0,
     d_block_number = 1, d_block_hash = '''', d_from_address = sample_address 1, d_to_address = sample_address 5,
     d_amount_units = big_String 40, d_amount = '''', d_decimals = 6, d_confirmations = 20, d_status = DepositConfirmed,
     d_internal = False, d_swept = False, d_block_time = 0, d_confirmed_at = Some 0, d_created_at = 0, d_updated_at = 0\<rparr>"

theorem reconcile_marks_covered_witness:
  "map d_swept (deposits (reconcileOne_sweep (sweep_sample_env\<lparr>se_node := paid_node\<rparr>) swept_row
       (empty_world\<lparr>deposits := [swept_deposit 3, swept_deposit 4]\<rparr>))) = [True, False]"
proof -
  have "GetTxInfoByID paid_node ''ab'' = Inr (Some paid_info)"
    by (simp add: GetTxInfoByID_def txInfoByID_def paid_node_def paid_info_def)
  moreover have "Succeeded paid_info"
    by (simp add: Succeeded_def paid_info_def Let_def normResult_def TrimSpace_def is_space_def ToUpper_def upper_char_def)
  ultimately show ?thesis
    unfolding reconcile_marks_covered
    by (simp add: swept_row_def swept_deposit_def new_sweep_def sweep_sample_env_def sweep_token_def)
qed

section \<open>What the code leaves open\<close>

text \<open>
  A row left in \<open>created\<close> (the process stopped, or the write of its failure failed) is never picked up by
  the reconciler, and it keeps every later sweep of its token from its address away.
\<close>

theorem created_row_blocks:
  assumes "r \<in> set (sweeps w)" and "s_status r = SweepCreated"
    and "s_from_address r = uw_address wallet" and "s_contract r = tc_contract tok"
  shows "sweep_admit env tok wallet amount w \<noteq> Inr (Some p)"
    and "r \<notin> set (select_limit (\<lambda>s. s_status s \<in> {SweepEnergyOK, SweepBroadcast} \<and> s_txid s \<noteq> '''') n (sweeps w))"
proof -
  show "sweep_admit env tok wallet amount w \<noteq> Inr (Some p)"
    using sweep_admit_free [of env tok wallet amount w p r] assms by (auto simp: in_flight_def)
  show "r \<notin> set (select_limit (\<lambda>s. s_status s \<in> {SweepEnergyOK, SweepBroadcast} \<and> s_txid s \<noteq> '''') n (sweeps w))"
    using subsetD [OF select_limit_subset, of r] assms(2) by fastforce
qed

text \<open>The write after the broadcast does not look at the state: a row the reconciler confirmed in the
  meantime goes back to \<open>broadcast\<close>.\<close>

theorem sweep_moves_back:
  assumes "Broadcast (se_node env) tx = (Some b, None)" and "\<not> se_fail env SwSent"
    and "r \<in> set (sweeps w)" and "s_status r = SweepConfirmed"
  shows "\<exists>r' \<in> set (sweeps (fst (sweep_send env (s_id r) tx w))). s_id r' = s_id r \<and> s_status r' = SweepBroadcast"
proof -
  let ?f = "\<lambda>s. s\<lparr>s_updated_at := se_now env, s_status := SweepBroadcast, s_txid := br_txid b, s_broadcast_at := Some (se_now env)\<rparr>"
  have "sweeps (fst (sweep_send env (s_id r) tx w)) = update_where (\<lambda>s. s_id s = s_id r) ?f (sweeps w)"
    using assms(1,2) by (simp add: sweep_send_def Let_def set_columns_def send_def)
  moreover have "?f r \<in> set (update_where (\<lambda>s. s_id s = s_id r) ?f (sweeps w))"
    unfolding set_update_where by (rule image_eqI [of _ _ r]) (simp_all add: assms(3))
  ultimately show ?thesis by (intro bexI [of _ "?f r"]) simp_all
qed

end
