(* ===== verification/Topup.thy ===== *)
theory Topup
  imports Energy Signer
begin

text \<open>
  \<open>internal/energy/topup.go\<close>: the automatic refill of the prepaid balance each rental platform holds.
  The signing service is the function \<open>te_sign\<close>; what a run broadcasts is appended to \<open>broadcasts\<close>.
\<close>

datatype topup_stmt = TpPending | TpDaily | TpCreate | TpFail | TpBroadcastErr | TpBroadcast | TpFind | TpSettle

record topup_env =
  te_cfg :: auto_topup_config
  te_provs :: "(string \<times> provider) list"
  te_gas_path :: string
  te_prefix :: string
  te_node :: node_api
  te_sign :: "sign_request \<Rightarrow> sign_response result"
  te_now :: time
  te_lock_fail :: bool
  te_fail :: "topup_stmt \<Rightarrow> bool"

definition day :: time where
  "day = 24 * hour"

fun topup_state_string :: "topup_state \<Rightarrow> string" where
  "topup_state_string TopupCreated = ''created''"
| "topup_state_string TopupBroadcast = ''broadcast''"
| "topup_state_string TopupConfirmed = ''confirmed''"
| "topup_state_string TopupCredited = ''credited''"
| "topup_state_string TopupFailed = ''failed''"

definition unsettled :: "string \<Rightarrow> topup_record \<Rightarrow> bool" where
  "unsettled provider r \<longleftrightarrow>
     tr_provider r = provider \<and> tr_status r \<in> {TopupCreated, TopupBroadcast, TopupConfirmed}"

definition guardPending :: "topup_env \<Rightarrow> string \<Rightarrow> world \<Rightarrow> go_error option" where
  "guardPending env provider w =
     (if te_fail env TpPending then Some db_err
      else case take_last (unsettled provider) (topups w) of
        None \<Rightarrow> None
      | Some pending \<Rightarrow>
          Some (errors_new (''provider '' @ provider @ '' already has an unsettled topup ('' @
            tr_request_id pending @ '', status='' @ topup_state_string (tr_status pending) @ '')'')))"

text \<open>\<open>SUM\<close> of a double column, row by row.\<close>

definition sum_float :: "float64 list \<Rightarrow> float64" where
  "sum_float xs = foldl (\<lambda>a x. fl64 (a + x)) 0 xs"

definition topups_today :: "time \<Rightarrow> string \<Rightarrow> world \<Rightarrow> topup_record list" where
  "topups_today now provider w =
     filter (\<lambda>r. tr_provider r = provider \<and> tr_created_at r \<ge> now - now mod day \<and> tr_status r \<noteq> TopupFailed)
       (topups w)"

definition guardDailyLimits ::
  "topup_env \<Rightarrow> string \<Rightarrow> provider_topup_conf \<Rightarrow> float64 \<Rightarrow> world \<Rightarrow> go_error option" where
  "guardDailyLimits env provider conf amount w =
     (let rows = topups_today (te_now env) provider w;
          total = sum_float (map tr_amount_trx rows); count = int (length rows)
      in if te_fail env TpDaily then Some db_err
         else if 0 < tp_max_daily_topup_count conf \<and> count \<ge> tp_max_daily_topup_count conf then
           Some (errors_new (''provider '' @ provider @ '' hit the daily topup count cap''))
         else if 0 < tp_max_daily_topup_trx conf \<and> fl64 (total + amount) > tp_max_daily_topup_trx conf then
           Some (errors_new (''provider '' @ provider @ '' would exceed the daily topup cap''))
         else None)"

definition update_topup ::
  "bool \<Rightarrow> (topup_record \<Rightarrow> topup_record) \<Rightarrow> topup_record \<Rightarrow> world \<Rightarrow> world" where
  "update_topup fail f row w =
     (if fail then w else w\<lparr>topups := update_where (\<lambda>r. tr_id r = tr_id row) f (topups w)\<rparr>)"

definition fail_topup :: "topup_env \<Rightarrow> topup_record \<Rightarrow> go_error \<Rightarrow> world \<Rightarrow> world" where
  "fail_topup env row cause w =
     update_topup (te_fail env TpFail)
       (\<lambda>r. r\<lparr>tr_status := TopupFailed, tr_fail_reason := truncate_str (err_msg cause) 240,
               tr_updated_at := te_now env\<rparr>) row w"

text \<open>Build, sign, broadcast: the row is written, the lock is held.\<close>

definition send_topup ::
  "topup_env \<Rightarrow> provider_topup_conf \<Rightarrow> int \<Rightarrow> topup_record \<Rightarrow> world \<Rightarrow> world \<times> go_error option" where
  "send_topup env conf amountSun row w =
     (let source = at_source_address (te_cfg env); dest = tp_deposit_address_url conf
      in case BuildTRXTransfer (te_node env) source dest amountSun of
        Inl e \<Rightarrow> (fail_topup env row e w, Some e)
      | Inr tx \<Rightarrow>
          case te_sign env \<lparr>sr_purpose = PurposeTopup, sr_path = te_gas_path env, sr_address = source,
              sr_tx = Some tx, sr_meta = \<lparr>sm_to_address = dest, sm_contract = '''', sm_amount_units = '''',
                sm_amount_sun = amountSun\<rparr>\<rparr> of
            Inl e \<Rightarrow> (fail_topup env row e w, Some e)
          | Inr resp \<Rightarrow>
              let w1 = w\<lparr>broadcasts := broadcasts w @ [sp_tx resp]\<rparr>
              in case Broadcast (te_node env) (sp_tx resp) of
                   (_, Some e) \<Rightarrow>
                     (update_topup (te_fail env TpBroadcastErr)
                        (\<lambda>r. r\<lparr>tr_txid := sp_txid resp, tr_status := TopupBroadcast,
                                tr_fail_reason := truncate_str (err_msg e) 240, tr_updated_at := te_now env\<rparr>) row w1,
                      Some e)
                 | (res, None) \<Rightarrow>
                     (update_topup (te_fail env TpBroadcast)
                        (\<lambda>r. r\<lparr>tr_txid := (case res of Some b \<Rightarrow> br_txid b | None \<Rightarrow> ''''),
                                tr_status := TopupBroadcast, tr_updated_at := te_now env\<rparr>) row w1,
                      None))"

text \<open>\<open>refill\<close> between taking the lock and releasing it.\<close>

definition refill_locked ::
  "topup_env \<Rightarrow> string \<Rightarrow> provider_topup_conf \<Rightarrow> float64 \<Rightarrow> string \<Rightarrow> world \<Rightarrow> world \<times> go_error option" where
  "refill_locked env provider conf balance reportedDeposit w =
     (if reportedDeposit \<noteq> '''' \<and> reportedDeposit \<noteq> tp_deposit_address_url conf then
        (w, Some (errors_new (''provider '' @ provider @ '' reported deposit address '' @ reportedDeposit @
          '' which is not the whitelisted '' @ tp_deposit_address_url conf @ '': refusing to transfer'')))
      else case guardPending env provider w of
        Some e \<Rightarrow> (w, Some e)
      | None \<Rightarrow>
          let amount0 = fl64 (tp_target_trx conf - balance)
          in if amount0 \<le> 0 then (w, None)
             else
               let amount = (if 0 < tp_max_single_topup_trx conf \<and> amount0 > tp_max_single_topup_trx conf
                             then tp_max_single_topup_trx conf else amount0)
               in case guardDailyLimits env provider conf amount w of
                    Some e \<Rightarrow> (w, Some e)
                  | None \<Rightarrow>
                      let requestID = ''topup-'' @ provider @ ''-'' @ big_String (te_now env div 1000000);
                          row = \<lparr>tr_id = fresh_id (map tr_id (topups w)), tr_provider = provider,
                            tr_request_id = requestID, tr_from_address = at_source_address (te_cfg env),
                            tr_to_address = tp_deposit_address_url conf, tr_amount_trx = amount,
                            tr_amount = FormatTRX amount, tr_trigger_balance_trx = balance, tr_txid = '''',
                            tr_block_number = 0, tr_status = TopupCreated, tr_operator = ''auto'',
                            tr_fail_reason = '''', tr_created_at = te_now env, tr_updated_at = te_now env,
                            tr_confirmed_at = None\<rparr>
                      in if te_fail env TpCreate \<or> (\<exists>r \<in> set (topups w). tr_request_id r = requestID)
                         then (w, Some db_err)
                         else send_topup env conf (to_sun amount) row (w\<lparr>topups := topups w @ [row]\<rparr>))"

definition refill ::
  "topup_env \<Rightarrow> string \<Rightarrow> provider_topup_conf \<Rightarrow> float64 \<Rightarrow> string \<Rightarrow> world \<Rightarrow> world \<times> go_error option" where
  "refill env provider conf balance reportedDeposit w =
     (case Lock (te_prefix env) (''topup:'' @ provider) (te_lock_fail env) w of
        None \<Rightarrow> (w, None)
      | Some w1 \<Rightarrow>
          let (w2, e) = refill_locked env provider conf balance reportedDeposit w1
          in (Unlock (te_prefix env) (''topup:'' @ provider) w2, e))"

text \<open>One provider of the loop in \<open>check\<close>, and the loop; \<open>checkGasAccount\<close> only logs.\<close>

definition check_provider :: "topup_env \<Rightarrow> string \<times> provider \<Rightarrow> world \<Rightarrow> world" where
  "check_provider env np w =
     (case map_of (at_providers (te_cfg env)) (fst np) of
        None \<Rightarrow> w
      | Some conf \<Rightarrow>
          if \<not> tp_enabled conf then w
          else case p_balance (snd np) of
            Inl _ \<Rightarrow> w
          | Inr (balance, depositAddr) \<Rightarrow>
              if balance \<ge> tp_low_watermark_trx conf then w
              else if \<not> at_enabled (te_cfg env) then w
              else fst (refill env (fst np) conf balance depositAddr w))"

definition check_topups :: "topup_env \<Rightarrow> world \<Rightarrow> world" where
  "check_topups env w = foldl (\<lambda>w np. check_provider env np w) w (te_provs env)"

section \<open>Reconciliation\<close>

definition reconcile_topup :: "topup_env \<Rightarrow> topup_record \<Rightarrow> world \<Rightarrow> world" where
  "reconcile_topup env row w =
     (let now = te_now env; put = (\<lambda>f w. update_topup (te_fail env TpSettle) f row w)
      in if tr_txid row = '''' then w
         else case GetTxInfoByID (te_node env) (tr_txid row) of
           Inl _ \<Rightarrow> w
         | Inr None \<Rightarrow> w
         | Inr (Some info) \<Rightarrow>
             if \<not> Succeeded info then
               put (\<lambda>r. r\<lparr>tr_status := TopupFailed, tr_fail_reason := ''on-chain failure'',
                           tr_block_number := ti_block_number info, tr_updated_at := now\<rparr>) w
             else
               let w1 = (if tr_status row = TopupBroadcast then
                           put (\<lambda>r. r\<lparr>tr_status := TopupConfirmed, tr_confirmed_at := Some now,
                                       tr_block_number := ti_block_number info, tr_updated_at := now\<rparr>) w
                         else w)
               in case map_of (te_provs env) (tr_provider row) of
                    None \<Rightarrow> w1
                  | Some p \<Rightarrow>
                      case p_balance p of
                        Inl _ \<Rightarrow> w1
                      | Inr (balance, _) \<Rightarrow>
                          if balance \<ge> fl64 (tr_trigger_balance_trx row + fl64 (tr_amount_trx row * fl64 (9 / 10)))
                          then put (\<lambda>r. r\<lparr>tr_status := TopupCredited, tr_updated_at := now\<rparr>) w1
                          else w1)"

definition Reconcile_topups :: "topup_env \<Rightarrow> world \<Rightarrow> world \<times> go_error option" where
  "Reconcile_topups env w =
     (if te_fail env TpFind then (w, Some db_err)
      else (foldl (\<lambda>w row. reconcile_topup env row w) w
              (select_limit (\<lambda>r. tr_status r \<in> {TopupBroadcast, TopupConfirmed}) 50 (topups w)), None))"

section \<open>Properties\<close>

lemma update_topup_frame [simp]:
  "broadcasts (update_topup b f row w) = broadcasts w"
  by (simp add: update_topup_def)

lemma send_topup_broadcasts:
  assumes "send_topup env conf sun row w = (w', e)"
  shows "broadcasts w' = broadcasts w
    \<or> (\<exists>tx resp. BuildTRXTransfer (te_node env) (at_source_address (te_cfg env)) (tp_deposit_address_url conf) sun = Inr tx
        \<and> te_sign env \<lparr>sr_purpose = PurposeTopup, sr_path = te_gas_path env,
             sr_address = at_source_address (te_cfg env), sr_tx = Some tx,
             sr_meta = \<lparr>sm_to_address = tp_deposit_address_url conf, sm_contract = '''', sm_amount_units = '''',
               sm_amount_sun = sun\<rparr>\<rparr> = Inr resp
        \<and> broadcasts w' = broadcasts w @ [sp_tx resp])"
  using assms by (auto simp: send_topup_def fail_topup_def Let_def split: sum.splits prod.splits option.splits)

text \<open>C23. Money leaves only as the rules allow: a refill broadcasts at most one transaction, and only if the
  reported deposit address is the whitelisted one (or none was reported), no earlier refill of the
  provider is unsettled, and the amount is positive, within the single cap and keeps the day's count
  and total within theirs; the transfer was built and signed for the whitelisted address and exactly
  that amount.\<close>

theorem refill_guarded:
  assumes "refill env provider conf balance reported w = (w', e)" and "broadcasts w' \<noteq> broadcasts w"
  shows "reported \<in> {'''', tp_deposit_address_url conf}
    \<and> list_all (\<lambda>r. unsettled provider r = False) (topups w)
    \<and> (\<exists>amount tx resp. broadcasts w' = broadcasts w @ [sp_tx resp]
        \<and> 0 < amount
        \<and> (tp_max_single_topup_trx conf \<le> 0 \<or> amount \<le> tp_max_single_topup_trx conf)
        \<and> (tp_max_daily_topup_count conf \<le> 0
            \<or> int (length (topups_today (te_now env) provider w)) < tp_max_daily_topup_count conf)
        \<and> (tp_max_daily_topup_trx conf \<le> 0
            \<or> fl64 (sum_float (map tr_amount_trx (topups_today (te_now env) provider w)) + amount)
              \<le> tp_max_daily_topup_trx conf)
        \<and> BuildTRXTransfer (te_node env) (at_source_address (te_cfg env)) (tp_deposit_address_url conf) (to_sun amount) = Inr tx
        \<and> te_sign env \<lparr>sr_purpose = PurposeTopup, sr_path = te_gas_path env,
             sr_address = at_source_address (te_cfg env), sr_tx = Some tx,
             sr_meta = \<lparr>sm_to_address = tp_deposit_address_url conf, sm_contract = '''', sm_amount_units = '''',
               sm_amount_sun = to_sun amount\<rparr>\<rparr> = Inr resp)"
proof -
  obtain w1 where l: "Lock (te_prefix env) (''topup:'' @ provider) (te_lock_fail env) w = Some w1"
    using assms by (cases "Lock (te_prefix env) (''topup:'' @ provider) (te_lock_fail env) w") (auto simp: refill_def)
  obtain ks where ks: "w1 = w\<lparr>redis_keys := ks\<rparr>" using Lock_Some [OF l] by blast
  obtain w2 e2 where rl: "refill_locked env provider conf balance reported w1 = (w2, e2)" by fastforce
  then have b: "broadcasts w2 \<noteq> broadcasts w" "broadcasts w' = broadcasts w2"
    using assms l by (auto simp: refill_def)
  let ?a0 = "fl64 (tp_target_trx conf - balance)"
  define amount where "amount = (if 0 < tp_max_single_topup_trx conf \<and> ?a0 > tp_max_single_topup_trx conf
    then tp_max_single_topup_trx conf else ?a0)"
  have w1: "topups w1 = topups w" "broadcasts w1 = broadcasts w"
    "topups_today (te_now env) provider w1 = topups_today (te_now env) provider w"
    by (simp_all add: ks topups_today_def)
  have g: "reported \<in> {'''', tp_deposit_address_url conf}" "guardPending env provider w1 = None" "0 < ?a0"
    "guardDailyLimits env provider conf amount w1 = None"
    and "\<exists>row. send_topup env conf (to_sun amount) row (w1\<lparr>topups := topups w1 @ [row]\<rparr>) = (w2, e2)"
    using rl b(1) w1(2) unfolding refill_locked_def Let_def amount_def [symmetric]
    by (auto split: if_split_asm option.split_asm)
  then obtain row where s: "send_topup env conf (to_sun amount) row (w1\<lparr>topups := topups w1 @ [row]\<rparr>) = (w2, e2)"
    by blast
  have pending: "list_all (\<lambda>r. unsettled provider r = False) (topups w)"
    using g(2) w1(1) by (auto simp: guardPending_def list_all_iff take_last_None split: if_splits option.splits)
  have daily: "tp_max_daily_topup_count conf \<le> 0
            \<or> int (length (topups_today (te_now env) provider w)) < tp_max_daily_topup_count conf"
    "tp_max_daily_topup_trx conf \<le> 0
            \<or> fl64 (sum_float (map tr_amount_trx (topups_today (te_now env) provider w)) + amount)
              \<le> tp_max_daily_topup_trx conf"
    using g(4) w1(3) by (auto simp: guardDailyLimits_def Let_def not_le not_less split: if_splits)
  have amt: "0 < amount" "tp_max_single_topup_trx conf \<le> 0 \<or> amount \<le> tp_max_single_topup_trx conf"
    using g(3) by (auto simp: amount_def)
  have "broadcasts w2 \<noteq> broadcasts (w1\<lparr>topups := topups w1 @ [row]\<rparr>)" using b(1) w1(2) by simp
  with send_topup_broadcasts [OF s] obtain tx resp where
    tx: "BuildTRXTransfer (te_node env) (at_source_address (te_cfg env)) (tp_deposit_address_url conf) (to_sun amount) = Inr tx"
    and resp: "te_sign env \<lparr>sr_purpose = PurposeTopup, sr_path = te_gas_path env,
       sr_address = at_source_address (te_cfg env), sr_tx = Some tx,
       sr_meta = \<lparr>sm_to_address = tp_deposit_address_url conf, sm_contract = '''', sm_amount_units = '''',
         sm_amount_sun = to_sun amount\<rparr>\<rparr> = Inr resp"
    and bc: "broadcasts w2 = broadcasts (w1\<lparr>topups := topups w1 @ [row]\<rparr>) @ [sp_tx resp]"
    by blast
  have "broadcasts w' = broadcasts w @ [sp_tx resp]" using bc b(2) w1(2) by simp
  with g(1) pending daily amt tx resp show ?thesis by blast
qed

subsection \<open>One unsettled refill per provider\<close>

definition topups_ok :: "world \<Rightarrow> bool" where
  "topups_ok w \<longleftrightarrow> distinct (map tr_id (topups w)) \<and> (\<forall>p. length (filter (unsettled p) (topups w)) \<le> 1)"

definition open_row :: "topup_record \<Rightarrow> world \<Rightarrow> bool" where
  "open_row row w \<longleftrightarrow> (\<forall>r \<in> set (topups w). tr_id r = tr_id row \<longrightarrow> unsettled (tr_provider r) r)"

lemma length_filter_map_le:
  "(\<And>r. r \<in> set t \<Longrightarrow> P (g r) \<Longrightarrow> P r) \<Longrightarrow> length (filter P (map g t)) \<le> length (filter P t)"
  by (induction t) (auto intro: le_SucI)

lemma update_topup_ok:
  assumes "topups_ok w" and "open_row row w"
    and "\<And>r. tr_id (f r) = tr_id r \<and> tr_provider (f r) = tr_provider r"
  shows "topups_ok (update_topup b f row w)"
proof -
  have ids: "map tr_id (topups (update_topup b f row w)) = map tr_id (topups w)"
    using assms(3) by (simp add: update_topup_def map_update_where)
  have "length (filter (unsettled p) (topups (update_topup b f row w))) \<le> length (filter (unsettled p) (topups w))" for p
  proof (cases b)
    case True
    then show ?thesis by (simp add: update_topup_def)
  next
    case False
    have "length (filter (unsettled p) (map (\<lambda>r. if tr_id r = tr_id row then f r else r) (topups w)))
        \<le> length (filter (unsettled p) (topups w))"
      using assms(2,3) by (intro length_filter_map_le) (auto simp: open_row_def unsettled_def split: if_splits)
    with False show ?thesis by (simp add: update_topup_def update_where_def)
  qed
  with ids assms(1) show ?thesis by (auto simp: topups_ok_def intro: order_trans)
qed

lemma update_topup_open:
  assumes "open_row row' w"
    and "tr_id row' = tr_id row \<Longrightarrow> \<forall>r. unsettled (tr_provider r) r \<longrightarrow> unsettled (tr_provider (f r)) (f r)"
    and "\<And>r. tr_id (f r) = tr_id r"
  shows "open_row row' (update_topup b f row w)"
  using assms by (auto simp: open_row_def update_topup_def set_update_where)

lemma send_topup_ok:
  assumes "topups_ok w" and "open_row row w" and "send_topup env conf sun row w = (w', e)"
  shows "topups_ok w'"
proof -
  have b: "topups_ok (w\<lparr>broadcasts := bs\<rparr>)" "open_row row (w\<lparr>broadcasts := bs\<rparr>)" for bs
    using assms(1,2) by (simp_all add: topups_ok_def open_row_def)
  show ?thesis
    using assms(3) unfolding send_topup_def fail_topup_def Let_def
    by (auto split: sum.split_asm prod.split_asm option.split_asm
        intro!: update_topup_ok assms(1,2) b)
qed

lemma refill_locked_ok:
  assumes "topups_ok w" and "refill_locked env provider conf balance reported w = (w', e)"
  shows "topups_ok w'"
proof -
  have new: "topups_ok (w\<lparr>topups := topups w @ [row]\<rparr>) \<and> open_row row (w\<lparr>topups := topups w @ [row]\<rparr>)"
    if "guardPending env provider w = None" "tr_provider row = provider" "tr_status row = TopupCreated"
      "tr_id row = fresh_id (map tr_id (topups w))" for row
  proof -
    have "\<forall>r \<in> set (topups w). \<not> unsettled provider r"
      using that(1) by (simp add: guardPending_def take_last_None split: if_splits option.splits)
    then have "filter (unsettled provider) (topups w) = []" by (simp add: filter_empty_conv)
    moreover have "tr_id row \<notin> tr_id ` set (topups w)"
      using that(4) fresh_id_not_in [of "map tr_id (topups w)"] by simp
    ultimately show ?thesis
      using assms(1) that(2,3) by (auto simp: topups_ok_def open_row_def unsettled_def image_iff)
  qed
  show ?thesis
    using assms(2,1) unfolding refill_locked_def Let_def
    by (auto split: if_split_asm option.split_asm dest!: send_topup_ok [rotated 2] intro: new [THEN conjunct1] new [THEN conjunct2])
qed

lemma topups_ok_redis [simp]: "topups_ok (w\<lparr>redis_keys := ks\<rparr>) = topups_ok w"
  by (simp add: topups_ok_def)

lemma refill_ok:
  assumes "topups_ok w"
  shows "topups_ok (fst (refill env provider conf balance reported w))"
proof (cases "Lock (te_prefix env) (''topup:'' @ provider) (te_lock_fail env) w")
  case (Some w1)
  then have "topups_ok w1" using assms Lock_Some [OF Some] by auto
  moreover obtain w2 e where "refill_locked env provider conf balance reported w1 = (w2, e)" by fastforce
  ultimately show ?thesis
    using Some refill_locked_ok by (auto simp: refill_def Unlock_def split: option.split)
qed (simp add: refill_def assms)

lemma reconcile_topup_ok:
  assumes "topups_ok w" and "open_row row w"
  shows "topups_ok (reconcile_topup env row w)
    \<and> (\<forall>row'. tr_id row' \<noteq> tr_id row \<longrightarrow> open_row row' w \<longrightarrow> open_row row' (reconcile_topup env row w))"
proof -
  define Q where "Q v \<longleftrightarrow> topups_ok v
    \<and> (\<forall>row'. tr_id row' \<noteq> tr_id row \<longrightarrow> open_row row' w \<longrightarrow> open_row row' v)" for v
  define P where "P v \<longleftrightarrow> Q v \<and> open_row row v" for v
  have w: "P w" using assms by (simp add: P_def Q_def)
  have step: "Q (update_topup b f row v)"
    if "P v" "\<And>r. tr_id (f r) = tr_id r \<and> tr_provider (f r) = tr_provider r" for b f v
    using that update_topup_ok [of v row f b] update_topup_open [of _ v row f b] by (auto simp: P_def Q_def)
  have keep: "P (update_topup b f row v)"
    if "P v" "\<And>r. tr_id (f r) = tr_id r \<and> tr_provider (f r) = tr_provider r \<and> tr_status (f r) = TopupConfirmed" for b f v
    using that step [of v f b] update_topup_open [of row v row f b] by (auto simp: P_def unsettled_def)
  have PQ: "P v \<Longrightarrow> Q v" for v by (simp add: P_def)
  have "Q (reconcile_topup env row w)"
    unfolding reconcile_topup_def Let_def
    by (auto split: sum.split option.split prod.split intro: PQ w step keep)
      (rule step, rule keep, rule w, simp_all)
  then show ?thesis by (simp add: Q_def)
qed

text \<open>C24. Crediting lags, so a second refill must wait for the first: neither a refill nor a reconciliation
  ever leaves two unsettled refills of one provider, whatever the node, the signer and the statements
  do, and row ids stay unique.\<close>

theorem topups_one_unsettled:
  assumes "topups_ok w"
  shows "topups_ok (fst (refill env provider conf balance reported w))
    \<and> topups_ok (fst (Reconcile_topups env w))"
proof -
  have fold: "topups_ok (foldl (\<lambda>w row. reconcile_topup env row w) v rows)"
    if "topups_ok v" "distinct (map tr_id rows)" "\<forall>row \<in> set rows. open_row row v" for rows v
    using that
  proof (induction rows arbitrary: v)
    case (Cons r rows)
    have "topups_ok (reconcile_topup env r v)"
      "\<forall>row \<in> set rows. open_row row (reconcile_topup env r v)"
      using reconcile_topup_ok [of v r env] Cons.prems by (auto simp: image_iff)
    then show ?case using Cons by simp
  qed simp
  let ?rows = "select_limit (\<lambda>r. tr_status r \<in> {TopupBroadcast, TopupConfirmed}) 50 (topups w)"
  have "distinct (map tr_id ?rows)"
    using assms by (auto simp: topups_ok_def select_limit_def distinct_map_filter take_map [symmetric])
  moreover have "\<forall>row \<in> set ?rows. open_row row w"
  proof
    fix row assume "row \<in> set ?rows"
    then have row: "row \<in> set (topups w)" "tr_status row \<in> {TopupBroadcast, TopupConfirmed}"
      using select_limit_subset by fastforce+
    have "r = row" if "r \<in> set (topups w)" "tr_id r = tr_id row" for r
      using assms row(1) that by (auto simp: topups_ok_def distinct_map dest: inj_onD)
    with row(2) show "open_row row w" by (auto simp: open_row_def unsettled_def)
  qed
  ultimately have "topups_ok (fst (Reconcile_topups env w))"
    using fold [OF assms] assms by (simp add: Reconcile_topups_def)
  with refill_ok [OF assms] show ?thesis by blast
qed

text \<open>The defect recorded with the findings: a transfer no node ever includes is never settled.\<close>

theorem topup_blocked:
  assumes "r \<in> set (topups w)" and "tr_provider r = provider" and "tr_status r = TopupBroadcast"
    and "\<And>x. x \<in> set (topups w) \<Longrightarrow> tr_txid x = '''' \<or> GetTxInfoByID (te_node env) (tr_txid x) = Inr None"
  shows "fst (Reconcile_topups env w) = w
    \<and> broadcasts (fst (refill env provider conf balance reported w)) = broadcasts w"
proof -
  have "foldl (\<lambda>w row. reconcile_topup env row w) w rows = w" if "set rows \<subseteq> set (topups w)" for rows
  proof -
    have s: "reconcile_topup env x w = w" if "x \<in> set (topups w)" for x
      using assms(4) [OF that] by (auto simp: reconcile_topup_def Let_def)
    show ?thesis using that by (induction rows) (auto simp: s)
  qed
  then have "fst (Reconcile_topups env w) = w"
    using select_limit_subset [of "\<lambda>r. tr_status r \<in> {TopupBroadcast, TopupConfirmed}" 50 "topups w"]
    by (simp add: Reconcile_topups_def subset_iff)
  moreover have "broadcasts (fst (refill env provider conf balance reported w)) = broadcasts w"
  proof (rule ccontr)
    assume "broadcasts (fst (refill env provider conf balance reported w)) \<noteq> broadcasts w"
    from refill_guarded [OF prod.collapse [symmetric] this] assms(1,2,3) show False
      by (auto simp: list_all_iff unsettled_def)
  qed
  ultimately show ?thesis by blast
qed

subsection \<open>Instances\<close>

definition topup_node :: node_api where
  "topup_node = down_node\<lparr>na_create_transaction := (\<lambda>_ _ _. Inr (bare_tx ''0a''\<lparr>tx_raw_data := Some [(''contract'', JArr [])]\<rparr>)),
     na_broadcast := (\<lambda>_. [(''n'', BcReply True '''' '''')])\<rparr>"

definition topup_conf :: provider_topup_conf where
  "topup_conf = \<lparr>tp_enabled = True, tp_low_watermark_trx = 100, tp_target_trx = 500,
     tp_max_single_topup_trx = 300, tp_max_daily_topup_trx = 0, tp_max_daily_topup_count = 3,
     tp_deposit_address_url = sample_address 9\<rparr>"

definition topup_sample_env :: topup_env where
  "topup_sample_env = \<lparr>te_cfg = \<lparr>at_enabled = True, at_source_address = sample_address 7, at_providers = [(''p'', topup_conf)]\<rparr>,
     te_provs = [(''p'', rental)], te_gas_path = ''m/0'', te_prefix = ''trc20'', te_node = topup_node,
     te_sign = (\<lambda>req. case sr_tx req of None \<Rightarrow> Inl db_err | Some tx \<Rightarrow> Inr \<lparr>sp_txid = ''id'', sp_tx = tx\<lparr>tx_id := ''id'', tx_signature := [''00'']\<rparr>\<rparr>),
     te_now = 0, te_lock_fail = False, te_fail = (\<lambda>_. False)\<rparr>"

lemma fl64_450: "fl64 450 = 450"
  by (subst fl64_eq [where k = 8]) (simp_all add: fl64_simps)

lemma sample_refill:
  "\<exists>w' resp. refill topup_sample_env ''p'' topup_conf 50 (sample_address 9) empty_world = (w', None)
     \<and> broadcasts w' = [resp]"
  by (simp add: refill_def Lock_def empty_world_def topup_sample_env_def refill_locked_def guardPending_def
      take_last_def fl64_450 topup_conf_def guardDailyLimits_def topups_today_def send_topup_def topup_node_def
      BuildTRXTransfer_def bare_tx_def Broadcast_def broadcastRequest_def Let_def down_node_def)

theorem refill_guarded_witness:
  "\<exists>w'. refill topup_sample_env ''p'' topup_conf 50 (sample_address 9) empty_world = (w', None)
     \<and> length (broadcasts w') = 1
     \<and> list_all (\<lambda>r. unsettled ''p'' r = False) (topups empty_world)"
proof -
  obtain w' resp where r: "refill topup_sample_env ''p'' topup_conf 50 (sample_address 9) empty_world = (w', None)"
    and b: "broadcasts w' = [resp]"
    using sample_refill by blast
  have "broadcasts w' \<noteq> broadcasts empty_world" by (simp add: b empty_world_def)
  from refill_guarded [OF r this] r b show ?thesis by auto
qed

theorem topups_one_unsettled_witness:
  "topups_ok (fst (refill topup_sample_env ''p'' topup_conf 50 (sample_address 9) empty_world))"
proof -
  have "topups_ok empty_world" by (simp add: topups_ok_def empty_world_def)
  from topups_one_unsettled [OF this] show ?thesis by blast
qed


end
