(* ===== verification/Frames.thy ===== *)
theory Frames
  imports WithdrawProps DepositSafety SweepProps ApiProps Topup Pricing Outbox
begin

text \<open>
  What each component leaves alone. The processes share one database, one redis and one set of nodes;
  each transition system (\<open>withdraw_step\<close>, \<open>deposit_step\<close>, \<open>sweep_step\<close>) has an \<open>other\<close> step for what the
  rest of the wallet does meanwhile. Here every handler is shown to be such a step of the others.
\<close>

section \<open>Frames\<close>

text \<open>The withdrawal worker's handlers, the scanner's and the sweeper's.\<close>

definition orders_only :: "world \<Rightarrow> world \<Rightarrow> bool" where
  "orders_only w w' \<longleftrightarrow> deposits w' = deposits w \<and> credits w' = credits w \<and> sweeps w' = sweeps w
     \<and> redis_keys w' = redis_keys w"

definition deposits_only :: "world \<Rightarrow> world \<Rightarrow> bool" where
  "deposits_only w w' \<longleftrightarrow> withdraws w' = withdraws w \<and> withdraw_events w' = withdraw_events w \<and> sweeps w' = sweeps w
     \<and> redis_keys w' = redis_keys w \<and> broadcasts w' = broadcasts w"

definition sweeps_only :: "world \<Rightarrow> world \<Rightarrow> bool" where
  "sweeps_only w w' \<longleftrightarrow> withdraws w' = withdraws w \<and> outbox w' = outbox w
     \<and> map unswept (deposits w') = map unswept (deposits w)"

text \<open>Everything else the processes do: no order, deposit, sweep or event changes, nothing is sent, and the locks
  of the sweeper stay held.\<close>

definition keeps_locks :: "string \<Rightarrow> world \<Rightarrow> world \<Rightarrow> bool" where
  "keeps_locks prefix w w' \<longleftrightarrow> (\<forall>ks. redis_keys w = Some ks \<longrightarrow> (\<exists>ks'. redis_keys w' = Some ks' \<and>
     (\<forall>k. Key prefix [''lock'', ''sweep:'' @ k] \<in> set ks \<longrightarrow> Key prefix [''lock'', ''sweep:'' @ k] \<in> set ks')))"

definition aside :: "string \<Rightarrow> world \<Rightarrow> world \<Rightarrow> bool" where
  "aside prefix w w' \<longleftrightarrow> withdraws w' = withdraws w \<and> deposits w' = deposits w \<and> sweeps w' = sweeps w
     \<and> outbox w' = outbox w \<and> keeps_locks prefix w w'"

definition quiet :: "string \<Rightarrow> world \<Rightarrow> world \<Rightarrow> bool" where
  "quiet prefix w w' \<longleftrightarrow> aside prefix w w' \<and> broadcasts w' = broadcasts w"

named_theorems frames "how a handler frames the tables of the others"

lemma orders_only_refl [simp]: "orders_only w w"
  by (simp add: orders_only_def)

lemma orders_only_trans: "orders_only w w' \<Longrightarrow> orders_only w' w'' \<Longrightarrow> orders_only w w''"
  by (simp add: orders_only_def)

lemma deposits_only_refl [simp]: "deposits_only w w"
  by (simp add: deposits_only_def)

lemma sweeps_only_refl [simp]: "sweeps_only w w"
  by (simp add: sweeps_only_def)

lemma sweeps_only_trans: "sweeps_only w w' \<Longrightarrow> sweeps_only w' w'' \<Longrightarrow> sweeps_only w w''"
  by (simp add: sweeps_only_def)

lemma keeps_locks_refl [simp]: "keeps_locks p w w"
  by (simp add: keeps_locks_def)

lemma keeps_locks_same: "redis_keys w' = redis_keys w \<Longrightarrow> keeps_locks p w w'"
  by (simp add: keeps_locks_def)

lemma keeps_locks_trans: "keeps_locks p w w' \<Longrightarrow> keeps_locks p w' w'' \<Longrightarrow> keeps_locks p w w''"
  by (fastforce simp: keeps_locks_def)

lemma quiet_refl [simp]: "quiet p w w"
  by (simp add: quiet_def aside_def)

lemma quiet_trans: "quiet p w w' \<Longrightarrow> quiet p w' w'' \<Longrightarrow> quiet p w w''"
  unfolding quiet_def aside_def using keeps_locks_trans by fastforce

lemma quiet_foldl: "(\<And>w x. quiet p w (f w x)) \<Longrightarrow> quiet p w (foldl f w xs)"
  by (induction xs arbitrary: w) (auto intro: quiet_trans)

lemma outbox_same: "outbox w' = outbox w \<Longrightarrow> credits w' = credits w \<and> withdraw_events w' = withdraw_events w"
  by (simp add: credits_def withdraw_events_def event_ids_def)

section \<open>The withdrawal worker\<close>

lemma energy_only_orders: "energy_only w w' \<Longrightarrow> orders_only w w'"
  using energy_only_frame [of w w'] outbox_same [of w' w] by (simp add: orders_only_def)

lemma credits_announce: "credits (announce row outcome reason now w) = credits w"
  by (simp add: announce_def credits_Enqueue)

lemma credits_withdraws [simp]: "credits (w\<lparr>withdraws := t\<rparr>) = credits w"
  by (simp add: credits_def)

lemma announce_orders [simp]: "orders_only w (announce row outcome reason now (w\<lparr>withdraws := t\<rparr>))"
  by (simp add: orders_only_def credits_announce) (simp add: announce_def)

lemma settle_orders: "settle env from f row outcome reason w = (w', e) \<Longrightarrow> orders_only w w'"
  by (simp add: settle_def Let_def split: if_split_asm) (erule conjE, drule sym, simp)

lemma reject_orders: "reject env row reason w = (w', e) \<Longrightarrow> orders_only w w'"
  using settle_orders by (auto simp: reject_def)

lemma finish_orders: "finish env row st reason fc u f w = (w', e) \<Longrightarrow> orders_only w w'"
  using settle_orders by (auto simp: finish_def Let_def)

lemma withdraws_orders: "orders_only w (w\<lparr>withdraws := t\<rparr>)"
  by (simp add: orders_only_def)

lemma halt_orders: "halt env row fc reason w = (w', e) \<Longrightarrow> orders_only w w'"
  using settle_orders withdraws_orders
  by (auto simp: halt_def failHalted_def Let_def split: if_splits prod.splits option.splits)

lemma checkBalance_orders: "checkBalance env row tok from amount w = (w', e) \<Longrightarrow> orders_only w w'"
  using halt_orders by (auto simp: checkBalance_def Let_def split: sum.splits if_splits)

lemma checkBurnBudget_orders: "checkBurnBudget env row from need w = (w', e) \<Longrightarrow> orders_only w w'"
  using halt_orders by (auto simp: checkBurnBudget_def Let_def split: sum.splits if_splits)

lemma pay_energy_orders: "pay_energy env row addr need w = (w', e) \<Longrightarrow> orders_only w w'"
proof (cases "WithdrawRentalOn (we_cfg env)")
  case False
  then show "pay_energy env row addr need w = (w', e) \<Longrightarrow> orders_only w w'"
    using checkBurnBudget_orders by (simp add: pay_energy_def)
next
  case True
  assume p: "pay_energy env row addr need w = (w', e)"
  obtain w1 r where a: "AcquireRented (we_energy env) ''withdraw'' addr need (''withdraw-'' @ big_String (w_id row)) w = (w1, r)"
    by fastforce
  have o: "orders_only w w1" by (rule energy_only_orders [OF AcquireRented_only [OF a]])
  show "orders_only w w'"
    using p True a o by (auto simp: pay_energy_def split: if_splits sum.splits dest: halt_orders orders_only_trans [OF o])
qed

lemma sign_and_take_orders: "sign_and_take env row tok data w = (w', out) \<Longrightarrow> orders_only w w'"
  using withdraws_orders by (auto simp: sign_and_take_def Let_def split: sum.splits if_splits)

lemma prepare_orders [frames]: "prepare env row w = (w', out) \<Longrightarrow> orders_only w w'"
  by (erule prepare_cases)
    (auto dest: reject_orders checkBalance_orders pay_energy_orders sign_and_take_orders intro: orders_only_trans)

lemma prepare_broadcasts: "prepare env row w = (w', out) \<Longrightarrow> broadcasts w' = broadcasts w"
  by (erule prepare_cases)
    (simp, erule reject_broadcasts, erule checkBalance_broadcasts, erule pay_energy_broadcasts,
      drule sign_and_take_broadcasts, drule pay_energy_broadcasts, simp)

lemma send_orders: "orders_only w (send tx w)"
  by (simp add: orders_only_def send_def credits_def)

lemma to_broadcast_orders: "orders_only w (to_broadcast env row f w)"
  by (cases "we_fail env WdBroadcast") (simp_all only: to_broadcast_def if_True if_False orders_only_refl withdraws_orders)

lemma to_broadcast_broadcasts: "broadcasts (to_broadcast env row f w) = broadcasts w"
  by (simp add: to_broadcast_def)

lemma pool_orders: "orders_only w (w\<lparr>pool := p\<rparr>)"
  by (simp add: orders_only_def credits_def)

lemma broadcast_orders [frames]:
  assumes "broadcast env row txid tx w = (w', e)"
  shows "orders_only w w' \<and> broadcasts w' = broadcasts w @ [tx]"
  using assms
proof (cases rule: broadcast_cases)
  case refused
  show ?thesis
    using orders_only_trans [OF send_orders finish_orders [OF refused(1)]] finish_broadcasts [OF refused(1)] by simp
next
  case (unsure fc reason)
  then show ?thesis
    using orders_only_trans [OF send_orders to_broadcast_orders] by (simp only: to_broadcast_broadcasts send_simps)
next
  case (accepted p v)
  have v: "orders_only w v" unfolding accepted(3) by (rule orders_only_trans [OF send_orders to_broadcast_orders])
  have "broadcasts v = broadcasts w @ [tx]" unfolding accepted(3) by (simp only: to_broadcast_broadcasts send_simps)
  then show ?thesis using orders_only_trans [OF v pool_orders] by (simp add: accepted(2))
qed

lemma rebroadcast_orders:
  assumes "rebroadcast env row w = (w', e)"
  shows "orders_only w w' \<and> (\<exists>txs. broadcasts w' = broadcasts w @ txs)"
proof -
  have fin: "orders_only w w' \<and> (\<exists>txs. broadcasts w' = broadcasts w @ txs)"
    if "finish env row WithdrawFailed reason fc 0 0 (send tx w) = (w', e1)" for tx reason fc e1
    using orders_only_trans [OF send_orders finish_orders [OF that]] finish_broadcasts [OF that] by simp
  have sent: "orders_only w (send tx w) \<and> (\<exists>txs. broadcasts (send tx w) = broadcasts w @ txs)" for tx
    using send_orders by simp
  show ?thesis
    using assms fin sent unfolding rebroadcast_def Let_def
    by (auto simp del: send_simps split: sum.split_asm if_split_asm prod.split_asm option.split_asm)
qed

lemma reconcileOne_orders [frames]:
  assumes "reconcileOne env row head w = (w', e)"
  shows "orders_only w w' \<and> (\<exists>txs. broadcasts w' = broadcasts w @ txs)"
  using assms
proof (cases rule: reconcileOne_cases)
  case resend
  then show ?thesis using rebroadcast_orders by blast
qed (use finish_orders finish_broadcasts in fastforce)+

section \<open>The scanner\<close>

lemma deposits_onlyI: "withdraws w' = withdraws w \<Longrightarrow> outbox w' = outbox w \<Longrightarrow> sweeps w' = sweeps w \<Longrightarrow>
    redis_keys w' = redis_keys w \<Longrightarrow> broadcasts w' = broadcasts w \<Longrightarrow> deposits_only w w'"
  using outbox_same [of w' w] by (simp add: deposits_only_def)

lemma scanBlock_deposits [frames]: "scanBlock env sc b infos w = (w', e) \<Longrightarrow> deposits_only w w'"
  by (rule deposits_onlyI) (auto simp: scanBlock_def split: sum.splits if_splits)

lemma handleReorg_deposits [frames]: "handleReorg env num w = (w', r) \<Longrightarrow> deposits_only w w'"
  by (rule deposits_onlyI) (auto simp: handleReorg_def Let_def split: sum.splits if_splits)

lemma withdraw_events_Enqueue: "take 9 ev \<noteq> ''withdraw:'' \<Longrightarrow>
    withdraw_events (EnqueueOutbox now ev ty ac m u p w) = withdraw_events w"
  by (simp add: withdraw_events_def EnqueueOutbox_event_ids)

lemma confirmOne_deposits [frames]:
  assumes "confirmOne env head row w = (w', e)" and "proper_txid (d_txid row)"
  shows "deposits_only w w'"
proof -
  have ev: "take 9 (depositEventID (row\<lparr>d_block_number := n\<rparr>)) \<noteq> ''withdraw:''" for n
    by (rule depositEventID_credit) (simp add: assms(2))
  have dep: "withdraw_events (w\<lparr>deposits := t\<rparr>) = withdraw_events w" for t by (simp add: withdraw_events_def event_ids_def)
  show ?thesis
    using assms(1) ev
    by (auto simp: confirmOne_def Let_def deposits_only_def withdraw_events_Enqueue dep split: sum.splits option.splits if_splits)
qed

section \<open>The sweeper\<close>

lemma set_columns_sweeps: "sweeps_only w (set_columns env st i f w)"
  by (simp add: set_columns_def sweeps_only_def)

lemma failSweep_sweeps: "failSweep env i code e w = (w', e') \<Longrightarrow> sweeps_only w w'"
  using set_columns_sweeps by (auto simp: failSweep_def)

lemma energy_only_sweeps: "energy_only w w' \<Longrightarrow> sweeps_only w w'"
  using energy_only_frame [of w w'] by (simp add: sweeps_only_def)

lemma send_sweeps: "sweeps_only w (send tx w)"
  by (simp add: sweeps_only_def send_def)

lemma sweep_sign_sweeps: "sweep_sign env tok wallet amount data i w = (w', r) \<Longrightarrow> sweeps_only w w'"
  using failSweep_sweeps set_columns_sweeps
  by (fastforce simp: sweep_sign_def Let_def split: sum.splits prod.splits)

lemma sweep_begin_sweeps [frames]:
  assumes "sweep_begin env tok wallet amount w = (w', r)"
  shows "sweeps_only w w'"
proof (cases "w' = w")
  case False
  obtain attempts need data maxID where ad: "sweep_admit env tok wallet amount w = Inr (Some (attempts, need, data, maxID))"
    using assms False by (auto simp: sweep_begin_def Let_def split: sum.splits option.splits)
  let ?i = "fresh_id (map s_id (sweeps w))"
  let ?w1 = "w\<lparr>sweeps := sweeps w @ [new_sweep env tok (uw_address wallet) amount attempts maxID ?i]\<rparr>"
  let ?acq = "if SweepRentalOn (se_cfg env) then AcquireRented else AcquireBurn"
  have w1: "sweeps_only w ?w1" by (simp add: sweeps_only_def)
  obtain w2 a where aq: "?acq (se_energy env) ''sweep'' (uw_address wallet) need (''sweep-'' @ big_String ?i) ?w1 = (w2, a)"
    by fastforce
  have "energy_only ?w1 w2"
    using aq AcquireRented_only [of "se_energy env"] AcquireBurn_only [of "se_energy env"] by (auto split: if_split_asm)
  then have w2: "sweeps_only w w2" by (rule sweeps_only_trans [OF w1 energy_only_sweeps])
  have ok: "\<not> se_fail env SwCreate" using assms ad False by (auto simp: sweep_begin_def)
  show ?thesis
  proof (cases a)
    case (Inl e)
    then show ?thesis
      using assms ad ok aq sweeps_only_trans [OF w2 failSweep_sweeps] by (auto simp: sweep_begin_def Let_def split: prod.splits)
  next
    case (Inr ord)
    then show ?thesis
      using assms ad ok aq sweeps_only_trans [OF sweeps_only_trans [OF w2 set_columns_sweeps] sweep_sign_sweeps]
      by (simp add: sweep_begin_def Let_def)
  qed
qed simp

lemma sweep_begin_broadcasts:
  "sweep_begin env tok wallet amount w = (w', r) \<Longrightarrow> signing (se_sign env) \<Longrightarrow> broadcasts w' = broadcasts w"
  using sweep_begin_cases [of env tok wallet amount w w' r] by (auto simp: begins_def grown_def)

lemma sweep_send_sweeps [frames]: "sweep_send env i tx w = (w', e) \<Longrightarrow> sweeps_only w w'"
  by (auto simp: sweep_send_def Let_def split: prod.splits option.splits if_splits
      intro: sweeps_only_trans [OF send_sweeps set_columns_sweeps] dest!: failSweep_sweeps sweeps_only_trans [OF send_sweeps])

lemma rebroadcast_sweep_sweeps: "rebroadcast_sweep env row w = (w', e) \<Longrightarrow> sweeps_only w w'"
proof -
  assume r: "rebroadcast_sweep env row w = (w', e)"
  consider "w' = w" | tx where "w' = send tx w" | tx code er e' where "failSweep env (s_id row) code er (send tx w) = (w', e')"
    using r by (auto simp: rebroadcast_sweep_def Let_def split: sum.splits if_splits prod.splits option.splits)
  then show "sweeps_only w w'" using send_sweeps failSweep_sweeps sweeps_only_trans by cases (auto, blast)
qed

lemma unswept_update: "(\<And>r. unswept (f r) = unswept r) \<Longrightarrow> map unswept (update_where p f t) = map unswept t"
  by (rule map_update_where) simp

lemma reconcileOne_sweep_sweeps [frames]: "sweeps_only w (reconcileOne_sweep env row w)"
proof -
  have "unswept (r\<lparr>d_swept := True, d_updated_at := n\<rparr>) = unswept r" for r n by (simp add: unswept_def)
  then have "sweeps_only w (fst (confirm_sweep env row info w))" for info
    by (simp add: confirm_sweep_def sweeps_only_def unswept_update)
  moreover have "sweeps_only w (fst (settleAbsent env row w))"
    using rebroadcast_sweep_sweeps by (auto simp: settleAbsent_def sweeps_only_def) (metis prod.collapse sweeps_only_def)+
  ultimately show ?thesis
    using set_columns_sweeps by (auto simp: reconcileOne_sweep_def split: sum.splits option.splits)
qed

lemma markSweptEmpty_sweeps [frames]:
  assumes "markSweptEmpty env tok address w = (w', e)"
  shows "sweeps_only w w' \<and> sweeps w' = sweeps w \<and> redis_keys w' = redis_keys w \<and> broadcasts w' = broadcasts w"
proof -
  have "unswept (r\<lparr>d_swept := True, d_updated_at := n\<rparr>) = unswept r" for r n by (simp add: unswept_def)
  then show ?thesis using assms by (auto simp: markSweptEmpty_def sweeps_only_def unswept_update split: if_splits)
qed

section \<open>The dispatcher\<close>

text \<open>A delivery keeps what an event says and changes nothing else.\<close>

lemma map_outbox_update:
  assumes "\<And>r. ob_event_id (f r) = ob_event_id r \<and> ob_account (f r) = ob_account r \<and> ob_merchant_id (f r) = ob_merchant_id r
      \<and> ob_payload (f r) = ob_payload r"
  shows "credits (w\<lparr>outbox := update_where p f (outbox w)\<rparr>) = credits w \<and>
    event_ids (w\<lparr>outbox := update_where p f (outbox w)\<rparr>) = event_ids w"
proof -
  have "map (\<lambda>o'. (ob_event_id o', ob_account o', ob_merchant_id o', ob_payload o'))
      (filter (\<lambda>o'. take 9 (ob_event_id o') \<noteq> ''withdraw:'') (update_where p f t)) =
    map (\<lambda>o'. (ob_event_id o', ob_account o', ob_merchant_id o', ob_payload o'))
      (filter (\<lambda>o'. take 9 (ob_event_id o') \<noteq> ''withdraw:'') t)" for t
    by (induction t) (auto simp: update_where_def assms)
  moreover have "map ob_event_id (update_where p f t) = map ob_event_id t" for t by (rule map_update_where) (simp add: assms)
  ultimately show ?thesis by (simp add: credits_def event_ids_def)
qed

lemma deliver_frame [frames]:
  "withdraws (deliver env row w) = withdraws w" "deposits (deliver env row w) = deposits w"
  "sweeps (deliver env row w) = sweeps w" "redis_keys (deliver env row w) = redis_keys w"
  "broadcasts (deliver env row w) = broadcasts w" "credits (deliver env row w) = credits w"
  "withdraw_events (deliver env row w) = withdraw_events w"
proof -
  have "withdraws (deliver env row w) = withdraws w \<and> deposits (deliver env row w) = deposits w \<and>
    sweeps (deliver env row w) = sweeps w \<and> redis_keys (deliver env row w) = redis_keys w \<and>
    broadcasts (deliver env row w) = broadcasts w \<and> credits (deliver env row w) = credits w \<and>
    event_ids (deliver env row w) = event_ids w"
  proof (cases "ox_fail env (ob_id row)")
    case False
    then show ?thesis
      by (cases "publish_all (ox_channels env) row") (simp_all add: deliver_def Let_def map_outbox_update)
  qed (simp add: deliver_def Let_def)
  then show "withdraws (deliver env row w) = withdraws w" "deposits (deliver env row w) = deposits w"
    "sweeps (deliver env row w) = sweeps w" "redis_keys (deliver env row w) = redis_keys w"
    "broadcasts (deliver env row w) = broadcasts w" "credits (deliver env row w) = credits w"
    "withdraw_events (deliver env row w) = withdraw_events w" by (simp_all add: withdraw_events_def)
qed

section \<open>Everything else is quiet\<close>

lemma quietI: "withdraws w' = withdraws w \<Longrightarrow> deposits w' = deposits w \<Longrightarrow> sweeps w' = sweeps w \<Longrightarrow>
    outbox w' = outbox w \<Longrightarrow> redis_keys w' = redis_keys w \<Longrightarrow> broadcasts w' = broadcasts w \<Longrightarrow> quiet p w w'"
  by (simp add: quiet_def aside_def keeps_locks_same)

lemma energy_only_quiet: "energy_only w w' \<Longrightarrow> quiet p w w'"
  using energy_only_frame [of w w'] by (intro quietI) simp_all

text \<open>A lock that is not the sweeper's.\<close>

lemma Lock_quiet:
  assumes "Lock p key lf w = Some w'"
  shows "quiet p w w'"
proof -
  obtain ks where w': "w' = w\<lparr>redis_keys := ks\<rparr>" using Lock_Some [OF assms] by blast
  have "keeps_locks p w w'"
    using assms by (auto simp: Lock_def Let_def keeps_locks_def split: option.splits if_splits)
  then show ?thesis using w' by (simp add: quiet_def aside_def)
qed

lemma Unlock_quiet:
  assumes "take 6 key \<noteq> ''sweep:''"
  shows "quiet p w (Unlock p key w)"
proof -
  have "Key p [''lock'', ''sweep:'' @ k] \<noteq> Key p [''lock'', key]" for k
    using assms by (auto simp: Key_lock_inject)
  then have "keeps_locks p w (Unlock p key w)" by (auto simp: keeps_locks_def Unlock_def)
  then show ?thesis by (simp add: quiet_def aside_def)
qed

lemma authenticate_quiet [frames]:
  assumes "authenticate env rq w = (w', r)"
  shows "quiet p w w'"
proof -
  have "w' = w \<or> (\<exists>ks k. redis_keys w = Some ks \<and> w' = w\<lparr>redis_keys := Some (k # ks)\<rparr>)"
    using assms by (auto simp: authenticate_def Let_def split: if_splits option.splits)
  then show ?thesis by (auto simp: quiet_def aside_def keeps_locks_def)
qed

lemma upsertMerchant_quiet [frames]: "upsertMerchant env rq w = (w', ans) \<Longrightarrow> quiet p w w'"
  by (rule quietI) (auto simp: upsertMerchant_def Let_def split: sum.splits if_splits)

lemma NextAddressIndex_quiet: "NextAddressIndex f now c w = (w', r) \<Longrightarrow> quiet p w w'"
  by (rule quietI) (auto simp: NextAddressIndex_def Let_def split: if_splits option.splits)

lemma address_alloc_quiet: "address_alloc env mid uid w = (w', r) \<Longrightarrow> quiet p w w'"
  using NextAddressIndex_quiet by (fastforce simp: address_alloc_def Let_def split: prod.splits sum.splits)

lemma address_insert_quiet: "address_insert env row w = (w', r) \<Longrightarrow> quiet p w w'"
  by (rule quietI) (auto simp: address_insert_def simp del: if_split split: option.splits)

lemma createAddress_quiet [frames]:
  assumes "createAddress env rq w = (w', ans)"
  shows "quiet p w w'"
proof (cases "w' = w")
  case False
  then obtain mch mid uid where rq: "address_request env rq w = Inr (mch, mid, uid)"
    using assms by (cases "address_request env rq w") (auto simp: createAddress_def)
  obtain w1 a where al: "address_alloc env mid uid w = (w1, a)" by fastforce
  have q1: "quiet p w w1" by (rule address_alloc_quiet [OF al])
  show ?thesis
  proof (cases a)
    case (Inl e)
    then show ?thesis using assms rq al False q1 by (auto simp: createAddress_def split: if_splits option.splits)
  next
    case (Inr row)
    obtain w2 b where ins: "address_insert env row w1 = (w2, b)" by fastforce
    have "w' = w2"
      using assms rq al False Inr ins
      by (auto simp: createAddress_def split: if_splits option.splits sum.splits bool.splits prod.splits)
    then show ?thesis using quiet_trans [OF q1 address_insert_quiet [OF ins]] by simp
  qed
qed simp

lemma recordSkip_quiet [frames]: "recordSkip env contract address w = (w', r) \<Longrightarrow> quiet p w w'"
  by (rule quietI) (auto simp: recordSkip_def Let_def split: if_splits)

lemma settle_order_quiet: "settle_order env row st ps w = (w', e) \<Longrightarrow> quiet p w w'"
  by (rule quietI) (auto simp: settle_order_def split: if_splits)

lemma reconcile_energy_quiet: "quiet p w (fst (reconcile_energy env row w))"
proof -
  have ab: "quiet p w (fst (abandon env row reason expired w))" for reason expired
    using settle_order_quiet by (cases "abandon env row reason expired w") (auto simp: abandon_def split: if_splits)
  have so: "quiet p w (fst (settle_order env row st ps w))" for st ps
    by (metis prod.collapse settle_order_quiet)
  have mk: "quiet p w (fst (markDelegated env row od w))" for od
    by (metis prod.collapse markDelegated_only energy_only_quiet)
  show ?thesis
    using ab so mk by (auto simp: reconcile_energy_def Let_def split: option.split sum.split)
qed

lemma ReconcilePending_quiet [frames]: "quiet p w (fst (ReconcilePending env w))"
  using quiet_foldl [of p "\<lambda>w row. fst (reconcile_energy env row w)", OF reconcile_energy_quiet]
  by (simp add: ReconcilePending_def split: sum.split)

lemma pool_quiet: "quiet p w (w\<lparr>pool := q\<rparr>)"
  by (rule quietI) simp_all

lemma topUp_quiet [frames]:
  assumes "topUp env p0 w = (w', e)"
  shows "quiet p w w'"
proof -
  consider "w' = w" | q where "w' = w\<lparr>pool := q\<rparr>"
    | q need rid a r where "AcquireRented env ''hot_pool'' a need rid (w\<lparr>pool := q\<rparr>) = (w', r)"
    using assms by (auto simp: topUp_def Let_def split: sum.splits if_splits prod.splits)
  then show ?thesis
    using pool_quiet quiet_trans energy_only_quiet [OF AcquireRented_only] by cases (simp, blast, blast)
qed

lemma Refresh_price_quiet [frames]:
  assumes "Refresh_price env p0 w = (w', r)"
  shows "quiet p w w'"
proof -
  have "w' = w \<or> (\<exists>en req a. BestQuote en req w = (w', a))"
    using assms by (auto simp: Refresh_price_def Let_def split: sum.splits if_splits prod.splits)
  then show ?thesis
    using BestQuote_frame energy_onlyI(1) energy_only_quiet by (metis quiet_refl)
qed

text \<open>A top-up sends at most one transaction and is otherwise quiet.\<close>

definition paying :: "string \<Rightarrow> world \<Rightarrow> world \<Rightarrow> bool" where
  "paying prefix w w' \<longleftrightarrow> aside prefix w w' \<and> (\<exists>txs. broadcasts w' = broadcasts w @ txs)"

lemma quiet_paying: "quiet p w w' \<Longrightarrow> paying p w w'"
  by (simp add: quiet_def paying_def)

lemma paying_trans: "paying p w w' \<Longrightarrow> paying p w' w'' \<Longrightarrow> paying p w w''"
  unfolding paying_def aside_def using keeps_locks_trans by fastforce

lemma paying_foldl: "(\<And>w x. paying p w (f w x)) \<Longrightarrow> paying p w (foldl f w xs)"
  by (induction xs arbitrary: w) (auto intro: paying_trans quiet_paying)

lemma update_topup_quiet: "quiet p w (update_topup b f row w)"
  by (rule quietI) (simp_all add: update_topup_def)

lemma refill_locked_paying:
  assumes "refill_locked env provider conf balance rep w = (w', e)"
  shows "paying p w w'"
proof -
  have up: "paying p v (update_topup b f row v)" for b f row v by (rule quiet_paying [OF update_topup_quiet])
  have bc: "paying p v (v\<lparr>broadcasts := broadcasts v @ [tx]\<rparr>)" for tx v by (simp add: paying_def aside_def keeps_locks_same)
  have cr: "paying p w (w\<lparr>topups := t\<rparr>)" for t by (rule quiet_paying [OF quietI]) simp_all
  have sd: "paying p v w'" if "send_topup env conf sun row v = (w', e)" for sun row v
    using that up paying_trans [OF bc up]
    by (auto simp: send_topup_def fail_topup_def Let_def split: sum.splits prod.splits option.splits)
  show ?thesis
    using assms paying_trans [OF cr sd] quiet_paying [OF quiet_refl]
    by (auto simp: refill_locked_def Let_def split: option.splits if_splits)
qed

lemma refill_paying [frames]:
  assumes "refill env provider conf balance rep w = (w', e)" and "te_prefix env = p"
  shows "paying p w w'"
proof (cases "Lock p (''topup:'' @ provider) (te_lock_fail env) w")
  case None
  then show ?thesis using assms by (simp add: refill_def quiet_paying)
next
  case (Some w1)
  obtain w2 e2 where r: "refill_locked env provider conf balance rep w1 = (w2, e2)" by fastforce
  have "w' = Unlock p (''topup:'' @ provider) w2" using assms Some r by (simp add: refill_def)
  then show ?thesis
    using paying_trans [OF paying_trans [OF quiet_paying [OF Lock_quiet [OF Some]] refill_locked_paying [OF r]]
        quiet_paying [OF Unlock_quiet]] by simp
qed

lemma check_provider_paying: "te_prefix env = p \<Longrightarrow> paying p w (check_provider env np w)"
  using quiet_paying [OF quiet_refl] refill_paying
  by (auto simp: check_provider_def split: option.split sum.split) (metis prod.collapse)

lemma check_topups_paying [frames]: "te_prefix env = p \<Longrightarrow> paying p w (check_topups env w)"
  unfolding check_topups_def by (rule paying_foldl) (rule check_provider_paying)

lemma reconcile_topup_quiet: "quiet p w (reconcile_topup env row w)"
  using update_topup_quiet quiet_trans [OF update_topup_quiet update_topup_quiet]
  by (auto simp: reconcile_topup_def Let_def split: option.split sum.split)

lemma Reconcile_topups_quiet [frames]: "quiet p w (fst (Reconcile_topups env w))"
  unfolding Reconcile_topups_def
  using quiet_foldl [of p "\<lambda>w row. reconcile_topup env row w", OF reconcile_topup_quiet] by simp

end
