(* ===== verification/System.thy ===== *)
theory System
  imports Frames
begin

text \<open>
  The whole wallet: the HTTP interface, the withdrawal worker, the scanner, the sweeper, the dispatcher,
  the energy manager and the top-up service, any number of each, over one database, one redis and one set
  of nodes, with their steps interleaved in any order. Every step of the whole is a step of each of the three
  transition systems, so what each of them promises of its own runs holds of every run of the wallet; and
  together they give what none says alone.
\<close>

section \<open>States and steps\<close>

text \<open>The world; what the workers, the scanners and the sweepers hold in memory; and (ghost) what was handed to
  a node for an order, for a sweep and by a top-up. A dispatcher may act on a copy of an event however old it is.\<close>

record wallet_sys =
  sy_world :: world
  sy_wread :: "withdraw_record set"
  sy_ready :: "prepared set"
  sy_wsent :: "(int \<times> transaction) set"
  sy_dread :: "deposit_record set"
  sy_sread :: "sweep_record set"
  sy_held :: "(string \<times> int \<times> transaction) set"
  sy_ssent :: "(int \<times> transaction) set"
  sy_tsent :: "transaction set"

definition orders_view :: "wallet_sys \<Rightarrow> withdraw_sys" where
  "orders_view s = \<lparr>ws_world = sy_world s, ws_read = sy_wread s, ws_ready = sy_ready s, ws_sent = sy_wsent s\<rparr>"

definition deposits_view :: "wallet_sys \<Rightarrow> deposit_sys" where
  "deposits_view s = \<lparr>ds_world = sy_world s, ds_read = sy_dread s\<rparr>"

definition sweeps_view :: "wallet_sys \<Rightarrow> sweep_sys" where
  "sweeps_view s = \<lparr>ss_world = sy_world s, ss_read = sy_sread s, ss_held = sy_held s, ss_sent = sy_ssent s\<rparr>"

lemmas view_defs = orders_view_def deposits_view_def sweeps_view_def

definition sent_since :: "world \<Rightarrow> world \<Rightarrow> transaction set" where
  "sent_since w w' = set (drop (length (broadcasts w)) (broadcasts w'))"

inductive wallet_step :: "string \<Rightarrow> wallet_sys \<Rightarrow> wallet_sys \<Rightarrow> bool" for prefix where
  order: "createWithdraw env rq (sy_world s) = (w', ans) \<Longrightarrow> wallet_step prefix s (s\<lparr>sy_world := w'\<rparr>)"
| aside: "quiet prefix (sy_world s) w' \<Longrightarrow> wallet_step prefix s (s\<lparr>sy_world := w'\<rparr>)"
| topup: "paying prefix (sy_world s) w' \<Longrightarrow>
    wallet_step prefix s (s\<lparr>sy_world := w', sy_tsent := sy_tsent s \<union> sent_since (sy_world s) w'\<rparr>)"
| order_read: "row \<in> set (withdraws (sy_world s)) \<Longrightarrow> wallet_step prefix s (s\<lparr>sy_wread := insert row (sy_wread s)\<rparr>)"
| prepare_stop: "row \<in> sy_wread s \<Longrightarrow> w_status row = WithdrawCreated \<Longrightarrow> signing (we_sign wenv) \<Longrightarrow>
    prepare wenv row (sy_world s) = (w', Inl e) \<Longrightarrow> wallet_step prefix s (s\<lparr>sy_world := w'\<rparr>)"
| prepare_done: "row \<in> sy_wread s \<Longrightarrow> w_status row = WithdrawCreated \<Longrightarrow> signing (we_sign wenv) \<Longrightarrow>
    prepare wenv row (sy_world s) = (w', Inr p) \<Longrightarrow>
    wallet_step prefix s (s\<lparr>sy_world := w', sy_ready := insert p (sy_ready s)\<rparr>)"
| broadcast: "(row, tx) \<in> sy_ready s \<Longrightarrow> broadcast wenv row (w_txid row) tx (sy_world s) = (w', oe) \<Longrightarrow>
    wallet_step prefix s (s\<lparr>sy_world := w', sy_ready := sy_ready s - {(row, tx)},
      sy_wsent := insert (w_id row, tx) (sy_wsent s)\<rparr>)"
| order_reconcile: "row \<in> sy_wread s \<Longrightarrow> w_status row \<in> {WithdrawSigned, WithdrawBroadcast} \<Longrightarrow>
    signing (we_sign wenv) \<Longrightarrow> reconcileOne wenv row head (sy_world s) = (w', oe) \<Longrightarrow>
    wallet_step prefix s (s\<lparr>sy_world := w', sy_wsent := sy_wsent s \<union> Pair (w_id row) ` sent_since (sy_world s) w'\<rparr>)"
| crash: "R \<subseteq> sy_wread s \<Longrightarrow> P \<subseteq> sy_ready s \<Longrightarrow> wallet_step prefix s (s\<lparr>sy_wread := R, sy_ready := P\<rparr>)"
| deposit_read: "d \<in> set (deposits (sy_world s)) \<Longrightarrow> d_status d = DepositPending \<Longrightarrow>
    wallet_step prefix s (s\<lparr>sy_dread := insert d (sy_dread s)\<rparr>)"
| scan: "scanBlock denv sc b infos (sy_world s) = (w', oe) \<Longrightarrow> \<forall>info \<in> set infos. proper_txid (ti_id info) \<Longrightarrow>
    wallet_step prefix s (s\<lparr>sy_world := w'\<rparr>)"
| confirm: "d \<in> sy_dread s \<Longrightarrow> confirmOne denv head d (sy_world s) = (w', oe) \<Longrightarrow>
    wallet_step prefix s (s\<lparr>sy_world := w'\<rparr>)"
| reorg: "handleReorg denv num (sy_world s) = (w', r) \<Longrightarrow> wallet_step prefix s (s\<lparr>sy_world := w'\<rparr>)"
| sweep_read: "x \<in> set (sweeps (sy_world s)) \<Longrightarrow> s_txid x \<noteq> '''' \<Longrightarrow>
    wallet_step prefix s (s\<lparr>sy_sread := insert x (sy_sread s)\<rparr>)"
| begin_stop: "Lock prefix (sweep_lock tok (uw_address wallet)) lf (sy_world s) = Some w1 \<Longrightarrow>
    sweep_begin senv tok wallet amount w1 = (w2, Inl oe) \<Longrightarrow> signing (se_sign senv) \<Longrightarrow>
    wallet_step prefix s (s\<lparr>sy_world := Unlock prefix (sweep_lock tok (uw_address wallet)) w2\<rparr>)"
| begin_done: "Lock prefix (sweep_lock tok (uw_address wallet)) lf (sy_world s) = Some w1 \<Longrightarrow>
    sweep_begin senv tok wallet amount w1 = (w2, Inr (i, tx)) \<Longrightarrow> signing (se_sign senv) \<Longrightarrow>
    wallet_step prefix s (s\<lparr>sy_world := w2, sy_held := insert (sweep_lock tok (uw_address wallet), i, tx) (sy_held s)\<rparr>)"
| send: "(key, i, tx) \<in> sy_held s \<Longrightarrow> sweep_send senv i tx (sy_world s) = (w', oe) \<Longrightarrow>
    wallet_step prefix s (s\<lparr>sy_world := Unlock prefix key w', sy_held := sy_held s - {(key, i, tx)},
      sy_ssent := insert (i, tx) (sy_ssent s)\<rparr>)"
| sweep_reconcile: "x \<in> sy_sread s \<Longrightarrow> w' = reconcileOne_sweep senv x (sy_world s) \<Longrightarrow> signing (se_sign senv) \<Longrightarrow>
    wallet_step prefix s (s\<lparr>sy_world := w', sy_ssent := sy_ssent s \<union> Pair (s_id x) ` sent_since (sy_world s) w'\<rparr>)"
| swept_empty: "markSweptEmpty senv tok address (sy_world s) = (w', oe) \<Longrightarrow> wallet_step prefix s (s\<lparr>sy_world := w'\<rparr>)"
| deliver: "wallet_step prefix s (s\<lparr>sy_world := deliver oenv ev (sy_world s)\<rparr>)"

section \<open>Each component sees a run of its own\<close>

lemma orders_same: "withdraw_step s s"
  using withdraw_step.other [of "ws_world s" s] by simp

lemma deposits_same: "deposit_step s s"
  using deposit_step.other [of "ds_world s" s] by simp

text \<open>What the others do is a step that leaves the component's own tables alone.\<close>

lemma orders_other:
  assumes "withdraws w' = withdraws (sy_world s)" and "withdraw_events w' = withdraw_events (sy_world s)"
    and "sy_world s' = w'" and "sy_wread s' = sy_wread s" and "sy_ready s' = sy_ready s" and "sy_wsent s' = sy_wsent s"
  shows "withdraw_step (orders_view s) (orders_view s')"
  using withdraw_step.other [of w' "orders_view s"] assms by (simp add: orders_view_def)

lemma deposits_other:
  assumes "map unswept (deposits w') = map unswept (deposits (sy_world s))" and "credits w' = credits (sy_world s)"
    and "sy_world s' = w'" and "sy_dread s' = sy_dread s"
  shows "deposit_step (deposits_view s) (deposits_view s')"
  using deposit_step.other [of w' "deposits_view s"] assms by (simp add: deposits_view_def)

lemma held_keys:
  assumes "sweep_inv prefix (sweeps_view s)" and "keeps_locks prefix (sy_world s) w'"
  obtains ks where "redis_keys w' = Some ks" "\<forall>(key, i, tx) \<in> sy_held s. Key prefix [''lock'', key] \<in> set ks"
proof -
  have lo: "locks_ok prefix (redis_keys (sy_world s)) (sy_held s)" and fl: "flights_ok (sweeps (sy_world s)) (sy_held s)"
    using assms(1) by (simp_all add: sweep_inv_def sweeps_view_def)
  obtain l where l: "redis_keys (sy_world s) = Some l" "\<forall>k i tx. (k, i, tx) \<in> sy_held s \<longrightarrow> Key prefix [''lock'', k] \<in> set l"
    using lo unfolding locks_ok_def by blast
  then obtain ks where ks: "redis_keys w' = Some ks"
      "\<forall>k. Key prefix [''lock'', ''sweep:'' @ k] \<in> set l \<longrightarrow> Key prefix [''lock'', ''sweep:'' @ k] \<in> set ks"
    using assms(2) unfolding keeps_locks_def by blast
  have "Key prefix [''lock'', key] \<in> set ks" if h: "(key, i, tx) \<in> sy_held s" for key i tx
  proof -
    obtain x where "lock_of x = key" using flights_okD(3) [OF fl h] by blast
    then have "key = ''sweep:'' @ (s_contract x @ '':'' @ s_from_address x)" by (simp add: lock_of_def)
    then show ?thesis using l(2) ks(2) h by blast
  qed
  then show thesis using that [OF ks(1)] by blast
qed

lemma sweeps_other:
  assumes "sweep_inv prefix (sweeps_view s)" and "keeps_locks prefix (sy_world s) w'" and "sweeps w' = sweeps (sy_world s)"
    and "sy_world s' = w'" and "sy_sread s' = sy_sread s" and "sy_held s' = sy_held s" and "sy_ssent s' = sy_ssent s"
  shows "sweep_step prefix (sweeps_view s) (sweeps_view s')"
proof -
  obtain ks where ks: "redis_keys w' = Some ks" "\<forall>(key, i, tx) \<in> sy_held s. Key prefix [''lock'', key] \<in> set ks"
    using held_keys [OF assms(1,2)] .
  have "sweep_step prefix (sweeps_view s) (sweeps_view s\<lparr>ss_world := w'\<rparr>)"
    by (rule sweep_step.other [OF _ ks(1)]) (use assms(3) ks(2) in \<open>simp_all add: sweeps_view_def\<close>)
  then show ?thesis using assms(4-7) by (simp add: sweeps_view_def)
qed

lemma createWithdraw_step:
  assumes "createWithdraw env rq (sy_world s) = (w', ans)"
  shows "withdraw_step (orders_view s) (orders_view (s\<lparr>sy_world := w'\<rparr>))"
    and "w' = sy_world s \<or> (\<exists>t. w' = (sy_world s)\<lparr>withdraws := t\<rparr>)"
proof -
  have "withdraw_step (orders_view s) (orders_view (s\<lparr>sy_world := w'\<rparr>)) \<and>
    (w' = sy_world s \<or> (\<exists>t. w' = (sy_world s)\<lparr>withdraws := t\<rparr>))"
  proof (cases "w' = sy_world s \<and> fst ans \<in> {400, 500}")
    case True
    then show ?thesis using orders_same [of "orders_view s"] by simp
  next
    case False
    obtain ps r row0 t where ok: "withdraw_order env r = Inr row0" "insert_order row0 (withdraws (sy_world s)) = Some t"
        "w' = (sy_world s)\<lparr>withdraws := t\<rparr>"
      using createWithdraw_accepted [OF assms False] by metis
    obtain i where t: "t = withdraws (sy_world s) @ [row0\<lparr>w_id := i\<rparr>]" "i \<notin> w_id ` set (withdraws (sy_world s))"
        "w_order_no row0 \<notin> w_order_no ` set (withdraws (sy_world s))"
      using insert_order_fresh [OF ok(2)] .
    have "fresh_order (row0\<lparr>w_id := i\<rparr>) (ws_world (orders_view s))"
      using withdraw_order_payable [OF ok(1), of i] t(2,3) by (auto simp: fresh_order_def payable_def orders_view_def)
    from withdraw_step.create [OF this, of w'] show ?thesis
      using ok(3) t(1) by (auto simp: orders_view_def withdraw_events_def event_ids_def)
  qed
  then show "withdraw_step (orders_view s) (orders_view (s\<lparr>sy_world := w'\<rparr>))"
    and "w' = sy_world s \<or> (\<exists>t. w' = (sy_world s)\<lparr>withdraws := t\<rparr>)" by blast+
qed

text \<open>The frame facts in the shape the \<open>other\<close> steps ask for.\<close>

lemma orders_onlyD: "orders_only w w' \<Longrightarrow> map unswept (deposits w') = map unswept (deposits w) \<and> credits w' = credits w
    \<and> sweeps w' = sweeps w \<and> keeps_locks p w w'"
  by (simp add: orders_only_def keeps_locks_same)

lemma deposits_onlyD: "deposits_only w w' \<Longrightarrow> withdraws w' = withdraws w \<and> withdraw_events w' = withdraw_events w
    \<and> sweeps w' = sweeps w \<and> keeps_locks p w w' \<and> broadcasts w' = broadcasts w"
  by (simp add: deposits_only_def keeps_locks_same)

lemma sweeps_onlyD: "sweeps_only w w' \<Longrightarrow> withdraws w' = withdraws w \<and> withdraw_events w' = withdraw_events w
    \<and> map unswept (deposits w') = map unswept (deposits w) \<and> credits w' = credits w"
  using outbox_same [of w' w] by (simp add: sweeps_only_def)

lemma asideD: "Frames.aside p w w' \<Longrightarrow> withdraws w' = withdraws w \<and> withdraw_events w' = withdraw_events w
    \<and> map unswept (deposits w') = map unswept (deposits w) \<and> credits w' = credits w \<and> sweeps w' = sweeps w
    \<and> keeps_locks p w w'"
  using outbox_same [of w' w] by (simp add: aside_def)

text \<open>The simulation: a step of the wallet is a step of every component.\<close>

lemma read_txid:
  assumes "deposit_inv (deposits_view s)" and "d \<in> sy_dread s"
  shows "proper_txid (d_txid d)"
proof -
  have "\<forall>q \<in> sy_dread s. \<exists>r \<in> set (deposits (sy_world s)). origin r = origin q"
    "\<forall>r \<in> set (deposits (sy_world s)). proper_txid (d_txid r)"
    using assms(1) by (simp_all add: deposit_inv_def deposits_view_def table_ok_def)
  then obtain r where r: "proper_txid (d_txid r)" "origin r = origin d" using assms(2) by blast
  show ?thesis using r(1) unfolding origin_fields(7) [OF r(2)] .
qed

lemma wallet_orders:
  assumes "wallet_step p s s'" and "deposit_inv (deposits_view s)"
  shows "withdraw_step (orders_view s) (orders_view s')"
  using assms(1)
proof (cases rule: wallet_step.cases)
  case (order env rq w' ans)
  then show ?thesis using createWithdraw_step(1) by blast
next
  case (aside w')
  then show ?thesis by (intro orders_other [of w']) (auto simp: quiet_def dest!: asideD)
next
  case (topup w')
  then show ?thesis by (intro orders_other [of w']) (auto simp: paying_def dest!: asideD)
next
  case (order_read row)
  then show ?thesis using withdraw_step.read [of row "orders_view s"] by (simp add: orders_view_def)
next
  case (prepare_stop row wenv w' e)
  then show ?thesis using withdraw_step.prepare_stop [of row "orders_view s" wenv w' e] by (simp add: orders_view_def)
next
  case (prepare_done row wenv w' pr)
  then show ?thesis using withdraw_step.prepare_done [of row "orders_view s" wenv w' pr] by (simp add: orders_view_def)
next
  case (broadcast row tx wenv w' oe)
  then show ?thesis using withdraw_step.broadcast [of row tx "orders_view s" wenv w' oe] by (simp add: orders_view_def)
next
  case (order_reconcile row wenv head w' oe)
  then show ?thesis using withdraw_step.reconcile [of row "orders_view s" wenv head w' oe]
    by (simp add: orders_view_def sent_since_def)
next
  case (crash R P)
  then show ?thesis using withdraw_step.crash [of R "orders_view s" P] by (simp add: orders_view_def)
next
  case (scan denv sc b infos w' oe)
  then show ?thesis using deposits_onlyD [OF scanBlock_deposits [OF scan(2)]] by (intro orders_other [of w']) simp_all
next
  case (confirm d denv head w' oe)
  have "proper_txid (d_txid d)" by (rule read_txid [OF assms(2) confirm(2)])
  then show ?thesis using deposits_onlyD [OF confirmOne_deposits [OF confirm(3)]] confirm(1)
    by (intro orders_other [of w']) simp_all
next
  case (reorg denv num w' r)
  then show ?thesis using deposits_onlyD [OF handleReorg_deposits [OF reorg(2)]] by (intro orders_other [of w']) simp_all
next
  case (begin_stop tok wallet lf w1 senv amount w2 oe)
  have "withdraws w1 = withdraws (sy_world s)" "withdraw_events w1 = withdraw_events (sy_world s)"
    using Lock_frame [OF begin_stop(2)] by (simp_all add: withdraw_events_def)
  then show ?thesis using sweeps_onlyD [OF sweep_begin_sweeps [OF begin_stop(3)]] begin_stop(1)
    by (intro orders_other [OF _ _ refl]) (simp_all add: withdraw_events_def)
next
  case (begin_done tok wallet lf w1 senv amount w2 i tx)
  have "withdraws w1 = withdraws (sy_world s)" "withdraw_events w1 = withdraw_events (sy_world s)"
    using Lock_frame [OF begin_done(2)] by (simp_all add: withdraw_events_def)
  then show ?thesis using sweeps_onlyD [OF sweep_begin_sweeps [OF begin_done(3)]] begin_done(1)
    by (intro orders_other [OF _ _ refl]) (simp_all add: withdraw_events_def)
next
  case (send key i tx senv w' oe)
  then show ?thesis using sweeps_onlyD [OF sweep_send_sweeps [OF send(3)]]
    by (intro orders_other [OF _ _ refl]) (simp_all add: withdraw_events_def)
next
  case (sweep_reconcile x w' senv)
  then show ?thesis using sweeps_onlyD [OF reconcileOne_sweep_sweeps [of "sy_world s" senv x]]
    by (intro orders_other [OF _ _ refl]) simp_all
next
  case (swept_empty senv tok address w' oe)
  then show ?thesis using sweeps_onlyD markSweptEmpty_sweeps [OF swept_empty(2)]
    by (intro orders_other [OF _ _ refl]) simp_all
next
  case (deliver ev oenv)
  then show ?thesis by (intro orders_other [OF _ _ refl]) (simp_all add: deliver_frame)
qed (use orders_same [of "orders_view s"] in \<open>simp add: orders_view_def\<close>)+

lemma wallet_deposits:
  assumes "wallet_step p s s'"
  shows "deposit_step (deposits_view s) (deposits_view s')"
  using assms
proof (cases rule: wallet_step.cases)
  case (order env rq w' ans)
  then show ?thesis using createWithdraw_step(2) [OF order(2)] by (intro deposits_other [OF _ _ refl]) auto
next
  case (aside w')
  then show ?thesis by (intro deposits_other [of w']) (auto simp: quiet_def dest!: asideD)
next
  case (topup w')
  then show ?thesis by (intro deposits_other [of w']) (auto simp: paying_def dest!: asideD)
next
  case (prepare_stop row wenv w' e)
  then show ?thesis using orders_onlyD [OF prepare_orders [OF prepare_stop(5)]] by (intro deposits_other [OF _ _ refl]) simp_all
next
  case (prepare_done row wenv w' pr)
  then show ?thesis using orders_onlyD [OF prepare_orders [OF prepare_done(5)]] by (intro deposits_other [OF _ _ refl]) simp_all
next
  case (broadcast row tx wenv w' oe)
  then show ?thesis using orders_onlyD broadcast_orders [OF broadcast(3)] by (intro deposits_other [OF _ _ refl]) simp_all
next
  case (order_reconcile row wenv head w' oe)
  then show ?thesis using orders_onlyD reconcileOne_orders [OF order_reconcile(5)]
    by (intro deposits_other [OF _ _ refl]) simp_all
next
  case (deposit_read d)
  then show ?thesis using deposit_step.read [of d "deposits_view s"] by (simp add: deposits_view_def)
next
  case (scan denv sc b infos w' oe)
  then show ?thesis using deposit_step.scan [of denv sc b infos "deposits_view s" w' oe] by (simp add: deposits_view_def)
next
  case (confirm d denv head w' oe)
  then show ?thesis using deposit_step.confirm [of d "deposits_view s" denv head w' oe] by (simp add: deposits_view_def)
next
  case (reorg denv num w' r)
  then show ?thesis using deposit_step.reorg [of denv num "deposits_view s" w' r] by (simp add: deposits_view_def)
next
  case (begin_stop tok wallet lf w1 senv amount w2 oe)
  have "deposits w1 = deposits (sy_world s)" "credits w1 = credits (sy_world s)"
    using Lock_frame [OF begin_stop(2)] by (simp_all add: credits_def)
  then show ?thesis using sweeps_onlyD [OF sweep_begin_sweeps [OF begin_stop(3)]] begin_stop(1)
    by (intro deposits_other [OF _ _ refl]) (simp_all add: credits_def)
next
  case (begin_done tok wallet lf w1 senv amount w2 i tx)
  have "deposits w1 = deposits (sy_world s)" "credits w1 = credits (sy_world s)"
    using Lock_frame [OF begin_done(2)] by (simp_all add: credits_def)
  then show ?thesis using sweeps_onlyD [OF sweep_begin_sweeps [OF begin_done(3)]] begin_done(1)
    by (intro deposits_other [OF _ _ refl]) (simp_all add: credits_def)
next
  case (send key i tx senv w' oe)
  then show ?thesis using sweeps_onlyD [OF sweep_send_sweeps [OF send(3)]]
    by (intro deposits_other [OF _ _ refl]) (simp_all add: credits_def)
next
  case (sweep_reconcile x w' senv)
  then show ?thesis using sweeps_onlyD [OF reconcileOne_sweep_sweeps [of "sy_world s" senv x]]
    by (intro deposits_other [OF _ _ refl]) simp_all
next
  case (swept_empty senv tok address w' oe)
  then show ?thesis using sweeps_onlyD markSweptEmpty_sweeps [OF swept_empty(2)]
    by (intro deposits_other [OF _ _ refl]) simp_all
next
  case (deliver ev oenv)
  then show ?thesis by (intro deposits_other [OF _ _ refl]) (simp_all add: deliver_frame)
qed (use deposits_same [of "deposits_view s"] in \<open>simp add: deposits_view_def\<close>)+

lemma wallet_sweeps:
  assumes "wallet_step p s s'" and "deposit_inv (deposits_view s)" and inv: "sweep_inv p (sweeps_view s)"
  shows "sweep_step p (sweeps_view s) (sweeps_view s')"
  using assms(1)
proof (cases rule: wallet_step.cases)
  case (order env rq w' ans)
  then show ?thesis using createWithdraw_step(2) [OF order(2)]
    by (intro sweeps_other [OF inv _ _ refl]) (auto simp: keeps_locks_same)
next
  case (aside w')
  then show ?thesis by (intro sweeps_other [OF inv, of w']) (auto simp: quiet_def dest!: asideD)
next
  case (topup w')
  then show ?thesis by (intro sweeps_other [OF inv, of w']) (auto simp: paying_def dest!: asideD)
next
  case (prepare_stop row wenv w' e)
  then show ?thesis using orders_onlyD [OF prepare_orders [OF prepare_stop(5)]] by (intro sweeps_other [OF inv _ _ refl]) simp_all
next
  case (prepare_done row wenv w' pr)
  then show ?thesis using orders_onlyD [OF prepare_orders [OF prepare_done(5)]] by (intro sweeps_other [OF inv _ _ refl]) simp_all
next
  case (broadcast row tx wenv w' oe)
  then show ?thesis using orders_onlyD broadcast_orders [OF broadcast(3)] by (intro sweeps_other [OF inv _ _ refl]) simp_all
next
  case (order_reconcile row wenv head w' oe)
  then show ?thesis using orders_onlyD reconcileOne_orders [OF order_reconcile(5)]
    by (intro sweeps_other [OF inv _ _ refl]) simp_all
next
  case (scan denv sc b infos w' oe)
  then show ?thesis using deposits_onlyD [OF scanBlock_deposits [OF scan(2)]] by (intro sweeps_other [OF inv _ _ refl]) simp_all
next
  case (confirm d denv head w' oe)
  have "proper_txid (d_txid d)" by (rule read_txid [OF assms(2) confirm(2)])
  then show ?thesis using deposits_onlyD [OF confirmOne_deposits [OF confirm(3)]] confirm(1)
    by (intro sweeps_other [OF inv _ _ refl]) simp_all
next
  case (reorg denv num w' r)
  then show ?thesis using deposits_onlyD [OF handleReorg_deposits [OF reorg(2)]] by (intro sweeps_other [OF inv _ _ refl]) simp_all
next
  case (sweep_read x)
  then show ?thesis using sweep_step.read [of x "sweeps_view s" p] by (simp add: sweeps_view_def)
next
  case (begin_stop tok wallet lf w1 senv amount w2 oe)
  then show ?thesis using sweep_step.begin_stop [of p tok wallet lf "sweeps_view s" w1 senv amount w2 oe] by (simp add: sweeps_view_def)
next
  case (begin_done tok wallet lf w1 senv amount w2 i tx)
  then show ?thesis using sweep_step.begin_done [of p tok wallet lf "sweeps_view s" w1 senv amount w2 i tx] by (simp add: sweeps_view_def)
next
  case (send key i tx senv w' oe)
  then show ?thesis using sweep_step.send [of key i tx "sweeps_view s" senv w' oe p] by (simp add: sweeps_view_def)
next
  case (sweep_reconcile x w' senv)
  then show ?thesis using sweep_step.reconcile [of x "sweeps_view s" w' senv p] by (simp add: sweeps_view_def sent_since_def)
next
  case (swept_empty senv tok address w' oe)
  then show ?thesis using markSweptEmpty_sweeps [OF swept_empty(2)]
    by (intro sweeps_other [OF inv _ _ refl]) (simp_all add: keeps_locks_same)
next
  case (deliver ev oenv)
  then show ?thesis by (intro sweeps_other [OF inv _ _ refl]) (simp_all add: deliver_frame keeps_locks_same)
qed (use sweeps_other [OF inv keeps_locks_refl refl, of s'] in \<open>simp add: sweeps_view_def\<close>)+

section \<open>The invariant of the whole\<close>

definition wallet_start :: "wallet_sys \<Rightarrow> bool" where
  "wallet_start s \<longleftrightarrow> withdraw_start (orders_view s) \<and> deposit_start (deposits_view s) \<and> sweep_start (sweeps_view s)
     \<and> broadcasts (sy_world s) = [] \<and> sy_tsent s = {}"

text \<open>Everything that was ever handed to a node is accounted for.\<close>

definition accounted :: "wallet_sys \<Rightarrow> bool" where
  "accounted s \<longleftrightarrow> set (broadcasts (sy_world s)) = snd ` sy_wsent s \<union> snd ` sy_ssent s \<union> sy_tsent s"

definition wallet_inv :: "string \<Rightarrow> wallet_sys \<Rightarrow> bool" where
  "wallet_inv p s \<longleftrightarrow> withdraw_inv (orders_view s) \<and> deposit_inv (deposits_view s) \<and> sweep_inv p (sweeps_view s) \<and> accounted s"

lemma wallet_start_inv: "wallet_start s \<Longrightarrow> wallet_inv p s"
  using withdraw_start_inv deposit_start_inv sweep_start_inv
  by (auto simp: wallet_start_def wallet_inv_def accounted_def withdraw_start_def sweep_start_def view_defs)

lemma sent_since_append: "broadcasts w' = broadcasts w @ txs \<Longrightarrow> sent_since w w' = set txs"
  by (simp add: sent_since_def)

lemma set_sent_since: "broadcasts w' = broadcasts w @ txs \<Longrightarrow> set (broadcasts w') = set (broadcasts w) \<union> sent_since w w'"
  by (simp add: sent_since_def)

lemma snd_Pair: "snd ` Pair i ` S = S"
  by force

lemma wallet_accounted:
  assumes "wallet_step p s s'" and "deposit_inv (deposits_view s)" and "accounted s"
  shows "accounted s'"
  using assms(1)
proof (cases rule: wallet_step.cases)
  case (order env rq w' ans)
  from createWithdraw_step(2) [OF order(2)] show ?thesis
    using order(1) assms(3) by (elim disjE exE) (simp_all add: accounted_def)
next
  case (aside w')
  then show ?thesis using assms(3) by (simp add: accounted_def quiet_def)
next
  case (topup w')
  then obtain txs where "broadcasts w' = broadcasts (sy_world s) @ txs" by (auto simp: paying_def)
  from set_sent_since [OF this] show ?thesis using topup(1) assms(3) by (simp add: accounted_def Un_assoc)
next
  case (prepare_stop row wenv w' e)
  then show ?thesis using assms(3) prepare_broadcasts [OF prepare_stop(5)] by (simp add: accounted_def)
next
  case (prepare_done row wenv w' pr)
  then show ?thesis using assms(3) prepare_broadcasts [OF prepare_done(5)] by (simp add: accounted_def)
next
  case (broadcast row tx wenv w' oe)
  then show ?thesis using assms(3) broadcast_orders [OF broadcast(3)] by (simp add: accounted_def)
next
  case (order_reconcile row wenv head w' oe)
  then obtain txs where "broadcasts w' = broadcasts (sy_world s) @ txs" using reconcileOne_orders by blast
  from set_sent_since [OF this] show ?thesis using order_reconcile(1) assms(3)
    by (simp add: accounted_def image_Un snd_Pair Un_ac)
next
  case (scan denv sc b infos w' oe)
  then show ?thesis using deposits_onlyD [OF scanBlock_deposits [OF scan(2)]] assms(3) by (simp add: accounted_def)
next
  case (confirm d denv head w' oe)
  have "proper_txid (d_txid d)" by (rule read_txid [OF assms(2) confirm(2)])
  then show ?thesis using deposits_onlyD [OF confirmOne_deposits [OF confirm(3)]] confirm(1) assms(3)
    by (simp add: accounted_def)
next
  case (reorg denv num w' r)
  then show ?thesis using deposits_onlyD [OF handleReorg_deposits [OF reorg(2)]] assms(3) by (simp add: accounted_def)
next
  case (begin_stop tok wallet lf w1 senv amount w2 oe)
  then have "broadcasts w2 = broadcasts (sy_world s)"
    using Lock_frame(4) [OF begin_stop(2)] sweep_begin_broadcasts [OF begin_stop(3,4)] by simp
  then show ?thesis using begin_stop(1) assms(3) by (simp add: accounted_def)
next
  case (begin_done tok wallet lf w1 senv amount w2 i tx)
  then have "broadcasts w2 = broadcasts (sy_world s)"
    using Lock_frame(4) [OF begin_done(2)] sweep_begin_broadcasts [OF begin_done(3,4)] by simp
  then show ?thesis using begin_done(1) assms(3) by (simp add: accounted_def)
next
  case (send key i tx senv w' oe)
  then show ?thesis using sweep_send_touches [OF send(3)] assms(3) by (simp add: accounted_def)
next
  case (sweep_reconcile x w' senv)
  then obtain txs where "broadcasts w' = broadcasts (sy_world s) @ txs"
    using reconcile_resends [of senv x "sy_world s"] unfolding resends_def by (metis append_Nil2)
  from set_sent_since [OF this] show ?thesis using sweep_reconcile(1) assms(3)
    by (simp add: accounted_def image_Un snd_Pair Un_ac)
next
  case (swept_empty senv tok address w' oe)
  then show ?thesis using markSweptEmpty_sweeps [OF swept_empty(2)] assms(3) by (simp add: accounted_def)
next
  case (deliver ev oenv)
  then show ?thesis using assms(3) by (simp add: accounted_def deliver_frame)
qed (use assms(3) in \<open>simp add: accounted_def\<close>)+

lemma wallet_step_inv: "wallet_step p s s' \<Longrightarrow> wallet_inv p s \<Longrightarrow> wallet_inv p s'"
  using withdraw_step_inv [OF wallet_orders] deposit_step_inv [OF wallet_deposits] sweep_step_inv [OF wallet_sweeps]
    wallet_accounted unfolding wallet_inv_def by blast

lemma wallet_run:
  assumes "(wallet_step p)\<^sup>*\<^sup>* s s'" and "wallet_inv p s"
  shows "wallet_inv p s' \<and> withdraw_step\<^sup>*\<^sup>* (orders_view s) (orders_view s')
    \<and> deposit_step\<^sup>*\<^sup>* (deposits_view s) (deposits_view s') \<and> (sweep_step p)\<^sup>*\<^sup>* (sweeps_view s) (sweeps_view s')"
  using assms
proof (induction rule: rtranclp_induct)
  case (step y z)
  then have inv: "wallet_inv p y" and st: "wallet_step p y z" by simp_all
  then have "deposit_inv (deposits_view y)" "sweep_inv p (sweeps_view y)" by (simp_all add: wallet_inv_def)
  note sim = wallet_orders [OF st this(1)] wallet_deposits [OF st] wallet_sweeps [OF st this]
  then show ?case
    using step.IH step.prems wallet_step_inv [OF st inv]
    by (auto intro: rtranclp.rtrancl_into_rtrancl)
qed simp

text \<open>The outbox holds the two kinds of events and nothing else.\<close>

lemma events_split:
  "set (event_ids w) = set (withdraw_events w) \<union> set (map fst (credits w))"
  "distinct (withdraw_events w) \<Longrightarrow> distinct (map fst (credits w)) \<Longrightarrow> distinct (event_ids w)"
proof -
  have fst_credits: "map fst (credits w) = filter (\<lambda>e. take 9 e \<noteq> ''withdraw:'') (event_ids w)"
    by (simp add: credits_def event_ids_def comp_def filter_map)
  show "set (event_ids w) = set (withdraw_events w) \<union> set (map fst (credits w))"
    unfolding fst_credits withdraw_events_def by auto
  have "distinct xs" if "distinct (filter q xs)" "distinct (filter (\<lambda>x. \<not> q x) xs)" for q and xs :: "string list"
    using that by (induction xs) (auto split: if_splits)
  then show "distinct (withdraw_events w) \<Longrightarrow> distinct (map fst (credits w)) \<Longrightarrow> distinct (event_ids w)"
    unfolding fst_credits withdraw_events_def by blast
qed

section \<open>Any run of the wallet\<close>

text \<open>C5. The wallet refines its components: whatever the API, the workers, the scanners, the sweepers, the
  dispatchers, the energy manager and the top-ups do to the shared database, redis and nodes, in whatever order
  their steps interleave and wherever a worker stops, the orders see a run of the withdrawal system, the deposits a
  run of the scanner's, and the sweeps a run of the sweeper's, so no component breaks what another relies on.\<close>

theorem wallet_refines:
  assumes "wallet_start s" and "(wallet_step p)\<^sup>*\<^sup>* s s'"
  shows "withdraw_start (orders_view s) \<and> withdraw_step\<^sup>*\<^sup>* (orders_view s) (orders_view s')
    \<and> deposit_start (deposits_view s) \<and> deposit_step\<^sup>*\<^sup>* (deposits_view s) (deposits_view s')
    \<and> sweep_start (sweeps_view s) \<and> (sweep_step p)\<^sup>*\<^sup>* (sweeps_view s) (sweeps_view s')"
  using wallet_run [OF assms(2) wallet_start_inv [OF assms(1)]] assms(1) by (simp add: wallet_start_def)

lemma wallet_events:
  assumes "wallet_inv p s"
  shows "distinct (event_ids (sy_world s)) \<and> set (event_ids (sy_world s)) =
        withdraw_event_id ` {r. r \<in> set (withdraws (sy_world s)) \<and> settled r}
        \<union> depositEventID ` {r. r \<in> set (deposits (sy_world s)) \<and> credited r}"
proof -
  have inv: "withdraw_inv (orders_view s)" "deposit_inv (deposits_view s)" using assms by (simp_all add: wallet_inv_def)
  have ev: "distinct (withdraw_events (sy_world s))" "distinct (map fst (credits (sy_world s)))"
      "set (withdraw_events (sy_world s)) = withdraw_event_id ` {r \<in> set (withdraws (sy_world s)). settled r}"
      "fst ` set (credits (sy_world s)) = depositEventID ` {r \<in> set (deposits (sy_world s)). credited r}"
    using inv by (simp_all add: withdraw_inv_def deposit_inv_def view_defs image_image credit_of_def)
  show ?thesis using events_split(2) [OF ev(1,2)] unfolding events_split(1) ev(3) set_map ev(4) by blast
qed

text \<open>C4. The wallet's books balance at every moment of every run: everything that ever left for a node was sent
  for a withdrawal order, for a sweep or by a top-up; for one order it is always the same transaction, and so it is
  for one sweep; and the outbox holds exactly one event for every settled order and one for every confirmed
  deposit that is not internal, no two of them alike, and nothing else.\<close>

theorem wallet_accounts:
  assumes "wallet_start s" and "(wallet_step p)\<^sup>*\<^sup>* s s'"
  shows "set (broadcasts (sy_world s')) = snd ` sy_wsent s' \<union> snd ` sy_ssent s' \<union> sy_tsent s'
    \<and> (\<forall>i a b. (i, a) \<in> sy_wsent s' \<and> (i, b) \<in> sy_wsent s' \<longrightarrow> tx_id a = tx_id b \<and> tx_raw_data_hex a = tx_raw_data_hex b)
    \<and> (\<forall>i a b. (i, a) \<in> sy_ssent s' \<and> (i, b) \<in> sy_ssent s' \<longrightarrow> tx_id a = tx_id b)
    \<and> distinct (event_ids (sy_world s'))
    \<and> set (event_ids (sy_world s')) =
        withdraw_event_id ` {r. r \<in> set (withdraws (sy_world s')) \<and> settled r}
        \<union> depositEventID ` {r. r \<in> set (deposits (sy_world s')) \<and> credited r}"
proof -
  have inv: "withdraw_inv (orders_view s')" "sweep_inv p (sweeps_view s')" "accounted s'"
    using wallet_run [OF assms(2) wallet_start_inv [OF assms(1)]] by (simp_all add: wallet_inv_def)
  have own: "r = q" if "r \<in> set (withdraws (sy_world s'))" "q \<in> set (withdraws (sy_world s'))" "w_id r = w_id q" for r q
    using inv(1) that by (auto simp: withdraw_inv_def orders_view_def distinct_map inj_on_def)
  have one: "tx_id a = tx_id b \<and> tx_raw_data_hex a = tx_raw_data_hex b"
    if snt: "(i, a) \<in> sy_wsent s'" "(i, b) \<in> sy_wsent s'" for i a b
  proof -
    obtain x y where "x \<in> set (withdraws (sy_world s'))" "w_id x = i" "carries x a"
        "y \<in> set (withdraws (sy_world s'))" "w_id y = i" "carries y b"
      using inv_sent [OF inv(1), of i a] inv_sent [OF inv(1), of i b] snt by (auto simp: orders_view_def)
    then show ?thesis using own [of x y] by (simp add: carries_def)
  qed
  have ids: "ids_ok (sweeps (sy_world s')) (sy_sread s') (snd ` sy_held s' \<union> sy_ssent s')"
    using inv(2) by (simp add: sweep_inv_def sweeps_view_def)
  have sweep: "tx_id a = tx_id b" if "(i, a) \<in> sy_ssent s'" "(i, b) \<in> sy_ssent s'" for i a b
    using ids_okD(3) [OF ids] that by blast
  have "wallet_inv p s'" using wallet_run [OF assms(2) wallet_start_inv [OF assms(1)]] by blast
  note evs = wallet_events [OF this]
  have "\<forall>i a b. (i, a) \<in> sy_wsent s' \<and> (i, b) \<in> sy_wsent s' \<longrightarrow>
      tx_id a = tx_id b \<and> tx_raw_data_hex a = tx_raw_data_hex b" using one by blast
  moreover have "\<forall>i a b. (i, a) \<in> sy_ssent s' \<and> (i, b) \<in> sy_ssent s' \<longrightarrow> tx_id a = tx_id b" using sweep by blast
  ultimately show ?thesis using inv(3) [unfolded accounted_def] evs by simp
qed

section \<open>An instance\<close>

text \<open>A deposit is scanned and confirmed while a top-up goes out.\<close>

definition wallet_sample :: wallet_sys where
  "wallet_sample = \<lparr>sy_world = scan_world, sy_wread = {}, sy_ready = {}, sy_wsent = {}, sy_dread = {}, sy_sread = {},
     sy_held = {}, sy_ssent = {}, sy_tsent = {}\<rparr>"

definition sample_topup_tx :: transaction where
  "sample_topup_tx = \<lparr>tx_visible = False, tx_id = ''aa'', tx_raw_data = None, tx_raw_data_hex = ''00'', tx_signature = []\<rparr>"

lemma wallet_sample_start: "wallet_start wallet_sample"
  by (simp add: wallet_start_def wallet_sample_def view_defs withdraw_start_def deposit_start_def sweep_start_def
      scan_world_def empty_world_def credits_def withdraw_events_def event_ids_def)

lemma wallet_sample_run:
  "\<exists>s. (wallet_step '''')\<^sup>*\<^sup>* wallet_sample s \<and> credits (sy_world s) \<noteq> [] \<and> sy_tsent s = {sample_topup_tx}"
proof -
  obtain w1 r where w1: "scanBlock scan_sample_env sample_scanner (sample_block 6) [sample_info] scan_world = (w1, None)"
    "deposits w1 = [r]" "d_status r = DepositPending" "\<not> d_internal r" "d_txid r = ''ab''" "outbox w1 = []"
    using sample_scanned by blast
  let ?s1 = "wallet_sample\<lparr>sy_world := w1\<rparr>"
  have "proper_txid (ti_id sample_info)" by (simp add: proper_txid_def sample_info_def)
  then have a: "wallet_step '''' wallet_sample ?s1"
    using wallet_step.scan [of scan_sample_env sample_scanner "sample_block 6" "[sample_info]" wallet_sample w1] w1(1)
    by (simp add: wallet_sample_def)
  let ?w2 = "w1\<lparr>broadcasts := broadcasts w1 @ [sample_topup_tx]\<rparr>"
  let ?s2 = "?s1\<lparr>sy_world := ?w2, sy_tsent := {sample_topup_tx}\<rparr>"
  have "paying '''' w1 ?w2" by (simp add: paying_def Frames.aside_def keeps_locks_same)
  then have b: "wallet_step '''' ?s1 ?s2"
    using wallet_step.topup [of "''''" ?s1 ?w2] by (simp add: wallet_sample_def sent_since_def)
  let ?s3 = "?s2\<lparr>sy_dread := {r}\<rparr>"
  have c: "wallet_step '''' ?s2 ?s3"
    using wallet_step.deposit_read [of r ?s2] w1(2,3) by (simp add: wallet_sample_def)
  obtain w3 e where cf: "confirmOne scan_sample_env 30 r ?w2 = (w3, e)" by fastforce
  have d: "wallet_step '''' ?s3 (?s3\<lparr>sy_world := w3\<rparr>)"
    by (rule wallet_step.confirm [where d = r and denv = scan_sample_env and head = 30 and oe = e]) (simp_all add: cf)
  have tx: "GetTxInfoByID (sn_node2 scan_sample_env) ''ab'' = Inr (Some sample_info)"
    by (simp add: GetTxInfoByID_def txInfoByID_def scan_sample_env_def scan_node_def sample_info_def)
  have nofail: "sn_fail scan_sample_env = (\<lambda>_. False)" by (simp add: scan_sample_env_def)
  have "take 9 (depositEventID (r\<lparr>d_block_number := n\<rparr>)) \<noteq> ''withdraw:''" for n
    using depositEventID_credit [of "r\<lparr>d_block_number := n\<rparr>"] w1(5) by (simp add: proper_txid_def)
  then have "credits w3 \<noteq> []"
    using cf w1(2-6) by (auto simp: confirmOne_def tx nofail sample_succeeded affected_def is_pending_def Let_def
        credits_Enqueue event_ids_def)
  moreover have "(wallet_step '''')\<^sup>*\<^sup>* wallet_sample (?s3\<lparr>sy_world := w3\<rparr>)"
    using a b c d by (meson rtranclp.rtrancl_into_rtrancl r_into_rtranclp)
  moreover have "sy_tsent (?s3\<lparr>sy_world := w3\<rparr>) = {sample_topup_tx}" by simp
  ultimately show ?thesis by (metis wallet_sys.select_convs(1) wallet_sys.surjective wallet_sys.update_convs(1))
qed

theorem wallet_refines_witness:
  "\<exists>s. credits (ds_world (deposits_view s)) \<noteq> [] \<and> deposit_step\<^sup>*\<^sup>* (deposits_view wallet_sample) (deposits_view s)
     \<and> withdraw_step\<^sup>*\<^sup>* (orders_view wallet_sample) (orders_view s)"
proof -
  obtain s where s: "(wallet_step '''')\<^sup>*\<^sup>* wallet_sample s" "credits (sy_world s) \<noteq> []" using wallet_sample_run by blast
  from wallet_refines [OF wallet_sample_start s(1)] s(2) show ?thesis
    by (intro exI [of _ s]) (simp add: deposits_view_def)
qed

theorem wallet_accounts_witness:
  "\<exists>s. (wallet_step '''')\<^sup>*\<^sup>* wallet_sample s \<and> sample_topup_tx \<in> set (broadcasts (sy_world s))
     \<and> event_ids (sy_world s) \<noteq> [] \<and> distinct (event_ids (sy_world s))"
proof -
  obtain s where s: "(wallet_step '''')\<^sup>*\<^sup>* wallet_sample s" "credits (sy_world s) \<noteq> []" "sy_tsent s = {sample_topup_tx}"
    using wallet_sample_run by blast
  have "event_ids (sy_world s) \<noteq> []" using s(2) by (auto simp: credits_def event_ids_def)
  with wallet_accounts [OF wallet_sample_start s(1)] s show ?thesis by (intro exI [of _ s]) simp
qed

end
