(* ===== verification/Processes.thy ===== *)
theory Processes
  imports System Bloom
begin

text \<open>
  The processes: the loops of \<open>internal\<close> (\<open>Worker.Run\<close>, \<open>Scanner.Run\<close>, \<open>sweep.Service.Run\<close>,
  \<open>Dispatcher.Run\<close>, \<open>Manager.RunReconcile\<close>, \<open>Pool.Run\<close>, \<open>Topup.Run\<close>, \<open>Pricer.Run\<close>, \<open>Registry.RunSync\<close>) and which
  of them each \<open>cmd/*/main.go\<close> starts. A loop runs until its context is done: it is a function of the list of
  rounds it gets to do, each with what the world answered in that round. One round is a run of the system
  of theory \<open>System\<close>, so a loop is one, and so is any interleaving of the rounds of any number of processes.
\<close>

section \<open>Loops\<close>

record worker_round =
  wk_created :: "withdraw_record \<Rightarrow> withdraw_env"
  wk_created_fail :: bool
  wk_settle :: "withdraw_record \<Rightarrow> withdraw_env"
  wk_node :: node_api
  wk_settle_fail :: bool

definition worker_round :: "worker_round \<Rightarrow> world \<Rightarrow> world" where
  "worker_round r w =
     fst (Reconcile (wk_node r) (wk_settle r) (wk_settle_fail r)
            (fst (processCreated (wk_created r) (wk_created_fail r) w)))"

definition Run_worker :: "bool \<Rightarrow> worker_round list \<Rightarrow> world \<Rightarrow> world" where
  "Run_worker enabled rounds w = (if \<not> enabled then w else foldl (\<lambda>w r. worker_round r w) w rounds)"

text \<open>The scanner goes on at once while it is behind; the result lists, round by round, whether it waited for
  its ticker.\<close>

fun Run_scanner :: "scan_env list \<Rightarrow> scanner \<Rightarrow> world \<Rightarrow> scanner \<times> world \<times> bool list" where
  "Run_scanner [] sc w = (sc, w, [])"
| "Run_scanner (env # envs) sc w =
     (case tick env sc w of
        (sc1, w1, Inl e) \<Rightarrow>
          if err_is e = ErrCanceled then (sc1, w1, [])
          else (case Run_scanner envs sc1 w1 of (sc2, w2, waits) \<Rightarrow> (sc2, w2, True # waits))
      | (sc1, w1, Inr behind) \<Rightarrow>
          (case Run_scanner envs sc1 w1 of (sc2, w2, waits) \<Rightarrow> (sc2, w2, (\<not> behind) # waits)))"

record sweep_round =
  sr_visits :: "token_config \<Rightarrow> user_wallet \<Rightarrow> sweep_env"
  sr_finds :: "token_config \<Rightarrow> sweep_env"
  sr_tokens :: "token_config list"

definition sweep_round :: "sweep_round \<Rightarrow> world \<Rightarrow> world" where
  "sweep_round r w = fst (round_sweeps (sr_visits r) (sr_finds r) (sr_tokens r) w)"

definition Run_sweeper :: "bool \<Rightarrow> sweep_round list \<Rightarrow> world \<Rightarrow> world" where
  "Run_sweeper enabled rounds w = (if \<not> enabled then w else foldl (\<lambda>w r. sweep_round r w) w rounds)"

text \<open>The dispatcher goes on at once while it finds events.\<close>

record drain_round =
  dr_envs :: "notify_outbox \<Rightarrow> outbox_env"
  dr_env :: outbox_env
  dr_fail :: bool

definition drain_round :: "drain_round \<Rightarrow> world \<Rightarrow> world \<times> int result" where
  "drain_round r w = drainOnce (dr_envs r) (dr_env r) (dr_fail r) w"

fun Run_dispatcher :: "drain_round list \<Rightarrow> world \<Rightarrow> world \<times> bool list" where
  "Run_dispatcher [] w = (w, [])"
| "Run_dispatcher (r # rs) w =
     (case drain_round r w of
        (w1, n) \<Rightarrow>
          case Run_dispatcher rs w1 of
            (w2, waits) \<Rightarrow> (w2, (case n of Inl _ \<Rightarrow> True | Inr k \<Rightarrow> \<not> 0 < k) # waits))"

definition RunReconcile :: "energy_env list \<Rightarrow> world \<Rightarrow> world" where
  "RunReconcile envs w = foldl (\<lambda>w env. fst (ReconcilePending env w)) w envs"

text \<open>The pool is state of the process, so each round tops up the pool as it then is.\<close>

definition pool_round :: "energy_env \<Rightarrow> world \<Rightarrow> world" where
  "pool_round env w = (case pool w of None \<Rightarrow> w | Some p \<Rightarrow> fst (topUp env p w))"

definition Run_pool :: "bool \<Rightarrow> energy_env list \<Rightarrow> world \<Rightarrow> world" where
  "Run_pool enabled envs w = (if \<not> enabled then w else foldl (\<lambda>w env. pool_round env w) w envs)"

definition Run_topup :: "topup_env list \<Rightarrow> world \<Rightarrow> world" where
  "Run_topup envs w = foldl (\<lambda>w env. check_topups env w) w envs"

text \<open>The first refresh happens before the ticker starts.\<close>

fun Run_pricer :: "price_env list \<Rightarrow> pricer \<Rightarrow> world \<Rightarrow> pricer \<times> world" where
  "Run_pricer [] p w = (p, w)"
| "Run_pricer (env # envs) p w = (case Refresh_price env p w of (w1, p1, _) \<Rightarrow> Run_pricer envs p1 w1)"

text \<open>A filter that is not there is left alone; \<open>None\<close> is a panic in the filter's arithmetic.\<close>

fun RunSync :: "sync_env list \<Rightarrow> registry option \<Rightarrow> registry option option" where
  "RunSync [] ro = Some ro"
| "RunSync (env # envs) ro =
     (if ro = None then Some None
      else case Sync env ro of None \<Rightarrow> None | Some (ro1, _) \<Rightarrow> RunSync envs ro1)"

text \<open>The reconciliation loop of \<open>cmd/sweep\<close>.\<close>

record settle_round =
  st_envs :: "sweep_record \<Rightarrow> sweep_env"
  st_fail :: bool
  st_topup :: topup_env

definition settle_round :: "bool \<Rightarrow> settle_round \<Rightarrow> world \<Rightarrow> world" where
  "settle_round rentalOn r w =
     (let w1 = fst (Reconcile_sweeps (st_envs r) (st_fail r) w)
      in if rentalOn then fst (Reconcile_topups (st_topup r) w1) else w1)"

section \<open>Processes\<close>

text \<open>One round of a loop, with everything that was answered in it, and which loops a process starts.\<close>

datatype round =
    WorkerRound worker_round
  | ScannerRound scan_env scanner
  | SweepRound sweep_round
  | SettleRound bool settle_round
  | DispatchRound drain_round
  | EnergyRound energy_env
  | PoolRound energy_env
  | TopupRound topup_env
  | PricerRound price_env pricer
  | OrderRequest api_env api_request
  | AddressRequest api_env api_request
  | MerchantRequest api_env api_request

fun do_round :: "round \<Rightarrow> world \<Rightarrow> world" where
  "do_round (WorkerRound r) w = worker_round r w"
| "do_round (ScannerRound env sc) w = fst (snd (tick env sc w))"
| "do_round (SweepRound r) w = sweep_round r w"
| "do_round (SettleRound rentalOn r) w = settle_round rentalOn r w"
| "do_round (DispatchRound r) w = fst (drain_round r w)"
| "do_round (EnergyRound env) w = fst (ReconcilePending env w)"
| "do_round (PoolRound env) w = pool_round env w"
| "do_round (TopupRound env) w = check_topups env w"
| "do_round (PricerRound env p) w = fst (Refresh_price env p w)"
| "do_round (OrderRequest env rq) w = fst (createWithdraw env rq w)"
| "do_round (AddressRequest env rq) w = fst (createAddress env rq w)"
| "do_round (MerchantRequest env rq) w = fst (upsertMerchant env rq w)"

datatype loop =
    WorkerLoop | ScannerLoop | FilterServer | SweepLoop | SettleLoop bool | PricerLoop | EnergyLoop | PoolLoop | TopupLoop
  | DispatchLoop | ApiServer

definition sweep_main :: "config \<Rightarrow> loop list" where
  "sweep_main c =
     PricerLoop # (if SweepRentalOn c then [EnergyLoop, TopupLoop] else []) @ [SettleLoop (SweepRentalOn c), SweepLoop]"

definition withdraw_main :: "config \<Rightarrow> loop list" where
  "withdraw_main c = (if WithdrawRentalOn c then [EnergyLoop, PoolLoop] else []) @ [WorkerLoop]"

definition scanner_main :: "loop list" where
  "scanner_main = [FilterServer, ScannerLoop]"

definition api_main :: "loop list" where
  "api_main = [DispatchLoop, ApiServer]"

text \<open>The loop a round belongs to.\<close>

fun loop_of :: "round \<Rightarrow> loop" where
  "loop_of (WorkerRound r) = WorkerLoop"
| "loop_of (ScannerRound env sc) = ScannerLoop"
| "loop_of (SweepRound r) = SweepLoop"
| "loop_of (SettleRound rentalOn r) = SettleLoop rentalOn"
| "loop_of (DispatchRound r) = DispatchLoop"
| "loop_of (EnergyRound env) = EnergyLoop"
| "loop_of (PoolRound env) = PoolLoop"
| "loop_of (TopupRound env) = TopupLoop"
| "loop_of (PricerRound env p) = PricerLoop"
| "loop_of (OrderRequest env rq) = ApiServer"
| "loop_of (AddressRequest env rq) = ApiServer"
| "loop_of (MerchantRequest env rq) = ApiServer"

section \<open>A round is a run\<close>

text \<open>What a process needs of the world: one redis prefix, a signer that signs what it is given, and nodes that
  name transactions by their hash.\<close>

fun round_ok :: "string \<Rightarrow> round \<Rightarrow> bool" where
  "round_ok p (WorkerRound r) =
     (\<forall>row. signing (we_sign (wk_created r row)) \<and> cf_redis_prefix (we_cfg (wk_created r row)) = p
        \<and> signing (we_sign (wk_settle r row)))"
| "round_ok p (ScannerRound env sc) = proper_node (sn_node env)"
| "round_ok p (SweepRound r) =
     (\<forall>tok a. signing (se_sign (sr_visits r tok a)) \<and> cf_redis_prefix (se_cfg (sr_visits r tok a)) = p)"
| "round_ok p (SettleRound rentalOn r) = (\<forall>row. signing (se_sign (st_envs r row)))"
| "round_ok p (TopupRound env) = (te_prefix env = p)"
| "round_ok p _ = True"

text \<open>What a process has read it still has after the others have moved.\<close>

definition gains :: "wallet_sys \<Rightarrow> wallet_sys \<Rightarrow> bool" where
  "gains s t \<longleftrightarrow> sy_wread s \<subseteq> sy_wread t \<and> sy_dread s \<subseteq> sy_dread t \<and> sy_sread s \<subseteq> sy_sread t"

definition reaches :: "string \<Rightarrow> wallet_sys \<Rightarrow> world \<Rightarrow> bool" where
  "reaches p s w \<longleftrightarrow> (\<exists>t. (wallet_step p)\<^sup>*\<^sup>* s t \<and> gains s t \<and> sy_world t = w)"

lemma gains_refl [simp]: "gains s s"
  by (simp add: gains_def)

lemma gains_trans: "gains s t \<Longrightarrow> gains t u \<Longrightarrow> gains s u"
  by (auto simp: gains_def)

lemma reaches_refl: "w = sy_world s \<Longrightarrow> reaches p s w"
  unfolding reaches_def by (intro exI [of _ s]) simp

lemma reaches_via:
  assumes "(wallet_step p)\<^sup>*\<^sup>* s t" and "gains s t" and "reaches p t w"
  shows "reaches p s w"
proof -
  obtain u where u: "(wallet_step p)\<^sup>*\<^sup>* t u" "gains t u" "sy_world u = w" using assms(3) by (auto simp: reaches_def)
  show ?thesis unfolding reaches_def
    using rtranclp_trans [OF assms(1) u(1)] gains_trans [OF assms(2) u(2)] u(3) by blast
qed

lemma reaches_step: "wallet_step p s t \<Longrightarrow> gains s t \<Longrightarrow> reaches p t w \<Longrightarrow> reaches p s w"
  by (rule reaches_via [OF r_into_rtranclp])

lemma reaches_then:
  assumes "reaches p s w" and "\<And>t. gains s t \<Longrightarrow> sy_world t = w \<Longrightarrow> reaches p t w'"
  shows "reaches p s w'"
proof -
  obtain t where t: "(wallet_step p)\<^sup>*\<^sup>* s t" "gains s t" "sy_world t = w" using assms(1) by (auto simp: reaches_def)
  show ?thesis by (rule reaches_via [OF t(1,2) assms(2) [OF t(2,3)]])
qed

lemma reaches_foldl:
  assumes "\<And>x t. x \<in> set xs \<Longrightarrow> gains s t \<Longrightarrow> reaches p t (f (sy_world t) x)"
  shows "reaches p s (foldl f (sy_world s) xs)"
  using assms
proof (induction xs arbitrary: s)
  case (Cons x xs)
  have one: "reaches p s (f (sy_world s) x)" by (rule Cons.prems) simp_all
  have rest: "reaches p t (foldl f (sy_world t) xs)" if g: "gains s t" for t
    by (rule Cons.IH) (rule Cons.prems, simp, rule gains_trans [OF g])
  have "reaches p t (foldl f (f (sy_world s) x) xs)" if "gains s t" "sy_world t = f (sy_world s) x" for t
    using rest [OF that(1)] unfolding that(2) .
  from reaches_then [OF one this] show ?case by simp
qed (simp add: reaches_refl)

lemma reaches_quiet: "quiet p (sy_world s) w \<Longrightarrow> reaches p s w"
  by (rule reaches_step [OF wallet_step.aside]) (auto simp: gains_def intro: reaches_refl)

text \<open>Reading a batch of rows.\<close>

lemma read_orders:
  assumes "set rs \<subseteq> set (withdraws (sy_world s))"
  shows "\<exists>t. (wallet_step p)\<^sup>*\<^sup>* s t \<and> gains s t \<and> sy_world t = sy_world s \<and> set rs \<subseteq> sy_wread t"
  using assms
proof (induction rs)
  case (Cons r rs)
  then obtain t where t: "(wallet_step p)\<^sup>*\<^sup>* s t" "gains s t" "sy_world t = sy_world s" "set rs \<subseteq> sy_wread t" by auto
  have "wallet_step p t (t\<lparr>sy_wread := insert r (sy_wread t)\<rparr>)"
    using Cons.prems t(3) by (intro wallet_step.order_read) simp
  with t show ?case
    by (intro exI [of _ "t\<lparr>sy_wread := insert r (sy_wread t)\<rparr>"]) (auto simp: gains_def intro: rtranclp.rtrancl_into_rtrancl)
qed (auto intro: exI [of _ s])

lemma read_deposits:
  assumes "\<And>d. d \<in> set rs \<Longrightarrow> d \<in> set (deposits (sy_world s)) \<and> d_status d = DepositPending"
  shows "\<exists>t. (wallet_step p)\<^sup>*\<^sup>* s t \<and> gains s t \<and> sy_world t = sy_world s \<and> set rs \<subseteq> sy_dread t"
  using assms
proof (induction rs)
  case (Cons r rs)
  then obtain t where t: "(wallet_step p)\<^sup>*\<^sup>* s t" "gains s t" "sy_world t = sy_world s" "set rs \<subseteq> sy_dread t" by auto
  have "wallet_step p t (t\<lparr>sy_dread := insert r (sy_dread t)\<rparr>)"
    using Cons.prems [of r] t(3) by (intro wallet_step.deposit_read) simp_all
  with t show ?case
    by (intro exI [of _ "t\<lparr>sy_dread := insert r (sy_dread t)\<rparr>"]) (auto simp: gains_def intro: rtranclp.rtrancl_into_rtrancl)
qed (auto intro: exI [of _ s])

lemma read_sweeps:
  assumes "\<And>x. x \<in> set rs \<Longrightarrow> x \<in> set (sweeps (sy_world s)) \<and> s_txid x \<noteq> ''''"
  shows "\<exists>t. (wallet_step p)\<^sup>*\<^sup>* s t \<and> gains s t \<and> sy_world t = sy_world s \<and> set rs \<subseteq> sy_sread t"
  using assms
proof (induction rs)
  case (Cons r rs)
  then obtain t where t: "(wallet_step p)\<^sup>*\<^sup>* s t" "gains s t" "sy_world t = sy_world s" "set rs \<subseteq> sy_sread t" by auto
  have "wallet_step p t (t\<lparr>sy_sread := insert r (sy_sread t)\<rparr>)"
    using Cons.prems [of r] t(3) by (intro wallet_step.sweep_read) simp_all
  with t show ?case
    by (intro exI [of _ "t\<lparr>sy_sread := insert r (sy_sread t)\<rparr>"]) (auto simp: gains_def intro: rtranclp.rtrancl_into_rtrancl)
qed (auto intro: exI [of _ s])

subsection \<open>The worker\<close>

lemma execute_locked_reaches:
  assumes "row \<in> sy_wread s" and "w_status row = WithdrawCreated" and "signing (we_sign env)"
    and "execute_locked env row (sy_world s) = (w', e)"
  shows "reaches p s w'"
proof -
  obtain w1 out where pr: "prepare env row (sy_world s) = (w1, out)" by fastforce
  show ?thesis
  proof (cases out)
    case (Inl e1)
    then have "w1 = w'" using assms(4) pr by (simp add: execute_locked_def)
    then show ?thesis
      using reaches_step [OF wallet_step.prepare_stop [OF assms(1-3) pr [unfolded Inl]]] by (simp add: gains_def reaches_refl)
  next
    case (Inr x)
    obtain row' tx where x: "x = (row', tx)" by fastforce
    have b: "broadcast env row' (w_txid row') tx w1 = (w', e)" using assms(4) pr Inr x by (simp add: execute_locked_def)
    let ?s1 = "s\<lparr>sy_world := w1, sy_ready := insert (row', tx) (sy_ready s)\<rparr>"
    let ?s2 = "?s1\<lparr>sy_world := w', sy_ready := sy_ready ?s1 - {(row', tx)}, sy_wsent := insert (w_id row', tx) (sy_wsent ?s1)\<rparr>"
    have 1: "wallet_step p s ?s1" using wallet_step.prepare_done [OF assms(1-3) pr [unfolded Inr x]] .
    have 2: "wallet_step p ?s1 ?s2" by (rule wallet_step.broadcast [where wenv = env and oe = e]) (simp_all add: b)
    have "reaches p ?s1 w'" by (rule reaches_step [OF 2]) (simp_all add: gains_def reaches_refl)
    then show ?thesis by (intro reaches_step [OF 1]) (simp_all add: gains_def)
  qed
qed

lemma execute_reaches:
  assumes "row \<in> sy_wread s" and "w_status row = WithdrawCreated" and "signing (we_sign env)"
    and "cf_redis_prefix (we_cfg env) = p"
  shows "reaches p s (fst (execute env row (sy_world s)))"
proof (cases "Lock p (''withdraw:'' @ w_order_no row) (we_lock_fail env) (sy_world s)")
  case None
  then show ?thesis using assms(4) by (simp add: execute_def reaches_refl)
next
  case (Some w1)
  obtain w2 e where ex: "execute_locked env row w1 = (w2, e)" by fastforce
  have "reaches p s w1" by (rule reaches_quiet [OF Lock_quiet [OF Some]])
  then have "reaches p s w2"
  proof (rule reaches_then)
    fix t assume t: "gains s t" "sy_world t = w1"
    have "row \<in> sy_wread t" using assms(1) t(1) by (auto simp: gains_def)
    then show "reaches p t w2" using execute_locked_reaches [OF _ assms(2,3)] ex t(2) by blast
  qed
  then have "reaches p s (Unlock p (''withdraw:'' @ w_order_no row) w2)"
  proof (rule reaches_then)
    fix t :: wallet_sys assume t: "sy_world t = w2"
    have "quiet p (sy_world t) (Unlock p (''withdraw:'' @ w_order_no row) w2)" unfolding t by (rule Unlock_quiet) simp
    then show "reaches p t (Unlock p (''withdraw:'' @ w_order_no row) w2)" by (rule reaches_quiet)
  qed
  then show ?thesis using Some ex assms(4) by (simp add: execute_def)
qed

lemma processCreated_reaches:
  assumes "\<And>row. signing (we_sign (envs row)) \<and> cf_redis_prefix (we_cfg (envs row)) = p"
  shows "reaches p s (fst (processCreated envs fail (sy_world s)))"
proof (cases fail)
  case False
  let ?rs = "select_limit (\<lambda>r. w_status r = WithdrawCreated) 20 (withdraws (sy_world s))"
  have rs: "r \<in> set (withdraws (sy_world s)) \<and> w_status r = WithdrawCreated" if "r \<in> set ?rs" for r
    using subsetD [OF select_limit_subset that] by simp
  then obtain t where t: "(wallet_step p)\<^sup>*\<^sup>* s t" "gains s t" "sy_world t = sy_world s" "set ?rs \<subseteq> sy_wread t"
    using read_orders [of ?rs s p] by blast
  have "reaches p t (foldl (\<lambda>w row. fst (execute (envs row) row w)) (sy_world t) ?rs)"
  proof (rule reaches_foldl)
    fix row u assume h: "row \<in> set ?rs" "gains t u"
    have "row \<in> sy_wread u" using h t(4) by (auto simp: gains_def)
    then show "reaches p u (fst (execute (envs row) row (sy_world u)))"
      using rs [OF h(1)] assms [of row] by (intro execute_reaches) simp_all
  qed
  then show ?thesis using reaches_via [OF t(1,2)] False t(3) by (simp add: processCreated_def)
qed (simp add: processCreated_def reaches_refl)

lemma Reconcile_reaches:
  assumes "\<And>row. signing (we_sign (envs row))"
  shows "reaches p s (fst (Reconcile g envs fail (sy_world s)))"
proof -
  let ?rs = "select_limit (\<lambda>r. w_status r \<in> {WithdrawSigned, WithdrawBroadcast}) 100 (withdraws (sy_world s))"
  have rs: "r \<in> set (withdraws (sy_world s)) \<and> w_status r \<in> {WithdrawSigned, WithdrawBroadcast}" if "r \<in> set ?rs" for r
    using subsetD [OF select_limit_subset that] by simp
  then obtain t where t: "(wallet_step p)\<^sup>*\<^sup>* s t" "gains s t" "sy_world t = sy_world s" "set ?rs \<subseteq> sy_wread t"
    using read_orders [of ?rs s p] by blast
  have run: "reaches p s (foldl (\<lambda>w row. fst (reconcileOne (envs row) row head w)) (sy_world s) ?rs)" for head
  proof -
    have "reaches p t (foldl (\<lambda>w row. fst (reconcileOne (envs row) row head w)) (sy_world t) ?rs)"
    proof (rule reaches_foldl)
      fix row u assume h: "row \<in> set ?rs" "gains t u"
      obtain w' e where rc: "reconcileOne (envs row) row head (sy_world u) = (w', e)" by fastforce
      have "row \<in> sy_wread u" using h t(4) by (auto simp: gains_def)
      then have "wallet_step p u (u\<lparr>sy_world := w', sy_wsent := sy_wsent u \<union> Pair (w_id row) ` sent_since (sy_world u) w'\<rparr>)"
        using rs [OF h(1)] assms by (intro wallet_step.order_reconcile [OF _ _ _ rc]) simp_all
      from reaches_step [OF this] show "reaches p u (fst (reconcileOne (envs row) row head (sy_world u)))"
        by (simp add: rc gains_def reaches_refl)
    qed
    then show ?thesis using reaches_via [OF t(1,2)] t(3) by simp
  qed
  have same: "reaches p s (sy_world s)" by (simp add: reaches_refl)
  show ?thesis
  proof (cases "fail \<or> (\<not> na_solidity_confirm g \<and> (\<exists>e. GetNowBlock g = Inl e))")
    case True
    then have "fst (Reconcile g envs fail (sy_world s)) = sy_world s" by (auto simp: Reconcile_def Let_def)
    then show ?thesis by (simp only: same)
  next
    case False
    then have "\<exists>head. fst (Reconcile g envs fail (sy_world s)) =
        foldl (\<lambda>w row. fst (reconcileOne (envs row) row head w)) (sy_world s) ?rs"
      unfolding Reconcile_def Let_def
      by (cases "GetNowBlock g"; cases "na_solidity_confirm g") (simp_all, blast+)
    then show ?thesis using run by auto
  qed
qed

lemma worker_round_reaches:
  assumes "round_ok p (WorkerRound r)"
  shows "reaches p s (worker_round r (sy_world s))"
  unfolding worker_round_def
proof (rule reaches_then)
  show "reaches p s (fst (processCreated (wk_created r) (wk_created_fail r) (sy_world s)))"
    using assms by (intro processCreated_reaches) simp
  show "reaches p t (fst (Reconcile (wk_node r) (wk_settle r) (wk_settle_fail r)
      (fst (processCreated (wk_created r) (wk_created_fail r) (sy_world s)))))"
    if t: "sy_world t = fst (processCreated (wk_created r) (wk_created_fail r) (sy_world s))" for t
    using Reconcile_reaches [of "wk_settle r" p t "wk_node r" "wk_settle_fail r"] assms unfolding t by simp
qed

subsection \<open>The sweeper\<close>

lemma sweepOne_reaches:
  assumes "signing (se_sign env)" and "cf_redis_prefix (se_cfg env) = p"
  shows "reaches p s (fst (sweepOne env tok wallet amount (sy_world s)))"
proof (cases "Lock p (sweep_lock tok (uw_address wallet)) (se_lock_fail env) (sy_world s)")
  case None
  then show ?thesis using assms(2) by (simp add: sweepOne_def reaches_refl)
next
  case (Some w1)
  let ?key = "sweep_lock tok (uw_address wallet)"
  obtain w2 r where b: "sweep_begin env tok wallet amount w1 = (w2, r)" by fastforce
  show ?thesis
  proof (cases r)
    case (Inl e)
    let ?t = "s\<lparr>sy_world := Unlock p ?key w2\<rparr>"
    have "wallet_step p s ?t" using wallet_step.begin_stop [OF Some b [unfolded Inl] assms(1)] .
    from reaches_step [OF this] have "reaches p s (Unlock p ?key w2)" by (simp add: gains_def reaches_refl)
    then show ?thesis using Some b Inl assms(2) by (simp add: sweepOne_def)
  next
    case (Inr x)
    obtain i tx where x: "x = (i, tx)" by fastforce
    obtain w3 e where sd: "sweep_send env i tx w2 = (w3, e)" by fastforce
    let ?s1 = "s\<lparr>sy_world := w2, sy_held := insert (?key, i, tx) (sy_held s)\<rparr>"
    let ?s2 = "?s1\<lparr>sy_world := Unlock p ?key w3, sy_held := sy_held ?s1 - {(?key, i, tx)}, sy_ssent := insert (i, tx) (sy_ssent ?s1)\<rparr>"
    have 1: "wallet_step p s ?s1" using wallet_step.begin_done [OF Some b [unfolded Inr x] assms(1)] .
    have 2: "wallet_step p ?s1 ?s2" by (rule wallet_step.send [where senv = env and oe = e]) (simp_all add: sd)
    have "reaches p ?s1 (Unlock p ?key w3)" by (rule reaches_step [OF 2]) (simp_all add: gains_def reaches_refl)
    then have "reaches p s (Unlock p ?key w3)" by (intro reaches_step [OF 1]) (simp_all add: gains_def)
    then show ?thesis using Some b Inr x sd assms(2) by (simp add: sweepOne_def)
  qed
qed

lemma visit_reaches:
  assumes "signing (se_sign env)" and "cf_redis_prefix (se_cfg env) = p"
  shows "reaches p s (visit env tok wallet (sy_world s))"
proof (cases "tokenBalance_sweep env (tc_contract tok) (uw_address wallet)")
  case (Inl e)
  then show ?thesis by (simp add: visit_def reaches_refl)
next
  case (Inr balance)
  note one = sweepOne_reaches [OF assms]
  consider "balance \<le> 0" | "0 < balance" "balance < minSweepUnits env tok" | "0 < balance" "minSweepUnits env tok \<le> balance"
    by linarith
  then show ?thesis
  proof cases
    case 1
    obtain w1 e where m: "markSweptEmpty env tok (uw_address wallet) (sy_world s) = (w1, e)" by fastforce
    have "reaches p s w1"
      using reaches_step [OF wallet_step.swept_empty [OF m]] by (simp add: gains_def reaches_refl)
    then show ?thesis using Inr 1 m by (simp add: visit_def)
  next
    case 2
    obtain w1 r where sk: "recordSkip env (tc_contract tok) (uw_address wallet) (sy_world s) = (w1, r)" by fastforce
    have w1: "reaches p s w1" by (rule reaches_quiet [OF recordSkip_quiet [OF sk]])
    have "reaches p s (fst (sweepOne env tok wallet balance w1))"
      by (rule reaches_then [OF w1]) (use one in metis)
    then show ?thesis using Inr 2 sk w1 by (auto simp: visit_def Let_def split: sum.splits)
  next
    case 3
    then show ?thesis using Inr one by (simp add: visit_def)
  qed
qed

lemma roundToken_reaches:
  assumes "\<And>a. signing (se_sign (envs a)) \<and> cf_redis_prefix (se_cfg (envs a)) = p"
  shows "reaches p s (fst (roundToken envs env tok (sy_world s)))"
proof (cases "candidates env tok (sy_world s)")
  case (Inr ws)
  have "reaches p s (foldl (\<lambda>w a. visit (envs a) tok a w) (sy_world s) ws)"
    by (rule reaches_foldl) (rule visit_reaches, use assms in auto)
  then show ?thesis using Inr by (simp add: roundToken_def)
qed (simp add: roundToken_def reaches_refl)

lemma round_sweeps_fold:
  "fst (foldl (\<lambda>(w, first) tok. let (w', e) = roundToken (envs tok) (env tok) tok w in (w', if first = None then e else first))
      (w, f) toks) = foldl (\<lambda>w tok. fst (roundToken (envs tok) (env tok) tok w)) w toks"
  by (induction toks arbitrary: w f) (simp_all add: split_beta Let_def)

lemma sweep_round_reaches:
  assumes "round_ok p (SweepRound r)"
  shows "reaches p s (sweep_round r (sy_world s))"
  unfolding sweep_round_def round_sweeps_def round_sweeps_fold
  by (rule reaches_foldl) (rule roundToken_reaches, use assms in simp)

lemma Reconcile_sweeps_reaches:
  assumes "\<And>row. signing (se_sign (envs row))"
  shows "reaches p s (fst (Reconcile_sweeps envs fail (sy_world s)))"
proof (cases fail)
  case False
  let ?rs = "select_limit (\<lambda>x. s_status x \<in> {SweepEnergyOK, SweepBroadcast} \<and> s_txid x \<noteq> '''') 100 (sweeps (sy_world s))"
  have rs: "x \<in> set (sweeps (sy_world s)) \<and> s_txid x \<noteq> ''''" if "x \<in> set ?rs" for x
    using subsetD [OF select_limit_subset that] by simp
  from read_sweeps [of ?rs s p, OF rs] obtain t where t:
    "(wallet_step p)\<^sup>*\<^sup>* s t" "gains s t" "sy_world t = sy_world s" "set ?rs \<subseteq> sy_sread t" by blast
  have "reaches p t (foldl (\<lambda>w row. reconcileOne_sweep (envs row) row w) (sy_world t) ?rs)"
  proof (rule reaches_foldl)
    fix row u assume h: "row \<in> set ?rs" "gains t u"
    have "row \<in> sy_sread u" using h t(4) by (auto simp: gains_def)
    from wallet_step.sweep_reconcile [OF this refl assms, of p row]
    show "reaches p u (reconcileOne_sweep (envs row) row (sy_world u))"
      by (rule reaches_step) (simp_all add: gains_def reaches_refl)
  qed
  then show ?thesis using reaches_via [OF t(1,2)] False t(3) by (simp add: Reconcile_sweeps_def)
qed (simp add: Reconcile_sweeps_def reaches_refl)

subsection \<open>The scanner\<close>

lemma confirmUpTo_reaches: "reaches p s (fst (confirmUpTo env head (sy_world s)))"
proof (cases "i64 (head - dc_confirmations (cf_deposit (sn_cfg env))) \<le> 0 \<or> sn_fail env ScPending")
  case True
  then have "fst (confirmUpTo env head (sy_world s)) = sy_world s" by (auto simp: confirmUpTo_def Let_def)
  then show ?thesis by (simp add: reaches_refl)
next
  case False
  let ?rs = "select_limit (\<lambda>r. d_status r = DepositPending \<and>
      d_block_number r \<le> i64 (head - dc_confirmations (cf_deposit (sn_cfg env)))) 500 (deposits (sy_world s))"
  have c: "\<not> i64 (head - dc_confirmations (cf_deposit (sn_cfg env))) \<le> 0" "\<not> sn_fail env ScPending" using False by auto
  have eq: "fst (confirmUpTo env head (sy_world s)) = foldl (\<lambda>w r. fst (confirmOne env head r w)) (sy_world s) ?rs"
    unfolding confirmUpTo_def Let_def if_not_P [OF c(1)] if_not_P [OF c(2)] fst_conv by (rule refl)
  have rs: "d \<in> set (deposits (sy_world s)) \<and> d_status d = DepositPending" if "d \<in> set ?rs" for d
    using subsetD [OF select_limit_subset that] by simp
  from read_deposits [of ?rs s p, OF rs] obtain t where t:
    "(wallet_step p)\<^sup>*\<^sup>* s t" "gains s t" "sy_world t = sy_world s" "set ?rs \<subseteq> sy_dread t" by blast
  have "reaches p t (foldl (\<lambda>w r. fst (confirmOne env head r w)) (sy_world t) ?rs)"
  proof (rule reaches_foldl)
    fix d u assume h: "d \<in> set ?rs" "gains t u"
    obtain w' e where cf: "confirmOne env head d (sy_world u) = (w', e)" by fastforce
    have "d \<in> sy_dread u" using h t(4) by (auto simp: gains_def)
    from wallet_step.confirm [OF this cf, of p] show "reaches p u (fst (confirmOne env head d (sy_world u)))"
      unfolding cf fst_conv by (rule reaches_step) (simp_all add: gains_def reaches_refl)
  qed
  then show ?thesis using reaches_via [OF t(1,2)] t(3) eq by simp
qed

interpretation wallet_tick: scanning "reaches p" sy_world for p
proof
  show "reaches p s (sy_world s)" for s by (simp add: reaches_refl)
  show "reaches p s w'" if "reaches p s w" "\<And>t. sy_world t = w \<Longrightarrow> reaches p t w'" for s w w'
    by (rule reaches_then [OF that(1)]) (rule that(2))
  show "reaches p s w'" if "scanBlock env sc b infos (sy_world s) = (w', e)" "\<forall>info \<in> set infos. proper_txid (ti_id info)"
    for env sc b infos s w' e
    by (rule reaches_step [OF wallet_step.scan [OF that]]) (simp_all add: gains_def reaches_refl)
  show "reaches p s w'" if "handleReorg env num (sy_world s) = (w', r)" for env num s w' r
    by (rule reaches_step [OF wallet_step.reorg [OF that]]) (simp_all add: gains_def reaches_refl)
  show "reaches p s (fst (confirmUpTo env head (sy_world s)))" for s env head by (rule confirmUpTo_reaches)
  show "reaches p s w'" if bk: "bookkeeping (sy_world s) w'" for s w'
    by (rule reaches_quiet [OF quietI]) (use bk in \<open>auto simp: bookkeeping_def\<close>)
qed

subsection \<open>The others\<close>

lemma drain_round_reaches: "reaches p s (fst (drain_round r (sy_world s)))"
proof (cases "dr_fail r")
  case False
  have "reaches p s (foldl (\<lambda>w ev. deliver (dr_envs r ev) ev w) (sy_world s)
      (select_limit (due (ox_now (dr_env r))) (nc_batch_size (ox_cfg (dr_env r))) (outbox (sy_world s))))"
  proof (rule reaches_foldl)
    fix ev t
    show "reaches p t (deliver (dr_envs r ev) ev (sy_world t))"
      using reaches_step [OF wallet_step.deliver [of p t "dr_envs r ev" ev]] by (simp add: gains_def reaches_refl)
  qed
  then show ?thesis using False by (simp add: drain_round_def drainOnce_def Let_def)
qed (simp add: drain_round_def drainOnce_def reaches_refl)

lemma paying_reaches: "paying p (sy_world s) w \<Longrightarrow> reaches p s w"
  by (rule reaches_step [OF wallet_step.topup]) (auto simp: gains_def intro: reaches_refl)

lemma order_reaches: "reaches p s (fst (createWithdraw env rq (sy_world s)))"
proof -
  obtain w' ans where c: "createWithdraw env rq (sy_world s) = (w', ans)" by (rule prod.exhaust)
  show ?thesis
    unfolding c fst_conv by (rule reaches_step [OF wallet_step.order [OF c]]) (simp_all add: gains_def reaches_refl)
qed

lemma settle_round_reaches:
  assumes "round_ok p (SettleRound rentalOn r)"
  shows "reaches p s (settle_round rentalOn r (sy_world s))"
proof -
  let ?w1 = "fst (Reconcile_sweeps (st_envs r) (st_fail r) (sy_world s))"
  have w1: "reaches p s ?w1" using assms by (intro Reconcile_sweeps_reaches) simp
  have "reaches p s (fst (Reconcile_topups (st_topup r) ?w1))"
    by (rule reaches_then [OF w1]) (metis Reconcile_topups_quiet reaches_quiet)
  then show ?thesis using w1 by (simp add: settle_round_def Let_def)
qed

lemma do_round_reaches:
  assumes "round_ok p r"
  shows "reaches p s (do_round r (sy_world s))"
proof (cases r)
  case (WorkerRound x)
  then show ?thesis using worker_round_reaches assms by simp
next
  case (ScannerRound env sc)
  obtain sc' w' e where "tick env sc (sy_world s) = (sc', w', e)" by (metis prod.exhaust)
  with wallet_tick.tick_run [OF this] ScannerRound assms show ?thesis by simp
next
  case (SweepRound x)
  then show ?thesis using sweep_round_reaches assms by simp
next
  case (SettleRound b x)
  then show ?thesis using settle_round_reaches assms by simp
next
  case (DispatchRound x)
  then show ?thesis using drain_round_reaches by simp
next
  case (EnergyRound env)
  then show ?thesis using reaches_quiet [OF ReconcilePending_quiet] by simp
next
  case (PoolRound env)
  have "quiet p w (pool_round env w)" for w
    using topUp_quiet [of env _ w] by (cases "pool w") (simp_all add: pool_round_def, metis prod.collapse)
  then show ?thesis using PoolRound reaches_quiet by simp
next
  case (TopupRound env)
  then show ?thesis using paying_reaches [OF check_topups_paying] assms by simp
next
  case (PricerRound env q)
  have "quiet p (sy_world s) (fst (Refresh_price env q (sy_world s)))" by (metis Refresh_price_quiet prod.collapse)
  then show ?thesis using PricerRound reaches_quiet by simp
next
  case (OrderRequest env rq)
  then show ?thesis using order_reaches by simp
next
  case (AddressRequest env rq)
  have "quiet p (sy_world s) (fst (createAddress env rq (sy_world s)))" by (metis createAddress_quiet prod.collapse)
  then show ?thesis using AddressRequest reaches_quiet by simp
next
  case (MerchantRequest env rq)
  have "quiet p (sy_world s) (fst (upsertMerchant env rq (sy_world s)))" by (metis upsertMerchant_quiet prod.collapse)
  then show ?thesis using MerchantRequest reaches_quiet by simp
qed

section \<open>Any interleaving of the processes\<close>

definition do_rounds :: "round list \<Rightarrow> world \<Rightarrow> world" where
  "do_rounds rs w = foldl (\<lambda>w r. do_round r w) w rs"

lemma do_rounds_reaches:
  assumes "\<forall>r \<in> set rs. round_ok p r"
  shows "reaches p s (do_rounds rs (sy_world s))"
  unfolding do_rounds_def by (rule reaches_foldl) (rule do_round_reaches, use assms in blast)

text \<open>Every loop does a list of its own rounds.\<close>

lemma Run_scanner_rounds:
  "\<exists>rs. (\<forall>r \<in> set rs. \<exists>env sc'. r = ScannerRound env sc' \<and> env \<in> set envs)
     \<and> fst (snd (Run_scanner envs sc w)) = do_rounds rs w"
proof (induction envs arbitrary: sc w)
  case Nil
  show ?case by (rule exI [of _ "[]"]) (simp add: do_rounds_def)
next
  case (Cons env envs)
  obtain sc1 w1 r where t: "tick env sc w = (sc1, w1, r)" by (metis prod.exhaust)
  obtain rs where rs: "\<forall>r \<in> set rs. \<exists>env sc'. r = ScannerRound env sc' \<and> env \<in> set envs"
      "fst (snd (Run_scanner envs sc1 w1)) = do_rounds rs w1" using Cons.IH by blast
  have first: "do_rounds (ScannerRound env sc # rs) w = do_rounds rs w1" by (simp add: do_rounds_def t)
  have stop: "do_rounds [ScannerRound env sc] w = w1" by (simp add: do_rounds_def t)
  show ?case
  proof (cases "\<exists>e. r = Inl e \<and> err_is e = ErrCanceled")
    case True
    then show ?thesis using t stop by (intro exI [of _ "[ScannerRound env sc]"]) auto
  next
    case False
    then show ?thesis using t rs first
      by (intro exI [of _ "ScannerRound env sc # rs"]) (auto split: sum.splits prod.splits)
  qed
qed

lemma Run_dispatcher_rounds: "fst (Run_dispatcher rs w) = do_rounds (map DispatchRound rs) w"
  by (induction rs arbitrary: w) (simp_all add: do_rounds_def split_beta)

lemma loops_rounds:
  "Run_worker b ws w = do_rounds (if b then map WorkerRound ws else []) w"
  "Run_sweeper b ss w = do_rounds (if b then map SweepRound ss else []) w"
  "RunReconcile es w = do_rounds (map EnergyRound es) w"
  "Run_pool b es w = do_rounds (if b then map PoolRound es else []) w"
  "Run_topup ts w = do_rounds (map TopupRound ts) w"
  by (simp_all add: Run_worker_def Run_sweeper_def RunReconcile_def Run_pool_def Run_topup_def do_rounds_def foldl_map)

lemma Run_pricer_rounds: "\<exists>rs. (\<forall>r \<in> set rs. loop_of r = PricerLoop) \<and> snd (Run_pricer envs q w) = do_rounds rs w"
proof (induction envs arbitrary: q w)
  case Nil
  show ?case by (rule exI [of _ "[]"]) (simp add: do_rounds_def)
next
  case (Cons env envs)
  obtain w1 q1 e where r: "Refresh_price env q w = (w1, q1, e)" by (metis prod.exhaust)
  obtain rs where "\<forall>r \<in> set rs. loop_of r = PricerLoop" "snd (Run_pricer envs q1 w1) = do_rounds rs w1"
    using Cons.IH by blast
  then show ?case using r by (intro exI [of _ "PricerRound env q # rs"]) (simp add: do_rounds_def)
qed

text \<open>C6. The processes refine the system: starting from an empty database, let the API serve any requests and let the
  loops of any number of processes do their rounds in any order, whatever the nodes, the rental
  platforms and the database answer in each. What they have made of the world then is a state the system can
  reach by its own steps, and in it every settled order and every confirmed external deposit has been
  announced exactly once.\<close>

theorem processes_refine:
  assumes "wallet_start s" and "\<And>r. r \<in> set rs \<Longrightarrow> round_ok p r"
  shows "\<exists>t. (wallet_step p)\<^sup>*\<^sup>* s t \<and> sy_world t = do_rounds rs (sy_world s)
    \<and> distinct (event_ids (do_rounds rs (sy_world s)))
    \<and> set (event_ids (do_rounds rs (sy_world s))) =
        withdraw_event_id ` {r. r \<in> set (withdraws (do_rounds rs (sy_world s))) \<and> settled r}
        \<union> depositEventID ` {r. r \<in> set (deposits (do_rounds rs (sy_world s))) \<and> credited r}"
proof -
  obtain t where t: "(wallet_step p)\<^sup>*\<^sup>* s t" "sy_world t = do_rounds rs (sy_world s)"
    using do_rounds_reaches [of rs p s] assms(2) by (auto simp: reaches_def)
  have "wallet_inv p t" using wallet_run [OF t(1) wallet_start_inv [OF assms(1)]] by blast
  note ev = wallet_events [OF this, unfolded t(2)]
  show ?thesis using t ev by (intro exI [of _ t] conjI) blast+
qed

section \<open>The dispatcher drains its backlog\<close>

lemma deliver_not_due:
  assumes "\<not> ox_fail env (ob_id row)" and "t \<le> ox_now env"
  shows "filter (due t) (outbox (deliver env row w)) = filter (\<lambda>r. due t r \<and> ob_id r \<noteq> ob_id row) (outbox w)"
proof -
  have upd: "filter (due t) (update_where (\<lambda>r. ob_id r = ob_id row) f x) = filter (\<lambda>r. due t r \<and> ob_id r \<noteq> ob_id row) x"
    if "\<And>r. \<not> due t (f r)" for f x by (induction x) (auto simp: update_where_def that)
  show ?thesis
  proof (cases "publish_all (ox_channels env) row")
    case None
    then show ?thesis using assms(1) by (simp add: deliver_def Let_def, intro upd) (simp add: due_def)
  next
    case (Some e)
    let ?k = "i64 (ob_retry_count row + 1)"
    let ?f = "\<lambda>r. r\<lparr>ob_status := (if ?k \<ge> nc_max_retry (ox_cfg env) then OutboxDead else OutboxPending),
        ob_retry_count := ?k, ob_next_retry := ox_now env + backoff ?k, ob_last_error := truncate_str e 240,
        ob_updated_at := ox_now env\<rparr>"
    have o: "outbox (deliver env row w) = update_where (\<lambda>r. ob_id r = ob_id row) ?f (outbox w)"
      using Some assms(1) by (simp add: deliver_def Let_def)
    have "\<not> due t (?f r)" for r using backoff_bounds [of ?k] assms(2) by (simp add: due_def)
    from upd [of ?f, OF this] show ?thesis unfolding o .
  qed
qed

lemma deliver_ids [simp]: "map ob_id (outbox (deliver env row w)) = map ob_id (outbox w)"
  using deliver_cases [of env row w] by (elim disjE exE conjE) (simp_all add: map_update_where)

lemma deliver_all:
  assumes "\<And>ev. ev \<in> set rows \<Longrightarrow> \<not> ox_fail (envs ev) (ob_id ev) \<and> t \<le> ox_now (envs ev)"
  shows "filter (due t) (outbox (foldl (\<lambda>w ev. deliver (envs ev) ev w) w rows)) =
      filter (\<lambda>r. due t r \<and> ob_id r \<notin> ob_id ` set rows) (outbox w)
    \<and> map ob_id (outbox (foldl (\<lambda>w ev. deliver (envs ev) ev w) w rows)) = map ob_id (outbox w)"
  using assms
proof (induction rows arbitrary: w)
  case (Cons ev rows)
  have "filter (\<lambda>r. due t r \<and> ob_id r \<notin> ob_id ` set rows) (outbox (deliver (envs ev) ev w)) =
      filter (\<lambda>r. ob_id r \<notin> ob_id ` set rows) (filter (due t) (outbox (deliver (envs ev) ev w)))"
    by (simp add: conj_commute)
  also have "\<dots> = filter (\<lambda>r. due t r \<and> ob_id r \<notin> ob_id ` set (ev # rows)) (outbox w)"
    using Cons.prems [of ev] by (simp add: deliver_not_due conj_ac)
  finally show ?case using Cons by simp
qed simp

lemma filter_take_ids:
  assumes "distinct (map ob_id xs)"
  shows "filter (\<lambda>r. ob_id r \<notin> ob_id ` set (take n xs)) xs = drop n xs"
  using assms
proof (induction xs arbitrary: n)
  case (Cons x xs)
  show ?case
  proof (cases n)
    case (Suc k)
    have "ob_id x \<notin> ob_id ` set xs" using Cons.prems by simp
    then have "ob_id y \<noteq> ob_id x" if "y \<in> set xs" for y using that by (metis imageI)
    then have "filter (\<lambda>r. ob_id r \<notin> ob_id ` set (take n (x # xs))) (x # xs) =
        filter (\<lambda>r. ob_id r \<notin> ob_id ` set (take k xs)) xs"
      using Suc by (auto intro!: filter_cong)
    then show ?thesis using Cons Suc by simp
  qed simp
qed simp

text \<open>A round in which nothing fails takes the first batch off the backlog.\<close>

definition steady :: "time \<Rightarrow> nat \<Rightarrow> drain_round \<Rightarrow> bool" where
  "steady t batch r \<longleftrightarrow> \<not> dr_fail r \<and> ox_now (dr_env r) = t \<and> nc_batch_size (ox_cfg (dr_env r)) = int batch
     \<and> (\<forall>ev. \<not> ox_fail (dr_envs r ev) (ob_id ev) \<and> t \<le> ox_now (dr_envs r ev))"

lemma drain_round_drops:
  assumes "distinct (map ob_id (outbox w))" and "steady t batch r" and "drain_round r w = (w', n)"
  shows "filter (due t) (outbox w') = drop batch (filter (due t) (outbox w))"
    and "distinct (map ob_id (outbox w'))" and "n = Inr (int (min (length (filter (due t) (outbox w))) batch))"
proof -
  let ?rows = "take batch (filter (due t) (outbox w))"
  have st: "\<not> dr_fail r" "ox_now (dr_env r) = t" "nc_batch_size (ox_cfg (dr_env r)) = int batch"
    "\<And>ev. \<not> ox_fail (dr_envs r ev) (ob_id ev) \<and> t \<le> ox_now (dr_envs r ev)"
    using assms(2) by (simp_all add: steady_def)
  have w': "w' = foldl (\<lambda>w ev. deliver (dr_envs r ev) ev w) w ?rows" and n: "n = Inr (int (length ?rows))"
    using assms(3) st(1-3) by (simp_all add: drain_round_def drainOnce_def Let_def select_limit_def)
  note all = deliver_all [where rows = ?rows and envs = "dr_envs r" and t = t and w = w, OF st(4), folded w']
  have "distinct (map ob_id (filter (due t) (outbox w)))" using assms(1) by (simp add: distinct_map_filter)
  from filter_take_ids [OF this, of batch] show "filter (due t) (outbox w') = drop batch (filter (due t) (outbox w))"
    using all by (simp add: conj_commute)
  show "distinct (map ob_id (outbox w'))" using all assms(1) by simp
  show "n = Inr (int (min (length (filter (due t) (outbox w))) batch))" using n by simp
qed

text \<open>C27. The dispatcher works off a backlog without pausing: in rounds where nothing fails, round \<open>i\<close> goes
  straight on to the next exactly as long as more than \<open>i\<close> batches were due, and once the rounds cover the backlog
  nothing that was due is still pending: it was sent, given up, or is waiting for its next attempt.\<close>

theorem dispatcher_drains:
  assumes "outbox_inv w" and "0 < batch" and "\<And>r. r \<in> set rs \<Longrightarrow> steady t batch r"
  shows "snd (Run_dispatcher rs w) = map (\<lambda>i. length (filter (due t) (outbox w)) \<le> batch * i) [0 ..< length rs]
    \<and> filter (due t) (outbox (fst (Run_dispatcher rs w))) = drop (batch * length rs) (filter (due t) (outbox w))"
proof -
  have "distinct (map ob_id (outbox w))" using assms(1) by (simp add: outbox_inv_def)
  then show ?thesis using assms(3)
  proof (induction rs arbitrary: w)
    case (Cons r rs)
    obtain w1 n where d: "drain_round r w = (w1, n)" by fastforce
    have r: "steady t batch r" by (rule Cons.prems(2)) simp
    note dr = drain_round_drops [OF Cons.prems(1) r d]
    let ?k = "length (filter (due t) (outbox w))"
    have first: "(case n of Inl _ \<Rightarrow> True | Inr k \<Rightarrow> \<not> 0 < k) = (?k \<le> batch * 0)" using dr(3) assms(2) by simp
    have k1: "length (drop batch (filter (due t) (outbox w))) \<le> batch * i \<longleftrightarrow> ?k \<le> batch * Suc i" for i
      by (simp only: length_drop mult_Suc_right) linarith
    have "snd (Run_dispatcher rs w1) = map (\<lambda>i. length (filter (due t) (outbox w1)) \<le> batch * i) [0 ..< length rs]
      \<and> filter (due t) (outbox (fst (Run_dispatcher rs w1))) = drop (batch * length rs) (filter (due t) (outbox w1))"
      by (rule Cons.IH [OF dr(2)]) (simp add: Cons.prems(2))
    then have IH: "snd (Run_dispatcher rs w1) = map (\<lambda>i. ?k \<le> batch * Suc i) [0 ..< length rs]"
      "filter (due t) (outbox (fst (Run_dispatcher rs w1))) = drop (batch * Suc (length rs)) (filter (due t) (outbox w))"
      unfolding dr(1) k1 by (simp_all add: add.commute)
    have "Run_dispatcher (r # rs) w = (fst (Run_dispatcher rs w1), (?k \<le> batch * 0) # snd (Run_dispatcher rs w1))"
      using d first by (simp add: split_beta)
    moreover have "map (\<lambda>i. ?k \<le> batch * i) [0 ..< length (r # rs)] =
        (?k \<le> batch * 0) # map (\<lambda>i. ?k \<le> batch * Suc i) [0 ..< length rs]"
      by (simp only: list.size add_Suc_right add_0_right map_upt_Suc)
    ultimately show ?case using IH by (simp only: fst_conv snd_conv list.size add_Suc_right add_0_right)
  qed simp
qed

section \<open>Instances\<close>

definition sample_drain :: drain_round where
  "sample_drain = \<lparr>dr_envs = (\<lambda>_. outbox_sample_env 0), dr_env = outbox_sample_env 0, dr_fail = False\<rparr>"

theorem dispatcher_drains_witness:
  "snd (Run_dispatcher [sample_drain, sample_drain] outbox_world) = [False, True]
    \<and> filter (due 0) (outbox (fst (Run_dispatcher [sample_drain, sample_drain] outbox_world))) = []"
proof -
  have st: "steady 0 100 r" if "r \<in> set [sample_drain, sample_drain]" for r
    using that by (simp add: steady_def sample_drain_def outbox_sample_env_def)
  have "filter (due 0) (outbox outbox_world) = [sample_event]"
    by (simp add: outbox_world_def sample_event_def due_def)
  then show ?thesis
    using dispatcher_drains [where rs = "[sample_drain, sample_drain]" and batch = 100 and t = 0, OF outbox_world_inv _ st]
    by (simp del: Run_dispatcher.simps)
qed

lemma scan_sample_proper: "proper_node (sn_node scan_sample_env)"
  unfolding proper_node_def scan_sample_env_def scan_node_def
  by (auto simp: GetTxInfoByBlockNum_def sample_info_def proper_txid_def split: if_splits)

theorem processes_refine_witness:
  "\<exists>t. (wallet_step '''')\<^sup>*\<^sup>* wallet_sample t
     \<and> sy_world t = do_rounds [ScannerRound scan_sample_env sample_scanner, EnergyRound renting_env, DispatchRound sample_drain] scan_world
     \<and> distinct (event_ids (sy_world t))"
proof -
  have ok: "round_ok '''' r"
    if "r \<in> set [ScannerRound scan_sample_env sample_scanner, EnergyRound renting_env, DispatchRound sample_drain]" for r
    using that scan_sample_proper by auto
  have w: "sy_world wallet_sample = scan_world" by (simp add: wallet_sample_def)
  from processes_refine [OF wallet_sample_start ok] show ?thesis unfolding w by metis
qed

end
