(* ===== verification/Startup.thy ===== *)
theory Startup
  imports Processes Log Durations Remote Gateway Providers
begin

text \<open>
  What happens around the handlers: the order in which \<open>internal/bootstrap\<close> brings a process up, the intervals of its
  loops, the checks the worker and the signer make when they start, the TLS settings of both sides of
  the signer, and the message queue channel of the outbox (\<open>internal/outbox/rocketmq.go\<close>). The operating system, the
  resolver, the TLS library and the queue's client are parameters.
\<close>

section \<open>Bringing a process up\<close>

definition envOr :: "environ \<Rightarrow> string \<Rightarrow> string \<Rightarrow> string" where
  "envOr env key fallback =
     (case map_of env key of None \<Rightarrow> fallback | Some v \<Rightarrow> if v \<noteq> '''' then v else fallback)"

definition defaultConfigPath :: string where
  "defaultConfigPath = ''configs/config.nile.yaml''"

definition needsAddressFilter :: "string \<Rightarrow> bool" where
  "needsAddressFilter service \<longleftrightarrow> service = ''scanner''"

datatype start_step = LoadConfig string | OpenStore | MigrateSchema | FillFilter | BuildGateway

text \<open>The flags as given, the environment, and what each step answers.\<close>

record start_env =
  sv_flag_config :: "string option"
  sv_flag_migrate :: bool
  sv_environ :: environ
  sv_load :: "string \<Rightarrow> config result"
  sv_open_store :: "config \<Rightarrow> go_error option"
  sv_migrate :: "go_error option"
  sv_sync :: sync_env
  sv_start :: time

record app =
  app_config :: config
  app_filter :: "registry option"
  app_gateway :: gateway

text \<open>\<open>bootstrap.Init\<close> with the steps it took; the last step of a failed start is the one that failed.\<close>

definition start_path :: "start_env \<Rightarrow> string" where
  "start_path env =
     (case sv_flag_config env of Some p \<Rightarrow> p | None \<Rightarrow> envOr (sv_environ env) ''CONFIG_PATH'' defaultConfigPath)"

definition start_gateway :: "start_env \<Rightarrow> config \<Rightarrow> registry option \<Rightarrow> app result" where
  "start_gateway env c filt =
     (case NewGateway (sv_start env) (cf_scanner c) of
        Inl e \<Rightarrow> Inl e
      | Inr gw \<Rightarrow> Inr \<lparr>app_config = c, app_filter = filt, app_gateway = gw\<rparr>)"

definition start_filter :: "string \<Rightarrow> start_env \<Rightarrow> config \<Rightarrow> start_step list \<times> registry option result" where
  "start_filter service env c =
     (if \<not> needsAddressFilter service then ([], Inr None) else ([FillFilter], Init (sv_sync env) (cf_bloom c)))"

definition start_migrate :: "string \<Rightarrow> start_env \<Rightarrow> start_step list \<times> go_error option" where
  "start_migrate service env =
     (if sv_flag_migrate env \<and> service = ''api'' then ([MigrateSchema], sv_migrate env) else ([], None))"

definition Init_app :: "string \<Rightarrow> start_env \<Rightarrow> start_step list \<times> app result" where
  "Init_app service env =
     (let path = start_path env; steps = [LoadConfig path]
      in case sv_load env path of
        Inl e \<Rightarrow> (steps, Inl e)
      | Inr c \<Rightarrow>
          let steps = steps @ [OpenStore]
          in case sv_open_store env c of
            Some e \<Rightarrow> (steps, Inl e)
          | None \<Rightarrow>
              let (m, me) = start_migrate service env; steps = steps @ m
              in case me of
                Some e \<Rightarrow> (steps, Inl e)
              | None \<Rightarrow>
                  let (f, fr) = start_filter service env c; steps = steps @ f
                  in case fr of
                    Inl e \<Rightarrow> (steps, Inl e)
                  | Inr filt \<Rightarrow> (steps @ [BuildGateway], start_gateway env c filt))"

text \<open>The providers and the settings the energy manager works with.\<close>

definition EnergyManager :: "(string \<times> factory) list \<Rightarrow> config \<Rightarrow> (energy_config \<times> (string \<times> provider) list) result" where
  "EnergyManager reg c =
     (case Build reg (cf_energy c) of Inl e \<Rightarrow> Inl e | Inr provs \<Rightarrow> Inr (cf_energy c, provs))"

text \<open>A process that is up has a valid configuration, a store, a node to ask and, if it is the scanner, its filter.\<close>

lemma Init_app_up:
  assumes "Init_app service env = (steps, Inr a)"
  shows "sv_load env (start_path env) = Inr (app_config a)"
    and "sv_open_store env (app_config a) = None"
    and "NewGateway (sv_start env) (cf_scanner (app_config a)) = Inr (app_gateway a)"
    and "needsAddressFilter service \<Longrightarrow> Init (sv_sync env) (cf_bloom (app_config a)) = Inr (app_filter a)"
    and "\<not> needsAddressFilter service \<Longrightarrow> app_filter a = None"
    and "service \<noteq> ''api'' \<Longrightarrow> MigrateSchema \<notin> set steps"
  using assms
  by (auto simp: Init_app_def start_migrate_def start_filter_def start_gateway_def Let_def
      split: sum.splits option.splits if_splits)

lemma NewGateway_nodes: "NewGateway now c = Inr g \<Longrightarrow> gw_nodes g \<noteq> []"
  by (auto simp: NewGateway_def Let_def split: if_splits dest!: arg_cong [where f = length])

lemma Init_app_nodes: "Init_app service env = (steps, Inr a) \<Longrightarrow> gw_nodes (app_gateway a) \<noteq> []"
  by (rule NewGateway_nodes [OF Init_app_up(3)])

text \<open>The path is the flag, else the variable, else one fixed file: nothing is searched for.\<close>

lemma start_path_default: "sv_flag_config env = None \<Longrightarrow> map_of (sv_environ env) ''CONFIG_PATH'' = None \<Longrightarrow>
    start_path env = ''configs/config.nile.yaml''"
  by (simp add: start_path_def envOr_def defaultConfigPath_def)

text \<open>The migrate flag is on by default and does not end the process: every start of the api migrates and goes on.\<close>

lemma migrate_goes_on:
  assumes "Init_app ''api'' env = (steps, Inr a)" and "sv_flag_migrate env"
  shows "MigrateSchema \<in> set steps \<and> BuildGateway \<in> set steps"
  using assms by (auto simp: Init_app_def start_migrate_def Let_def split: sum.splits option.splits prod.splits)

section \<open>Intervals\<close>

text \<open>What each loop waits for between its rounds: the text of its setting, or the value built in.\<close>

definition worker_interval :: "string \<Rightarrow> time" where
  "worker_interval s = Duration s (3 * second)"

definition scanner_interval :: "string \<Rightarrow> time" where
  "scanner_interval s = Duration s (3 * second)"

definition sync_interval :: "string \<Rightarrow> time" where
  "sync_interval s = Duration s (10 * second)"

definition sweep_interval :: "string \<Rightarrow> time" where
  "sweep_interval s = Duration s (5 * 60 * second)"

definition pricer_interval :: "string \<Rightarrow> time" where
  "pricer_interval s = Duration s (10 * 60 * second)"

definition energy_interval :: "string \<Rightarrow> time" where
  "energy_interval s = Duration s (60 * second)"

definition pool_interval :: "string \<Rightarrow> time" where
  "pool_interval s = Duration s (30 * second)"

definition topup_interval :: "string \<Rightarrow> time" where
  "topup_interval s = Duration s (5 * 60 * second)"

definition dispatch_interval :: "string \<Rightarrow> time" where
  "dispatch_interval s = Duration s (2 * second)"

definition settle_interval :: time where
  "settle_interval = 30 * second"

datatype ticker = SettleTicker | WorkerTicker | ScannerTicker | SyncTicker | SweepTicker | PricerTicker | EnergyTicker | PoolTicker | TopupTicker | DispatchTicker

fun loop_interval :: "(ticker \<Rightarrow> string) \<Rightarrow> ticker \<Rightarrow> time" where
  "loop_interval setting SettleTicker = settle_interval"
| "loop_interval setting WorkerTicker = worker_interval (setting WorkerTicker)"
| "loop_interval setting ScannerTicker = scanner_interval (setting ScannerTicker)"
| "loop_interval setting SyncTicker = sync_interval (setting SyncTicker)"
| "loop_interval setting SweepTicker = sweep_interval (setting SweepTicker)"
| "loop_interval setting PricerTicker = pricer_interval (setting PricerTicker)"
| "loop_interval setting EnergyTicker = energy_interval (setting EnergyTicker)"
| "loop_interval setting PoolTicker = pool_interval (setting PoolTicker)"
| "loop_interval setting TopupTicker = topup_interval (setting TopupTicker)"
| "loop_interval setting DispatchTicker = dispatch_interval (setting DispatchTicker)"

lemmas interval_defs = second_def settle_interval_def worker_interval_def scanner_interval_def sync_interval_def sweep_interval_def pricer_interval_def energy_interval_def pool_interval_def topup_interval_def dispatch_interval_def

text \<open>C38. No setting stops a loop: whatever is written for the interval of a loop, nothing, a typo, a negative or an
  overflowing duration, its ticker gets a positive interval that fits a \<open>time.Duration\<close>, so it neither panics nor spins; and an
  interval written as numbers with units is exactly the sum they denote.\<close>

theorem intervals_positive:
  "0 < loop_interval setting l \<and> loop_interval setting l < 2 ^ 63
   \<and> (l \<noteq> SettleTicker \<and> (\<forall>(n, u) \<in> set ps. map_of unitMap u \<noteq> None) \<and> 0 < nanoseconds ps \<and> nanoseconds ps < 2 ^ 63 \<longrightarrow>
       loop_interval (\<lambda>_. written_duration ps) l = int (nanoseconds ps))"
proof -
  have "0 < loop_interval setting l \<and> loop_interval setting l < 2 ^ 63"
    by (cases l) (simp_all add: interval_defs Duration_positive [simplified])
  moreover have "loop_interval (\<lambda>_. written_duration ps) l = int (nanoseconds ps)"
    if "l \<noteq> SettleTicker" and "\<forall>(n, u) \<in> set ps. map_of unitMap u \<noteq> None" "0 < nanoseconds ps" "nanoseconds ps < 2 ^ 63"
    using that(1) Duration_written [OF that(2-4)] by (cases l) (simp_all add: interval_defs)
  ultimately show ?thesis by blast
qed

theorem intervals_positive_witness:
  "loop_interval (\<lambda>_. ''1m30s'') WorkerTicker = 90000000000 \<and> 0 < loop_interval (\<lambda>_. ''-5s'') WorkerTicker"
proof -
  have w: "written_duration [(1, ''m''), (30, ''s'')] = ''1m30s''" by code_simp
  have n: "nanoseconds [(1, ''m''), (30, ''s'')] = 90000000000" by (simp add: nanoseconds_def unitMap_def)
  have u: "\<forall>(n, u) \<in> set [(1 :: nat, ''m''), (30, ''s'')]. map_of unitMap u \<noteq> None" by (simp add: unitMap_def)
  show ?thesis
    using intervals_positive [of "\<lambda>_. ''-5s''" WorkerTicker "[(1, ''m''), (30, ''s'')]"] u
    by (simp only: n w) simp
qed

section \<open>Checks at the start\<close>

text \<open>
  What the withdrawal worker says about its hot wallet before its first round: \<open>derive\<close> is the signer, asked
  for the address of a path. Nothing is changed by it.
\<close>

datatype preflight_report =
    CannotDerive string go_error
  | WrongHotAddress string string
  | HotIsSweepWallet string
  | TokenUnknown string go_error
  | TokenBalance string string int string
  | TrxUnknown go_error
  | TrxBalance string int bool int

definition preflight_address :: "(string \<Rightarrow> string result) \<Rightarrow> named_address \<Rightarrow> preflight_report list" where
  "preflight_address derive hot =
     (case derive (sys_path hot) of
        Inl e \<Rightarrow> [CannotDerive (sys_path hot) e]
      | Inr addr \<Rightarrow> if addr \<noteq> sys_address hot then [WrongHotAddress (sys_address hot) addr] else [])"

definition preflight_token :: "withdraw_env \<Rightarrow> named_address \<Rightarrow> token_config \<Rightarrow> preflight_report" where
  "preflight_token env hot tok =
     (case tokenBalance env (tc_contract tok) (sys_address hot) of
        Inl e \<Rightarrow> TokenUnknown (tc_symbol tok) e
      | Inr b \<Rightarrow> TokenBalance (tc_symbol tok) (tc_contract tok) b (FormatUnits (big_String b) (tc_decimals tok)))"

definition preflight :: "withdraw_env \<Rightarrow> (string \<Rightarrow> string result) \<Rightarrow> (string \<times> token_config) list \<Rightarrow> preflight_report list" where
  "preflight env derive tokens =
     (let c = we_cfg env; hot = wc_hot_wallet (cf_wallet c); sweep = sys_address (wc_sweep_wallet (cf_wallet c))
      in preflight_address derive hot
         @ (if sweep \<noteq> '''' \<and> sweep = sys_address hot then [HotIsSweepWallet sweep] else [])
         @ map (\<lambda>(_, tok). preflight_token env hot tok) tokens
         @ [case GetTRXBalance (we_node env) (sys_address hot) of
              Inl e \<Rightarrow> TrxUnknown e
            | Inr trx \<Rightarrow> TrxBalance (sys_address hot) trx (WithdrawRentalOn c) (wd_fee_limit_sun (cf_withdraw c))])"

text \<open>The signer compares every configured address with the one its key gives for the path.\<close>

datatype seed_report =
    PathFails string string go_error
  | WrongSeed string string string
  | UnusualSpaces
  | PassphraseSet nat

definition check_named :: "('m, 'k) crypto \<Rightarrow> 'm \<Rightarrow> string \<times> named_address \<Rightarrow> seed_report list" where
  "check_named cr master na =
     (case na of (name, want) \<Rightarrow>
        if sys_address want = '''' \<or> sys_path want = '''' then []
        else case DeriveAddress cr master (sys_path want) of
          Inl e \<Rightarrow> [PathFails name (sys_path want) e]
        | Inr got \<Rightarrow> if got \<noteq> sys_address want then [WrongSeed name (sys_address want) got] else [])"

definition checkSystemAddresses :: "('m, 'k) crypto \<Rightarrow> 'm \<Rightarrow> wallet_config \<Rightarrow> seed_report list" where
  "checkSystemAddresses cr master wc =
     concat (map (check_named cr master)
       [(''hot_wallet'', wc_hot_wallet wc), (''sweep_wallet'', wc_sweep_wallet wc), (''gas_account'', wc_gas_account wc)])"

text \<open>\<open>runes\<close> counts the characters of a text.\<close>

definition warnSeedInputs :: "'m bip39 \<Rightarrow> (string \<Rightarrow> nat) \<Rightarrow> string \<Rightarrow> string \<Rightarrow> seed_report list" where
  "warnSeedInputs b runes mnemonic passphrase =
     (if NormalizeMnemonic b mnemonic \<noteq> TrimSpace mnemonic then [UnusualSpaces] else [])
     @ (let p = NormalizePassphrase b passphrase in if p \<noteq> '''' then [PassphraseSet (runes p)] else [])"

definition New_signer ::
  "('m, 'k) crypto \<Rightarrow> 'm bip39 \<Rightarrow> (string \<Rightarrow> nat) \<Rightarrow> wallet_config \<Rightarrow> string \<Rightarrow> string \<Rightarrow> policy \<Rightarrow> time \<Rightarrow> bool
    \<Rightarrow> seed_report list \<times> ('m, 'k) service result" where
  "New_signer cr b runes wc mnemonic passphrase po now fail =
     (let warnings = warnSeedInputs b runes mnemonic passphrase
      in case NewFromMnemonic b mnemonic passphrase of
        Inl e \<Rightarrow> (warnings, Inl e)
      | Inr master \<Rightarrow>
          (warnings @ checkSystemAddresses cr master wc,
           Inr \<lparr>sv_crypto = cr, sv_master = master, sv_policy = po, sv_now = now, sv_fail = fail\<rparr>))"

definition address_warning :: "preflight_report \<Rightarrow> bool" where
  "address_warning r = (case r of CannotDerive _ _ \<Rightarrow> True | WrongHotAddress _ _ \<Rightarrow> True | _ \<Rightarrow> False)"

lemma preflight_warnings: "filter address_warning (preflight env derive tokens)
    = preflight_address derive (wc_hot_wallet (cf_wallet (we_cfg env)))"
proof -
  have "filter address_warning (map (\<lambda>(_, tok). preflight_token env hot tok) tokens) = []" for hot
    by (auto simp: filter_empty_conv preflight_token_def address_warning_def split: sum.splits)
  moreover have "filter address_warning (preflight_address derive hot) = preflight_address derive hot" for hot
    by (simp add: preflight_address_def address_warning_def split: sum.splits)
  ultimately show ?thesis
    by (simp add: preflight_def Let_def) (simp add: address_warning_def split: sum.splits)
qed

lemma Sign_wrong_address:
  assumes "sr_address req \<noteq> ''''" and "DeriveAddress (sv_crypto s) (sv_master s) (sr_path req) \<noteq> Inr (sr_address req)"
  shows "isl (snd (Sign s who req w))"
proof (cases "Sign s who req w")
  case (Pair w' r)
  show ?thesis
  proof (cases r)
    case (Inr resp)
    from Pair [unfolded Inr] obtain priv where "DerivePrivateKey (sv_crypto s) (sv_master s) (sr_path req) = Inr priv"
      "sr_address req = '''' \<or> PubKeyToAddress (cr_keccak (sv_crypto s)) (cr_pubkey (sv_crypto s) priv) = Inr (sr_address req)"
      by (rule Sign_Inr)
    then show ?thesis using assms by (simp add: DeriveAddress_def)
  qed (simp add: Pair)
qed

text \<open>A request of the right key is refused for its policy or its transaction only.\<close>

lemma Sign_right_address:
  assumes "DeriveAddress (sv_crypto s) (sv_master s) (sr_path req) = Inr (sr_address req)"
    and "snd (check (cr_keccak (sv_crypto s)) (sv_policy s) req) = None"
    and "\<And>priv. \<not> isl (SignTransaction (cr_sign_compact (sv_crypto s)) (sr_tx req) priv)"
  shows "\<not> isl (snd (Sign s who req w))"
proof -
  obtain priv where priv: "DerivePrivateKey (sv_crypto s) (sv_master s) (sr_path req) = Inr priv"
    "PubKeyToAddress (cr_keccak (sv_crypto s)) (cr_pubkey (sv_crypto s) priv) = Inr (sr_address req)"
    using assms(1) by (auto simp: DeriveAddress_def split: sum.splits)
  obtain stx where "SignTransaction (cr_sign_compact (sv_crypto s)) (sr_tx req) priv = Inr stx"
    using assms(3) [of priv] by (cases "SignTransaction (cr_sign_compact (sv_crypto s)) (sr_tx req) priv") auto
  moreover obtain reason where "check (cr_keccak (sv_crypto s)) (sv_policy s) req = (reason, None)"
    using assms(2) by (metis prod.collapse)
  ultimately show ?thesis using priv by (simp add: Sign_def Let_def)
qed

text \<open>C33. The start-up checks tell the truth about what will be signed. \<open>derive\<close> is how the worker asks the
  signer: it may fail, but what it answers is what the signer derives. The worker is silent about its hot
  wallet exactly when it was answered with the configured address; then no request of that path for that
  address is refused, unless its policy or its transaction is. When it was answered and warns, the signer
  warns at its own start too, and every such request, of any purpose and by any caller, is refused. And
  when it was not answered it warns.\<close>

theorem preflight_tells:
  assumes "sys_address hot \<noteq> ''''" and "sys_path hot \<noteq> ''''" and "hot = wc_hot_wallet (cf_wallet (we_cfg env))"
    and "sr_path req = sys_path hot" and "sr_address req = sys_address hot"
    and "\<not> isl (derive (sys_path hot)) \<Longrightarrow> derive (sys_path hot) = DeriveAddress (sv_crypto s) (sv_master s) (sys_path hot)"
  shows "(filter address_warning (preflight env derive tokens) = [] \<longleftrightarrow> derive (sys_path hot) = Inr (sys_address hot))
    \<and> (filter address_warning (preflight env derive tokens) = []
        \<and> snd (check (cr_keccak (sv_crypto s)) (sv_policy s) req) = None
        \<and> (\<forall>priv. \<not> isl (SignTransaction (cr_sign_compact (sv_crypto s)) (sr_tx req) priv))
        \<longrightarrow> \<not> isl (snd (Sign s who req w)))
    \<and> (filter address_warning (preflight env derive tokens) \<noteq> [] \<and> \<not> isl (derive (sys_path hot)) \<longrightarrow>
        checkSystemAddresses (sv_crypto s) (sv_master s) (cf_wallet (we_cfg env)) \<noteq> []
        \<and> isl (snd (Sign s who req w)))"
proof -
  let ?d = "DeriveAddress (sv_crypto s) (sv_master s)"
  have iff: "filter address_warning (preflight env derive tokens) = [] \<longleftrightarrow> derive (sys_path hot) = Inr (sys_address hot)"
    by (auto simp: preflight_warnings assms(3) preflight_address_def split: sum.splits)
  moreover have "\<not> isl (snd (Sign s who req w))" if "derive (sys_path hot) = Inr (sys_address hot)"
    "snd (check (cr_keccak (sv_crypto s)) (sv_policy s) req) = None"
    "\<forall>priv. \<not> isl (SignTransaction (cr_sign_compact (sv_crypto s)) (sr_tx req) priv)"
    by (rule Sign_right_address) (use assms(4-6) that in auto)
  moreover have "checkSystemAddresses (sv_crypto s) (sv_master s) (cf_wallet (we_cfg env)) \<noteq> []"
    if "?d (sys_path hot) \<noteq> Inr (sys_address hot)"
    using that assms(1-3) by (auto simp: checkSystemAddresses_def check_named_def split: sum.splits)
  moreover have "isl (snd (Sign s who req w))" if "?d (sys_path hot) \<noteq> Inr (sys_address hot)"
    by (rule Sign_wrong_address) (use assms(1,4,5) that in simp_all)
  moreover have "?d (sys_path hot) \<noteq> Inr (sys_address hot)"
    if "\<not> isl (derive (sys_path hot))" "derive (sys_path hot) \<noteq> Inr (sys_address hot)"
    using assms(6) that by metis
  ultimately show ?thesis by blast
qed

section \<open>Opening the store\<close>

record mysql_config =
  my_dsn :: string
  my_max_open :: int
  my_max_idle :: int
  my_lifetime :: string

record redis_config =
  re_addr :: string
  re_password :: string
  re_db :: int
  re_prefix :: string

text \<open>The limits of the pool that are set, the redis client if there is one, and the prefix of its keys.\<close>

record opened_store =
  op_max_open :: "int option"
  op_max_idle :: "int option"
  op_lifetime :: time
  op_redis :: "(string \<times> string \<times> int) option"
  op_prefix :: string

definition Open_store :: "(string \<Rightarrow> go_error option) \<Rightarrow> go_error option \<Rightarrow> mysql_config \<Rightarrow> redis_config \<Rightarrow> opened_store result" where
  "Open_store connect db my re =
     (case connect (my_dsn my) of
        Some e \<Rightarrow> Inl (wrap_err ''store: open mysql: '' e)
      | None \<Rightarrow>
          case db of
            Some e \<Rightarrow> Inl e
          | None \<Rightarrow>
              Inr \<lparr>op_max_open = (if 0 < my_max_open my then Some (my_max_open my) else None),
                   op_max_idle = (if 0 < my_max_idle my then Some (my_max_idle my) else None),
                   op_lifetime = Duration (my_lifetime my) (3600 * second),
                   op_redis = (if re_addr re \<noteq> '''' then Some (re_addr re, re_password re, re_db re) else None),
                   op_prefix = (if re_prefix re = '''' then ''trc20'' else re_prefix re)\<rparr>)"

text \<open>Connections expire, and keys are never written without a prefix.\<close>

lemma Open_store_sound:
  "Open_store connect db my re = Inr st \<Longrightarrow> 0 < op_lifetime st \<and> op_prefix st \<noteq> ''''"
  by (auto simp: Open_store_def second_def Duration_positive [simplified] split: option.splits if_splits)

section \<open>The gas account\<close>

text \<open>It is never refilled by the program; a low balance is reported, with the two levels of its configuration.\<close>

datatype gas_report = GasUnknown go_error | GasLow float64 float64 float64

definition checkGasAccount :: "node_api \<Rightarrow> string \<Rightarrow> float64 \<Rightarrow> float64 \<Rightarrow> gas_report option" where
  "checkGasAccount node source low target =
     (if source = '''' then None
      else case GetTRXBalance node source of
        Inl e \<Rightarrow> Some (GasUnknown e)
      | Inr sun \<Rightarrow>
          let trx = fl64 (float_of_int sun / 1000000)
          in if 0 < low \<and> trx < low then Some (GasLow trx low target) else None)"

section \<open>TLS between the workers and the signer\<close>

record tls_settings =
  ts_cert :: string
  ts_key :: string
  ts_client_cert :: string
  ts_client_key :: string
  ts_ca :: string
  ts_server_name :: string

text \<open>The library: a key pair out of two files, a file, and the certificates a text holds.\<close>

record ('c, 'p) tls_lib =
  tl_pair :: "string \<Rightarrow> string \<Rightarrow> 'c result"
  tl_read :: "string \<Rightarrow> string result"
  tl_pool :: "string \<Rightarrow> 'p option"

record ('c, 'p) tls_conf =
  tc_server_name :: string
  tc_certs :: "'c list"
  tc_root_cas :: "'p option"
  tc_client_cas :: "'p option"
  tc_require_client :: bool

definition buildTLS :: "('c, 'p) tls_lib \<Rightarrow> tls_settings \<Rightarrow> ('c, 'p) tls_conf result" where
  "buildTLS l ts =
     (let (cert, key) = (if ts_client_cert ts = '''' \<or> ts_client_key ts = '''' then (ts_cert ts, ts_key ts)
                         else (ts_client_cert ts, ts_client_key ts));
          certs = (if cert \<noteq> '''' \<and> key \<noteq> '''' then (case tl_pair l cert key of
                     Inl e \<Rightarrow> Inl (wrap_err ''signer: load client cert: '' e) | Inr c \<Rightarrow> Inr [c]) else Inr [])
      in case certs of
        Inl e \<Rightarrow> Inl e
      | Inr cs \<Rightarrow>
          let conf = \<lparr>tc_server_name = ts_server_name ts, tc_certs = cs, tc_root_cas = None, tc_client_cas = None,
                      tc_require_client = False\<rparr>
          in if ts_ca ts = '''' then Inr conf
             else case tl_read l (ts_ca ts) of
               Inl e \<Rightarrow> Inl (wrap_err ''signer: read ca: '' e)
             | Inr pem \<Rightarrow>
                 (case tl_pool l pem of
                    None \<Rightarrow> Inl (errors_new ''signer: ca file contains no certificates'')
                  | Some p \<Rightarrow> Inr (conf\<lparr>tc_root_cas := Some p\<rparr>)))"

definition serverTLS :: "('c, 'p) tls_lib \<Rightarrow> tls_settings \<Rightarrow> ('c, 'p) tls_conf result" where
  "serverTLS l ts =
     (if ts_ca ts = '''' then Inl (errors_new ''sign.tls.ca_file is required for mTLS'')
      else case tl_pair l (ts_cert ts) (ts_key ts) of
        Inl e \<Rightarrow> Inl e
      | Inr cert \<Rightarrow>
          (case tl_read l (ts_ca ts) of
             Inl e \<Rightarrow> Inl e
           | Inr pem \<Rightarrow>
               (case tl_pool l pem of
                  None \<Rightarrow> Inl (errors_new ''sign.tls.ca_file contains no certificates'')
                | Some p \<Rightarrow> Inr \<lparr>tc_server_name = '''', tc_certs = [cert], tc_root_cas = None, tc_client_cas = Some p,
                                  tc_require_client = True\<rparr>)))"

text \<open>A signer that serves TLS asks every caller for a certificate of the configured authority.\<close>

lemma serverTLS_mutual:
  "serverTLS l ts = Inr conf \<Longrightarrow> tc_require_client conf \<and> tc_client_cas conf \<noteq> None \<and> tc_certs conf \<noteq> []"
  by (auto simp: serverTLS_def split: if_splits sum.splits option.splits)


section \<open>The message queue\<close>

text \<open>\<open>net.SplitHostPort\<close> and \<open>net.JoinHostPort\<close>.\<close>

definition last_colon :: "string \<Rightarrow> (string \<times> string) option" where
  "last_colon s =
     (let port = rev (takeWhile (\<lambda>c. c \<noteq> CHR '':'') (rev s))
      in if length port < length s then Some (take (length s - length port - 1) s, port) else None)"

definition missing_port :: go_error where
  "missing_port = errors_new ''missing port in address''"

definition too_many_colons :: go_error where
  "too_many_colons = errors_new ''too many colons in address''"

definition split_bracketed :: "string \<Rightarrow> string \<Rightarrow> string \<Rightarrow> (string \<times> string) result" where
  "split_bracketed s before port =
     (let host = takeWhile (\<lambda>c. c \<noteq> CHR '']'') (tl s); rest = drop (length host + 1) s
      in if rest = '''' then Inl (errors_new ''missing ']' in address'')
         else if tl rest = '''' then Inl missing_port
         else if length before \<noteq> length host + 2 then
           Inl (if hd (tl rest) = CHR '':'' then too_many_colons else missing_port)
         else if CHR ''['' \<in> set (tl s) then Inl (errors_new ''unexpected '[' in address'')
         else if CHR '']'' \<in> set (tl rest) then Inl (errors_new ''unexpected ']' in address'')
         else Inr (host, port))"

definition SplitHostPort :: "string \<Rightarrow> (string \<times> string) result" where
  "SplitHostPort s =
     (case last_colon s of
        None \<Rightarrow> Inl missing_port
      | Some (before, port) \<Rightarrow>
          if hd s = CHR ''['' then split_bracketed s before port
          else if CHR '':'' \<in> set before then Inl too_many_colons
          else if CHR ''['' \<in> set s then Inl (errors_new ''unexpected '[' in address'')
          else if CHR '']'' \<in> set s then Inl (errors_new ''unexpected ']' in address'')
          else Inr (before, port))"

definition JoinHostPort :: "string \<Rightarrow> string \<Rightarrow> string" where
  "JoinHostPort host port = (if CHR '':'' \<in> set host then ''['' @ host @ '']:'' @ port else host @ '':'' @ port)"

text \<open>An address as the resolver gives it, in its printed form; what it resolves and which texts are addresses.\<close>

datatype ip = V4 string | V6 string

fun ip_String :: "ip \<Rightarrow> string" where
  "ip_String (V4 s) = s"
| "ip_String (V6 s) = s"

record resolver =
  rs_is_ip :: "string \<Rightarrow> bool"
  rs_lookup :: "string \<Rightarrow> ip list result"

definition pick_ip :: "ip list \<Rightarrow> string" where
  "pick_ip ips =
     (case List.find (\<lambda>i. case i of V4 _ \<Rightarrow> True | V6 _ \<Rightarrow> False) ips of
        Some i \<Rightarrow> ip_String i
      | None \<Rightarrow> (case ips of [] \<Rightarrow> '''' | i # _ \<Rightarrow> ip_String i))"

definition resolve_one :: "resolver \<Rightarrow> string \<Rightarrow> string result" where
  "resolve_one r addr =
     (if HasPrefix addr ''http://'' \<or> HasPrefix addr ''https://'' then Inr addr
      else case SplitHostPort addr of
        Inl e \<Rightarrow> Inl (wrap_err (''rocketmq: name server '' @ go_quote addr @ '': '') e)
      | Inr (host, port) \<Rightarrow>
          if rs_is_ip r host then Inr addr
          else case rs_lookup r host of
            Inl e \<Rightarrow> Inl (wrap_err (''rocketmq: resolve name server '' @ go_quote addr @ '': '') e)
          | Inr ips \<Rightarrow>
              if pick_ip ips = '''' then
                Inl (errors_new (''rocketmq: name server '' @ go_quote addr @ '' resolved to no address''))
              else Inr (JoinHostPort (pick_ip ips) port))"

fun resolve_all :: "resolver \<Rightarrow> string list \<Rightarrow> string list result" where
  "resolve_all r [] = Inr []"
| "resolve_all r (a # as) =
     (if TrimSpace a = '''' then resolve_all r as
      else case resolve_one r (TrimSpace a) of
        Inl e \<Rightarrow> Inl e
      | Inr s \<Rightarrow> (case resolve_all r as of Inl e \<Rightarrow> Inl e | Inr ss \<Rightarrow> Inr (s # ss)))"

definition no_name_server :: go_error where
  "no_name_server = errors_new ''rocketmq: notify.rocketmq.name_server is empty''"

definition resolveNameServers :: "resolver \<Rightarrow> string list \<Rightarrow> string list result" where
  "resolveNameServers r addrs =
     (if addrs = [] then Inl no_name_server
      else case resolve_all r addrs of
        Inl e \<Rightarrow> Inl e
      | Inr out \<Rightarrow> if out = [] then Inl no_name_server else Inr out)"

record mq_config =
  mq_name_servers :: "string list"
  mq_group :: string
  mq_topic :: string

record mq_message =
  mm_topic :: string
  mm_body :: string
  mm_keys :: "string list"
  mm_tag :: string

text \<open>The client: making a producer out of name servers and a group, starting it, sending one message.\<close>

record 'p mq_client =
  ml_new :: "string list \<Rightarrow> string \<Rightarrow> 'p result"
  ml_start :: "'p \<Rightarrow> go_error option"
  ml_send :: "'p \<Rightarrow> mq_message \<Rightarrow> go_error option"

definition mq_event :: "string \<Rightarrow> notify_outbox \<Rightarrow> mq_message" where
  "mq_event topic ev =
     \<lparr>mm_topic = topic, mm_body = json_Marshal (ob_payload ev), mm_keys = [ob_event_id ev], mm_tag = ob_event_type ev\<rparr>"

definition NewRocketMQPublisher :: "'p mq_client \<Rightarrow> resolver \<Rightarrow> mq_config \<Rightarrow> channel result" where
  "NewRocketMQPublisher l r cfg =
     (case resolveNameServers r (mq_name_servers cfg) of
        Inl e \<Rightarrow> Inl e
      | Inr servers \<Rightarrow>
          case ml_new l servers (mq_group cfg) of
            Inl e \<Rightarrow> Inl (wrap_err ''rocketmq: new producer: '' e)
          | Inr p \<Rightarrow>
              case ml_start l p of
                Some e \<Rightarrow> Inl (wrap_err ''rocketmq: start producer: '' e)
              | None \<Rightarrow> Inr \<lparr>ch_name = ''rocketmq'', ch_publish = (\<lambda>ev. ml_send l p (mq_event (mq_topic cfg) ev))\<rparr>)"

text \<open>The channels of the api process: the merchant callback, and the queue if it is switched on.\<close>

definition api_channels :: "channel \<Rightarrow> bool \<Rightarrow> channel result \<Rightarrow> channel list result" where
  "api_channels merchant enabled mq =
     (if \<not> enabled then Inr [merchant] else case mq of Inl e \<Rightarrow> Inl e | Inr c \<Rightarrow> Inr [merchant, c])"

text \<open>What the client gets is a discovery URL or a host and a port, the host an address, never a name.\<close>

definition numeric_server :: "resolver \<Rightarrow> string \<Rightarrow> bool" where
  "numeric_server r s \<longleftrightarrow>
     HasPrefix s ''http://'' \<or> HasPrefix s ''https://'' \<or>
     (\<exists>host port. SplitHostPort s = Inr (host, port) \<and> rs_is_ip r host) \<or>
     (\<exists>name ips i port. rs_lookup r name = Inr ips \<and> i \<in> set ips \<and> s = JoinHostPort (ip_String i) port)"

lemma pick_ip_in: "pick_ip ips \<noteq> '''' \<Longrightarrow> \<exists>i \<in> set ips. pick_ip ips = ip_String i"
  by (cases ips) (auto simp: pick_ip_def find_Some_iff split: option.splits dest: nth_mem)

lemma resolve_one_numeric: "resolve_one r a = Inr s \<Longrightarrow> numeric_server r s"
  using pick_ip_in
  by (fastforce simp: resolve_one_def numeric_server_def split: if_splits sum.splits prod.splits)

lemma resolve_all_numeric: "resolve_all r as = Inr out \<Longrightarrow> list_all (numeric_server r) out"
  by (induction as arbitrary: out) (auto split: if_splits sum.splits dest: resolve_one_numeric)

lemma resolveNameServers_numeric:
  "resolveNameServers r addrs = Inr out \<Longrightarrow> out \<noteq> [] \<and> list_all (numeric_server r) out"
  by (auto simp: resolveNameServers_def split: if_splits sum.splits dest: resolve_all_numeric)

text \<open>What is sent through the queue carries the id of its event as the one key the consumer can deduplicate by.\<close>

lemma mq_publishes:
  "NewRocketMQPublisher l r cfg = Inr c \<Longrightarrow>
    \<exists>p. \<forall>ev. ch_publish c ev = ml_send l p (mq_event (mq_topic cfg) ev) \<and> mm_keys (mq_event (mq_topic cfg) ev) = [ob_event_id ev]"
  by (auto simp: NewRocketMQPublisher_def mq_event_def split: sum.splits option.splits)

section \<open>Statistics of the filter\<close>

definition bloom_Bits :: "bloom_filter \<Rightarrow> 64 word" where
  "bloom_Bits f = bf_m f"

definition bloom_Hashes :: "bloom_filter \<Rightarrow> 64 word" where
  "bloom_Hashes f = bf_k f"

text \<open>\<open>Exp\<close> and \<open>raise\<close> are those of \<open>math\<close>; the products and the difference are rounded as the code has them.\<close>

definition FalsePositiveRate :: "(float64 \<Rightarrow> float64) \<Rightarrow> (float64 \<Rightarrow> float64 \<Rightarrow> float64) \<Rightarrow> bloom_filter option \<Rightarrow> float64" where
  "FalsePositiveRate Exp raise fo =
     (case fo of
        None \<Rightarrow> 1
      | Some f \<Rightarrow>
          let n = float_of_int (uint (bf_count f)); k = float_of_int (uint (bf_k f));
              e = fl64 (fl64 (- k * n) / float_of_int (uint (bf_m f)))
          in raise (fl64 (1 - Exp e)) k)"

section \<open>Texts cut for the database\<close>

text \<open>
  The error of a failed delivery is cut at a byte before it is stored, and so may stop being UTF-8 inside a
  character; the update that carries it also carries the count of attempts and the next retry.
\<close>

lemma ValidString_ascii_append: "list_all (\<lambda>c. code c < 0x80) a \<Longrightarrow> ValidString (a @ t) = ValidString t"
  by (induction a) (auto simp: ValidString_code bad_rune_def RuneError_def)

lemma last_error_broken:
  fixes c :: channel
  defines "e \<equiv> replicate 235 (CHR ''x'') @ [CHR 0xC3, CHR 0xA9]"
  assumes "ch_name c = ''mq''" and "ch_publish c ev = Some (errors_new e)"
  shows "publish_all [c] ev = Some (''mq: '' @ e) \<and> ValidString (''mq: '' @ e)
    \<and> \<not> ValidString (truncate_str (''mq: '' @ e) 240)"
proof -
  let ?a = "''mq: '' @ replicate 235 (CHR ''x'')"
  have a: "list_all (\<lambda>c. code c < 0x80) ?a" by (simp add: code_def list_all_iff)
  have c: "code (CHR 0xC3) = 0xC3" "code (CHR 0xA9) = 0xA9" by (simp_all add: code_def)
  have "ValidString [CHR 0xC3, CHR 0xA9]" "\<not> ValidString [CHR 0xC3]"
    by (simp_all add: ValidString_code bad_rune_def c rune_start_def rune_value_def continues_def RuneError_def)
  then have "ValidString (?a @ [CHR 0xC3, CHR 0xA9])" "\<not> ValidString (?a @ [CHR 0xC3])"
    by (simp_all only: ValidString_ascii_append [OF a] not_False_eq_True)
  moreover have "''mq: '' @ e = ?a @ [CHR 0xC3, CHR 0xA9]" by (simp add: e_def)
  moreover have "truncate_str (?a @ [CHR 0xC3, CHR 0xA9]) 240 = ?a @ [CHR 0xC3]"
    by (simp add: truncate_str_def)
  moreover have "publish_all [c] ev = Some (''mq: '' @ e)"
    using assms(2,3) by (simp add: publish_all_def wrap_err_def)
  ultimately show ?thesis by simp
qed

text \<open>Instances.\<close>

theorem preflight_tells_witness:
  "filter address_warning (preflight withdraw_sample_env (DeriveAddress sample_crypto ()) []) \<noteq> []
   \<and> isl (snd (Sign (sample_service sample_policy) ''w'' (sample_transfer\<lparr>sr_address := sample_address 1\<rparr>) empty_world))"
proof -
  let ?hot = "\<lparr>sys_address = sample_address 1, sys_path = ''m/0''\<rparr>" and ?s = "sample_service sample_policy"
    and ?req = "sample_transfer\<lparr>sr_address := sample_address 1\<rparr>"
  have hot: "?hot = wc_hot_wallet (cf_wallet (we_cfg withdraw_sample_env))" by (simp add: withdraw_sample_env_def)
  have svc: "sv_crypto ?s = sample_crypto" "sv_master ?s = ()" by (simp_all add: sample_service_def)
  have req: "sr_path ?req = sys_path ?hot" "sr_address ?req = sys_address ?hot" by (simp_all add: sample_transfer_def)
  have ne: "sys_address ?hot \<noteq> ''''" "sys_path ?hot \<noteq> ''''" by simp_all
  have "DeriveAddress sample_crypto () (sys_path ?hot) \<noteq> Inr (sys_address ?hot)"
    "\<not> isl (DeriveAddress sample_crypto () (sys_path ?hot))" by (simp_all add: sample_derive)
  then show ?thesis
    using preflight_tells [OF ne hot req, of "DeriveAddress sample_crypto ()" ?s "[]" "''w''" empty_world] unfolding svc
    by blast
qed

end
