(* ===== verification/Spec2Isabelle.thy ===== *)
theory Spec2Isabelle
  imports TronWire Bloom Gateway Providers Remote Router Log Durations Processes Startup
begin

text \<open>
  A wallet for TRC20 tokens on TRON, as the Go program under \<open>src/\<close> implements it: five processes
  (\<open>cmd/api\<close>, \<open>cmd/scanner\<close>, \<open>cmd/withdraw\<close>, \<open>cmd/sweep\<close>, \<open>cmd/sign\<close>) over one
  database. The api gives every account of a merchant a deposit address and takes withdrawal orders;
  the scanner turns Transfer logs into deposit records, confirms them and rolls them back at a
  reorganisation; the withdrawal worker prepares, has signed, sends and settles orders; the sweeper
  moves deposits into the finance wallet; energy for both is rented or paid for by burning TRX; only
  the signing service holds keys; every outcome leaves through the outbox.

  \<^bold>\<open>State.\<close> What the processes share is one record, \<open>world\<close> (\<open>Store\<close>): the tables of
  \<open>internal/model\<close> as lists of rows in id order, the redis keys, the quote cache, the energy pool, and
  as history every transaction handed to a node (\<open>broadcasts\<close>) and every rental order placed
  (\<open>placed\<close>). A handler is a function from its environment, its arguments and the world to the new
  world and a result; a Go error is the left side of a sum, with the sentinel \<open>errors.Is\<close> looks for. A
  handler works on a copy of its row that may be stale, and its update says, as the SQL does, which rows
  it hits. A database transaction happens as a whole or not at all.

  \<^bold>\<open>Theories and sources.\<close>
  \<^item> \<open>Prelude\<close>, \<open>Text\<close>, \<open>Float64\<close>, \<open>Sha256\<close>: errors, \<open>int64\<close>, tables and their
    statements, the contract of a table whose rows only move forward (locale \<open>forward_table\<close>); what the
    code uses of \<open>strings\<close>, \<open>strconv\<close>, \<open>math/big\<close>, \<open>encoding/hex\<close>, binary64 and SHA-256.
  \<^item> \<open>Model\<close>: \<open>internal/model\<close>, a record per row, a datatype per life cycle ordered by progress.
  \<^item> \<open>Tron\<close>, \<open>TronWire\<close>: \<open>internal/tron\<close>, base58check, calldata, transaction ids, the protobuf
    framing, with a reader written independently of the writers.
  \<^item> \<open>Chain\<close>, \<open>Gateway\<close>: \<open>internal/chain\<close>. \<open>Chain\<close> has the typed calls and the
    classification of failures over the answer of a node (\<open>node_api\<close>); \<open>Gateway\<close> the failover loop, the
    token bucket and the cooling of throttled nodes underneath, with the clock as part of the state.
  \<^item> \<open>Config\<close>, \<open>Environment\<close>: \<open>internal/config\<close>, settings, defaults, validation; the .env file,
    the references to environment variables, the check of the sections, \<open>Load\<close>.
  \<^item> \<open>Store\<close>: \<open>internal/store\<close>, locks, address allocation, the outbox writer (locale \<open>event_sink\<close>).
  \<^item> \<open>Energy\<close>, \<open>Pricing\<close>, \<open>Topup\<close>, \<open>Providers\<close>: \<open>internal/energy\<close>. What the manager needs
    of a platform is the locale \<open>energy_provider\<close>, interpreted for burning, for GasStation and for
    tronenergyrent; \<open>Build\<close> is proved to give it only such providers.
  \<^item> \<open>Signer\<close>, \<open>Remote\<close>: \<open>internal/hd\<close> and \<open>internal/signer\<close>, derivation, policy, signing, and
    the HTTP service with its client; \<open>Remote\<close> also has the push of new addresses into the scanner's filter
    (\<open>internal/bloom/http.go\<close>). What workers need of a signer is the locale \<open>signing\<close>.
  \<^item> \<open>Withdraw\<close>, \<open>WithdrawSafety\<close>, \<open>WithdrawProps\<close>: \<open>internal/withdraw\<close>; the handlers, the
    transition system of any number of workers on stale rows, and what it keeps.
  \<^item> \<open>Bloom\<close>: \<open>internal/bloom\<close>, the filter and its registry (locale \<open>addr_filter\<close>).
  \<^item> \<open>Scanner\<close>, \<open>ScannerProps\<close>, \<open>DepositSafety\<close>: \<open>internal/scanner\<close>; the last follows deposits
    over any run of scanning, confirming and rolling back.
  \<^item> \<open>Sweep\<close>, \<open>SweepSafety\<close>, \<open>SweepProps\<close>: \<open>internal/sweep\<close>, likewise.
  \<^item> \<open>Merchant\<close>, \<open>Outbox\<close>: \<open>internal/merchant\<close> and \<open>internal/outbox\<close>.
  \<^item> \<open>Api\<close>, \<open>ApiProps\<close>, \<open>Router\<close>: \<open>internal/api\<close>, every handler, then the routes with what stands
    before them; the unique keys of a table are the locale \<open>unique_table\<close>, interpreted for wallets and orders.
  \<^item> \<open>Frames\<close>, \<open>System\<close>, \<open>Processes\<close>: how the parts share one world. \<open>Frames\<close> says of every handler
    which tables it leaves alone; \<open>System\<close> puts the steps of all of them into one transition system and
    simulates it by the withdrawal, the deposit and the sweep system; \<open>Processes\<close> has the \<open>Run\<close> loops and
    what each \<open>cmd/*/main.go\<close> starts, a loop being a function of the list of rounds it gets to do.
  \<^item> \<open>Durations\<close>, \<open>Log\<close>, \<open>Startup\<close>: \<open>config.Duration\<close> over \<open>time.ParseDuration\<close>; \<open>internal/logx\<close>,
    the formatter, the slog bridge, the daily files and where the log goes; \<open>internal/bootstrap\<close>, the
    opening of the store, the checks the worker and the signer make at their start, the TLS settings, the
    intervals of the loops and the RocketMQ channel (\<open>internal/outbox/rocketmq.go\<close>).

  \<^bold>\<open>What is shown.\<close> Safety of the money paths as invariants of transition systems whose steps are the
  handlers in any order and on any earlier copy of a row: one transaction per withdrawal, one outcome per
  order, one credit per confirmed deposit, one sweep in flight per address and token, no event lost under
  any number of dispatchers and none undone under one. These are then put together: the whole wallet,
  with every process running, refines each of the systems, and so does any interleaving of the rounds of
  the processes; in every state it reaches, what left for the nodes and what was announced is accounted
  for by orders, sweeps, top-ups and deposits.
  What is checked before anything is signed, by the workers and again by the signer, under every failing
  statement, and how its energy was paid for: \<open>energy_rented\<close> says of a rental, in terms of the platform and
  the chain, what the withdrawal, the sweep and the manager promise of it. The scanner's cursor only
  passes recorded blocks, except that a process restarts, on its first tick, a cursor that cannot belong
  to the chain of its node just below the head. What counts as a deposit is stated over the configuration
  (\<open>qualifies\<close>), apart from the scanner that decides it. Accepting an order refines a step of the
  withdrawal system, and the signer over HTTP refines the signer. Exactness of amounts, deposits, addresses
  and texts against independent readers. What a request to the api must carry, and that it is served once. The
  log: one line of text per record, one file per day, under every failure of the disk. Bounds of the sweep threshold, of halting, of delivery attempts
  and of what a node call can end in. Where the code falls short of what it means to do, a lemma
  states the shortfall on a concrete run, and the manifest names it.

  \<^bold>\<open>Parameters.\<close> Code that is not in the repository is an argument: Keccak-256, secp256k1, BIP32,
  BIP39 and AES blocks; the JSON and yaml decoders; the TLS library, the name resolver and the RocketMQ client; the file system's
  failures; what a node, a platform or any HTTP peer answers; \<open>math.Log\<close>;
  uuids and the clock. Which statement fails is an input of every handler, so error paths are branches
  like any other. Hypotheses on parameters are few and stated where they are used: the block cipher
  inverts, one encoded request reads back, the filter's sizing stays below \<open>2^63\<close> bits, the platforms
  quote what they are asked for and the cached quotes are theirs.

  \<^bold>\<open>Loops and bounds.\<close> Loops over rows, blocks and pages recurse on the list or on a measure proved to
  fall; the gateway's waiting loop ends because it only waits within a budget and time passes. Two
  functions take fuel: the search for a price in a JSON value, with its depth (proved enough), and the
  shortest decimal of a float, with 1075 digits, which every binary64 has room in. Polling a rental is
  given the finite list of rounds before its deadline, and so are the \<open>Run\<close> loops, which end only with
  their process.

  \<^bold>\<open>Not modelled.\<close> What handlers log while they work (what the log does with a line is); logrus, gin, gorm
  and the RocketMQ client themselves; the viper loader \<open>Load1\<close>, which nothing calls; signals and the
  shutdown of the listeners; the expiry of redis keys; texts beyond ASCII where
  Go classifies characters (case, white space); infinities and NaN. Concurrency is interleaving of
  handlers, with the locks the code takes.
\<close>

end
